(* ===== verification/JsNumber.thy ===== *)
theory JsNumber imports Prelude begin

text \<open>
  The JavaScript number type: IEEE 754 binary64 values and the operations on them that the
  backend uses (addition, subtraction, multiplication, division, comparison, \<open>parseFloat\<close>,
  \<open>parseInt\<close>, \<open>toFixed\<close>). A finite double is its exact rational value, so an
  operation is the exact rational operation followed by one rounding to nearest, ties to
  even. Negative zero is identified with zero: no operation modelled here can tell them
  apart.
\<close>

section \<open>Rounding to an integer, ties to even\<close>

definition rne :: "rat \<Rightarrow> int" where
  "rne x = (let f = \<lfloor>x\<rfloor>; d = x - of_int f
     in if d < 1/2 then f else if 1/2 < d then f + 1 else if even f then f else f + 1)"

lemma rne_of_int [simp]: "rne (of_int n) = n"
  by (simp add: rne_def Let_def)

lemma rne_near: "\<bar>of_int (rne x) - x\<bar> \<le> 1/2"
proof -
  have lo: "of_int \<lfloor>x\<rfloor> \<le> x" and hi: "x < of_int \<lfloor>x\<rfloor> + 1"
    by linarith+
  have "rne x = \<lfloor>x\<rfloor> \<and> x - of_int \<lfloor>x\<rfloor> \<le> 1/2 \<or> rne x = \<lfloor>x\<rfloor> + 1 \<and> 1/2 \<le> x - of_int \<lfloor>x\<rfloor>"
    by (simp add: rne_def Let_def)
  with lo hi show ?thesis by (auto simp only: of_int_add of_int_1)
qed

lemma rne_mono:
  assumes "x \<le> y"
  shows "rne x \<le> rne y"
proof (rule ccontr)
  assume "\<not> rne x \<le> rne y"
  then have "rne y + 1 \<le> rne x" by simp
  then have "of_int (rne y + 1) \<le> (of_int (rne x) :: rat)" by (simp only: of_int_le_iff)
  then have 1: "of_int (rne y) + 1 \<le> (of_int (rne x) :: rat)" by simp
  from rne_near [of x] rne_near [of y]
  have "of_int (rne x) - 1/2 \<le> x" and "y \<le> of_int (rne y) + 1/2"
    by linarith+
  with assms 1 have "x = y" by linarith
  with \<open>\<not> rne x \<le> rne y\<close> show False by simp
qed

lemma rne_le_int: "x \<le> of_int n \<Longrightarrow> rne x \<le> n"
  using rne_mono [of x "of_int n"] by simp

lemma rne_ge_int: "of_int n \<le> x \<Longrightarrow> n \<le> rne x"
  using rne_mono [of "of_int n" x] by simp

section \<open>The binary exponent of a positive rational\<close>

fun bit_count :: "nat \<Rightarrow> nat" where
  "bit_count n = (if n = 0 then 0 else Suc (bit_count (n div 2)))"

declare bit_count.simps [simp del]

lemma bit_count_bounds:
  "0 < n \<Longrightarrow> 0 < bit_count n \<and> 2 ^ (bit_count n - 1) \<le> n \<and> n < 2 ^ bit_count n"
proof (induction n rule: bit_count.induct)
  case (1 n)
  show ?case
  proof (cases "n div 2 = 0")
    case True
    with "1.prems" have "n = 1" by simp
    moreover have "bit_count 1 = 1" by (simp add: bit_count.simps)
    ultimately show ?thesis by simp
  next
    case False
    with 1 have IH: "0 < bit_count (n div 2)" "2 ^ (bit_count (n div 2) - 1) \<le> n div 2"
      "n div 2 < 2 ^ bit_count (n div 2)" by auto
    from "1.prems" have eq: "bit_count n = Suc (bit_count (n div 2))"
      by (subst bit_count.simps) simp
    from IH(1) have "(2::nat) ^ bit_count (n div 2) = 2 * 2 ^ (bit_count (n div 2) - 1)"
      by (metis One_nat_def Suc_pred power_Suc)
    with IH have "2 ^ bit_count (n div 2) \<le> n" "n < 2 * 2 ^ bit_count (n div 2)" by linarith+
    with eq show ?thesis by simp
  qed
qed

definition ilog2 :: "rat \<Rightarrow> int" where
  "ilog2 x = (let (p, q) = quotient_of x;
                k = int (bit_count (nat p)) - int (bit_count (nat q))
              in if 2 powi k \<le> x then k else k - 1)"

lemma powi_mono: "a \<le> b \<Longrightarrow> (2::rat) powi a \<le> 2 powi b"
  by (simp add: power_int_increasing)

lemma powi_pos [simp]: "0 < (2::rat) powi a"
  by (simp add: zero_less_power_int)

lemma powi_add: "(2::rat) powi (a + b) = 2 powi a * 2 powi b"
  by (simp add: power_int_add)

lemma powi_nat: "(2::rat) powi (int n) = 2 ^ n"
  by simp

lemma powi_diff_int:
  assumes "a \<le> b"
  shows "(2::rat) powi b = of_int (2 ^ nat (b - a)) * 2 powi a"
proof -
  have "(2::rat) powi b = 2 powi (int (nat (b - a)) + a)" using assms by simp
  then show ?thesis by (simp only: powi_add powi_nat) simp
qed

lemma ilog2_bounds:
  assumes "0 < x"
  shows "2 powi ilog2 x \<le> x" and "x < 2 powi (ilog2 x + 1)"
proof -
  obtain p q where pq: "quotient_of x = (p, q)" by (cases "quotient_of x") auto
  then have q: "0 < q" and x: "x = of_int p / of_int q"
    by (auto simp: quotient_of_denom_pos quotient_of_div)
  with assms have p: "0 < p" by (simp add: zero_less_divide_iff)
  define a b where "a = int (bit_count (nat p))" and "b = int (bit_count (nat q))"
  have bounds: "2 powi (int (bit_count (nat n)) - 1) \<le> (of_int n :: rat) \<and>
      (of_int n :: rat) < 2 powi int (bit_count (nat n))" if n: "0 < n" for n
  proof -
    from n have "0 < nat n" by simp
    note bc = bit_count_bounds [OF this]
    from bc have i: "int (bit_count (nat n)) - 1 = int (bit_count (nat n) - 1)" by simp
    from bc have "(of_nat (2 ^ (bit_count (nat n) - 1)) :: rat) \<le> of_nat (nat n)"
      and "(of_nat (nat n) :: rat) < of_nat (2 ^ bit_count (nat n))"
      by (simp_all only: of_nat_le_iff of_nat_less_iff)
    with n show ?thesis unfolding i powi_nat by simp
  qed
  from bounds [OF p] have p1: "2 powi (a - 1) \<le> (of_int p :: rat)" and p2: "(of_int p :: rat) < 2 powi a"
    by (simp_all add: a_def)
  from bounds [OF q] have q1: "2 powi (b - 1) \<le> (of_int q :: rat)" and q2: "(of_int q :: rat) < 2 powi b"
    by (simp_all add: b_def)
  have "2 powi (a - b - 1) * (of_int q :: rat) \<le> 2 powi (a - b - 1) * 2 powi b"
    using q2 by (intro mult_left_mono) auto
  also have "\<dots> = 2 powi (a - 1)" by (simp flip: powi_add)
  also note p1
  finally have lo: "2 powi (a - b - 1) \<le> x" using q by (simp add: x field_simps)
  have "(of_int p :: rat) < 2 powi a" by (fact p2)
  also have "\<dots> = 2 powi (a - b + 1) * 2 powi (b - 1)" by (simp flip: powi_add)
  also have "\<dots> \<le> 2 powi (a - b + 1) * of_int q" using q1 by (intro mult_left_mono) auto
  finally have hi: "x < 2 powi (a - b + 1)" using q by (simp add: x field_simps)
  have il: "ilog2 x = (if 2 powi (a - b) \<le> x then a - b else a - b - 1)"
    by (simp add: ilog2_def pq a_def b_def)
  show "2 powi ilog2 x \<le> x" using lo by (simp add: il)
  show "x < 2 powi (ilog2 x + 1)" using hi by (auto simp: il)
qed

lemma ilog2_mono:
  assumes "0 < x" "x \<le> y"
  shows "ilog2 x \<le> ilog2 y"
proof (rule ccontr)
  assume "\<not> ilog2 x \<le> ilog2 y"
  then have "(2::rat) powi (ilog2 y + 1) \<le> 2 powi ilog2 x" by (intro powi_mono) simp
  with ilog2_bounds [of x] ilog2_bounds [of y] assms show False by linarith
qed

lemma ilog2_less:
  assumes "0 < x" "x < 2 powi k"
  shows "ilog2 x < k"
proof (rule ccontr)
  assume "\<not> ilog2 x < k"
  then have "(2::rat) powi k \<le> 2 powi ilog2 x" by (intro powi_mono) simp
  with ilog2_bounds(1) [of x] assms show False by linarith
qed

section \<open>Rounding to a double\<close>

text \<open>The exponent of the last place: 52 binary digits below the leading one, bounded below
  by the subnormal range.\<close>

definition dexp :: "rat \<Rightarrow> int" where
  "dexp x = max (ilog2 x - 52) (- 1074)"

definition round_mag :: "rat \<Rightarrow> rat" where
  "round_mag x = of_int (rne (x / 2 powi dexp x)) * 2 powi dexp x"

lemma round_to_le:
  assumes "x \<le> 2 powi k" "d \<le> k"
  shows "of_int (rne (x / 2 powi d)) * 2 powi d \<le> (2::rat) powi k"
proof -
  from assms(1) have "x / 2 powi d \<le> of_int (2 ^ nat (k - d))"
    by (simp only: powi_diff_int [OF assms(2)] pos_divide_le_eq [OF powi_pos])
  then have "rne (x / 2 powi d) \<le> 2 ^ nat (k - d)" by (rule rne_le_int)
  then have "of_int (rne (x / 2 powi d)) * (2::rat) powi d \<le> of_int (2 ^ nat (k - d)) * 2 powi d"
    by (intro mult_right_mono) (simp_all only: of_int_le_iff powi_pos [THEN less_imp_le])
  then show ?thesis by (simp only: powi_diff_int [OF assms(2)])
qed

lemma round_to_ge:
  assumes "2 powi k \<le> x" "d \<le> k"
  shows "(2::rat) powi k \<le> of_int (rne (x / 2 powi d)) * 2 powi d"
proof -
  from assms(1) have "of_int (2 ^ nat (k - d)) \<le> x / 2 powi d"
    by (simp only: powi_diff_int [OF assms(2)] pos_le_divide_eq [OF powi_pos])
  then have "2 ^ nat (k - d) \<le> rne (x / 2 powi d)" by (rule rne_ge_int)
  then have "of_int (2 ^ nat (k - d)) * 2 powi d \<le> of_int (rne (x / 2 powi d)) * (2::rat) powi d"
    by (intro mult_right_mono) (simp_all only: of_int_le_iff powi_pos [THEN less_imp_le])
  then show ?thesis by (simp only: powi_diff_int [OF assms(2)])
qed

lemma round_mag_mono:
  assumes "0 < x" "x \<le> y"
  shows "round_mag x \<le> round_mag y"
proof (cases "dexp x = dexp y")
  case True
  from assms have "x / 2 powi dexp x \<le> y / 2 powi dexp x" by (intro divide_right_mono) auto
  then have "rne (x / 2 powi dexp x) \<le> rne (y / 2 powi dexp x)" by (rule rne_mono)
  then show ?thesis unfolding round_mag_def True [symmetric]
    by (intro mult_right_mono) simp_all
next
  case False
  from ilog2_mono [OF assms] have le: "ilog2 x \<le> ilog2 y" .
  with False have lt: "ilog2 x < ilog2 y" and dy: "dexp y = ilog2 y - 52" and d: "dexp x \<le> ilog2 y"
    by (auto simp: dexp_def max_def split: if_splits)
  have "x \<le> 2 powi ilog2 y"
    using ilog2_bounds(2) [OF assms(1)] powi_mono [of "ilog2 x + 1" "ilog2 y"] lt by simp
  then have "round_mag x \<le> 2 powi ilog2 y" unfolding round_mag_def using d by (rule round_to_le)
  also have "2 powi ilog2 y \<le> round_mag y" unfolding round_mag_def
    using assms dy by (intro round_to_ge ilog2_bounds) auto
  finally show ?thesis .
qed

lemma round_mag_nonneg: "0 < x \<Longrightarrow> 0 \<le> round_mag x"
proof -
  assume "0 < x"
  then have "0 \<le> rne (x / 2 powi dexp x)" by (intro rne_ge_int) simp
  then show "0 \<le> round_mag x" by (simp add: round_mag_def)
qed

lemma round_mag_exact:
  assumes "x / 2 powi dexp x = of_int m"
  shows "round_mag x = x"
proof -
  have "(2::rat) powi dexp x \<noteq> 0" by simp
  with assms have "x = of_int m * 2 powi dexp x" by (simp add: field_simps)
  with assms show ?thesis by (simp add: round_mag_def)
qed

lemma round_mag_error:
  assumes "0 < x" "x < 2 powi k" "- 1021 \<le> k"
  shows "\<bar>round_mag x - x\<bar> \<le> 2 powi (k - 54)"
proof -
  let ?q = "(2::rat) powi dexp x"
  have "ilog2 x < k" using assms by (intro ilog2_less)
  with assms(3) have "dexp x \<le> k - 53" by (simp add: dexp_def)
  then have "?q \<le> 2 powi ((k - 54) + 1)" by (intro powi_mono) simp
  then have q: "?q \<le> 2 powi (k - 54) * 2" by (simp only: powi_add power_int_1_right)
  have "round_mag x - x = (of_int (rne (x / ?q)) - x / ?q) * ?q"
    by (simp add: round_mag_def algebra_simps)
  then have "\<bar>round_mag x - x\<bar> = \<bar>of_int (rne (x / ?q)) - x / ?q\<bar> * ?q"
    by (simp only: abs_mult) (simp add: less_imp_le)
  also have "\<dots> \<le> 1/2 * ?q" using rne_near by (intro mult_right_mono) auto
  also have "\<dots> \<le> 2 powi (k - 54)" using q by linarith
  finally show ?thesis .
qed

lemma round_mag_int:
  assumes "0 < n" "n \<le> 2 ^ 53"
  shows "round_mag (of_int n) = of_int n"
proof (cases "n = 2 ^ 53")
  case True
  then have n: "(of_int n :: rat) = 2 powi 53" by simp
  have lo: "ilog2 (of_int n) < 54" using assms True by (intro ilog2_less) simp_all
  have "(2::rat) powi 53 < 2 powi (ilog2 (of_int n) + 1)"
    using ilog2_bounds(2) [of "of_int n"] assms n by simp
  then have "53 < ilog2 (of_int n) + 1"
    using powi_mono [of "ilog2 (of_int n) + 1" 53] by linarith
  with lo have "ilog2 (of_int n) = 53" by linarith
  then have "dexp (of_int n) = 1" by (simp add: dexp_def)
  then show ?thesis using True by (intro round_mag_exact [where m = "2 ^ 52"]) simp
next
  case False
  with assms have "n < 2 ^ 53" by simp
  then have "(of_int n :: rat) < of_int (2 ^ 53)" by (simp only: of_int_less_iff)
  then have "(of_int n :: rat) < 2 powi 53" by simp
  then have "ilog2 (of_int n) < 53" using assms by (intro ilog2_less) auto
  then have d: "dexp (of_int n) \<le> 0" by (simp add: dexp_def)
  from powi_diff_int [OF d]
  have "of_int n / 2 powi dexp (of_int n) = (of_int (n * 2 ^ nat (- dexp (of_int n))) :: rat)"
    by (simp add: field_simps)
  then show ?thesis by (rule round_mag_exact)
qed

section \<open>The number type\<close>

datatype jsnum = JNaN | JInf bool | JFin rat

definition to_double :: "rat \<Rightarrow> jsnum" where
  "to_double x = (if x = 0 then JFin 0
     else let m = round_mag \<bar>x\<bar> in if 2 ^ 1024 \<le> m then JInf (0 < x) else JFin (sgn x * m))"

fun js_less :: "jsnum \<Rightarrow> jsnum \<Rightarrow> bool" where
  "js_less JNaN b = False"
| "js_less a JNaN = False"
| "js_less (JInf s) (JInf t) = (\<not> s \<and> t)"
| "js_less (JInf s) (JFin b) = (\<not> s)"
| "js_less (JFin a) (JInf t) = t"
| "js_less (JFin a) (JFin b) = (a < b)"

definition js_leq :: "jsnum \<Rightarrow> jsnum \<Rightarrow> bool" where
  "js_leq a b \<longleftrightarrow> a \<noteq> JNaN \<and> b \<noteq> JNaN \<and> \<not> js_less b a"

definition is_nan :: "jsnum \<Rightarrow> bool" where
  "is_nan a \<longleftrightarrow> a = JNaN"

fun js_neg :: "jsnum \<Rightarrow> jsnum" where
  "js_neg JNaN = JNaN"
| "js_neg (JInf s) = JInf (\<not> s)"
| "js_neg (JFin a) = JFin (- a)"

fun js_add :: "jsnum \<Rightarrow> jsnum \<Rightarrow> jsnum" where
  "js_add JNaN b = JNaN"
| "js_add a JNaN = JNaN"
| "js_add (JInf s) (JInf t) = (if s = t then JInf s else JNaN)"
| "js_add (JInf s) (JFin b) = JInf s"
| "js_add (JFin a) (JInf t) = JInf t"
| "js_add (JFin a) (JFin b) = to_double (a + b)"

definition js_sub :: "jsnum \<Rightarrow> jsnum \<Rightarrow> jsnum" where
  "js_sub a b = js_add a (js_neg b)"

fun js_mul :: "jsnum \<Rightarrow> jsnum \<Rightarrow> jsnum" where
  "js_mul JNaN b = JNaN"
| "js_mul a JNaN = JNaN"
| "js_mul (JInf s) (JInf t) = JInf (s = t)"
| "js_mul (JInf s) (JFin b) = (if b = 0 then JNaN else JInf (s = (0 < b)))"
| "js_mul (JFin a) (JInf t) = (if a = 0 then JNaN else JInf (t = (0 < a)))"
| "js_mul (JFin a) (JFin b) = to_double (a * b)"

text \<open>Division; the sign of a zero divisor is taken to be positive.\<close>

fun js_div :: "jsnum \<Rightarrow> jsnum \<Rightarrow> jsnum" where
  "js_div JNaN b = JNaN"
| "js_div a JNaN = JNaN"
| "js_div (JInf s) (JInf t) = JNaN"
| "js_div (JInf s) (JFin b) = JInf (s = (0 \<le> b))"
| "js_div (JFin a) (JInf t) = JFin 0"
| "js_div (JFin a) (JFin b) =
     (if b = 0 then (if a = 0 then JNaN else JInf (0 < a)) else to_double (a / b))"

text \<open>\<open>Math.max\<close> and \<open>Math.min\<close> of two numbers.\<close>

definition js_max :: "jsnum \<Rightarrow> jsnum \<Rightarrow> jsnum" where
  "js_max a b = (if is_nan a \<or> is_nan b then JNaN else if js_less a b then b else a)"

definition js_min :: "jsnum \<Rightarrow> jsnum \<Rightarrow> jsnum" where
  "js_min a b = (if is_nan a \<or> is_nan b then JNaN else if js_less b a then b else a)"

lemma to_double_zero [simp]: "to_double 0 = JFin 0"
  by (simp add: to_double_def)

lemma to_double_not_nan [simp]: "to_double x \<noteq> JNaN"
  by (simp add: to_double_def Let_def)

lemma to_double_int:
  assumes "\<bar>n\<bar> \<le> 2 ^ 53"
  shows "to_double (of_int n) = JFin (of_int n)"
proof (cases "n = 0")
  case False
  then have "0 < \<bar>n\<bar>" by simp
  from round_mag_int [OF this assms] have m: "round_mag \<bar>of_int n\<bar> = \<bar>of_int n :: rat\<bar>" by simp
  have "\<bar>n\<bar> < 2 ^ 1024" using assms by simp
  then have "of_int \<bar>n\<bar> < (of_int (2 ^ 1024) :: rat)" by (simp only: of_int_less_iff)
  then have "\<not> (2::rat) ^ 1024 \<le> \<bar>of_int n\<bar>" by simp
  with False m show ?thesis by (simp add: to_double_def Let_def sgn_mult_abs)
qed simp

lemma to_double_near:
  assumes "0 \<le> x" "x < 2 powi k" "- 1021 \<le> k" "k \<le> 1023"
  obtains m where "to_double x = JFin m" "0 \<le> m" "\<bar>m - x\<bar> \<le> 2 powi (k - 54)"
proof (cases "x = 0")
  case True
  show ?thesis by (rule that [of 0]) (simp_all add: True less_imp_le)
next
  case False
  with assms have x: "0 < x" by simp
  from x assms have "ilog2 x < k" by (intro ilog2_less)
  then have "dexp x \<le> k" using assms(3) by (simp add: dexp_def)
  with assms(2) have "round_mag x \<le> 2 powi k"
    unfolding round_mag_def by (intro round_to_le) simp_all
  also have "\<dots> \<le> 2 powi 1023" using assms(4) by (rule powi_mono)
  finally have "\<not> 2 ^ 1024 \<le> round_mag x" by simp
  with x have "to_double x = JFin (round_mag x)" by (simp add: to_double_def Let_def)
  then show ?thesis using round_mag_nonneg [OF x] round_mag_error [OF x assms(2,3)]
    by (rule that)
qed

lemma to_double_mono:
  assumes "0 \<le> x" "x \<le> y"
  shows "js_leq (to_double x) (to_double y)"
proof (cases "x = 0")
  case True
  with assms show ?thesis
    using round_mag_nonneg [of y] by (auto simp: to_double_def Let_def js_leq_def)
next
  case False
  with assms have "0 < x" by simp
  with round_mag_mono [OF this assms(2)] assms show ?thesis
    by (auto simp: to_double_def Let_def js_leq_def)
qed

lemma js_leq_trans_less: "js_leq a b \<Longrightarrow> js_less b c \<Longrightarrow> js_less a c"
  by (cases a; cases b; cases c) (auto simp: js_leq_def)

lemma js_leq_fin [simp]: "js_leq (JFin a) (JFin b) \<longleftrightarrow> a \<le> b"
  by (auto simp: js_leq_def)

section \<open>Parsing and printing numbers\<close>

definition is_sign :: "char \<Rightarrow> bool" where
  "is_sign c \<longleftrightarrow> c = CHR ''+'' \<or> c = CHR ''-''"

text \<open>The exponent part of a decimal literal, when one follows; its absence is exponent 0.\<close>

definition scan_exponent :: "string \<Rightarrow> int" where
  "scan_exponent s = (case s of [] \<Rightarrow> 0 | e # t \<Rightarrow>
     (if e = CHR ''e'' \<or> e = CHR ''E'' then
        (let body = (case t of [] \<Rightarrow> [] | c # u \<Rightarrow> if is_sign c then u else t);
             ds = takeWhile is_digit body
         in if ds = [] then 0
            else if t \<noteq> [] \<and> hd t = CHR ''-'' then - int (digits_val ds) else int (digits_val ds))
      else 0))"

text \<open>An unsigned decimal literal at the start of a string: its exact value, if there is one.\<close>

definition scan_decimal :: "string \<Rightarrow> rat option" where
  "scan_decimal s =
     (let ip = takeWhile is_digit s;
          r = dropWhile is_digit s;
          fp = (case r of [] \<Rightarrow> [] | c # t \<Rightarrow> if c = CHR ''.'' then takeWhile is_digit t else []);
          rest = (case r of [] \<Rightarrow> [] | c # t \<Rightarrow> if c = CHR ''.'' then dropWhile is_digit t else r)
      in if ip = [] \<and> fp = [] then None
         else Some (of_nat (digits_val (ip @ fp)) * 10 powi (scan_exponent rest - int (length fp))))"

text \<open>\<open>parseFloat(s)\<close>: leading white space, an optional sign, then the longest decimal
  literal; what follows it is ignored.\<close>

definition parse_float :: "string \<Rightarrow> jsnum" where
  "parse_float s =
     (let t = trim_left s;
          neg = (t \<noteq> [] \<and> hd t = CHR ''-'');
          body = (case t of [] \<Rightarrow> [] | c # u \<Rightarrow> if is_sign c then u else t)
      in if starts_with body ''Infinity'' then JInf (\<not> neg)
         else (case scan_decimal body of None \<Rightarrow> JNaN
               | Some v \<Rightarrow> to_double (if neg then - v else v)))"

text \<open>\<open>parseInt(s, 10)\<close>: None is NaN. The result is exact up to \<open>2 ^ 53\<close>.\<close>

definition parse_int :: "string \<Rightarrow> int option" where
  "parse_int s =
     (let t = trim_left s;
          neg = (t \<noteq> [] \<and> hd t = CHR ''-'');
          body = (case t of [] \<Rightarrow> [] | c # u \<Rightarrow> if is_sign c then u else t);
          ds = takeWhile is_digit body
      in if ds = [] then None
         else Some (if neg then - int (digits_val ds) else int (digits_val ds)))"

text \<open>\<open>x.toFixed(f)\<close> for a finite \<open>x\<close> below \<open>10 ^ 21\<close>: the nearest multiple of
  \<open>10 ^ -f\<close>, the larger one on a tie, with exactly \<open>f\<close> decimals.\<close>

definition pad_left :: "nat \<Rightarrow> string \<Rightarrow> string" where
  "pad_left n s = replicate (n - length s) (CHR ''0'') @ s"

definition fixed_digits :: "nat \<Rightarrow> nat \<Rightarrow> string" where
  "fixed_digits f n = nat_str (n div 10 ^ f) @ ''.'' @ pad_left f (nat_str (n mod 10 ^ f))"

definition to_fixed :: "nat \<Rightarrow> rat \<Rightarrow> string" where
  "to_fixed f x = (if x < 0 then CHR ''-'' # fixed_digits f (nat \<lfloor>- x * 10 ^ f + 1/2\<rfloor>)
                   else fixed_digits f (nat \<lfloor>x * 10 ^ f + 1/2\<rfloor>))"

lemma parse_float_decimal:
  assumes ds: "ip \<noteq> []" "\<forall>c \<in> set ip. is_digit c" "\<forall>c \<in> set fp. is_digit c"
  shows "parse_float (ip @ CHR ''.'' # fp) =
    to_double (of_nat (digits_val (ip @ fp)) / 10 ^ length fp)"
proof -
  obtain c cs where ip: "ip = c # cs" using ds(1) by (cases ip) auto
  with ds have c: "48 \<le> ccode c" "ccode c \<le> 57" by (auto simp: is_digit_def)
  have sp: "\<not> is_js_space c" using c by (auto simp: is_js_space_def)
  have ns: "\<not> is_sign c" using c by (auto simp: is_sign_def ccode_def)
  have inf: "c \<noteq> CHR ''I''" using c by (auto simp: ccode_def)
  have dot: "\<not> is_digit (CHR ''.'')" by (simp add: is_digit_def ccode_def)
  have tw: "takeWhile is_digit (ip @ CHR ''.'' # fp) = ip" and dw: "dropWhile is_digit (ip @ CHR ''.'' # fp) = CHR ''.'' # fp"
    using ds(2) dot by (simp_all add: takeWhile_append2 dropWhile_append2)
  have tf: "takeWhile is_digit fp = fp" and df: "dropWhile is_digit fp = []"
    using ds(3) by (simp_all add: takeWhile_eq_all_conv)
  have "scan_decimal (ip @ CHR ''.'' # fp) =
      Some (of_nat (digits_val (ip @ fp)) * 10 powi (- int (length fp)))"
    using ds(1) by (simp add: scan_decimal_def tw dw tf df scan_exponent_def Let_def)
  also have "\<dots> = Some (of_nat (digits_val (ip @ fp)) / 10 ^ length fp)"
    by (simp add: power_int_minus divide_inverse)
  finally have sd: "scan_decimal (ip @ CHR ''.'' # fp) = \<dots>" .
  have neg: "c \<noteq> CHR ''-''" using ns by (simp add: is_sign_def)
  show ?thesis using sp ns inf sd neg
    by (simp add: parse_float_def trim_left_def Let_def ip)
qed

lemma parse_float_integer:
  assumes ds: "ip \<noteq> []" "\<forall>c \<in> set ip. is_digit c"
  shows "parse_float ip = to_double (of_nat (digits_val ip))"
proof -
  obtain c cs where ip: "ip = c # cs" using ds(1) by (cases ip) auto
  with ds have c: "48 \<le> ccode c" "ccode c \<le> 57" by (auto simp: is_digit_def)
  have sp: "\<not> is_js_space c" using c by (auto simp: is_js_space_def)
  have ns: "\<not> is_sign c" using c by (auto simp: is_sign_def ccode_def)
  have inf: "c \<noteq> CHR ''I''" using c by (auto simp: ccode_def)
  have tw: "takeWhile is_digit ip = ip" and dw: "dropWhile is_digit ip = []"
    using ds(2) by (simp_all add: takeWhile_eq_all_conv)
  have sd: "scan_decimal ip = Some (of_nat (digits_val ip))"
    using ds(1) by (simp add: scan_decimal_def tw dw scan_exponent_def Let_def)
  have neg: "c \<noteq> CHR ''-''" using ns by (simp add: is_sign_def)
  show ?thesis using sp ns inf sd neg
    by (simp add: parse_float_def trim_left_def Let_def ip)
qed

lemma parse_float_nat_str [simp]: "parse_float (nat_str n) = to_double (of_nat n)"
  by (simp add: parse_float_integer nat_str_digits)

lemma parse_float_neg_nat_str:
  "parse_float (CHR ''-'' # nat_str n) = to_double (- of_nat n)"
proof -
  obtain c cs where ip: "nat_str n = c # cs" by (cases "nat_str n") auto
  then have "is_digit c" using nat_str_digits [of c n] by simp
  then have inf: "c \<noteq> CHR ''I''" by (auto simp: is_digit_def ccode_def)
  have tw: "takeWhile is_digit (nat_str n) = nat_str n" and dw: "dropWhile is_digit (nat_str n) = []"
    by (auto simp: takeWhile_eq_all_conv nat_str_digits)
  have sd: "scan_decimal (nat_str n) = Some (of_nat n)"
    by (simp add: scan_decimal_def tw dw scan_exponent_def Let_def)
  have "\<not> is_js_space (CHR ''-'')" "is_sign (CHR ''-'')"
    by (simp_all add: is_js_space_def is_sign_def ccode_def)
  with inf sd show ?thesis by (simp add: parse_float_def trim_left_def Let_def ip)
qed

text \<open>\<open>String(n)\<close>; how a finite number is printed is the parameter \<open>num\<close>.\<close>

definition num_text :: "(rat \<Rightarrow> string) \<Rightarrow> jsnum \<Rightarrow> string" where
  "num_text num n = (case n of JFin r \<Rightarrow> num r | JNaN \<Rightarrow> ''NaN''
     | JInf b \<Rightarrow> if b then ''Infinity'' else ''-Infinity'')"

end
