(* ===== verification/JsValue.thy ===== *)
theory JsValue imports JsNumber begin

text \<open>
  JavaScript values as the backend handles them when it does not know their type
  (\<open>unknown\<close> payloads, error causes, result data): primitives, arrays, and objects as
  association lists of own enumerable properties in insertion order. Functions and other
  values without enumerable content are \<open>JOpaque\<close>.
\<close>

datatype jsval =
    JUndef
  | JNull
  | JBool bool
  | JNum jsnum
  | JBig int
  | JStr string
  | JArr "jsval list"
  | JObj "(string \<times> jsval) list"
  | JOpaque

section \<open>Objects\<close>

definition obj_get :: "(string \<times> jsval) list \<Rightarrow> string \<Rightarrow> jsval" where
  "obj_get kvs k = (case map_of kvs k of None \<Rightarrow> JUndef | Some v \<Rightarrow> v)"

text \<open>\<open>o[k] = v\<close>: an existing property keeps its place, a new one goes last.\<close>

fun obj_set :: "(string \<times> jsval) list \<Rightarrow> string \<Rightarrow> jsval \<Rightarrow> (string \<times> jsval) list" where
  "obj_set [] k v = [(k, v)]"
| "obj_set ((k', v') # kvs) k v = (if k' = k then (k', v) # kvs else (k', v') # obj_set kvs k v)"

text \<open>\<open>v?.k\<close> on an unknown value: undefined unless the value is an object that has it.\<close>

definition field :: "jsval \<Rightarrow> string \<Rightarrow> jsval" where
  "field v k = (case v of JObj kvs \<Rightarrow> obj_get kvs k | _ \<Rightarrow> JUndef)"

text \<open>\<open>typeof v === 'string'\<close> and its value; \<open>a ?? b\<close>.\<close>

definition as_string :: "jsval \<Rightarrow> string option" where
  "as_string v = (case v of JStr s \<Rightarrow> Some s | _ \<Rightarrow> None)"

definition nullish :: "jsval \<Rightarrow> bool" where
  "nullish v \<longleftrightarrow> v = JUndef \<or> v = JNull"

definition coalesce :: "jsval \<Rightarrow> jsval \<Rightarrow> jsval" where
  "coalesce a b = (if nullish a then b else a)"

text \<open>Truthiness (\<open>if (v)\<close>, \<open>v || w\<close>).\<close>

fun truthy :: "jsval \<Rightarrow> bool" where
  "truthy JUndef = False"
| "truthy JNull = False"
| "truthy (JBool b) = b"
| "truthy (JNum n) = (n \<noteq> JNaN \<and> n \<noteq> JFin 0)"
| "truthy (JBig i) = (i \<noteq> 0)"
| "truthy (JStr s) = (s \<noteq> [])"
| "truthy (JArr vs) = True"
| "truthy (JObj kvs) = True"
| "truthy JOpaque = True"

lemma map_of_obj_set: "map_of (obj_set kvs k v) = (map_of kvs)(k \<mapsto> v)"
  by (induction kvs k v rule: obj_set.induct) auto

lemma obj_get_set_same [simp]: "obj_get (obj_set kvs k v) k = v"
  by (simp add: obj_get_def map_of_obj_set)

lemma obj_get_set_other [simp]: "k \<noteq> k' \<Longrightarrow> obj_get (obj_set kvs k v) k' = obj_get kvs k'"
  by (simp add: obj_get_def map_of_obj_set)

lemma set_obj_set: "p \<in> set (obj_set kvs k v) \<Longrightarrow> p = (k, v) \<or> p \<in> set kvs"
  by (induction kvs k v rule: obj_set.induct) (auto split: if_splits)

section \<open>Properties at every depth\<close>

text \<open>No object at any depth has a property whose name satisfies \<open>P\<close>.\<close>

fun no_key :: "(string \<Rightarrow> bool) \<Rightarrow> jsval \<Rightarrow> bool"
  and no_key_list :: "(string \<Rightarrow> bool) \<Rightarrow> jsval list \<Rightarrow> bool"
  and no_key_entries :: "(string \<Rightarrow> bool) \<Rightarrow> (string \<times> jsval) list \<Rightarrow> bool" where
  "no_key P (JArr vs) = no_key_list P vs"
| "no_key P (JObj kvs) = no_key_entries P kvs"
| "no_key P v = True"
| "no_key_list P [] = True"
| "no_key_list P (v # vs) = (no_key P v \<and> no_key_list P vs)"
| "no_key_entries P [] = True"
| "no_key_entries P ((k, v) # kvs) = (\<not> P k \<and> no_key P v \<and> no_key_entries P kvs)"

text \<open>Every string value at any depth satisfies \<open>P\<close> (property names apart).\<close>

fun all_strings :: "(string \<Rightarrow> bool) \<Rightarrow> jsval \<Rightarrow> bool"
  and all_strings_list :: "(string \<Rightarrow> bool) \<Rightarrow> jsval list \<Rightarrow> bool"
  and all_strings_entries :: "(string \<Rightarrow> bool) \<Rightarrow> (string \<times> jsval) list \<Rightarrow> bool" where
  "all_strings P (JStr s) = P s"
| "all_strings P (JArr vs) = all_strings_list P vs"
| "all_strings P (JObj kvs) = all_strings_entries P kvs"
| "all_strings P v = True"
| "all_strings_list P [] = True"
| "all_strings_list P (v # vs) = (all_strings P v \<and> all_strings_list P vs)"
| "all_strings_entries P [] = True"
| "all_strings_entries P ((k, v) # kvs) = (all_strings P v \<and> all_strings_entries P kvs)"

lemma no_key_entries_iff:
  "no_key_entries P kvs \<longleftrightarrow> (\<forall>(k, v) \<in> set kvs. \<not> P k \<and> no_key P v)"
  by (induction kvs) auto

lemma no_key_list_iff: "no_key_list P vs \<longleftrightarrow> (\<forall>v \<in> set vs. no_key P v)"
  by (induction vs) auto

lemma all_strings_list_iff: "all_strings_list P vs \<longleftrightarrow> (\<forall>v \<in> set vs. all_strings P v)"
  by (induction vs) auto

lemma all_strings_entries_iff:
  "all_strings_entries P kvs \<longleftrightarrow> (\<forall>(k, v) \<in> set kvs. all_strings P v)"
  by (induction kvs) auto

lemma no_key_entries_set:
  "no_key_entries P kvs \<Longrightarrow> \<not> P k \<Longrightarrow> no_key P v \<Longrightarrow> no_key_entries P (obj_set kvs k v)"
  by (auto simp: no_key_entries_iff dest!: set_obj_set)

text \<open>The values that count as false.\<close>

definition falsy :: "jsval \<Rightarrow> bool" where
  "falsy v = (v \<in> {JUndef, JNull, JStr [], JBool False, JNum (JFin 0), JNum JNaN, JBig 0})"

section \<open>JSON.stringify\<close>

text \<open>
  The text of a value. How a finite number is printed (the shortest decimal that reads back)
  is the parameter \<open>num\<close>. \<open>Inl ()\<close> is the TypeError a BigInt raises; \<open>Inr None\<close>
  is \<open>undefined\<close>, which an object omits and an array prints as \<open>null\<close>.
\<close>

definition hex_digit_char :: "nat \<Rightarrow> char" where
  "hex_digit_char n = (if n < 10 then char_of (48 + n) else char_of (87 + n))"

definition json_char :: "char \<Rightarrow> string" where
  "json_char c =
     (if c = CHR 0x22 then [CHR 0x5C, CHR 0x22]
      else if c = CHR 0x5C then [CHR 0x5C, CHR 0x5C]
      else if ccode c = 8 then [CHR 0x5C, CHR ''b'']
      else if ccode c = 9 then [CHR 0x5C, CHR ''t'']
      else if ccode c = 10 then [CHR 0x5C, CHR ''n'']
      else if ccode c = 12 then [CHR 0x5C, CHR ''f'']
      else if ccode c = 13 then [CHR 0x5C, CHR ''r'']
      else if ccode c < 32
        then CHR 0x5C # ''u00'' @ [hex_digit_char (ccode c div 16), hex_digit_char (ccode c mod 16)]
      else [c])"

definition json_string :: "string \<Rightarrow> string" where
  "json_string s = [CHR 0x22] @ concat (map json_char s) @ [CHR 0x22]"

fun json_value :: "(rat \<Rightarrow> string) \<Rightarrow> jsval \<Rightarrow> unit + string option"
  and json_items :: "(rat \<Rightarrow> string) \<Rightarrow> jsval list \<Rightarrow> unit + string list"
  and json_entries :: "(rat \<Rightarrow> string) \<Rightarrow> (string \<times> jsval) list \<Rightarrow> unit + string list" where
  "json_value num JUndef = Inr None"
| "json_value num JOpaque = Inr None"
| "json_value num JNull = Inr (Some ''null'')"
| "json_value num (JBool b) = Inr (Some (if b then ''true'' else ''false''))"
| "json_value num (JNum n) = Inr (Some (case n of JFin r \<Rightarrow> num r | _ \<Rightarrow> ''null''))"
| "json_value num (JBig i) = Inl ()"
| "json_value num (JStr s) = Inr (Some (json_string s))"
| "json_value num (JArr vs) =
     (case json_items num vs of Inl e \<Rightarrow> Inl e
      | Inr ws \<Rightarrow> Inr (Some (''['' @ join_with '','' ws @ '']'')))"
| "json_value num (JObj kvs) =
     (case json_entries num kvs of Inl e \<Rightarrow> Inl e
      | Inr ws \<Rightarrow> Inr (Some (''{'' @ join_with '','' ws @ ''}'')))"
| "json_items num [] = Inr []"
| "json_items num (v # vs) =
     (case json_value num v of Inl e \<Rightarrow> Inl e
      | Inr w \<Rightarrow> (case json_items num vs of Inl e \<Rightarrow> Inl e
          | Inr ws \<Rightarrow> Inr ((case w of None \<Rightarrow> ''null'' | Some t \<Rightarrow> t) # ws)))"
| "json_entries num [] = Inr []"
| "json_entries num ((k, v) # kvs) =
     (case json_value num v of Inl e \<Rightarrow> Inl e
      | Inr w \<Rightarrow> (case json_entries num kvs of Inl e \<Rightarrow> Inl e
          | Inr ws \<Rightarrow> Inr (case w of None \<Rightarrow> ws | Some t \<Rightarrow> (json_string k @ '':'' @ t) # ws)))"

section \<open>JSON.parse\<close>

text \<open>
  A recursive-descent reader of the JSON grammar. The model's strings hold code units below
  256, so an escape of a larger one is refused here. The recursion is bounded by twice the length of
  the text: a value and its first item are two calls and at least one character.
\<close>

definition is_json_space :: "char \<Rightarrow> bool" where
  "is_json_space c \<longleftrightarrow> ccode c \<in> {9, 10, 13, 32}"

definition skip_space :: "string \<Rightarrow> string" where
  "skip_space s = dropWhile is_json_space s"

definition hex_val :: "char \<Rightarrow> nat option" where
  "hex_val c = (if is_digit c then Some (digit_val c)
     else if 97 \<le> ccode c \<and> ccode c \<le> 102 then Some (ccode c - 87)
     else if 65 \<le> ccode c \<and> ccode c \<le> 70 then Some (ccode c - 55) else None)"

definition simple_escape :: "char \<Rightarrow> char option" where
  "simple_escape c =
     (if c = CHR 0x22 then Some (CHR 0x22) else if c = CHR 0x5C then Some (CHR 0x5C)
      else if c = CHR ''/'' then Some (CHR ''/'') else if c = CHR ''b'' then Some (CHR 0x08)
      else if c = CHR ''f'' then Some (CHR 0x0C) else if c = CHR ''n'' then Some (CHR 0x0A)
      else if c = CHR ''r'' then Some (CHR 0x0D) else if c = CHR ''t'' then Some (CHR 0x09) else None)"

definition unicode_escape :: "char \<Rightarrow> char \<Rightarrow> char \<Rightarrow> char \<Rightarrow> char option" where
  "unicode_escape a b c d =
     (case (hex_val a, hex_val b, hex_val c, hex_val d) of
        (Some 0, Some 0, Some h, Some l) \<Rightarrow> Some (char_of (16 * h + l))
      | _ \<Rightarrow> None)"

text \<open>The rest of a string literal after its opening quote.\<close>

fun read_string :: "string \<Rightarrow> (string \<times> string) option" where
  "read_string [] = None"
| "read_string (c # cs) =
     (if c = CHR 0x22 then Some ([], cs)
      else if c = CHR 0x5C then
        (case cs of
           [] \<Rightarrow> None
         | e # r \<Rightarrow>
             (if e = CHR ''u'' then
                (case r of
                   a # b # c # d # r' \<Rightarrow>
                     (case unicode_escape a b c d of
                        None \<Rightarrow> None
                      | Some u \<Rightarrow> map_option (\<lambda>(w, z). (u # w, z)) (read_string r'))
                 | _ \<Rightarrow> None)
              else (case simple_escape e of
                      None \<Rightarrow> None
                    | Some u \<Rightarrow> map_option (\<lambda>(w, z). (u # w, z)) (read_string r))))
      else if ccode c < 32 then None
      else map_option (\<lambda>(w, z). (c # w, z)) (read_string cs))"

text \<open>\<open>-?(0|[1-9]\d*)(\.\d+)?([eE][+-]?\d+)?\<close>, and what follows the literal.\<close>

definition read_number :: "string \<Rightarrow> (jsnum \<times> string) option" where
  "read_number s =
     (let neg = (s \<noteq> [] \<and> hd s = CHR ''-'');
          body = (if neg then tl s else s);
          ip = takeWhile is_digit body;
          r0 = dropWhile is_digit body;
          r1 = (case r0 of c # t \<Rightarrow> if c = CHR ''.'' then dropWhile is_digit t else r0 | [] \<Rightarrow> r0);
          r2 = (case r1 of e # t \<Rightarrow>
                  if e = CHR ''e'' \<or> e = CHR ''E''
                  then dropWhile is_digit (case t of c # u \<Rightarrow> if is_sign c then u else t | [] \<Rightarrow> t)
                  else r1 | [] \<Rightarrow> r1);
          frac_ok = (case r0 of c # t \<Rightarrow> c = CHR ''.'' \<longrightarrow> takeWhile is_digit t \<noteq> [] | [] \<Rightarrow> True);
          exp_ok = (case r1 of e # t \<Rightarrow>
                  e = CHR ''e'' \<or> e = CHR ''E'' \<longrightarrow>
                  takeWhile is_digit (case t of c # u \<Rightarrow> if is_sign c then u else t | [] \<Rightarrow> t) \<noteq> []
                | [] \<Rightarrow> True)
      in if ip = [] \<or> (1 < length ip \<and> hd ip = CHR ''0'') \<or> \<not> frac_ok \<or> \<not> exp_ok then None
         else (case scan_decimal body of
                 None \<Rightarrow> None
               | Some v \<Rightarrow> Some (to_double (if neg then - v else v), r2)))"

text \<open>An object read so far with one more member: the last of two equal names wins.\<close>

fun read_value :: "nat \<Rightarrow> string \<Rightarrow> (jsval \<times> string) option"
  and read_items :: "nat \<Rightarrow> string \<Rightarrow> (jsval list \<times> string) option"
  and read_members :: "nat \<Rightarrow> (string \<times> jsval) list \<Rightarrow> string \<Rightarrow> ((string \<times> jsval) list \<times> string) option" where
  "read_value 0 s = None"
| "read_value (Suc n) s0 =
     (let s = skip_space s0 in
      if starts_with s ''null'' then Some (JNull, drop 4 s)
      else if starts_with s ''true'' then Some (JBool True, drop 4 s)
      else if starts_with s ''false'' then Some (JBool False, drop 5 s)
      else if starts_with s ''['' then
        (let t = skip_space (tl s) in
         if starts_with t '']'' then Some (JArr [], tl t)
         else map_option (\<lambda>(vs, z). (JArr vs, z)) (read_items n t))
      else if starts_with s ''{'' then
        (let t = skip_space (tl s) in
         if starts_with t ''}'' then Some (JObj [], tl t)
         else map_option (\<lambda>(kvs, z). (JObj kvs, z)) (read_members n [] t))
      else if starts_with s [CHR 0x22] then
        map_option (\<lambda>(w, z). (JStr w, z)) (read_string (tl s))
      else map_option (\<lambda>(r, z). (JNum r, z)) (read_number s))"
| "read_items 0 s = None"
| "read_items (Suc n) s =
     (case read_value n s of
        None \<Rightarrow> None
      | Some (v, z0) \<Rightarrow>
          (let z = skip_space z0 in
           if starts_with z '','' then map_option (\<lambda>(vs, y). (v # vs, y)) (read_items n (tl z))
           else if starts_with z '']'' then Some ([v], tl z) else None))"
| "read_members 0 acc s = None"
| "read_members (Suc n) acc s0 =
     (let s = skip_space s0 in
      if starts_with s [CHR 0x22] then
        (case read_string (tl s) of
           None \<Rightarrow> None
         | Some (k, z0) \<Rightarrow>
             (let z = skip_space z0 in
              if starts_with z '':'' then
                (case read_value n (tl z) of
                   None \<Rightarrow> None
                 | Some (v, y0) \<Rightarrow>
                     (let y = skip_space y0; acc' = obj_set acc k v in
                      if starts_with y '','' then read_members n acc' (tl y)
                      else if starts_with y ''}'' then Some (acc', tl y) else None))
              else None))
      else None)"

text \<open>\<open>JSON.parse(s)\<close>: None is the SyntaxError.\<close>

definition parse_json :: "string \<Rightarrow> jsval option" where
  "parse_json s =
     (case read_value (Suc (2 * length s)) s of
        Some (v, z) \<Rightarrow> if skip_space z = [] then Some v else None
      | None \<Rightarrow> None)"

end
