(* ===== verification/Errors.thy ===== *)
theory Errors imports JsValue begin

text \<open>
  The typed errors of backend/errors.ts, the errors other modules define, and the errors the
  language and the validation library raise, as one datatype: every throw of the program is
  one of these values. An error's enumerable own properties matter when it becomes the cause
  of another error, so they are part of the value.
\<close>

section \<open>Error types\<close>

datatype error_type =
    InsufficientFunds
  | NetworkTimeout
  | ValidationError
  | RateLimitError
  | UnauthorizedError
  | ContractError
  | TransactionFailure
  | ConfigError
  | UnknownError

fun error_type_code :: "error_type \<Rightarrow> string" where
  "error_type_code InsufficientFunds = ''INSUFFICIENT_FUNDS''"
| "error_type_code NetworkTimeout = ''NETWORK_TIMEOUT''"
| "error_type_code ValidationError = ''VALIDATION_ERROR''"
| "error_type_code RateLimitError = ''RATE_LIMIT_ERROR''"
| "error_type_code UnauthorizedError = ''UNAUTHORIZED_ERROR''"
| "error_type_code ContractError = ''CONTRACT_ERROR''"
| "error_type_code TransactionFailure = ''TRANSACTION_FAILURE''"
| "error_type_code ConfigError = ''CONFIG_ERROR''"
| "error_type_code UnknownError = ''UNKNOWN_ERROR''"

section \<open>Errors\<close>

text \<open>One issue of a failed schema validation (a \<open>ZodIssue\<close>): path, message, code.\<close>

record zod_issue =
  issue_path :: "string list"
  issue_message :: string
  issue_code :: string

text \<open>A \<open>StructuredError\<close>: its class name, message, type, cause (undefined when absent) and
  the further property its subclass adds (undefined when the subclass has none).\<close>

record structured =
  s_name :: string
  s_message :: string
  s_type :: error_type
  s_cause :: jsval
  s_extra :: jsval

datatype js_error =
    PlainErr string "(string \<times> jsval) list"
  | TypeErr string
  | RangeErr string
  | ZodErr "zod_issue list" string
  | Structured structured
  | TimeoutErr int
  | StellarRPCErr string jsval
  | RpcRateLimitErr int
  | InvalidXDRFormat string
  | ThrownValue jsval

abbreviation plain :: "string \<Rightarrow> js_error" where
  "plain m \<equiv> PlainErr m []"

text \<open>A schema validation that fails, where the model does not keep the issues.\<close>

abbreviation zod_failure :: js_error where
  "zod_failure \<equiv> ZodErr [] []"

section \<open>Constructors of the structured errors\<close>

definition structured_error :: "string \<Rightarrow> string \<Rightarrow> error_type \<Rightarrow> jsval \<Rightarrow> jsval \<Rightarrow> js_error" where
  "structured_error name msg ty cause extra =
     Structured \<lparr>s_name = name, s_message = msg, s_type = ty, s_cause = cause, s_extra = extra\<rparr>"

definition insufficient_funds_error :: "string \<Rightarrow> jsval \<Rightarrow> js_error" where
  "insufficient_funds_error msg cause =
     structured_error ''InsufficientFundsError'' msg InsufficientFunds cause JUndef"

definition network_timeout_error :: "string \<Rightarrow> jsval \<Rightarrow> js_error" where
  "network_timeout_error msg cause =
     structured_error ''NetworkTimeoutError'' msg NetworkTimeout cause JUndef"

definition validation_error :: "string \<Rightarrow> jsval \<Rightarrow> js_error" where
  "validation_error msg cause = structured_error ''ValidationError'' msg ValidationError cause JUndef"

definition rate_limit_error :: "string \<Rightarrow> jsval \<Rightarrow> jsval \<Rightarrow> js_error" where
  "rate_limit_error msg retry_after cause =
     structured_error ''RateLimitError'' msg RateLimitError cause retry_after"

definition unauthorized_error :: "string \<Rightarrow> jsval \<Rightarrow> js_error" where
  "unauthorized_error msg cause =
     structured_error ''UnauthorizedError'' msg UnauthorizedError cause JUndef"

text \<open>\<open>ContractError(message, contractId?, cause?)\<close>: a second argument that is not a
  contract id is taken to be the cause, unless a cause is given too.\<close>

definition is_contract_id :: "jsval \<Rightarrow> bool" where
  "is_contract_id v = (case v of JStr s \<Rightarrow> length s = 56 \<and> starts_with s ''C'' | _ \<Rightarrow> False)"

definition contract_error :: "string \<Rightarrow> jsval \<Rightarrow> jsval \<Rightarrow> js_error" where
  "contract_error msg contract_id cause =
     (let actual_id = (if is_contract_id contract_id then contract_id
                       else if cause \<noteq> JUndef then contract_id else JUndef);
          actual_cause = (if cause \<noteq> JUndef then cause
                          else if is_contract_id contract_id then JUndef else contract_id)
      in structured_error ''ContractError'' msg ContractError actual_cause actual_id)"

definition transaction_failure_error :: "string \<Rightarrow> jsval \<Rightarrow> jsval \<Rightarrow> js_error" where
  "transaction_failure_error msg tx_hash cause =
     structured_error ''TransactionFailureError'' msg TransactionFailure cause tx_hash"

definition config_error :: "string \<Rightarrow> js_error" where
  "config_error msg = structured_error ''ConfigError'' msg ConfigError JUndef JUndef"

definition simulation_budget_error :: "string \<Rightarrow> js_error" where
  "simulation_budget_error msg =
     structured_error ''SimulationBudgetError'' msg ContractError JUndef JUndef"

lemmas structured_error_defs =
  structured_error_def insufficient_funds_error_def network_timeout_error_def
  validation_error_def rate_limit_error_def unauthorized_error_def contract_error_def
  transaction_failure_error_def config_error_def simulation_budget_error_def

section \<open>Reading an error\<close>

definition get_error_type :: "js_error \<Rightarrow> error_type" where
  "get_error_type e = (case e of Structured s \<Rightarrow> s_type s | _ \<Rightarrow> UnknownError)"

text \<open>\<open>err instanceof Error\<close> holds for every error but a thrown value.\<close>

definition is_error :: "js_error \<Rightarrow> bool" where
  "is_error e = (case e of ThrownValue v \<Rightarrow> False | _ \<Rightarrow> True)"

text \<open>\<open>err instanceof Error ? err.message : String(err)\<close>. The text of a thrown value that is
  not a string is not modelled and left empty.\<close>

definition err_message :: "js_error \<Rightarrow> string" where
  "err_message e = (case e of
      PlainErr m ps \<Rightarrow> m
    | TypeErr m \<Rightarrow> m
    | RangeErr m \<Rightarrow> m
    | ZodErr is m \<Rightarrow> m
    | Structured s \<Rightarrow> s_message s
    | TimeoutErr ms \<Rightarrow>
        ''Transaction Timeout: request did not complete within '' @ int_str ms @ ''ms''
    | StellarRPCErr m c \<Rightarrow> m
    | RpcRateLimitErr s \<Rightarrow> ''Rate limited. Retry after '' @ int_str s @ '' seconds''
    | InvalidXDRFormat m \<Rightarrow> m
    | ThrownValue v \<Rightarrow> (case v of JStr s \<Rightarrow> s | _ \<Rightarrow> []))"

text \<open>The enumerable own properties of an error, as \<open>Object.entries\<close> lists them.\<close>

definition err_props :: "js_error \<Rightarrow> (string \<times> jsval) list" where
  "err_props e = (case e of
      PlainErr m ps \<Rightarrow> ps
    | ZodErr is m \<Rightarrow> [(''issues'', JArr (map (\<lambda>i. JObj [(''code'', JStr (issue_code i)),
        (''message'', JStr (issue_message i)), (''path'', JArr (map JStr (issue_path i)))]) is)),
        (''name'', JStr ''ZodError'')]
    | Structured s \<Rightarrow> [(''errorType'', JStr (error_type_code (s_type s))), (''cause'', s_cause s),
        (''name'', JStr (s_name s))] @
        (if s_name s = ''RateLimitError'' then [(''retryAfterSeconds'', s_extra s)]
         else if s_name s = ''ContractError'' then [(''contractId'', s_extra s)]
         else if s_name s = ''TransactionFailureError'' then [(''txHash'', s_extra s)] else [])
    | TimeoutErr ms \<Rightarrow> [(''name'', JStr ''TimeoutError'')]
    | StellarRPCErr m c \<Rightarrow> [(''cause'', c), (''name'', JStr ''StellarRPCError'')]
    | RpcRateLimitErr s \<Rightarrow> [(''retryAfterSeconds'', JNum (JFin (of_int s))), (''name'', JStr ''RateLimitError'')]
    | InvalidXDRFormat m \<Rightarrow> [(''name'', JStr ''InvalidXDRFormat'')]
    | _ \<Rightarrow> [])"

text \<open>An error used as a value (the cause of another one).\<close>

definition err_value :: "js_error \<Rightarrow> jsval" where
  "err_value e = (case e of ThrownValue v \<Rightarrow> v | _ \<Rightarrow> JObj (err_props e))"

section \<open>Causes without signing material\<close>

definition sensitive_cause_key :: "string \<Rightarrow> bool" where
  "sensitive_cause_key k \<longleftrightarrow> k \<in> {''secretKey'', ''privateKey'', ''seed'', ''_secretKey''}"

fun sanitize_cause :: "jsval \<Rightarrow> jsval"
  and sanitize_cause_list :: "jsval list \<Rightarrow> jsval list"
  and sanitize_cause_entries :: "(string \<times> jsval) list \<Rightarrow> (string \<times> jsval) list" where
  "sanitize_cause (JArr vs) = JArr (sanitize_cause_list vs)"
| "sanitize_cause (JObj kvs) = JObj (sanitize_cause_entries kvs)"
| "sanitize_cause v = v"
| "sanitize_cause_list [] = []"
| "sanitize_cause_list (v # vs) = sanitize_cause v # sanitize_cause_list vs"
| "sanitize_cause_entries [] = []"
| "sanitize_cause_entries ((k, v) # kvs) =
     (if sensitive_cause_key k then sanitize_cause_entries kvs
      else (k, sanitize_cause v) # sanitize_cause_entries kvs)"

text \<open>\<open>new StellarRPCError(message, cause)\<close> of backend/rpc\_client.ts sanitises its cause.\<close>

definition stellar_rpc_error :: "string \<Rightarrow> jsval \<Rightarrow> js_error" where
  "stellar_rpc_error msg cause = StellarRPCErr msg (sanitize_cause cause)"

lemma sanitize_cause_no_key:
  "no_key sensitive_cause_key (sanitize_cause v)"
  "no_key_list sensitive_cause_key (sanitize_cause_list vs)"
  "no_key_entries sensitive_cause_key (sanitize_cause_entries kvs)"
  by (induction v and vs and kvs
      rule: sanitize_cause_sanitize_cause_list_sanitize_cause_entries.induct) auto

lemma sanitize_cause_fixpoint:
  "no_key sensitive_cause_key v \<Longrightarrow> sanitize_cause v = v"
  "no_key_list sensitive_cause_key vs \<Longrightarrow> sanitize_cause_list vs = vs"
  "no_key_entries sensitive_cause_key kvs \<Longrightarrow> sanitize_cause_entries kvs = kvs"
  by (induction v and vs and kvs
      rule: sanitize_cause_sanitize_cause_list_sanitize_cause_entries.induct) auto

text \<open>
  The cause a sanitised error carries has no property named secretKey, privateKey, seed
  or \_secretKey at any depth, and a cause that had none is left as it was, so sanitising twice
  is sanitising once.
\<close>

theorem sanitize_cause_correct:
  "no_key sensitive_cause_key (sanitize_cause v) \<and>
   (no_key sensitive_cause_key v \<longrightarrow> sanitize_cause v = v) \<and>
   sanitize_cause (sanitize_cause v) = sanitize_cause v"
  by (simp add: sanitize_cause_no_key sanitize_cause_fixpoint)

theorem sanitize_cause_correct_witness:
  "sanitize_cause (JObj [(''a'', JNull)]) = JObj [(''a'', JNull)] \<and>
   sanitize_cause (JObj [(''a'', JNull), (''seed'', JStr ''x'')]) = JObj [(''a'', JNull)]"
  using sanitize_cause_correct [of "JObj [(''a'', JNull)]"]
  by (simp add: sensitive_cause_key_def)

end
