(* ===== verification/Redaction.thy ===== *)
theory Redaction imports Errors begin

text \<open>
  Keeping secrets out of logs, results and error messages: the global redaction of
  backend/logger.ts (also used by backend/config.ts), and \<open>redactSecretString\<close>,
  \<open>describeError\<close> and \<open>sanitizePayload\<close> of backend/agent.ts. Regular expressions are
  written out as the scans they perform.
\<close>

section \<open>The logger's redaction: S followed by 55 base32 characters, everywhere\<close>

definition is_base32 :: "char \<Rightarrow> bool" where
  "is_base32 c \<longleftrightarrow> (65 \<le> ccode c \<and> ccode c \<le> 90) \<or> (50 \<le> ccode c \<and> ccode c \<le> 55)"

text \<open>A match of \<open>S[A-Z2-7]{55}\<close> at the start of the string.\<close>

definition secret_prefix :: "string \<Rightarrow> bool" where
  "secret_prefix s \<longleftrightarrow> 56 \<le> length s \<and> hd s = CHR ''S'' \<and> (\<forall>c \<in> set (take 55 (tl s)). is_base32 c)"

definition redacted :: string where
  "redacted = ''[REDACTED]''"

text \<open>\<open>value.replace(/S[A-Z2-7]{55}/g, '[REDACTED]')\<close>.\<close>

function redact_all :: "string \<Rightarrow> string" where
  "redact_all [] = []"
| "redact_all (c # cs) =
     (if secret_prefix (c # cs) then redacted @ redact_all (drop 55 cs) else c # redact_all cs)"
  by pat_completeness auto
termination
  by (relation "measure length") auto

text \<open>\<open>redactSecrets\<close>: every string of a value, at every depth; property names are kept.\<close>

fun redact_secrets :: "jsval \<Rightarrow> jsval"
  and redact_secrets_list :: "jsval list \<Rightarrow> jsval list"
  and redact_secrets_entries :: "(string \<times> jsval) list \<Rightarrow> (string \<times> jsval) list" where
  "redact_secrets (JStr s) = JStr (redact_all s)"
| "redact_secrets (JArr vs) = JArr (redact_secrets_list vs)"
| "redact_secrets (JObj kvs) = JObj (redact_secrets_entries kvs)"
| "redact_secrets v = v"
| "redact_secrets_list [] = []"
| "redact_secrets_list (v # vs) = redact_secrets v # redact_secrets_list vs"
| "redact_secrets_entries [] = []"
| "redact_secrets_entries ((k, v) # kvs) = (k, redact_secrets v) # redact_secrets_entries kvs"

text \<open>A string that holds no secret key anywhere.\<close>

definition secret_free :: "string \<Rightarrow> bool" where
  "secret_free s \<longleftrightarrow> (\<forall>i \<le> length s. \<not> secret_prefix (drop i s))"

lemma secret_free_Cons:
  "secret_free (c # cs) \<longleftrightarrow> \<not> secret_prefix (c # cs) \<and> secret_free cs"
proof
  assume a: "secret_free (c # cs)"
  have "\<not> secret_prefix (drop i cs)" if "i \<le> length cs" for i
    using a that by (auto simp: secret_free_def dest!: spec [of _ "Suc i"])
  moreover have "\<not> secret_prefix (c # cs)" using a by (auto simp: secret_free_def dest!: spec [of _ 0])
  ultimately show "\<not> secret_prefix (c # cs) \<and> secret_free cs" by (simp add: secret_free_def)
next
  assume a: "\<not> secret_prefix (c # cs) \<and> secret_free cs"
  then show "secret_free (c # cs)"
    by (auto simp: secret_free_def drop_Cons split: nat.splits)
qed

lemma secret_free_Nil [simp]: "secret_free []"
  by (simp add: secret_free_def secret_prefix_def)

lemma secret_prefix_not_S: "c \<noteq> CHR ''S'' \<Longrightarrow> \<not> secret_prefix (c # cs)"
  by (simp add: secret_prefix_def)

lemma secret_free_redacted: "secret_free s \<Longrightarrow> secret_free (redacted @ s)"
  by (simp add: redacted_def secret_free_Cons secret_prefix_not_S)

lemma redact_all_same_base32:
  "n \<le> length (redact_all s) \<Longrightarrow> \<forall>c \<in> set (take n (redact_all s)). is_base32 c \<Longrightarrow>
   n \<le> length s \<and> take n s = take n (redact_all s)"
proof (induction s arbitrary: n rule: redact_all.induct)
  case 1
  then show ?case by simp
next
  case (2 c cs)
  show ?case
  proof (cases n)
    case (Suc m)
    have nb: "\<not> is_base32 (CHR ''['')" by (simp add: is_base32_def ccode_def)
    have ns: "\<not> secret_prefix (c # cs)"
    proof
      assume "secret_prefix (c # cs)"
      with "2.prems"(2) Suc have "is_base32 (CHR ''['')" by (simp add: redacted_def)
      with nb show False by simp
    qed
    with "2.prems" Suc have "m \<le> length (redact_all cs)" "\<forall>c \<in> set (take m (redact_all cs)). is_base32 c"
      by auto
    with "2.IH"(2) [OF ns, of m] ns Suc show ?thesis by simp
  qed simp
qed

lemma redact_all_secret_free: "secret_free (redact_all s)"
proof (induction s rule: redact_all.induct)
  case 1
  then show ?case by simp
next
  case (2 c cs)
  show ?case
  proof (cases "secret_prefix (c # cs)")
    case True
    with 2 show ?thesis by (simp add: secret_free_redacted)
  next
    case False
    have "\<not> secret_prefix (c # redact_all cs)"
    proof
      assume a: "secret_prefix (c # redact_all cs)"
      then have "55 \<le> length (redact_all cs)" "\<forall>c \<in> set (take 55 (redact_all cs)). is_base32 c"
        by (auto simp: secret_prefix_def)
      from redact_all_same_base32 [OF this] a have "secret_prefix (c # cs)"
        by (auto simp: secret_prefix_def)
      with False show False by simp
    qed
    with False 2 show ?thesis by (simp add: secret_free_Cons)
  qed
qed

lemma redact_all_id: "secret_free s \<Longrightarrow> redact_all s = s"
  by (induction s rule: redact_all.induct) (auto simp: secret_free_Cons)

lemma redact_secrets_strings:
  "all_strings secret_free (redact_secrets v)"
  "all_strings_list secret_free (redact_secrets_list vs)"
  "all_strings_entries secret_free (redact_secrets_entries kvs)"
  by (induction v and vs and kvs
      rule: redact_secrets_redact_secrets_list_redact_secrets_entries.induct)
    (auto simp: redact_all_secret_free)

section \<open>The log entry\<close>

datatype log_level = Debug | Info | Warn | Error

fun level_rank :: "log_level \<Rightarrow> nat" where
  "level_rank Debug = 0"
| "level_rank Info = 1"
| "level_rank Warn = 2"
| "level_rank Error = 3"

lemma level_rank_inj: "level_rank a = level_rank b \<Longrightarrow> a = b"
  by (cases a; cases b) simp_all

text \<open>Levels are ordered by their rank.\<close>

instantiation log_level :: linorder
begin

definition less_eq_log_level :: "log_level \<Rightarrow> log_level \<Rightarrow> bool" where
  "less_eq_log_level a b \<longleftrightarrow> level_rank a \<le> level_rank b"

definition less_log_level :: "log_level \<Rightarrow> log_level \<Rightarrow> bool" where
  "less_log_level a b \<longleftrightarrow> level_rank a < level_rank b"

instance
  by standard (auto simp: less_eq_log_level_def less_log_level_def intro: level_rank_inj)

end

fun level_name :: "log_level \<Rightarrow> string" where
  "level_name Debug = ''debug''"
| "level_name Info = ''info''"
| "level_name Warn = ''warn''"
| "level_name Error = ''error''"

text \<open>\<open>{ ...o }\<close> on top of an object: later properties win.\<close>

definition obj_spread :: "(string \<times> jsval) list \<Rightarrow> (string \<times> jsval) list \<Rightarrow> (string \<times> jsval) list" where
  "obj_spread o1 o2 = foldl (\<lambda>acc (k, v). obj_set acc k v) o1 o2"

text \<open>\<open>log(level, message, meta)\<close>: the entry that is printed and whether it goes to the error
  stream, or nothing below the configured level.\<close>

definition log_entry ::
  "log_level \<Rightarrow> log_level \<Rightarrow> string \<Rightarrow> string \<Rightarrow> (string \<times> jsval) list \<Rightarrow> (bool \<times> (string \<times> jsval) list) option" where
  "log_entry current level timestamp message meta =
     (if level < current then None
      else Some (level = Error,
        obj_spread [(''level'', JStr (level_name level)), (''timestamp'', JStr timestamp),
                    (''message'', JStr (redact_all message))]
                   (redact_secrets_entries meta)))"

lemma obj_spread_strings:
  "all_strings_entries P o1 \<Longrightarrow> all_strings_entries P o2 \<Longrightarrow> all_strings_entries P (obj_spread o1 o2)"
  unfolding obj_spread_def
proof (induction o2 arbitrary: o1)
  case Nil
  then show ?case by simp
next
  case (Cons kv o2)
  obtain k v where kv: "kv = (k, v)" by (cases kv)
  with Cons.prems have "all_strings_entries P (obj_set o1 k v)"
    by (auto simp: all_strings_entries_iff dest!: set_obj_set)
  with Cons kv show ?case by simp
qed

lemma secret_free_short: "length s < 56 \<Longrightarrow> secret_free s"
  by (auto simp: secret_free_def secret_prefix_def)

text \<open>
  C18. No string value of a printed log entry holds a Stellar secret key (an S followed by 55
  base32 characters), at whatever depth the message or the metadata carried it; a message and
  metadata without one are printed unchanged. The timestamp is the 24-character ISO form.
\<close>

theorem log_entry_redacts_secrets:
  assumes "length timestamp < 56"
    and "log_entry current level timestamp message meta = Some (to_err, entry)"
  shows "all_strings_entries secret_free entry \<and> (secret_free message \<longrightarrow> redact_all message = message)"
proof -
  have "secret_free (level_name level)"
    by (rule secret_free_short) (cases level; simp)
  then have "all_strings_entries secret_free
      [(''level'', JStr (level_name level)), (''timestamp'', JStr timestamp),
       (''message'', JStr (redact_all message))]"
    using assms(1) by (simp add: redact_all_secret_free secret_free_short)
  then have "all_strings_entries secret_free entry"
    using assms(2) redact_secrets_strings(3) [of meta]
    by (auto simp: log_entry_def intro!: obj_spread_strings split: if_splits)
  then show ?thesis by (auto simp: redact_all_id)
qed

theorem log_entry_redacts_secrets_witness:
  "\<exists>to_err entry.
    log_entry Info Warn ''2026-01-01T00:00:00.000Z'' (CHR ''S'' # replicate 55 (CHR ''A'')) [] =
      Some (to_err, entry) \<and> all_strings_entries secret_free entry"
proof -
  have t: "length ''2026-01-01T00:00:00.000Z'' < 56" by simp
  have e: "log_entry Info Warn ''2026-01-01T00:00:00.000Z'' (CHR ''S'' # replicate 55 (CHR ''A'')) [] =
      Some (False, obj_spread [(''level'', JStr ''warn''), (''timestamp'', JStr ''2026-01-01T00:00:00.000Z''),
        (''message'', JStr (redact_all (CHR ''S'' # replicate 55 (CHR ''A''))))] [])"
    by (simp add: log_entry_def less_log_level_def)
  from log_entry_redacts_secrets [OF t e] e show ?thesis by blast
qed

section \<open>The agent's redaction of error text\<close>

text \<open>
  \<open>SECRET_KEY_RE\<close> is anchored at both ends and case-insensitive: a prefix without line
  ends (its last character apart, which may be any white space), an S or s followed by 55
  characters that are letters, digits 2 to 7 or blanks, and a rest without line ends (its first
  character apart). The lazy prefix makes it match at the leftmost possible start, and without
  the g flag it replaces that one match.
\<close>

definition is_secret_ci :: "char \<Rightarrow> bool" where
  "is_secret_ci c \<longleftrightarrow> is_base32 (upper_char c) \<or> c = CHR '' ''"

definition secret_ci_at :: "string \<Rightarrow> bool" where
  "secret_ci_at s \<longleftrightarrow> 56 \<le> length s \<and> (hd s = CHR ''S'' \<or> hd s = CHR ''s'') \<and>
     (\<forall>c \<in> set (take 55 (tl s)). is_secret_ci c)"

definition secret_match_at :: "string \<Rightarrow> nat \<Rightarrow> bool" where
  "secret_match_at s i \<longleftrightarrow>
     (\<forall>c \<in> set (butlast (take i s)). \<not> is_line_end c) \<and>
     secret_ci_at (drop i s) \<and>
     (\<forall>c \<in> set (tl (drop (i + 56) s)). \<not> is_line_end c)"

definition redact_secret_string :: "string \<Rightarrow> string" where
  "redact_secret_string s =
     (case find (secret_match_at s) [0..<length s] of
        None \<Rightarrow> s
      | Some i \<Rightarrow> take i s @ redacted @ drop (i + 56) s)"

lemma find_upt_Some:
  "find P [0..<n] = Some i \<longleftrightarrow> i < n \<and> P i \<and> (\<forall>j < i. \<not> P j)"
  by (auto simp: find_Some_iff)

lemma redact_secret_string_at:
  assumes "i < length s" "secret_match_at s i" "\<And>j. j < i \<Longrightarrow> \<not> secret_match_at s j"
  shows "redact_secret_string s = take i s @ redacted @ drop (i + 56) s"
  using assms find_upt_Some [of "secret_match_at s" "length s" i]
  by (simp add: redact_secret_string_def)

text \<open>A key: an S and 55 base32 characters.\<close>

definition is_secret_key :: "string \<Rightarrow> bool" where
  "is_secret_key k \<longleftrightarrow> length k = 56 \<and> secret_prefix k"

lemma base32_upper: "is_base32 c \<Longrightarrow> upper_char c = c"
  by (auto simp: is_base32_def upper_char_def)

lemma is_secret_key_ci: "is_secret_key k \<Longrightarrow> secret_ci_at (k @ t)"
  by (cases k) (auto simp: is_secret_key_def secret_prefix_def secret_ci_at_def is_secret_ci_def base32_upper)

lemma key_no_line_end: "is_secret_key k \<Longrightarrow> c \<in> set k \<Longrightarrow> \<not> is_line_end c"
proof -
  assume k: "is_secret_key k" and c: "c \<in> set k"
  then obtain cs where k': "k = CHR ''S'' # cs" "\<forall>c \<in> set cs. is_base32 c"
    by (cases k) (auto simp: is_secret_key_def secret_prefix_def)
  have S: "is_base32 (CHR ''S'')" by (simp add: is_base32_def ccode_def)
  have "is_base32 c" using c k' S by auto
  then show "\<not> is_line_end c" by (auto simp: is_base32_def is_line_end_def)
qed

text \<open>
  A one-line error text with a secret key in it, and no earlier run of characters that
  looks like one, comes out with exactly that key replaced by the marker, the text around it
  unchanged.
\<close>

theorem redact_secret_string_replaces_first:
  assumes "is_secret_key k" and "\<forall>c \<in> set (p @ t). \<not> is_line_end c"
    and "\<forall>j < length p. \<not> secret_ci_at (drop j (p @ k @ t))"
  shows "redact_secret_string (p @ k @ t) = p @ redacted @ t"
proof -
  from assms(1) have len: "length k = 56" by (simp add: is_secret_key_def)
  have "secret_match_at (p @ k @ t) (length p)"
    using assms(2) len is_secret_key_ci [OF assms(1), of t]
    by (cases t) (auto simp: secret_match_at_def dest: in_set_butlastD)
  moreover have "\<not> secret_match_at (p @ k @ t) j" if "j < length p" for j
    using assms(3) that by (simp add: secret_match_at_def)
  ultimately have "redact_secret_string (p @ k @ t) =
      take (length p) (p @ k @ t) @ redacted @ drop (length p + 56) (p @ k @ t)"
    using len by (intro redact_secret_string_at) auto
  then show ?thesis using len by simp
qed

theorem redact_secret_string_replaces_first_witness:
  "redact_secret_string (''key '' @ (CHR ''S'' # replicate 55 (CHR ''A'')) @ ''!'') = ''key '' @ redacted @ ''!''"
proof (rule redact_secret_string_replaces_first)
  show "is_secret_key (CHR ''S'' # replicate 55 (CHR ''A''))"
    by (simp add: is_secret_key_def secret_prefix_def is_base32_def ccode_def)
  show "\<forall>c \<in> set (''key '' @ ''!''). \<not> is_line_end c" by (simp add: is_line_end_def ccode_def)
  show "\<forall>j < length ''key ''. \<not> secret_ci_at (drop j (''key '' @ (CHR ''S'' # replicate 55 (CHR ''A'')) @ ''!''))"
    by (auto simp: secret_ci_at_def less_Suc_eq numeral_eq_Suc)
qed

lemma redact_secret_string_leftover:
  assumes "is_secret_key k" "is_secret_key k'"
  shows "js_includes (redact_secret_string (k @ '' '' @ k')) k'"
    and "redact_secret_string (''a'' @ [CHR 0x0A] @ ''b'' @ k) = ''a'' @ [CHR 0x0A] @ ''b'' @ k"
proof -
  have "redact_secret_string ([] @ k @ ('' '' @ k')) = [] @ redacted @ ('' '' @ k')"
    using assms key_no_line_end [OF assms(2)]
    by (intro redact_secret_string_replaces_first) (auto simp: is_line_end_def ccode_def)
  then show "js_includes (redact_secret_string (k @ '' '' @ k')) k'"
    using includes_refl_append [of "redacted @ '' ''" k' "[]"] by simp
  let ?s = "''a'' @ [CHR 0x0A] @ ''b'' @ k"
  have len: "length k = 56" using assms(1) by (simp add: is_secret_key_def)
  have le: "is_line_end (CHR 0x0A)" by (simp add: is_line_end_def ccode_def)
  have "\<not> secret_match_at ?s j" if j: "j < length ?s" for j
  proof (cases "j < 3")
    case True
    then have "\<not> secret_ci_at (drop j ?s)"
      by (auto simp: secret_ci_at_def less_Suc_eq numeral_eq_Suc)
    then show ?thesis by (simp add: secret_match_at_def)
  next
    case False
    then obtain m where m: "j = Suc (Suc (Suc m))" by (metis less_Suc_eq not_less_eq numeral_3_eq_3 old.nat.exhaust)
    have "CHR 0x0A \<in> set (butlast (take j ?s))" by (simp add: m)
    with le show ?thesis unfolding secret_match_at_def by blast
  qed
  then have "find (secret_match_at ?s) [0..<length ?s] = None"
    unfolding find_None_iff by auto
  then show "redact_secret_string ?s = ?s" by (simp add: redact_secret_string_def)
qed

text \<open>
  Only the first key of an error text is redacted: of two keys in one line the second one
  is still there in full, and a text with a line break on either side of the key (not next to
  it) is not redacted at all.
\<close>

theorem redact_secret_string_leaks:
  assumes "is_secret_key k" "is_secret_key k'"
  shows "js_includes (redact_secret_string (k @ '' '' @ k')) k' \<and>
    redact_secret_string (''a'' @ [CHR 0x0A] @ ''b'' @ k) = ''a'' @ [CHR 0x0A] @ ''b'' @ k"
  using redact_secret_string_leftover [OF assms] by blast

theorem redact_secret_string_leaks_witness:
  "js_includes (redact_secret_string ((CHR ''S'' # replicate 55 (CHR ''A'')) @ '' '' @
     (CHR ''S'' # replicate 55 (CHR ''B'')))) (CHR ''S'' # replicate 55 (CHR ''B''))"
proof -
  have "is_secret_key (CHR ''S'' # replicate 55 (CHR ''A''))" "is_secret_key (CHR ''S'' # replicate 55 (CHR ''B''))"
    by (simp_all add: is_secret_key_def secret_prefix_def is_base32_def ccode_def)
  from redact_secret_string_leaks [OF this] show ?thesis by blast
qed

section \<open>Error text with its context\<close>

text \<open>\<open>describeError\<close>: the message, and for a structured error with a cause the sanitised
  cause as JSON. A cause that cannot be serialised leaves the message alone.\<close>

definition describe_error :: "(rat \<Rightarrow> string) \<Rightarrow> js_error \<Rightarrow> string" where
  "describe_error num err =
     (let message = err_message err in
      case err of
        Structured s \<Rightarrow>
          if s_cause s = JUndef then message
          else (case json_value num (sanitize_cause (s_cause s)) of
                  Inl e \<Rightarrow> message
                | Inr None \<Rightarrow> message
                | Inr (Some context) \<Rightarrow> message @ '' | context: '' @ context)
      | _ \<Rightarrow> message)"

section \<open>Payloads without sensitive properties\<close>

text \<open>\<open>/secret|key|seed|mnemonic|private/i.test(key)\<close>.\<close>

definition sensitive_payload_key :: "string \<Rightarrow> bool" where
  "sensitive_payload_key k \<longleftrightarrow>
     (\<exists>w \<in> {''secret'', ''key'', ''seed'', ''mnemonic'', ''private''}. js_includes (to_lower k) w)"

text \<open>\<open>sanitizePayload\<close>: property names are trimmed; a later property whose trimmed name is
  already there replaces its value.\<close>

fun sanitize_payload :: "jsval \<Rightarrow> jsval"
  and sanitize_payload_list :: "jsval list \<Rightarrow> jsval list"
  and sanitize_payload_entries :: "(string \<times> jsval) list \<Rightarrow> (string \<times> jsval) list \<Rightarrow> (string \<times> jsval) list" where
  "sanitize_payload (JArr vs) = JArr (sanitize_payload_list vs)"
| "sanitize_payload (JObj kvs) = JObj (sanitize_payload_entries [] kvs)"
| "sanitize_payload v = v"
| "sanitize_payload_list [] = []"
| "sanitize_payload_list (v # vs) = sanitize_payload v # sanitize_payload_list vs"
| "sanitize_payload_entries acc [] = acc"
| "sanitize_payload_entries acc ((raw_key, v) # kvs) =
     (let key = trim raw_key in
      if sensitive_payload_key key then sanitize_payload_entries acc kvs
      else sanitize_payload_entries (obj_set acc key (sanitize_payload v)) kvs)"

lemma sanitize_payload_no_key_aux:
  "no_key sensitive_payload_key (sanitize_payload v)"
  "no_key_list sensitive_payload_key (sanitize_payload_list vs)"
  "no_key_entries sensitive_payload_key acc \<Longrightarrow>
     no_key_entries sensitive_payload_key (sanitize_payload_entries acc kvs)"
  by (induction v and vs and acc kvs
      rule: sanitize_payload_sanitize_payload_list_sanitize_payload_entries.induct)
    (auto simp: Let_def no_key_entries_set)

text \<open>
  What a failed task logs of its payload has no property, at any depth, whose name
  contains secret, key, seed, mnemonic or private in any capitalisation, with or without
  white space around the name.
\<close>

theorem sanitize_payload_no_sensitive_key:
  "no_key sensitive_payload_key (sanitize_payload payload)"
  by (rule sanitize_payload_no_key_aux)

end
