(* ===== verification/Config.thy ===== *)
theory Config imports Redaction "HOL-Library.Monad_Syntax" begin

text \<open>
  backend/config.ts: the environment schema, the derived configuration and its start-up checks,
  the secret lookup of \<open>loadConfig\<close>, and the redacted validation report. What the Stellar
  SDK and the validation library decide (whether a key or a URL is well formed, which public
  key a secret has) is a record of functions; integers of the schema are exact.
\<close>

section \<open>Parameters and types\<close>

datatype network = Testnet | Mainnet | Futurenet

record sdk =
  public_key_of_secret :: "string \<Rightarrow> string option"
  valid_public_key :: "string \<Rightarrow> bool"
  valid_url :: "string \<Rightarrow> bool"

text \<open>What the parsed environment and the configuration object share.\<close>

record env_rest =
  STELLAR_NETWORK :: network
  HORIZON_URL :: string
  SOROBAN_RPC_URL :: string
  X402_ASSET_CODE :: string
  X402_ASSET_ISSUER :: string
  ALLOWED_X402_ORIGINS :: "string option"
  AGENT_SPENDING_LIMIT :: string
  DB_PATH :: string
  LOG_LEVEL :: log_level
  OTLP_ENDPOINT :: "string option"
  SPENDING_WINDOW_MS :: int
  MAX_RETRIES :: int
  RETRY_DELAY_MS :: int
  ACCOUNT_CACHE_TTL_MS :: int
  TOML_CACHE_TTL_MS :: int
  MAX_X402_PAYMENTS_PER_MINUTE :: int
  X402_NONCE_TTL_MS :: int
  MAX_CONCURRENT_TASKS :: int
  QUEUE_CAPACITY :: int
  MAX_SOROBAN_FEE_STROOPS :: int
  HEALTH_PORT :: int
  CONTRACT_EVENT_POLL_MS :: "int option"
  WEBHOOK_URL :: "string option"
  WEBHOOK_SECRET :: "string option"
  AGENT_SECRET_KEY_ARN :: "string option"

record raw_env = env_rest +
  AGENT_SECRET_KEY :: string
  RAW_PUBLIC_KEY :: "string option"
  RAW_RPC_TIMEOUT_MS :: "int option"

record agent_config = env_rest +
  AGENT_PUBLIC_KEY :: string
  RPC_TIMEOUT_MS :: int

type_synonym env = "string \<Rightarrow> string option"

section \<open>Coercion of environment strings to numbers\<close>

text \<open>The value of an unsigned decimal literal that is the whole string.\<close>

definition whole_decimal :: "string \<Rightarrow> rat option" where
  "whole_decimal s =
     (let r = dropWhile is_digit s;
          r1 = (case r of [] \<Rightarrow> [] | c # t \<Rightarrow> if c = CHR ''.'' then dropWhile is_digit t else r);
          r2 = (case r1 of [] \<Rightarrow> []
                | e # t \<Rightarrow> if e = CHR ''e'' \<or> e = CHR ''E''
                    then (let b = (case t of [] \<Rightarrow> [] | c # u \<Rightarrow> if is_sign c then u else t)
                          in if takeWhile is_digit b = [] then r1 else dropWhile is_digit b)
                    else r1)
      in if r2 = [] then scan_decimal s else None)"

definition radix_digit :: "nat \<Rightarrow> char \<Rightarrow> nat option" where
  "radix_digit b c =
     (let v = (if is_digit c then digit_val c
               else if 97 \<le> ccode (lower_char c) \<and> ccode (lower_char c) \<le> 122
                 then ccode (lower_char c) - 87 else 99)
      in if v < b then Some v else None)"

definition radix_literal :: "nat \<Rightarrow> string \<Rightarrow> rat option" where
  "radix_literal b ds =
     (if ds = [] then None
      else map_option of_nat (foldl (\<lambda>a c. case (a, radix_digit b c) of
             (Some n, Some d) \<Rightarrow> Some (b * n + d) | _ \<Rightarrow> None) (Some (0::nat)) ds))"

text \<open>\<open>Number(s)\<close>: the whole trimmed string, empty counts as 0.\<close>

definition number_of_string :: "string \<Rightarrow> jsnum" where
  "number_of_string s =
     (let t = trim s;
          of_opt = (\<lambda>r. case r of None \<Rightarrow> JNaN | Some v \<Rightarrow> to_double v);
          neg = (t \<noteq> [] \<and> hd t = CHR ''-'');
          body = (case t of [] \<Rightarrow> [] | c # u \<Rightarrow> if is_sign c then u else t)
      in if t = [] then JFin 0
         else if starts_with (to_lower t) ''0x'' then of_opt (radix_literal 16 (drop 2 t))
         else if starts_with (to_lower t) ''0o'' then of_opt (radix_literal 8 (drop 2 t))
         else if starts_with (to_lower t) ''0b'' then of_opt (radix_literal 2 (drop 2 t))
         else if body = ''Infinity'' then JInf (\<not> neg)
         else of_opt (map_option (\<lambda>v. if neg then - v else v) (whole_decimal body)))"

text \<open>\<open>z.coerce.number().int().min(lo).max(hi).default(d)\<close>; None is a validation issue.\<close>

definition int_field :: "env \<Rightarrow> string \<Rightarrow> int \<Rightarrow> int option \<Rightarrow> int \<Rightarrow> int option" where
  "int_field env name lo hi dflt =
     (case env name of
        None \<Rightarrow> Some dflt
      | Some s \<Rightarrow> (case number_of_string s of
            JFin r \<Rightarrow> if r = of_int \<lfloor>r\<rfloor> \<and> lo \<le> \<lfloor>r\<rfloor> \<and> (case hi of None \<Rightarrow> True | Some h \<Rightarrow> \<lfloor>r\<rfloor> \<le> h)
                      then Some \<lfloor>r\<rfloor> else None
          | _ \<Rightarrow> None))"

definition opt_int_field :: "env \<Rightarrow> string \<Rightarrow> int \<Rightarrow> int option option" where
  "opt_int_field env name lo =
     (case env name of None \<Rightarrow> Some None | Some s \<Rightarrow> map_option Some (int_field env name lo None 0))"

section \<open>The schema\<close>

text \<open>\<open>SpendingLimitSchema\<close>: \<open>/^[1-9]\d*(\.\d{1,7})?$/\<close>.\<close>

definition decimal_tail_ok :: "string \<Rightarrow> bool" where
  "decimal_tail_ok r \<longleftrightarrow> r = [] \<or>
     (hd r = CHR ''.'' \<and> 1 \<le> length (tl r) \<and> length (tl r) \<le> 7 \<and> (\<forall>c \<in> set (tl r). is_digit c))"

definition spending_limit_ok :: "string \<Rightarrow> bool" where
  "spending_limit_ok s \<longleftrightarrow>
     s \<noteq> [] \<and> is_digit (hd s) \<and> hd s \<noteq> CHR ''0'' \<and> decimal_tail_ok (dropWhile is_digit s)"

definition is_valid_stellar_public_key :: "sdk \<Rightarrow> string \<Rightarrow> bool" where
  "is_valid_stellar_public_key sdk v \<longleftrightarrow> starts_with v ''G'' \<and> valid_public_key sdk v"

definition public_key_ok :: "sdk \<Rightarrow> string \<Rightarrow> bool" where
  "public_key_ok sdk v \<longleftrightarrow>
     length v = 56 \<and> starts_with v ''G'' \<and> is_valid_stellar_public_key sdk v"

definition network_of_string :: "string \<Rightarrow> network option" where
  "network_of_string s =
     (if s = ''testnet'' then Some Testnet else if s = ''mainnet'' then Some Mainnet
      else if s = ''futurenet'' then Some Futurenet else None)"

definition log_level_of_string :: "string \<Rightarrow> log_level option" where
  "log_level_of_string s =
     (if s = ''debug'' then Some Debug else if s = ''info'' then Some Info
      else if s = ''warn'' then Some Warn else if s = ''error'' then Some Error else None)"

text \<open>A required string, a string with a default, an optional one; each with its check.\<close>

definition req_string :: "env \<Rightarrow> string \<Rightarrow> (string \<Rightarrow> bool) \<Rightarrow> string option" where
  "req_string env name ok = (case env name of None \<Rightarrow> None | Some s \<Rightarrow> if ok s then Some s else None)"

definition default_string :: "env \<Rightarrow> string \<Rightarrow> string \<Rightarrow> (string \<Rightarrow> bool) \<Rightarrow> string option" where
  "default_string env name d ok =
     (case env name of None \<Rightarrow> Some d | Some s \<Rightarrow> if ok s then Some s else None)"

definition opt_string :: "env \<Rightarrow> string \<Rightarrow> (string \<Rightarrow> bool) \<Rightarrow> string option option" where
  "opt_string env name ok =
     (case env name of None \<Rightarrow> Some None | Some s \<Rightarrow> if ok s then Some (Some s) else None)"

text \<open>\<open>EnvSchema.safeParse(process.env)\<close>: None when any field has an issue.\<close>

definition env_schema :: "sdk \<Rightarrow> env \<Rightarrow> raw_env option" where
  "env_schema sdk env = do {
     net \<leftarrow> (case env ''STELLAR_NETWORK'' of None \<Rightarrow> Some Testnet | Some s \<Rightarrow> network_of_string s);
     horizon \<leftarrow> req_string env ''HORIZON_URL'' (valid_url sdk);
     soroban \<leftarrow> req_string env ''SOROBAN_RPC_URL'' (valid_url sdk);
     secret \<leftarrow> req_string env ''AGENT_SECRET_KEY'' (\<lambda>s. public_key_of_secret sdk s \<noteq> None);
     pub \<leftarrow> opt_string env ''AGENT_PUBLIC_KEY'' (public_key_ok sdk);
     arn \<leftarrow> opt_string env ''AGENT_SECRET_KEY_ARN'' (\<lambda>s. True);
     code \<leftarrow> default_string env ''X402_ASSET_CODE'' ''USDC'' (\<lambda>s. 1 \<le> length s \<and> length s \<le> 12);
     issuer \<leftarrow> req_string env ''X402_ASSET_ISSUER'' (public_key_ok sdk);
     origins \<leftarrow> opt_string env ''ALLOWED_X402_ORIGINS'' (\<lambda>s. True);
     limit \<leftarrow> default_string env ''AGENT_SPENDING_LIMIT'' ''100'' spending_limit_ok;
     db \<leftarrow> default_string env ''DB_PATH'' ''./agent.db'' (\<lambda>s. True);
     level \<leftarrow> (case env ''LOG_LEVEL'' of None \<Rightarrow> Some Info | Some s \<Rightarrow> log_level_of_string s);
     otlp \<leftarrow> opt_string env ''OTLP_ENDPOINT'' (valid_url sdk);
     window \<leftarrow> int_field env ''SPENDING_WINDOW_MS'' 100 None 86400000;
     retries \<leftarrow> int_field env ''MAX_RETRIES'' 1 (Some 10) 3;
     delay \<leftarrow> int_field env ''RETRY_DELAY_MS'' 100 None 1500;
     cache \<leftarrow> int_field env ''ACCOUNT_CACHE_TTL_MS'' 0 None 30000;
     timeout \<leftarrow> opt_int_field env ''RPC_TIMEOUT_MS'' 100;
     toml \<leftarrow> int_field env ''TOML_CACHE_TTL_MS'' 0 None 300000;
     per_minute \<leftarrow> int_field env ''MAX_X402_PAYMENTS_PER_MINUTE'' 1 None 10;
     nonce_ttl \<leftarrow> int_field env ''X402_NONCE_TTL_MS'' 1 None (24 * 60 * 60 * 1000);
     tasks \<leftarrow> int_field env ''MAX_CONCURRENT_TASKS'' 1 None 10;
     queue \<leftarrow> int_field env ''QUEUE_CAPACITY'' 0 None 0;
     fee \<leftarrow> int_field env ''MAX_SOROBAN_FEE_STROOPS'' 100 None 1000000;
     port \<leftarrow> int_field env ''HEALTH_PORT'' 1 (Some 65535) 3000;
     poll \<leftarrow> opt_int_field env ''CONTRACT_EVENT_POLL_MS'' 100;
     hook \<leftarrow> opt_string env ''WEBHOOK_URL'' (valid_url sdk);
     hook_secret \<leftarrow> opt_string env ''WEBHOOK_SECRET'' (\<lambda>s. 1 \<le> length s);
     Some \<lparr>STELLAR_NETWORK = net, HORIZON_URL = horizon, SOROBAN_RPC_URL = soroban,
       X402_ASSET_CODE = code, X402_ASSET_ISSUER = issuer, ALLOWED_X402_ORIGINS = origins,
       AGENT_SPENDING_LIMIT = limit, DB_PATH = db, LOG_LEVEL = level, OTLP_ENDPOINT = otlp,
       SPENDING_WINDOW_MS = window, MAX_RETRIES = retries, RETRY_DELAY_MS = delay,
       ACCOUNT_CACHE_TTL_MS = cache, TOML_CACHE_TTL_MS = toml,
       MAX_X402_PAYMENTS_PER_MINUTE = per_minute, X402_NONCE_TTL_MS = nonce_ttl,
       MAX_CONCURRENT_TASKS = tasks, QUEUE_CAPACITY = queue, MAX_SOROBAN_FEE_STROOPS = fee,
       HEALTH_PORT = port, CONTRACT_EVENT_POLL_MS = poll, WEBHOOK_URL = hook,
       WEBHOOK_SECRET = hook_secret, AGENT_SECRET_KEY_ARN = arn,
       AGENT_SECRET_KEY = secret, RAW_PUBLIC_KEY = pub, RAW_RPC_TIMEOUT_MS = timeout\<rparr>
   }"

section \<open>Deriving the configuration\<close>

datatype exit_reason =
  InvalidEnvironment | KeypairDerivation | PublicKeyMismatch | MainnetLimitTooHigh
  | BothKeyAndArn | SecretFetchFailed string

text \<open>\<open>MAINNET_SPENDING_CAP\<close>, and the same bound of the start-up check.\<close>

definition mainnet_spending_cap :: jsnum where
  "mainnet_spending_cap = JFin 10000"

text \<open>\<open>...(X ? { X } : {})\<close>: an empty string is dropped.\<close>

definition drop_empty :: "string option \<Rightarrow> string option" where
  "drop_empty v = (case v of Some s \<Rightarrow> if s = [] then None else Some s | None \<Rightarrow> None)"

text \<open>The configuration object: the secret stays out of it, the public key is the derived one.\<close>

definition build_config :: "raw_env \<Rightarrow> string \<Rightarrow> agent_config" where
  "build_config raw derived =
     env_rest.extend
       ((env_rest.truncate raw)\<lparr>ALLOWED_X402_ORIGINS := drop_empty (ALLOWED_X402_ORIGINS raw),
          AGENT_SECRET_KEY_ARN := drop_empty (AGENT_SECRET_KEY_ARN raw),
          OTLP_ENDPOINT := drop_empty (OTLP_ENDPOINT raw),
          WEBHOOK_URL := drop_empty (WEBHOOK_URL raw),
          WEBHOOK_SECRET := drop_empty (WEBHOOK_SECRET raw)\<rparr>)
       (agent_config.fields derived
          (case RAW_RPC_TIMEOUT_MS raw of Some t \<Rightarrow> t
           | None \<Rightarrow> RETRY_DELAY_MS raw * MAX_RETRIES raw * 2))"

text \<open>\<open>parseConfigAndDerive\<close>; \<open>Inl\<close> is the process exiting with code 1.\<close>

definition parse_config_and_derive :: "sdk \<Rightarrow> env \<Rightarrow> exit_reason + agent_config" where
  "parse_config_and_derive sdk env =
     (case env_schema sdk env of
        None \<Rightarrow> Inl InvalidEnvironment
      | Some raw \<Rightarrow>
        (case public_key_of_secret sdk (AGENT_SECRET_KEY raw) of
           None \<Rightarrow> Inl KeypairDerivation
         | Some derived \<Rightarrow>
           (if (case RAW_PUBLIC_KEY raw of None \<Rightarrow> False | Some p \<Rightarrow> p \<noteq> [] \<and> p \<noteq> derived)
            then Inl PublicKeyMismatch
            else if STELLAR_NETWORK raw = Mainnet \<and>
                    js_less mainnet_spending_cap (parse_float (AGENT_SPENDING_LIMIT raw))
            then Inl MainnetLimitTooHigh
            else Inr (build_config raw derived))))"

section \<open>Where the secret comes from\<close>

text \<open>\<open>process.env.X\<close> as a condition: set and not empty.\<close>

definition env_set :: "env \<Rightarrow> string \<Rightarrow> bool" where
  "env_set env k = (case env k of None \<Rightarrow> False | Some s \<Rightarrow> s \<noteq> [])"

text \<open>The region \<open>fetchSecretFromArn\<close> asks: the fourth part of the ARN.\<close>

definition arn_region :: "string \<Rightarrow> string" where
  "arn_region arn =
     (let parts = split_on (CHR '':'') arn
      in if 3 < length parts \<and> parts ! 3 \<noteq> [] then parts ! 3 else ''us-east-1'')"

text \<open>\<open>fetchSecretFromArn\<close>; \<open>send region arn\<close> is the Secrets Manager call and its
  \<open>SecretString\<close>.\<close>

definition fetch_secret_from_arn ::
    "(string \<Rightarrow> string \<Rightarrow> js_error + string option) \<Rightarrow> string \<Rightarrow> js_error + string" where
  "fetch_secret_from_arn send arn =
     bind_result (send (arn_region arn) arn) (\<lambda>res. case res of
         None \<Rightarrow> Inl (plain ''No SecretString found in secret'')
       | Some s \<Rightarrow> if s = [] then Inl (plain ''No SecretString found in secret'') else Inr s)"

text \<open>Which string of the fetched secret is the key: the AGENT\_SECRET\_KEY property of a
  JSON object, else its first string property when that is not empty, else the text itself.\<close>

definition secret_of_text :: "string \<Rightarrow> string" where
  "secret_of_text secret =
     (case parse_json secret of
        Some (JObj kvs) \<Rightarrow>
          (case obj_get kvs ''AGENT_SECRET_KEY'' of
             JStr s \<Rightarrow> s
           | _ \<Rightarrow> (case find (\<lambda>v. as_string v \<noteq> None) (map snd kvs) of
                 Some (JStr s) \<Rightarrow> if s = [] then secret else s
               | _ \<Rightarrow> secret))
      | _ \<Rightarrow> secret)"

definition load_config ::
    "sdk \<Rightarrow> (string \<Rightarrow> string \<Rightarrow> js_error + string option) \<Rightarrow> env \<Rightarrow> exit_reason + agent_config" where
  "load_config sdk send env =
     (if env_set env ''AGENT_SECRET_KEY'' \<and> env_set env ''AGENT_SECRET_KEY_ARN'' then Inl BothKeyAndArn
      else if env_set env ''AGENT_SECRET_KEY_ARN'' then
        (case fetch_secret_from_arn send (the (env ''AGENT_SECRET_KEY_ARN'')) of
           Inl e \<Rightarrow> Inl (SecretFetchFailed (err_message e))
         | Inr secret \<Rightarrow>
             parse_config_and_derive sdk (env(''AGENT_SECRET_KEY'' \<mapsto> secret_of_text secret)))
      else parse_config_and_derive sdk env)"

section \<open>The validation report\<close>

text \<open>\<open>formatValidationErrors\<close>: the two redacted parts of each line (the bullet and the
  colon between them are not modelled).\<close>

definition report_field :: "zod_issue \<Rightarrow> string" where
  "report_field i =
     (let raw = (if join_with ''.'' (issue_path i) = [] then ''unknown'' else join_with ''.'' (issue_path i));
          f = join_with ''.'' (map redact_all (issue_path i))
      in if f = [] then raw else f)"

definition format_validation_errors :: "zod_issue list \<Rightarrow> (string \<times> string) list" where
  "format_validation_errors is = map (\<lambda>i. (report_field i, redact_all (issue_message i))) is"

section \<open>What a loaded configuration guarantees\<close>

lemma int_field_bounds:
  assumes "int_field env name lo hi d = Some v"
    and "lo \<le> d" "\<forall>h. hi = Some h \<longrightarrow> d \<le> h"
  shows "lo \<le> v \<and> (\<forall>h. hi = Some h \<longrightarrow> v \<le> h)"
  using assms
  by (auto simp: int_field_def split: option.splits jsnum.splits if_splits)

lemma opt_int_field_bounds: "opt_int_field env name lo = Some (Some t) \<Longrightarrow> lo \<le> t"
  by (auto simp: opt_int_field_def int_field_def split: option.splits jsnum.splits if_splits)

text \<open>Each checked variable of a parsed environment went through its own field check.\<close>

lemma env_schema_fields:
  assumes "env_schema sdk env = Some raw"
  shows "int_field env ''SPENDING_WINDOW_MS'' 100 None 86400000 = Some (SPENDING_WINDOW_MS raw) \<and>
    int_field env ''MAX_RETRIES'' 1 (Some 10) 3 = Some (MAX_RETRIES raw) \<and>
    int_field env ''RETRY_DELAY_MS'' 100 None 1500 = Some (RETRY_DELAY_MS raw) \<and>
    opt_int_field env ''RPC_TIMEOUT_MS'' 100 = Some (RAW_RPC_TIMEOUT_MS raw) \<and>
    int_field env ''MAX_X402_PAYMENTS_PER_MINUTE'' 1 None 10 = Some (MAX_X402_PAYMENTS_PER_MINUTE raw) \<and>
    int_field env ''X402_NONCE_TTL_MS'' 1 None (24 * 60 * 60 * 1000) = Some (X402_NONCE_TTL_MS raw) \<and>
    int_field env ''MAX_CONCURRENT_TASKS'' 1 None 10 = Some (MAX_CONCURRENT_TASKS raw) \<and>
    int_field env ''QUEUE_CAPACITY'' 0 None 0 = Some (QUEUE_CAPACITY raw) \<and>
    int_field env ''MAX_SOROBAN_FEE_STROOPS'' 100 None 1000000 = Some (MAX_SOROBAN_FEE_STROOPS raw) \<and>
    int_field env ''HEALTH_PORT'' 1 (Some 65535) 3000 = Some (HEALTH_PORT raw) \<and>
    req_string env ''AGENT_SECRET_KEY'' (\<lambda>s. public_key_of_secret sdk s \<noteq> None) = Some (AGENT_SECRET_KEY raw) \<and>
    default_string env ''AGENT_SPENDING_LIMIT'' ''100'' spending_limit_ok = Some (AGENT_SPENDING_LIMIT raw)"
  using assms unfolding env_schema_def Option.bind_eq_Some_conv
  by (elim exE conjE) (simp only: option.inject, hypsubst, simp)

definition config_ok :: "agent_config \<Rightarrow> bool" where
  "config_ok c \<longleftrightarrow>
     100 \<le> SPENDING_WINDOW_MS c \<and> 1 \<le> MAX_RETRIES c \<and> MAX_RETRIES c \<le> 10 \<and>
     100 \<le> RETRY_DELAY_MS c \<and> 100 \<le> RPC_TIMEOUT_MS c \<and>
     1 \<le> MAX_X402_PAYMENTS_PER_MINUTE c \<and> 1 \<le> X402_NONCE_TTL_MS c \<and>
     1 \<le> MAX_CONCURRENT_TASKS c \<and> 0 \<le> QUEUE_CAPACITY c \<and> 100 \<le> MAX_SOROBAN_FEE_STROOPS c \<and>
     1 \<le> HEALTH_PORT c \<and> HEALTH_PORT c \<le> 65535 \<and> spending_limit_ok (AGENT_SPENDING_LIMIT c)"

lemma env_schema_bounds:
  assumes "env_schema sdk env = Some raw"
  shows "100 \<le> SPENDING_WINDOW_MS raw" "1 \<le> MAX_RETRIES raw" "MAX_RETRIES raw \<le> 10"
    "100 \<le> RETRY_DELAY_MS raw" "\<forall>t. RAW_RPC_TIMEOUT_MS raw = Some t \<longrightarrow> 100 \<le> t"
    "1 \<le> MAX_X402_PAYMENTS_PER_MINUTE raw" "1 \<le> X402_NONCE_TTL_MS raw"
    "1 \<le> MAX_CONCURRENT_TASKS raw" "0 \<le> QUEUE_CAPACITY raw" "100 \<le> MAX_SOROBAN_FEE_STROOPS raw"
    "1 \<le> HEALTH_PORT raw" "HEALTH_PORT raw \<le> 65535"
    "spending_limit_ok (AGENT_SPENDING_LIMIT raw)"
proof -
  note f = env_schema_fields [OF assms]
  show "100 \<le> SPENDING_WINDOW_MS raw"
    using int_field_bounds [of env "''SPENDING_WINDOW_MS''" 100 "None" "86400000" "SPENDING_WINDOW_MS raw"] f by simp_all
  show "1 \<le> MAX_RETRIES raw" "MAX_RETRIES raw \<le> 10"
    using int_field_bounds [of env "''MAX_RETRIES''" 1 "(Some 10)" "3" "MAX_RETRIES raw"] f by simp_all
  show "100 \<le> RETRY_DELAY_MS raw"
    using int_field_bounds [of env "''RETRY_DELAY_MS''" 100 "None" "1500" "RETRY_DELAY_MS raw"] f by simp_all
  show "1 \<le> MAX_X402_PAYMENTS_PER_MINUTE raw"
    using int_field_bounds [of env "''MAX_X402_PAYMENTS_PER_MINUTE''" 1 "None" "10" "MAX_X402_PAYMENTS_PER_MINUTE raw"] f by simp_all
  show "1 \<le> X402_NONCE_TTL_MS raw"
    using int_field_bounds [of env "''X402_NONCE_TTL_MS''" 1 "None" "(24 * 60 * 60 * 1000)" "X402_NONCE_TTL_MS raw"] f by simp_all
  show "1 \<le> MAX_CONCURRENT_TASKS raw"
    using int_field_bounds [of env "''MAX_CONCURRENT_TASKS''" 1 "None" "10" "MAX_CONCURRENT_TASKS raw"] f by simp_all
  show "0 \<le> QUEUE_CAPACITY raw"
    using int_field_bounds [of env "''QUEUE_CAPACITY''" 0 "None" "0" "QUEUE_CAPACITY raw"] f by simp_all
  show "100 \<le> MAX_SOROBAN_FEE_STROOPS raw"
    using int_field_bounds [of env "''MAX_SOROBAN_FEE_STROOPS''" 100 "None" "1000000" "MAX_SOROBAN_FEE_STROOPS raw"] f by simp_all
  show "1 \<le> HEALTH_PORT raw" "HEALTH_PORT raw \<le> 65535"
    using int_field_bounds [of env "''HEALTH_PORT''" 1 "(Some 65535)" "3000" "HEALTH_PORT raw"] f by simp_all
  show "\<forall>t. RAW_RPC_TIMEOUT_MS raw = Some t \<longrightarrow> 100 \<le> t"
    using opt_int_field_bounds [of env "''RPC_TIMEOUT_MS''" 100] f by simp
  have d: "spending_limit_ok ''100''"
    by (simp add: spending_limit_ok_def decimal_tail_ok_def is_digit_def ccode_def)
  from f have "default_string env ''AGENT_SPENDING_LIMIT'' ''100'' spending_limit_ok = Some (AGENT_SPENDING_LIMIT raw)"
    by (elim conjE)
  with d show "spending_limit_ok (AGENT_SPENDING_LIMIT raw)"
    by (auto simp: default_string_def split: option.splits if_splits)
qed

lemma build_config_fields:
  "STELLAR_NETWORK (build_config raw k) = STELLAR_NETWORK raw"
  "AGENT_SPENDING_LIMIT (build_config raw k) = AGENT_SPENDING_LIMIT raw"
  "AGENT_PUBLIC_KEY (build_config raw k) = k"
  "SPENDING_WINDOW_MS (build_config raw k) = SPENDING_WINDOW_MS raw"
  "MAX_RETRIES (build_config raw k) = MAX_RETRIES raw"
  "RETRY_DELAY_MS (build_config raw k) = RETRY_DELAY_MS raw"
  "MAX_X402_PAYMENTS_PER_MINUTE (build_config raw k) = MAX_X402_PAYMENTS_PER_MINUTE raw"
  "X402_NONCE_TTL_MS (build_config raw k) = X402_NONCE_TTL_MS raw"
  "MAX_CONCURRENT_TASKS (build_config raw k) = MAX_CONCURRENT_TASKS raw"
  "QUEUE_CAPACITY (build_config raw k) = QUEUE_CAPACITY raw"
  "MAX_SOROBAN_FEE_STROOPS (build_config raw k) = MAX_SOROBAN_FEE_STROOPS raw"
  "HEALTH_PORT (build_config raw k) = HEALTH_PORT raw"
  "RPC_TIMEOUT_MS (build_config raw k) = (case RAW_RPC_TIMEOUT_MS raw of Some t \<Rightarrow> t
     | None \<Rightarrow> RETRY_DELAY_MS raw * MAX_RETRIES raw * 2)"
  by (simp_all add: build_config_def env_rest.defs agent_config.defs)

lemma product_100: "100 \<le> (a::int) \<Longrightarrow> 1 \<le> b \<Longrightarrow> 100 \<le> a * b * 2"
proof -
  assume "100 \<le> a" "1 \<le> b"
  then have "100 * 1 \<le> a * b" by (intro mult_mono) auto
  then show ?thesis by simp
qed


text \<open>A concrete environment in which the check passes.\<close>

definition sample_key :: string where
  "sample_key = CHR ''G'' # replicate 55 (CHR ''A'')"

definition sample_sdk :: sdk where
  "sample_sdk = \<lparr>public_key_of_secret = (\<lambda>s. if s = ''S1'' then Some sample_key else None),
     valid_public_key = (\<lambda>s. s = sample_key), valid_url = (\<lambda>s. starts_with s ''https'')\<rparr>"

definition sample_env :: env where
  "sample_env = map_of [(''HORIZON_URL'', ''https://h''), (''SOROBAN_RPC_URL'', ''https://s''),
     (''AGENT_SECRET_KEY'', ''S1''), (''X402_ASSET_ISSUER'', sample_key),
     (''STELLAR_NETWORK'', ''mainnet'')]"

text \<open>A configuration object to evaluate the model on.\<close>

definition sample_agent_config :: agent_config where
  "sample_agent_config =
     \<lparr>STELLAR_NETWORK = Testnet, HORIZON_URL = ''https://h'', SOROBAN_RPC_URL = ''https://s'',
      X402_ASSET_CODE = ''USDC'', X402_ASSET_ISSUER = sample_key, ALLOWED_X402_ORIGINS = None,
      AGENT_SPENDING_LIMIT = ''100'', DB_PATH = ''agent.db'', LOG_LEVEL = Info, OTLP_ENDPOINT = None,
      SPENDING_WINDOW_MS = 86400000, MAX_RETRIES = 3, RETRY_DELAY_MS = 1500,
      ACCOUNT_CACHE_TTL_MS = 30000, TOML_CACHE_TTL_MS = 300000, MAX_X402_PAYMENTS_PER_MINUTE = 10,
      X402_NONCE_TTL_MS = 86400000, MAX_CONCURRENT_TASKS = 10, QUEUE_CAPACITY = 0,
      MAX_SOROBAN_FEE_STROOPS = 1000000, HEALTH_PORT = 3000, CONTRACT_EVENT_POLL_MS = None,
      WEBHOOK_URL = None, WEBHOOK_SECRET = None, AGENT_SECRET_KEY_ARN = None,
      AGENT_PUBLIC_KEY = sample_key, RPC_TIMEOUT_MS = 9000\<rparr>"

lemma sample_agent_config_simps [simp]:
  "STELLAR_NETWORK sample_agent_config = Testnet"
  "AGENT_SPENDING_LIMIT sample_agent_config = ''100''"
  "X402_ASSET_CODE sample_agent_config = ''USDC''"
  "MAX_RETRIES sample_agent_config = 3" "RETRY_DELAY_MS sample_agent_config = 1500"
  "ACCOUNT_CACHE_TTL_MS sample_agent_config = 30000" "TOML_CACHE_TTL_MS sample_agent_config = 300000"
  "MAX_X402_PAYMENTS_PER_MINUTE sample_agent_config = 10"
  "X402_NONCE_TTL_MS sample_agent_config = 86400000" "MAX_CONCURRENT_TASKS sample_agent_config = 10"
  "QUEUE_CAPACITY sample_agent_config = 0" "MAX_SOROBAN_FEE_STROOPS sample_agent_config = 1000000"
  "AGENT_PUBLIC_KEY sample_agent_config = sample_key" "RPC_TIMEOUT_MS sample_agent_config = 9000"
  by (simp_all add: sample_agent_config_def)

lemma sample_key_ok: "public_key_ok sample_sdk sample_key"
  by (simp add: public_key_ok_def is_valid_stellar_public_key_def sample_sdk_def sample_key_def)

lemma spending_limit_ok_100: "spending_limit_ok ''100''"
  by (simp add: spending_limit_ok_def decimal_tail_ok_def is_digit_def ccode_def)

lemma parse_float_100: "parse_float ''100'' = JFin 100"
  using to_double_int [of 100]
  by (simp add: parse_float_integer is_digit_def ccode_def digits_val_def digit_val_def)

lemma sample_env_schema:
  "\<exists>raw. env_schema sample_sdk sample_env = Some raw \<and> STELLAR_NETWORK raw = Mainnet \<and>
     AGENT_SECRET_KEY raw = ''S1'' \<and> RAW_PUBLIC_KEY raw = None \<and> AGENT_SPENDING_LIMIT raw = ''100''"
  by (simp add: env_schema_def sample_env_def network_of_string_def req_string_def opt_string_def
      default_string_def int_field_def opt_int_field_def sample_key_ok spending_limit_ok_100)
    (simp add: sample_sdk_def)

lemma sample_config:
  "\<exists>c. parse_config_and_derive sample_sdk sample_env = Inr c \<and> STELLAR_NETWORK c = Mainnet"
proof -
  obtain raw where "env_schema sample_sdk sample_env = Some raw" "STELLAR_NETWORK raw = Mainnet"
     "AGENT_SECRET_KEY raw = ''S1''" "RAW_PUBLIC_KEY raw = None" "AGENT_SPENDING_LIMIT raw = ''100''"
    using sample_env_schema by blast
  moreover have "public_key_of_secret sample_sdk ''S1'' = Some sample_key"
    by (simp add: sample_sdk_def)
  ultimately show ?thesis
    by (simp add: parse_config_and_derive_def parse_float_100 mainnet_spending_cap_def build_config_fields)
qed


lemma secret_prefix_append_sep:
  assumes "\<not> is_base32 d" "secret_prefix (a @ d # b)" "a \<noteq> []"
  shows "secret_prefix a"
proof (cases "56 \<le> length a")
  case True
  with assms(2,3) show ?thesis by (auto simp: secret_prefix_def)
next
  case False
  obtain x xs where a: "a = x # xs" using assms(3) by (cases a) auto
  have "d \<in> set (take 55 (tl (a @ d # b)))"
    using False by (simp add: a take_Cons' take_append)
  with assms(1,2) show ?thesis by (auto simp: secret_prefix_def)
qed

lemma secret_free_join_sep:
  "\<not> is_base32 d \<Longrightarrow> secret_free a \<Longrightarrow> secret_free b \<Longrightarrow> secret_free (a @ d # b)"
proof (induction a)
  case Nil
  have "\<not> secret_prefix (d # b)"
    using Nil(1) by (auto simp: secret_prefix_def is_base32_def ccode_def)
  with Nil show ?case by (simp add: secret_free_Cons)
next
  case (Cons c a)
  then show ?case using secret_prefix_append_sep [of d "c # a" b] by (auto simp: secret_free_Cons)
qed

lemma secret_free_join:
  "\<forall>w \<in> set ws. secret_free w \<Longrightarrow> secret_free (join_with ''.'' ws)"
proof (induction "''.''" ws rule: join_with.induct)
  case (3 w v ws)
  have "\<not> is_base32 (CHR ''.'')" by (simp add: is_base32_def ccode_def)
  with 3 show ?case by (simp add: secret_free_join_sep)
qed simp_all

lemma join_empty: "join_with ''.'' ws = [] \<Longrightarrow> ws = [] \<or> ws = [[]]"
  by (cases "(''.'', ws)" rule: join_with.cases) auto

lemma redact_all_empty: "redact_all s = [] \<Longrightarrow> s = []"
  by (cases s) (auto simp: redacted_def split: if_splits)

lemma secret_free_report_field: "secret_free (report_field i)"
proof (cases "join_with ''.'' (map redact_all (issue_path i)) = []")
  case True
  from join_empty [OF this] have "join_with ''.'' (issue_path i) = []"
    by (auto dest: redact_all_empty)
  then have "report_field i = ''unknown''" using True by (simp add: report_field_def Let_def)
  then show ?thesis by (simp add: secret_free_short)
next
  case False
  then show ?thesis by (simp add: report_field_def Let_def secret_free_join redact_all_secret_free)
qed

text \<open>
  Whatever the issues of an invalid environment hold, no line of the printed report
  contains a secret key, neither in its message nor in the field it names.
\<close>

theorem validation_report_secret_free:
  "(f, m) \<in> set (format_validation_errors is) \<Longrightarrow> secret_free f \<and> secret_free m"
  by (auto simp: format_validation_errors_def redact_all_secret_free secret_free_report_field)

theorem validation_report_secret_free_witness:
  "\<exists>f m. (f, m) \<in> set (format_validation_errors
      [\<lparr>issue_path = [''AGENT'', CHR ''S'' # replicate 55 (CHR ''B'')], issue_message = ''bad'', issue_code = []\<rparr>])
     \<and> secret_free f \<and> secret_free m"
proof -
  let ?is = "[\<lparr>issue_path = [''AGENT'', CHR ''S'' # replicate 55 (CHR ''B'')], issue_message = ''bad'', issue_code = []\<rparr>]"
  have "(report_field (hd ?is), redact_all ''bad'') \<in> set (format_validation_errors ?is)"
    by (simp add: format_validation_errors_def)
  from validation_report_secret_free [OF this] this show ?thesis by blast
qed
end
