(* ===== verification/Persistence.thy ===== *)
theory Persistence imports Config begin

text \<open>
  backend/persistence.ts and backend/db/client.ts: the two SQLite tables of the audit log and of
  the spending window. A database whose file is missing or corrupt is one whose statements all
  raise the error \<open>db_fault\<close>. Rows with equal timestamps are read in insertion order, the order
  of the index on that column.
\<close>

section \<open>Results\<close>

text \<open>An \<open>AgentResult\<close>; \<open>data\<close> is \<open>JUndef\<close> and the options are None when absent.\<close>

record agent_result =
  success :: bool
  task_type :: string
  result_data :: jsval
  result_error :: "string option"
  result_error_type :: "string option"
  correlation_id :: "string option"
  duration_ms :: "int option"
  sequence_index :: "nat option"

text \<open>The failed result the agent builds, and the successful one.\<close>

definition failed_result :: "string \<Rightarrow> string \<Rightarrow> string option \<Rightarrow> string \<Rightarrow> int option \<Rightarrow> agent_result" where
  "failed_result ty msg ety cid dur =
     \<lparr>success = False, task_type = ty, result_data = JUndef, result_error = Some msg,
      result_error_type = ety, correlation_id = Some cid, duration_ms = dur, sequence_index = None\<rparr>"

definition ok_result :: "string \<Rightarrow> jsval \<Rightarrow> string \<Rightarrow> agent_result" where
  "ok_result ty v cid =
     \<lparr>success = True, task_type = ty, result_data = v, result_error = None,
      result_error_type = None, correlation_id = Some cid, duration_ms = None, sequence_index = None\<rparr>"

section \<open>Tables\<close>

record result_row =
  row_id :: nat
  row_timestamp :: string
  row_task_type :: string
  row_success :: int
  row_data :: "string option"
  row_error :: "string option"
  row_correlation_id :: "string option"

record spending_record =
  amount :: jsnum
  timestamp :: int

record database =
  agent_results :: "result_row list"
  next_row_id :: nat
  spending_records :: "spending_record list"
  db_fault :: "js_error option"

definition empty_db :: database where
  "empty_db = \<lparr>agent_results = [], next_row_id = 1, spending_records = [], db_fault = None\<rparr>"

text \<open>\<open>getDb()\<close> followed by a statement: either all statements raise or all run.\<close>

definition get_db :: "database \<Rightarrow> js_error + database" where
  "get_db db = (case db_fault db of Some e \<Rightarrow> Inl e | None \<Rightarrow> Inr db)"

definition probe_db :: "database \<Rightarrow> js_error + unit" where
  "probe_db db = bind_result (get_db db) (\<lambda>d. Inr ())"

text \<open>The column of \<open>data\<close>: undefined is NULL; a BigInt inside raises, and so does binding a
  value that has no JSON text.\<close>

definition data_column :: "(rat \<Rightarrow> string) \<Rightarrow> jsval \<Rightarrow> js_error + string option" where
  "data_column num v =
     (if v = JUndef then Inr None
      else (case json_value num v of
              Inl u \<Rightarrow> Inl (TypeErr ''Do not know how to serialize a BigInt'')
            | Inr None \<Rightarrow> Inl (TypeErr ''SQLite3 can only bind numbers, strings, bigints, buffers, and null'')
            | Inr (Some t) \<Rightarrow> Inr (Some t)))"

definition save_result ::
    "(rat \<Rightarrow> string) \<Rightarrow> agent_result \<Rightarrow> string \<Rightarrow> database \<Rightarrow> js_error + database" where
  "save_result num r ts db =
     bind_result (get_db db) (\<lambda>d.
     bind_result (data_column num (result_data r)) (\<lambda>col.
       Inr (d\<lparr>agent_results := agent_results d @
            [\<lparr>row_id = next_row_id d, row_timestamp = ts, row_task_type = task_type r,
              row_success = (if success r then 1 else 0), row_data = col,
              row_error = result_error r, row_correlation_id = correlation_id r\<rparr>],
          next_row_id := next_row_id d + 1\<rparr>)))"

text \<open>\<open>ORDER BY id DESC LIMIT ? OFFSET ?\<close>: a negative limit is no limit, a negative offset is 0.\<close>

definition select_page :: "int \<Rightarrow> int \<Rightarrow> 'a list \<Rightarrow> 'a list" where
  "select_page limit offset xs =
     (let ys = drop (nat offset) xs in if limit < 0 then ys else take (nat limit) ys)"

definition row_result :: "result_row \<Rightarrow> js_error + (agent_result \<times> string)" where
  "row_result r =
     (case (case row_data r of None \<Rightarrow> Some JUndef | Some t \<Rightarrow> parse_json t) of
        None \<Rightarrow> Inl (plain ''Unexpected token in JSON'')
      | Some v \<Rightarrow>
          Inr (\<lparr>success = (row_success r = 1), task_type = row_task_type r, result_data = v,
                result_error = row_error r, result_error_type = None,
                correlation_id = row_correlation_id r, duration_ms = None, sequence_index = None\<rparr>,
               row_timestamp r))"

definition get_results :: "int \<Rightarrow> int \<Rightarrow> database \<Rightarrow> js_error + (agent_result \<times> string) list" where
  "get_results limit offset db =
     bind_result (get_db db) (\<lambda>d.
       map_result row_result
         (select_page limit offset (rev (sort_key row_id (agent_results d)))))"

definition save_spending_record :: "spending_record \<Rightarrow> database \<Rightarrow> js_error + database" where
  "save_spending_record r db =
     bind_result (get_db db) (\<lambda>d.
       if is_nan (amount r) then Inl (plain ''NOT NULL constraint failed: spending_records.amount'')
       else Inr (d\<lparr>spending_records := spending_records d @ [r]\<rparr>))"

definition load_spending_records :: "int \<Rightarrow> database \<Rightarrow> js_error + spending_record list" where
  "load_spending_records since db =
     bind_result (get_db db) (\<lambda>d.
       Inr (sort_key timestamp (filter (\<lambda>r. since \<le> timestamp r) (spending_records d))))"

definition prune_spending_records :: "int \<Rightarrow> database \<Rightarrow> js_error + database" where
  "prune_spending_records cutoff db =
     bind_result (get_db db) (\<lambda>d.
       Inr (d\<lparr>spending_records := filter (\<lambda>r. \<not> timestamp r < cutoff) (spending_records d)\<rparr>))"

definition clear_spending_records :: "database \<Rightarrow> js_error + database" where
  "clear_spending_records db = bind_result (get_db db) (\<lambda>d. Inr (d\<lparr>spending_records := []\<rparr>))"

text \<open>A write whose failure the caller swallows: the database is left as it was.\<close>

definition best_effort :: "(database \<Rightarrow> js_error + database) \<Rightarrow> database \<Rightarrow> database" where
  "best_effort f db = (case f db of Inl e \<Rightarrow> db | Inr db' \<Rightarrow> db')"

section \<open>The manager consulted by health checks\<close>

record db_manager =
  is_open :: bool

definition health_check :: "db_manager \<Rightarrow> database \<Rightarrow> bool" where
  "health_check m db =
     (if \<not> is_open m then False else (case probe_db db of Inl e \<Rightarrow> False | Inr u \<Rightarrow> True))"

definition close_manager :: "db_manager \<Rightarrow> db_manager" where
  "close_manager m = m\<lparr>is_open := False\<rparr>"

section \<open>Properties\<close>

lemmas db_defs = get_db_def save_spending_record_def load_spending_records_def
  prune_spending_records_def clear_spending_records_def probe_db_def

lemma best_effort_fault [simp]:
  "db_fault db = Some e \<Longrightarrow> best_effort (save_spending_record r) db = db"
  "db_fault db = Some e \<Longrightarrow> best_effort (prune_spending_records c) db = db"
  "db_fault db = Some e \<Longrightarrow> best_effort clear_spending_records db = db"
  by (simp_all add: best_effort_def db_defs)

lemma best_effort_ok [simp]:
  "db_fault db = None \<Longrightarrow> \<not> is_nan (amount r) \<Longrightarrow>
     best_effort (save_spending_record r) db = db\<lparr>spending_records := spending_records db @ [r]\<rparr>"
  "db_fault db = None \<Longrightarrow> best_effort (prune_spending_records c) db =
     db\<lparr>spending_records := filter (\<lambda>r. \<not> timestamp r < c) (spending_records db)\<rparr>"
  "db_fault db = None \<Longrightarrow> best_effort clear_spending_records db = db\<lparr>spending_records := []\<rparr>"
  by (simp_all add: best_effort_def db_defs)

text \<open>Row ids grow with the rows and stay below the counter.\<close>

definition rows_ok :: "database \<Rightarrow> bool" where
  "rows_ok db \<longleftrightarrow> sorted_wrt (\<lambda>a b. row_id a < row_id b) (agent_results db) \<and>
     (\<forall>r \<in> set (agent_results db). row_id r < next_row_id db)"

lemma rows_ok_empty [simp]: "rows_ok empty_db"
  by (simp add: rows_ok_def empty_db_def)

lemma rows_ok_save: "save_result num r ts db = Inr db' \<Longrightarrow> rows_ok db \<Longrightarrow> rows_ok db'"
  by (auto simp: save_result_def bind_result_Inr_iff get_db_def rows_ok_def sorted_wrt_append
      less_Suc_eq split: option.splits)

lemma rows_ok_sorted: "rows_ok db \<Longrightarrow> sort_key row_id (agent_results db) = agent_results db"
  by (rule sort_key_id_if_sorted)
    (auto simp: rows_ok_def sorted_map elim: sorted_wrt_mono_rel [rotated])

lemma newest_first:
  assumes "save_result num r ts db = Inr db'" "rows_ok db"
  shows "rev (sort_key row_id (agent_results db')) =
    last (agent_results db') # rev (sort_key row_id (agent_results db))"
proof -
  from rows_ok_sorted [OF rows_ok_save [OF assms]] rows_ok_sorted [OF assms(2)] assms(1)
  show ?thesis
    by (auto simp: save_result_def bind_result_Inr_iff get_db_def split: option.splits)
qed

text \<open>
  The audit log gives back what it stored: after a result is saved, the first row of the
  newest-first listing is that result, with its timestamp, type, success flag, error and
  correlation id, and with the data its JSON text parses to; a saved failure is read as a
  failure.
\<close>

theorem get_results_after_save:
  assumes "rows_ok db" "save_result num r ts db = Inr db'"
    and "result_data r = JUndef \<and> v = JUndef \<or>
      (\<exists>t. json_value num (result_data r) = Inr (Some t) \<and> parse_json t = Some v)"
  shows "get_results 1 0 db' = Inr [(r\<lparr>result_data := v, result_error_type := None,
    duration_ms := None, sequence_index := None\<rparr>, ts)]"
proof -
  from assms(2) obtain col where col: "data_column num (result_data r) = Inr col"
    and fault: "db_fault db = None"
    and db': "agent_results db' = agent_results db @
      [\<lparr>row_id = next_row_id db, row_timestamp = ts, row_task_type = task_type r,
        row_success = (if success r then 1 else 0), row_data = col,
        row_error = result_error r, row_correlation_id = correlation_id r\<rparr>]" "db_fault db' = None"
    by (auto simp: save_result_def bind_result_Inr_iff get_db_def split: option.splits)
  have "(case col of None \<Rightarrow> Some JUndef | Some t \<Rightarrow> parse_json t) = Some v"
    using assms(3) col by (cases "result_data r = JUndef") (auto simp: data_column_def)
  then have row: "row_result (last (agent_results db')) = Inr (r\<lparr>result_data := v,
      result_error_type := None, duration_ms := None, sequence_index := None\<rparr>, ts)"
    by (simp add: row_result_def db')
  have "get_results 1 0 db' = map_result row_result [last (agent_results db')]"
    using newest_first [OF assms(2,1)] db'(2)
    by (simp add: get_results_def get_db_def select_page_def)
  with row show ?thesis by simp
qed

theorem get_results_after_save_witness:
  "\<exists>db'. save_result (\<lambda>q. []) (failed_result ''swap'' ''no path'' None ''c1'' None) ''t0'' empty_db = Inr db' \<and>
     get_results 1 0 db' = Inr [(failed_result ''swap'' ''no path'' None ''c1'' None, ''t0'')]"
proof -
  let ?r = "failed_result ''swap'' ''no path'' None ''c1'' None"
  obtain db' where s: "save_result (\<lambda>q. []) ?r ''t0'' empty_db = Inr db'"
    by (simp add: save_result_def get_db_def empty_db_def data_column_def failed_result_def)
  have "get_results 1 0 db' = Inr [(?r, ''t0'')]"
    using get_results_after_save [OF rows_ok_empty s, of JUndef] by (simp add: failed_result_def)
  with s show ?thesis by blast
qed

end
