(* ===== verification/Spending.thy ===== *)
theory Spending imports Persistence begin

text \<open>
  backend/spending\_tracker.ts and \<open>assertWithinSpendingLimit\<close> of backend/agent.ts: the rolling
  window of payments, mirrored to SQLite. One synchronous call reads one time \<open>now\<close>
  (\<open>Date.now()\<close> does not advance inside it). Amounts and totals are doubles.
\<close>

section \<open>The tracker\<close>

record tracker =
  window_ms :: int
  window :: "spending_record list"
  store :: database
  near_limit_warnings :: "(jsnum \<times> jsnum) list"

text \<open>The loop of \<open>pruneOld\<close>: expired records leave from the front.\<close>

fun prune_front :: "int \<Rightarrow> spending_record list \<Rightarrow> spending_record list" where
  "prune_front cutoff [] = []"
| "prune_front cutoff (r # rs) = (if timestamp r < cutoff then prune_front cutoff rs else r # rs)"

definition prune_old :: "int \<Rightarrow> tracker \<Rightarrow> tracker" where
  "prune_old now t =
     (let cutoff = now - window_ms t; rs = prune_front cutoff (window t)
      in if length rs = length (window t) then t
         else t\<lparr>window := rs, store := best_effort (prune_spending_records cutoff) (store t)\<rparr>)"

text \<open>\<open>reduce((sum, r) => sum + r.amount, 0)\<close>.\<close>

definition sum_amounts :: "spending_record list \<Rightarrow> jsnum" where
  "sum_amounts rs = foldl (\<lambda>s r. js_add s (amount r)) (JFin 0) rs"

text \<open>The constructor: the unexpired part of what an earlier process left behind.\<close>

definition restore :: "int \<Rightarrow> int \<Rightarrow> database \<Rightarrow> tracker" where
  "restore w now db =
     \<lparr>window_ms = w,
      window = (case load_spending_records (now - w) db of Inl e \<Rightarrow> [] | Inr rs \<Rightarrow> rs),
      store = db, near_limit_warnings = []\<rparr>"

definition tracker_total :: "int \<Rightarrow> tracker \<Rightarrow> tracker \<times> jsnum" where
  "tracker_total now t = (let t' = prune_old now t in (t', sum_amounts (window t')))"

record window_status =
  ws_total :: jsnum
  ws_record_count :: nat
  ws_window_ms :: int
  ws_oldest :: "int option"

definition get_window_status :: "int \<Rightarrow> tracker \<Rightarrow> tracker \<times> window_status" where
  "get_window_status now t =
     (let t' = prune_old now t
      in (t', \<lparr>ws_total = sum_amounts (window t'), ws_record_count = length (window t'),
               ws_window_ms = window_ms t',
               ws_oldest = (case window t' of [] \<Rightarrow> None | r # rs \<Rightarrow> Some (timestamp r))\<rparr>))"

definition clear_tracker :: "tracker \<Rightarrow> tracker" where
  "clear_tracker t = t\<lparr>window := [], store := best_effort clear_spending_records (store t)\<rparr>"

text \<open>The record is appended, in memory and in the database, before the total is compared.\<close>

definition push_record :: "spending_record \<Rightarrow> tracker \<Rightarrow> tracker" where
  "push_record r t =
     t\<lparr>window := window t @ [r], store := best_effort (save_spending_record r) (store t)\<rparr>"

text \<open>The message of a rejected total; \<open>num\<close> prints a finite number.\<close>

definition cumulative_error :: "(rat \<Rightarrow> string) \<Rightarrow> jsnum \<Rightarrow> jsnum \<Rightarrow> js_error" where
  "cumulative_error num tot limit =
     plain (''Cumulative spending '' @ num_text num tot @ '' exceeds limit '' @
            num_text num limit)"

definition record_payment ::
    "(rat \<Rightarrow> string) \<Rightarrow> string \<Rightarrow> int \<Rightarrow> string \<Rightarrow> tracker \<Rightarrow> tracker \<times> (js_error + unit)" where
  "record_payment num limit_str now amount_str t =
     (let a = parse_float amount_str in
      if is_nan a then (t, Inr ())
      else
        (let t1 = push_record \<lparr>amount = a, timestamp = now\<rparr> (prune_old now t);
             (t2, tot) = tracker_total now t1;
             limit = parse_float limit_str
         in if is_nan tot \<or> is_nan limit then (t2, Inr ())
            else
              (let t3 = (if js_less (js_mul limit (to_double (8 / 10))) tot
                         then t2\<lparr>near_limit_warnings := near_limit_warnings t2 @ [(tot, limit)]\<rparr>
                         else t2)
               in if js_less limit tot then (t3, Inl (cumulative_error num tot limit))
                  else (t3, Inr ()))))"

section \<open>The guard of the agent\<close>

definition exceeds_limit_error :: "agent_config \<Rightarrow> string \<Rightarrow> js_error" where
  "exceeds_limit_error c a = plain (''Payment amount '' @ a @ '' '' @ X402_ASSET_CODE c @
     '' exceeds AGENT_SPENDING_LIMIT of '' @ AGENT_SPENDING_LIMIT c)"

definition exceeds_cap_error :: "agent_config \<Rightarrow> string \<Rightarrow> js_error" where
  "exceeds_cap_error c a = plain (''Payment amount '' @ a @ '' '' @ X402_ASSET_CODE c @
     '' exceeds mainnet spending cap of 10000'')"

definition assert_within_spending_limit ::
    "(rat \<Rightarrow> string) \<Rightarrow> agent_config \<Rightarrow> int \<Rightarrow> jsval \<Rightarrow> tracker \<Rightarrow> tracker \<times> (js_error + unit)" where
  "assert_within_spending_limit num c now v t =
     (case v of
        JStr a \<Rightarrow>
          (let parsed = parse_float a; limit = parse_float (AGENT_SPENDING_LIMIT c) in
           if \<not> is_nan parsed \<and> js_less limit parsed then (t, Inl (exceeds_limit_error c a))
           else if \<not> is_nan parsed \<and> STELLAR_NETWORK c = Mainnet \<and> js_less mainnet_spending_cap parsed
             then (t, Inl (exceeds_cap_error c a))
           else record_payment num (AGENT_SPENDING_LIMIT c) now a t)
      | _ \<Rightarrow> (t, Inr ()))"

section \<open>The window\<close>

definition sorted_window :: "spending_record list \<Rightarrow> bool" where
  "sorted_window rs \<longleftrightarrow> sorted (map timestamp rs)"

lemma sorted_window_simps [simp]:
  "sorted_window []"
  "sorted_window (r # rs) \<longleftrightarrow> (\<forall>x \<in> set rs. timestamp r \<le> timestamp x) \<and> sorted_window rs"
  by (auto simp: sorted_window_def)

lemma sorted_window_snoc:
  "sorted_window rs \<Longrightarrow> \<forall>x \<in> set rs. timestamp x \<le> timestamp r \<Longrightarrow> sorted_window (rs @ [r])"
  by (induction rs) auto

text \<open>On a sorted window the loop drops exactly the expired records.\<close>

lemma prune_front_filter:
  "sorted_window rs \<Longrightarrow> prune_front c rs = filter (\<lambda>r. \<not> timestamp r < c) rs"
proof (induction rs)
  case (Cons r rs)
  then show ?case
    by (cases "timestamp r < c") (auto intro!: filter_True [symmetric])
qed simp

lemma prune_front_suffix: "\<exists>ps. rs = ps @ prune_front c rs \<and> (\<forall>r \<in> set ps. timestamp r < c)"
proof (induction rs)
  case (Cons r rs)
  then obtain ps where ps: "rs = ps @ prune_front c rs" "\<forall>r \<in> set ps. timestamp r < c" by blast
  show ?case
  proof (cases "timestamp r < c")
    case True
    with ps show ?thesis by (intro exI [of _ "r # ps"]) simp
  qed simp
qed simp

lemma prune_front_same: "length (prune_front c rs) = length rs \<Longrightarrow> prune_front c rs = rs"
  using prune_front_suffix [of rs c] by (metis append_self_conv2 length_append add_cancel_left_left length_0_conv)

lemma prune_old_window [simp]: "window (prune_old now t) = prune_front (now - window_ms t) (window t)"
  by (simp add: prune_old_def Let_def prune_front_same)

lemma prune_old_frame [simp, frame_simps]:
  "window_ms (prune_old now t) = window_ms t"
  "near_limit_warnings (prune_old now t) = near_limit_warnings t"
  by (simp_all add: prune_old_def Let_def)

lemma push_record_simps [simp]:
  "window (push_record r t) = window t @ [r]" "window_ms (push_record r t) = window_ms t"
  "near_limit_warnings (push_record r t) = near_limit_warnings t"
  by (simp_all add: push_record_def)

lemma prune_front_idem [simp]: "prune_front c (prune_front c rs) = prune_front c rs"
  by (induction rs) auto

text \<open>The records are in time order, none is later than \<open>now\<close>, none is not a number.\<close>

definition tracker_ok :: "int \<Rightarrow> tracker \<Rightarrow> bool" where
  "tracker_ok now t \<longleftrightarrow> 0 \<le> window_ms t \<and> sorted_window (window t) \<and>
     (\<forall>r \<in> set (window t). timestamp r \<le> now \<and> \<not> is_nan (amount r))"

lemma tracker_ok_later: "tracker_ok now t \<Longrightarrow> now \<le> now' \<Longrightarrow> tracker_ok now' t"
  by (force simp: tracker_ok_def)

lemma tracker_ok_prune: "tracker_ok now t \<Longrightarrow> tracker_ok now (prune_old now t)"
  by (auto simp: tracker_ok_def prune_front_filter sorted_window_def intro: sorted_filter)

lemma tracker_ok_push:
  "tracker_ok now t \<Longrightarrow> \<not> is_nan a \<Longrightarrow> tracker_ok now (push_record \<lparr>amount = a, timestamp = now\<rparr> t)"
  by (auto simp: tracker_ok_def sorted_window_snoc)

text \<open>What the window holds after a payment was presented.\<close>

definition unexpired :: "int \<Rightarrow> tracker \<Rightarrow> spending_record list" where
  "unexpired now t = filter (\<lambda>r. now - window_ms t \<le> timestamp r) (window t)"

lemma prune_old_unexpired: "tracker_ok now t \<Longrightarrow> window (prune_old now t) = unexpired now t"
  by (auto simp: tracker_ok_def prune_front_filter unexpired_def not_less)

lemma record_payment_window:
  assumes "tracker_ok now t" "\<not> is_nan (parse_float a)"
  shows "window (fst (record_payment num l now a t)) =
    unexpired now t @ [\<lparr>amount = parse_float a, timestamp = now\<rparr>]"
proof -
  let ?r = "\<lparr>amount = parse_float a, timestamp = now\<rparr>"
  let ?t = "push_record ?r (prune_old now t)"
  have ok: "tracker_ok now ?t" using assms by (intro tracker_ok_push tracker_ok_prune)
  have "window ?t = unexpired now t @ [?r]"
    using prune_old_unexpired [OF assms(1)] by simp
  moreover have "\<forall>r \<in> set (unexpired now t @ [?r]). \<not> timestamp r < now - window_ms t"
    using assms(1) by (auto simp: unexpired_def tracker_ok_def)
  ultimately have "prune_front (now - window_ms t) (window ?t) = window ?t"
    using ok by (simp only: tracker_ok_def prune_front_filter filter_id_conv)
  then show ?thesis using assms prune_old_unexpired [OF assms(1)]
    by (simp add: record_payment_def tracker_total_def Let_def)
qed

lemma record_payment_result:
  assumes "tracker_ok now t" "\<not> is_nan (parse_float a)"
  shows "snd (record_payment num l now a t) =
    (let tot = sum_amounts (window (fst (record_payment num l now a t)));
         limit = parse_float l
     in if \<not> is_nan tot \<and> \<not> is_nan limit \<and> js_less limit tot
        then Inl (cumulative_error num tot limit) else Inr ())"
  by (auto simp: record_payment_def tracker_total_def Let_def assms)

lemma record_payment_ok:
  assumes "tracker_ok now t"
  shows "tracker_ok now (fst (record_payment num l now a t))"
proof (cases "is_nan (parse_float a)")
  case False
  let ?t = "push_record \<lparr>amount = parse_float a, timestamp = now\<rparr> (prune_old now t)"
  have "tracker_ok now (prune_old now ?t)"
    using assms False by (intro tracker_ok_prune tracker_ok_push)
  then show ?thesis
    by (auto simp: record_payment_def tracker_total_def Let_def tracker_ok_def False)
qed (simp add: record_payment_def assms)

lemma assert_ok: "tracker_ok now t \<Longrightarrow> tracker_ok now (fst (assert_within_spending_limit num c now v t))"
  by (auto simp: assert_within_spending_limit_def Let_def record_payment_ok split: jsval.splits)

section \<open>Totals of doubles and exact totals\<close>

lemma to_double_ge_pow:
  assumes "2 ^ 29 \<le> x"
  shows "js_leq (JFin (2 ^ 29)) (to_double x)"
proof -
  have "js_leq (to_double (2 ^ 29)) (to_double x)" using assms by (intro to_double_mono) auto
  moreover have "to_double (2 ^ 29) = JFin (2 ^ 29)" using to_double_int [of "2 ^ 29"] by simp
  ultimately show ?thesis by simp
qed

lemma sum_stays_big:
  assumes "js_leq (JFin (2 ^ 29)) s" "0 \<le> a"
  shows "js_leq (JFin (2 ^ 29)) (js_add s (JFin a))"
proof (cases s)
  case (JFin x)
  with assms have "2 ^ 29 \<le> x + a" by simp
  then show ?thesis unfolding JFin js_add.simps by (rule to_double_ge_pow)
qed (use assms in \<open>auto simp: js_leq_def\<close>)

text \<open>The exact value of a finite amount.\<close>

definition exact_amount :: "spending_record \<Rightarrow> rat" where
  "exact_amount r = (case amount r of JFin a \<Rightarrow> a | _ \<Rightarrow> 0)"

definition payment_amounts :: "spending_record list \<Rightarrow> bool" where
  "payment_amounts rs \<longleftrightarrow> (\<forall>r \<in> set rs. case amount r of JFin a \<Rightarrow> 0 \<le> a | _ \<Rightarrow> False)"

lemma payment_amounts_Cons:
  "payment_amounts (r # rs) \<longleftrightarrow> (\<exists>a. amount r = JFin a \<and> 0 \<le> a) \<and> payment_amounts rs"
  by (auto simp: payment_amounts_def split: jsnum.splits)

lemma fold_stays_big:
  "payment_amounts rs \<Longrightarrow> js_leq (JFin (2 ^ 29)) s \<Longrightarrow>
   js_leq (JFin (2 ^ 29)) (foldl (\<lambda>s r. js_add s (amount r)) s rs)"
proof (induction rs arbitrary: s)
  case (Cons r rs)
  then obtain a where "amount r = JFin a" "0 \<le> a" "payment_amounts rs"
    by (auto simp: payment_amounts_Cons)
  with Cons.IH [OF _ sum_stays_big [OF Cons.prems(2)]] show ?case by simp
qed simp

text \<open>While the total stays below \<open>2 ^ 29\<close>, each addition is off by at most \<open>2 ^ -25\<close>.\<close>

lemma fold_near:
  assumes "payment_amounts rs" "0 \<le> s" "L < 2 ^ 29"
    and "\<not> js_less (JFin L) (foldl (\<lambda>s r. js_add s (amount r)) (JFin s) rs)"
  shows "\<exists>x. foldl (\<lambda>s r. js_add s (amount r)) (JFin s) rs = JFin x \<and>
    \<bar>x - (s + sum_list (map exact_amount rs))\<bar> \<le> of_nat (length rs) / 2 ^ 25"
  using assms
proof (induction rs arbitrary: s)
  case (Cons r rs)
  from Cons.prems(1) obtain a where a: "amount r = JFin a" "0 \<le> a" and rs: "payment_amounts rs"
    by (auto simp: payment_amounts_Cons)
  have less: "s + a < 2 ^ 29"
  proof (rule ccontr)
    assume "\<not> s + a < 2 ^ 29"
    then have "js_leq (JFin (2 ^ 29)) (to_double (s + a))" by (intro to_double_ge_pow) simp
    then have big: "js_leq (JFin (2 ^ 29)) (foldl (\<lambda>s r. js_add s (amount r)) (JFin s) (r # rs))"
      using fold_stays_big [OF rs] a by simp
    have "js_less (JFin L) (foldl (\<lambda>s r. js_add s (amount r)) (JFin s) (r # rs))"
      using big Cons.prems(3)
      by (cases "foldl (\<lambda>s r. js_add s (amount r)) (JFin s) (r # rs)") (auto simp: js_leq_def)
    with Cons.prems(4) show False by blast
  qed
  obtain m where m: "to_double (s + a) = JFin m" "0 \<le> m" "\<bar>m - (s + a)\<bar> \<le> 2 powi (29 - 54)"
    using to_double_near [of "s + a" 29] less Cons.prems(2) a(2) by auto
  from Cons.IH [OF rs m(2) Cons.prems(3)] Cons.prems(4) a m(1) obtain x where
    x: "foldl (\<lambda>s r. js_add s (amount r)) (JFin m) rs = JFin x"
      "\<bar>x - (m + sum_list (map exact_amount rs))\<bar> \<le> of_nat (length rs) / 2 ^ 25"
    by auto
  have "(2::rat) powi (29 - 54) = 1 / 2 ^ 25" by (simp add: power_int_def power_one_over)
  with x(2) m(3) have "\<bar>x - (s + (a + sum_list (map exact_amount rs)))\<bar> \<le> of_nat (length rs) / 2 ^ 25 + 1 / 2 ^ 25"
    by linarith
  moreover have "exact_amount r = a" by (simp add: exact_amount_def a(1))
  ultimately show ?case using x(1) a(1) m(1)
    by (simp add: add_divide_distrib [symmetric] add.commute)
qed simp

lemma sum_amounts_near:
  assumes "payment_amounts rs" "L < 2 ^ 29" "\<not> js_less (JFin L) (sum_amounts rs)"
  shows "sum_list (map exact_amount rs) \<le> L + of_nat (length rs) / 2 ^ 25"
proof -
  from fold_near [of rs 0 L] assms obtain x where x: "sum_amounts rs = JFin x"
    "\<bar>x - sum_list (map exact_amount rs)\<bar> \<le> of_nat (length rs) / 2 ^ 25"
    by (auto simp: sum_amounts_def)
  moreover from x(1) assms(3) have "\<not> L < x" by simp
  ultimately show ?thesis by linarith
qed

section \<open>Decimal amounts\<close>

text \<open>A decimal with at most seven places, as the number of its ten-millionths (stroops).\<close>

definition decimal_units :: "string \<Rightarrow> nat option" where
  "decimal_units s =
     (let ip = takeWhile is_digit s; r = dropWhile is_digit s in
      if ip \<noteq> [] \<and> decimal_tail_ok r
      then Some (digits_val ip * 10 ^ 7 + digits_val (tl r) * 10 ^ (7 - length (tl r))) else None)"

lemma decimal_units_parse:
  assumes "decimal_units s = Some u"
  shows "parse_float s = to_double (of_nat u / 10 ^ 7)"
proof -
  let ?ip = "takeWhile is_digit s" and ?r = "dropWhile is_digit s"
  have s: "s = ?ip @ ?r" by simp
  have d: "\<forall>c \<in> set ?ip. is_digit c" by (auto dest: set_takeWhileD)
  from assms have ip: "?ip \<noteq> []" and tail: "decimal_tail_ok ?r"
    and u: "u = digits_val ?ip * 10 ^ 7 + digits_val (tl ?r) * 10 ^ (7 - length (tl ?r))"
    by (auto simp: decimal_units_def Let_def split: if_splits)
  show ?thesis
  proof (cases "?r = []")
    case True
    then have "?ip = s" using s by (metis append_Nil2)
    with parse_float_integer [OF ip d]
    have "parse_float s = to_double (of_nat (digits_val ?ip))" by (simp only:)
    moreover have "of_nat u / 10 ^ 7 = (of_nat (digits_val ?ip) :: rat)" using u True by simp
    ultimately show ?thesis by (simp only:)
  next
    case False
    then obtain fp where r: "?r = CHR ''.'' # fp" and fp: "length fp \<le> 7" "\<forall>c \<in> set fp. is_digit c"
      using tail by (cases ?r) (auto simp: decimal_tail_ok_def)
    have "parse_float (?ip @ CHR ''.'' # fp) = to_double (of_nat (digits_val (?ip @ fp)) / 10 ^ length fp)"
      by (rule parse_float_decimal [OF ip d fp(2)])
    moreover have "of_nat u / 10 ^ 7 = (of_nat (digits_val (?ip @ fp)) / 10 ^ length fp :: rat)"
    proof -
      have "(10::rat) ^ 7 = 10 ^ length fp * 10 ^ (7 - length fp)"
        using fp(1) by (simp flip: power_add)
      moreover have "u * 10 ^ length fp = digits_val (?ip @ fp) * 10 ^ 7"
      proof -
        have e: "(10::nat) ^ 7 = 10 ^ length fp * 10 ^ (7 - length fp)"
          using fp(1) by (simp flip: power_add)
        show ?thesis unfolding u r digits_val_append e by (simp add: algebra_simps)
      qed
      then have "of_nat u * 10 ^ length fp = (of_nat (digits_val (?ip @ fp)) * 10 ^ 7 :: rat)"
        by (metis of_nat_mult of_nat_numeral of_nat_power)
      ultimately show ?thesis by (simp add: divide_simps)
    qed
    ultimately show ?thesis using s r by metis
  qed
qed

lemma spending_limit_units: "spending_limit_ok s \<Longrightarrow> \<exists>u. decimal_units s = Some u"
  by (cases s) (auto simp: spending_limit_ok_def decimal_units_def Let_def)

lemma to_double_units:
  assumes "u + 1 < 2 ^ 29 * 10 ^ 7"
  obtains m where "to_double (of_nat u / 10 ^ 7) = JFin m" "0 \<le> m" "\<bar>m - of_nat u / 10 ^ 7\<bar> \<le> 1 / 2 ^ 25"
proof -
  have "(of_nat u :: rat) < of_nat (2 ^ 29 * 10 ^ 7)" using assms by (simp only: of_nat_less_iff)
  then have "of_nat u / 10 ^ 7 < (2::rat) powi 29" by simp
  from to_double_near [OF _ this] obtain m where m: "to_double (of_nat u / 10 ^ 7) = JFin m"
    "0 \<le> m" "\<bar>m - of_nat u / 10 ^ 7\<bar> \<le> 2 powi (29 - 54)" by auto
  have "(2::rat) powi (29 - 54) = 1 / 2 ^ 25" by (simp add: power_int_def power_one_over)
  with m show ?thesis using that [of m] by simp
qed

text \<open>Comparing the doubles of two amounts is comparing the amounts, below \<open>2 ^ 29\<close>.\<close>

lemma decimal_compare:
  assumes "decimal_units l = Some v" "decimal_units a = Some u" "v + 2 < 2 ^ 29 * 10 ^ 7"
  shows "js_less (parse_float l) (parse_float a) \<longleftrightarrow> v < u"
proof
  assume less: "js_less (parse_float l) (parse_float a)"
  show "v < u"
  proof (rule ccontr)
    assume "\<not> v < u"
    then have "js_leq (parse_float a) (parse_float l)"
      unfolding decimal_units_parse [OF assms(1)] decimal_units_parse [OF assms(2)]
      by (intro to_double_mono) (auto simp: divide_right_mono)
    with less show False by (simp add: js_leq_def)
  qed
next
  assume "v < u"
  then have le: "v + 1 \<le> u" by simp
  obtain x where x: "to_double (of_nat v / 10 ^ 7) = JFin x" "\<bar>x - of_nat v / 10 ^ 7\<bar> \<le> 1 / 2 ^ 25"
    using to_double_units [of v] assms(3) by auto
  obtain y where y: "to_double (of_nat (v + 1) / 10 ^ 7) = JFin y"
      "\<bar>y - of_nat (v + 1) / 10 ^ 7\<bar> \<le> 1 / 2 ^ 25"
    using to_double_units [of "v + 1"] assms(3) by auto
  have "of_nat (v + 1) / 10 ^ 7 = of_nat v / 10 ^ 7 + (1 / 10 ^ 7 :: rat)" by (simp add: divide_simps)
  with y(2) have "of_nat v / 10 ^ 7 + 1 / 10 ^ 7 - 1 / 2 ^ 25 \<le> y" unfolding abs_le_iff by linarith
  moreover from x(2) have "x \<le> of_nat v / 10 ^ 7 + 1 / 2 ^ 25" unfolding abs_le_iff by linarith
  moreover have "(1::rat) / 2 ^ 25 + 1 / 2 ^ 25 < 1 / 10 ^ 7" by simp
  ultimately have "x < y" by linarith
  moreover have "js_leq (JFin y) (parse_float a)"
    unfolding decimal_units_parse [OF assms(2)] y(1) [symmetric]
    using le by (intro to_double_mono) (auto simp: divide_right_mono)
  ultimately show "js_less (parse_float l) (parse_float a)"
    unfolding decimal_units_parse [OF assms(1)] x(1)
    by (cases "parse_float a") (auto simp: js_leq_def decimal_units_parse [OF assms(2)])
qed

section \<open>What the guard guarantees\<close>

lemma to_double_sign: "0 \<le> x \<Longrightarrow> to_double x = JFin m \<Longrightarrow> 0 \<le> m"
  using round_mag_nonneg [of x] by (auto simp: to_double_def Let_def split: if_splits)

lemma js_add_fin_not_nan: "s \<noteq> JNaN \<Longrightarrow> js_add s (JFin a) \<noteq> JNaN"
  by (cases s) auto

lemma foldl_add_not_nan:
  "payment_amounts rs \<Longrightarrow> s \<noteq> JNaN \<Longrightarrow> foldl (\<lambda>s r. js_add s (amount r)) s rs \<noteq> JNaN"
proof (induction rs arbitrary: s)
  case (Cons r rs)
  then obtain a where a: "amount r = JFin a" "payment_amounts rs" by (auto simp: payment_amounts_Cons)
  from Cons.IH [OF a(2) js_add_fin_not_nan [OF Cons.prems(2)]] show ?case by (simp add: a(1))
qed simp

lemma sum_amounts_not_nan: "payment_amounts rs \<Longrightarrow> \<not> is_nan (sum_amounts rs)"
  by (simp add: is_nan_def sum_amounts_def foldl_add_not_nan)

lemma assert_decimal:
  assumes "decimal_units a = Some u"
  shows "assert_within_spending_limit num c now (JStr a) t =
    (if js_less (parse_float (AGENT_SPENDING_LIMIT c)) (parse_float a) then (t, Inl (exceeds_limit_error c a))
     else if STELLAR_NETWORK c = Mainnet \<and> js_less mainnet_spending_cap (parse_float a)
       then (t, Inl (exceeds_cap_error c a))
     else record_payment num (AGENT_SPENDING_LIMIT c) now a t)"
  by (simp add: assert_within_spending_limit_def Let_def decimal_units_parse [OF assms] is_nan_def)

text \<open>What the two checks on a single amount mean for decimals.\<close>

lemma guard_units:
  assumes "decimal_units a = Some u" "decimal_units (AGENT_SPENDING_LIMIT c) = Some l"
    and "l + 2 < 2 ^ 29 * 10 ^ 7"
    and "assert_within_spending_limit num c now (JStr a) t = (t', Inr ())"
  shows "u \<le> l \<and> (STELLAR_NETWORK c = Mainnet \<longrightarrow> u \<le> 10000 * 10 ^ 7)"
proof -
  from assms(4) have le: "\<not> js_less (parse_float (AGENT_SPENDING_LIMIT c)) (parse_float a)"
    and cap: "STELLAR_NETWORK c = Mainnet \<Longrightarrow> \<not> js_less mainnet_spending_cap (parse_float a)"
    unfolding assert_decimal [OF assms(1)] by (auto split: if_splits)
  have ul: "u \<le> l" using le decimal_compare [OF assms(2,1,3)] by simp
  have um: "u \<le> 10000 * 10 ^ 7" if m: "STELLAR_NETWORK c = Mainnet"
  proof -
    have d: "decimal_units ''10000'' = Some (10000 * 10 ^ 7)"
      by (simp add: decimal_units_def is_digit_def ccode_def digits_val_def digit_val_def decimal_tail_ok_def)
    have "parse_float ''10000'' = mainnet_spending_cap"
      unfolding decimal_units_parse [OF d] mainnet_spending_cap_def
      using to_double_int [of 10000] by simp
    with cap [OF m] decimal_compare [OF d assms(1)] show ?thesis by simp
  qed
  with ul show ?thesis by blast
qed

text \<open>
  A payment the guard lets through is within every limit. For a decimal amount and a
  configured limit below 536,870,911: the amount is at most the limit and, on mainnet, at most
  10,000 (the doubles compare as the decimals do, so no rounding lets a stroop through); the
  payment is recorded; and the exact sum of all payments of the current window, this one
  included, exceeds the limit by at most one 33,554,432nd of a unit per recorded payment plus
  one, the bound on what adding doubles can lose.
\<close>

theorem accepted_payment_within_limits:
  assumes "tracker_ok now t" "payment_amounts (window t)"
    and "decimal_units a = Some u" "decimal_units (AGENT_SPENDING_LIMIT c) = Some l"
    and "l + 2 < 2 ^ 29 * 10 ^ 7"
    and "assert_within_spending_limit num c now (JStr a) t = (t', Inr ())"
  shows "u \<le> l \<and> (STELLAR_NETWORK c = Mainnet \<longrightarrow> u \<le> 10000 * 10 ^ 7) \<and>
    window t' = unexpired now t @ [\<lparr>amount = parse_float a, timestamp = now\<rparr>] \<and>
    sum_list (map exact_amount (window t')) \<le>
      of_nat l / 10 ^ 7 + of_nat (length (window t') + 1) / 2 ^ 25"
proof -
  note dec = decimal_units_parse [OF assms(3)] and lim = decimal_units_parse [OF assms(4)]
  have na: "\<not> is_nan (parse_float a)" and nl: "\<not> is_nan (parse_float (AGENT_SPENDING_LIMIT c))"
    by (simp_all add: dec lim is_nan_def)
  from assms(6) have rec: "record_payment num (AGENT_SPENDING_LIMIT c) now a t = (t', Inr ())"
    unfolding assert_decimal [OF assms(3)] by (auto split: if_splits)
  note single = guard_units [OF assms(3,4,5,6)]
  have w: "window t' = unexpired now t @ [\<lparr>amount = parse_float a, timestamp = now\<rparr>]"
    using record_payment_window [OF assms(1) na] rec by (metis fst_conv)
  have "u + 1 < 2 ^ 29 * 10 ^ 7" using single assms(5) by linarith
  then obtain m where m: "parse_float a = JFin m" "0 \<le> m" using dec by (metis to_double_units)
  have pw: "payment_amounts (window t')"
    using assms(2) m by (auto simp: w payment_amounts_def unexpired_def)
  obtain L where L: "parse_float (AGENT_SPENDING_LIMIT c) = JFin L" "\<bar>L - of_nat l / 10 ^ 7\<bar> \<le> 1 / 2 ^ 25"
    using to_double_units [of l] assms(5) lim by auto
  have "\<not> js_less (JFin L) (sum_amounts (window t'))"
    using record_payment_result [OF assms(1) na, of num "AGENT_SPENDING_LIMIT c"] rec nl
      sum_amounts_not_nan [OF pw] by (auto simp: Let_def L(1) split: if_splits)
  moreover have "L < 2 ^ 29"
  proof -
    have "of_nat (l + 2) < (of_nat (2 ^ 29 * 10 ^ 7) :: rat)" using assms(5) by (simp only: of_nat_less_iff)
    then have "(of_nat l :: rat) / 10 ^ 7 + 2 / 10 ^ 7 < 2 ^ 29" by simp
    moreover have "(1::rat) / 2 ^ 25 < 2 / 10 ^ 7" by simp
    moreover have "L \<le> of_nat l / 10 ^ 7 + 1 / 2 ^ 25" using L(2) unfolding abs_le_iff by linarith
    ultimately show ?thesis by linarith
  qed
  ultimately have "sum_list (map exact_amount (window t')) \<le> L + of_nat (length (window t')) / 2 ^ 25"
    using sum_amounts_near [OF pw] by blast
  moreover have "L \<le> of_nat l / 10 ^ 7 + 1 / 2 ^ 25" using L(2) unfolding abs_le_iff by linarith
  ultimately have "sum_list (map exact_amount (window t')) \<le>
      of_nat l / 10 ^ 7 + of_nat (length (window t') + 1) / 2 ^ 25"
    by (simp add: add_divide_distrib)
  with single w show ?thesis by blast
qed

definition fresh_tracker :: tracker where
  "fresh_tracker = restore 1000 0 empty_db"

lemma fresh_tracker_simps [simp]:
  "window fresh_tracker = []" "window_ms fresh_tracker = 1000" "store fresh_tracker = empty_db"
  by (simp_all add: fresh_tracker_def restore_def load_spending_records_def get_db_def empty_db_def)

lemma fresh_tracker_ok: "tracker_ok now fresh_tracker"
  by (simp add: tracker_ok_def)

text \<open>Evaluating the guard on whole amounts.\<close>

lemma parse_float_nat: "n \<le> 2 ^ 53 \<Longrightarrow> parse_float (nat_str n) = JFin (of_nat n)"
proof -
  assume "n \<le> 2 ^ 53"
  then have "\<bar>int n\<bar> \<le> 2 ^ 53" by (simp only: abs_of_nat) (metis of_nat_le_iff of_nat_numeral of_nat_power)
  from to_double_int [OF this] show ?thesis by simp
qed

lemma to_double_numeral: "(numeral k :: int) \<le> 2 ^ 53 \<Longrightarrow> to_double (numeral k) = JFin (numeral k)"
  using to_double_int [of "numeral k"] by simp

lemma to_double_neg_numeral: "(numeral k :: int) \<le> 2 ^ 53 \<Longrightarrow> to_double (- numeral k) = JFin (- numeral k)"
  using to_double_int [of "- numeral k"] by simp

lemma parse_float_5: "parse_float ''5'' = JFin 5"
  by (simp add: parse_float_integer is_digit_def ccode_def digits_val_def digit_val_def to_double_numeral)

lemma parse_float_60: "parse_float ''60'' = JFin 60"
  by (simp add: parse_float_integer is_digit_def ccode_def digits_val_def digit_val_def to_double_numeral)

lemmas guard_eval = assert_within_spending_limit_def record_payment_def tracker_total_def
  push_record_def sum_amounts_def prune_old_def is_nan_def Let_def to_double_numeral to_double_neg_numeral

lemma guard_5_accepted:
  "\<exists>t'. assert_within_spending_limit num sample_agent_config 0 (JStr ''5'') fresh_tracker = (t', Inr ())"
  by (simp add: guard_eval parse_float_5 parse_float_100)

theorem accepted_payment_within_limits_witness:
  "\<exists>t'. assert_within_spending_limit (\<lambda>r. []) sample_agent_config 0 (JStr ''5'') fresh_tracker = (t', Inr ()) \<and>
     window t' = [\<lparr>amount = JFin 5, timestamp = 0\<rparr>] \<and>
     sum_list (map exact_amount (window t')) \<le> 100 + 2 / 2 ^ 25"
proof -
  obtain t' where t': "assert_within_spending_limit (\<lambda>r. []) sample_agent_config 0 (JStr ''5'') fresh_tracker
      = (t', Inr ())"
    using guard_5_accepted by blast
  have a: "decimal_units ''5'' = Some 50000000" "decimal_units (AGENT_SPENDING_LIMIT sample_agent_config) = Some 1000000000"
    by (simp_all add: decimal_units_def is_digit_def ccode_def digits_val_def digit_val_def decimal_tail_ok_def)
  have "payment_amounts (window fresh_tracker)" by (simp add: payment_amounts_def)
  from accepted_payment_within_limits [OF fresh_tracker_ok this a _ t'] t'
  show ?thesis by (simp add: parse_float_5 unexpired_def exact_amount_def)
qed

section \<open>What the guard does not undo\<close>

text \<open>
  A payment rejected because the cumulative total would exceed the limit stays in the
  window: the record is appended before the total is compared and is not taken out when the
  comparison throws. From then on, until records expire, an unspent amount counts as spent.
\<close>

theorem rejected_payment_stays_recorded:
  assumes "tracker_ok now t" "\<not> is_nan (parse_float a)"
    and "record_payment num l now a t = (t', Inl e)"
  shows "window t' = unexpired now t @ [\<lparr>amount = parse_float a, timestamp = now\<rparr>] \<and>
    js_less (parse_float l) (sum_amounts (window t'))"
proof -
  have w: "window t' = unexpired now t @ [\<lparr>amount = parse_float a, timestamp = now\<rparr>]"
    using record_payment_window [OF assms(1,2), of num l] assms(3) by simp
  with record_payment_result [OF assms(1,2), of num l] assms(3) show ?thesis
    by (auto simp: Let_def split: if_splits)
qed

lemma limit_60_state:
  "\<exists>t1. record_payment num ''100'' 0 ''60'' fresh_tracker = (t1, Inr ()) \<and> tracker_ok 1 t1 \<and>
     window_ms t1 = 1000 \<and> window t1 = [\<lparr>amount = JFin 60, timestamp = 0\<rparr>]"
  by (simp add: guard_eval parse_float_60 parse_float_100 tracker_ok_def)

lemma limit_60_rejected:
  assumes "tracker_ok 1 t1" "window_ms t1 = 1000" "window t1 = [\<lparr>amount = JFin 60, timestamp = 0\<rparr>]"
  shows "\<exists>t2 e. record_payment num ''100'' 1 ''60'' t1 = (t2, Inl e)"
proof -
  have n: "\<not> is_nan (parse_float ''60'')" by (simp add: parse_float_60 is_nan_def)
  from record_payment_window [OF assms(1) n, of num "''100''"] record_payment_result [OF assms(1) n, of num "''100''"] assms
  have "\<exists>e. snd (record_payment num ''100'' 1 ''60'' t1) = Inl e"
    by (simp add: unexpired_def sum_amounts_def parse_float_60 parse_float_100 to_double_numeral is_nan_def)
  then show ?thesis by (metis prod.collapse)
qed

theorem rejected_payment_stays_recorded_witness:
  "\<exists>t1 t2 e. record_payment (\<lambda>r. []) ''100'' 1 ''60'' t1 = (t2, Inl e) \<and>
     window t2 = [\<lparr>amount = JFin 60, timestamp = 0\<rparr>, \<lparr>amount = JFin 60, timestamp = 1\<rparr>]"
proof -
  obtain t1 t2 e where r: "record_payment (\<lambda>r. []) ''100'' 1 ''60'' t1 = (t2, Inl e)" "tracker_ok 1 t1"
      "window_ms t1 = 1000" "window t1 = [\<lparr>amount = JFin 60, timestamp = 0\<rparr>]"
    using limit_60_state limit_60_rejected by metis
  from rejected_payment_stays_recorded [OF r(2) _ r(1)] r(3,4)
  have "window t2 = [\<lparr>amount = JFin 60, timestamp = 0\<rparr>, \<lparr>amount = JFin 60, timestamp = 1\<rparr>]"
    by (simp add: parse_float_60 is_nan_def unexpired_def)
  with r(1) show ?thesis by blast
qed

lemma sum_amounts_snoc [simp]: "sum_amounts (rs @ [r]) = js_add (sum_amounts rs) (amount r)"
  by (simp add: sum_amounts_def)

text \<open>
  The guard accepts a negative amount (the payment schema that would refuse it runs later)
  and records it, which lowers the total of the window by that amount: the cumulative cap can
  be raised by the caller.
\<close>

theorem negative_amount_lowers_total:
  assumes "tracker_ok now t" "sum_amounts (unexpired now t) = JFin (of_int x)"
    and "\<bar>x\<bar> + int n \<le> 2 ^ 53"
    and "parse_float (AGENT_SPENDING_LIMIT c) = JFin L" "0 \<le> L" "of_int x \<le> L"
  shows "\<exists>t'. assert_within_spending_limit num c now (JStr (CHR ''-'' # nat_str n)) t = (t', Inr ()) \<and>
    sum_amounts (window t') = JFin (of_int (x - int n))"
proof -
  let ?a = "CHR ''-'' # nat_str n"
  have "to_double (- of_nat n) = JFin (- of_nat n)"
    using to_double_int [of "- int n"] assms(3) by simp
  then have a: "parse_float ?a = JFin (- of_nat n)" by (simp add: parse_float_neg_nat_str)
  then have na: "\<not> is_nan (parse_float ?a)" by (simp add: is_nan_def)
  define t' where "t' = fst (record_payment num (AGENT_SPENDING_LIMIT c) now ?a t)"
  have w: "window t' = unexpired now t @ [\<lparr>amount = parse_float ?a, timestamp = now\<rparr>]"
    unfolding t'_def by (rule record_payment_window [OF assms(1) na])
  have s: "sum_amounts (window t') = JFin (of_int (x - int n))"
    using to_double_int [of "x - int n"] assms(2,3) by (simp add: w a)
  have "of_int x - (of_nat n :: rat) \<le> L" using assms(6) by (simp add: le_diff_eq algebra_simps add_increasing)
  then have "snd (record_payment num (AGENT_SPENDING_LIMIT c) now ?a t) = Inr ()"
    using record_payment_result [OF assms(1) na, of num "AGENT_SPENDING_LIMIT c"] s assms(4)
    by (simp add: Let_def t'_def is_nan_def)
  moreover have "assert_within_spending_limit num c now (JStr ?a) t =
      record_payment num (AGENT_SPENDING_LIMIT c) now ?a t"
    using assms(5) by (simp add: assert_within_spending_limit_def Let_def a assms(4) mainnet_spending_cap_def)
  ultimately show ?thesis using s t'_def by (metis prod.collapse)
qed

theorem negative_amount_lowers_total_witness:
  "\<exists>t t'. window t = [\<lparr>amount = JFin 60, timestamp = 0\<rparr>] \<and>
     assert_within_spending_limit (\<lambda>r. []) sample_agent_config 1 (JStr ''-60'') t = (t', Inr ()) \<and>
     sum_amounts (window t') = JFin 0"
proof -
  obtain t where t: "tracker_ok 1 t" "window_ms t = 1000" "window t = [\<lparr>amount = JFin 60, timestamp = 0\<rparr>]"
    using limit_60_state by blast
  have "nat_str 60 = ''60''" by code_simp
  moreover have "sum_amounts (unexpired 1 t) = JFin (of_int 60)"
    using t by (simp add: unexpired_def sum_amounts_def to_double_numeral)
  ultimately show ?thesis
    using negative_amount_lowers_total [OF t(1), of 60 60 sample_agent_config 100 "\<lambda>r. []"] t(3)
    by (auto simp: parse_float_100)
qed

section \<open>Restarting\<close>

lemma sorted_window_filter: "sorted_window rs \<Longrightarrow> sorted_window (filter P rs)"
  by (simp add: sorted_window_def sorted_filter)

lemma sort_key_sorted_window: "sorted_window rs \<Longrightarrow> sort_key timestamp rs = rs"
  by (simp add: sorted_window_def sort_key_id_if_sorted)

lemma restore_simps [simp]: "window_ms (restore w now db) = w" "store (restore w now db) = db"
  by (simp_all add: restore_def)

lemma restore_sorted:
  "db_fault db = None \<Longrightarrow> sorted_window (spending_records db) \<Longrightarrow>
   window (restore w now db) = filter (\<lambda>r. now - w \<le> timestamp r) (spending_records db)"
  by (simp add: restore_def load_spending_records_def get_db_def sort_key_sorted_window sorted_window_filter)

text \<open>The database holds, of the current window, exactly what the tracker holds.\<close>

definition mirrored :: "int \<Rightarrow> tracker \<Rightarrow> bool" where
  "mirrored now t \<longleftrightarrow> db_fault (store t) = None \<and> sorted_window (spending_records (store t)) \<and>
     (\<forall>r \<in> set (spending_records (store t)). timestamp r \<le> now) \<and>
     filter (\<lambda>r. now - window_ms t \<le> timestamp r) (spending_records (store t)) = unexpired now t"

lemma filter_later:
  "(c::int) \<le> c' \<Longrightarrow> filter (\<lambda>r. c' \<le> timestamp r) xs =
     filter (\<lambda>r. c' \<le> timestamp r) (filter (\<lambda>r. c \<le> timestamp r) xs)"
  by (induction xs) auto

lemma mirrored_later:
  assumes "mirrored now t" "now \<le> now'"
  shows "mirrored now' t"
proof -
  have c: "now - window_ms t \<le> now' - window_ms t" using assms(2) by simp
  have "filter (\<lambda>r. now' - window_ms t \<le> timestamp r) (spending_records (store t)) =
      filter (\<lambda>r. now' - window_ms t \<le> timestamp r) (unexpired now t)"
    using assms(1) by (subst filter_later [OF c]) (simp only: mirrored_def)
  also have "\<dots> = unexpired now' t"
    unfolding unexpired_def by (rule filter_later [OF c, symmetric])
  finally show ?thesis using assms by (auto simp: mirrored_def)
qed

lemma mirrored_prune:
  assumes "mirrored now t" "tracker_ok now t"
  shows "mirrored now (prune_old now t)"
proof -
  have e: "\<And>x y. (\<not> x < (y::int)) = (y \<le> x)" by auto
  from assms show ?thesis
    by (auto simp: mirrored_def prune_old_def Let_def unexpired_def tracker_ok_def prune_front_filter
        sorted_window_def sorted_filter e)
qed

lemma mirrored_push:
  assumes "mirrored now t" "0 \<le> window_ms t" "\<not> is_nan a"
  shows "mirrored now (push_record \<lparr>amount = a, timestamp = now\<rparr> t)"
  using assms by (auto simp: mirrored_def push_record_def unexpired_def sorted_window_snoc)

lemma mirrored_record:
  assumes "mirrored now t" "tracker_ok now t"
  shows "mirrored now (fst (record_payment num l now a t))"
proof (cases "is_nan (parse_float a)")
  case False
  let ?t = "push_record \<lparr>amount = parse_float a, timestamp = now\<rparr> (prune_old now t)"
  have ok: "tracker_ok now ?t" using assms False by (intro tracker_ok_push tracker_ok_prune)
  have "mirrored now ?t"
    using assms False by (intro mirrored_push mirrored_prune) (auto simp: tracker_ok_def)
  from mirrored_prune [OF this ok] show ?thesis
    by (auto simp: record_payment_def tracker_total_def Let_def False mirrored_def unexpired_def)
qed (simp add: record_payment_def assms)

lemma mirrored_assert:
  "mirrored now t \<Longrightarrow> tracker_ok now t \<Longrightarrow> mirrored now (fst (assert_within_spending_limit num c now v t))"
  by (auto simp: assert_within_spending_limit_def Let_def mirrored_record split: jsval.splits)

text \<open>A process that presents payments at the given times.\<close>

fun present_payments ::
    "(rat \<Rightarrow> string) \<Rightarrow> agent_config \<Rightarrow> (int \<times> jsval) list \<Rightarrow> tracker \<Rightarrow> tracker" where
  "present_payments num c [] t = t"
| "present_payments num c ((now, v) # ps) t =
     present_payments num c ps (fst (assert_within_spending_limit num c now v t))"

lemma assert_window_ms [simp]:
  "window_ms (fst (assert_within_spending_limit num c now v t)) = window_ms t"
  by (auto simp: assert_within_spending_limit_def record_payment_def tracker_total_def Let_def split: jsval.splits)

lemma present_payments_window_ms [simp]: "window_ms (present_payments num c ps t) = window_ms t"
  by (induction num c ps t rule: present_payments.induct) auto

lemma present_payments_mirrored:
  assumes "mirrored now t" "tracker_ok now t" "sorted (map fst ps)"
    and "\<forall>p \<in> set ps. now \<le> fst p \<and> fst p \<le> now'" "now \<le> now'"
  shows "mirrored now' (present_payments num c ps t) \<and> tracker_ok now' (present_payments num c ps t)"
  using assms
proof (induction num c ps t arbitrary: now rule: present_payments.induct)
  case (1 num c t)
  then show ?case by (simp add: mirrored_later tracker_ok_later)
next
  case (2 num c n v ps t)
  have "mirrored n t" "tracker_ok n t" using 2 mirrored_later tracker_ok_later by auto
  then have "mirrored n (fst (assert_within_spending_limit num c n v t))"
    "tracker_ok n (fst (assert_within_spending_limit num c n v t))"
    by (simp_all add: mirrored_assert assert_ok)
  from "2.IH" [OF this] "2.prems" show ?case by auto
qed

lemma restore_window: "mirrored now t \<Longrightarrow> window (restore (window_ms t) now (store t)) = unexpired now t"
  by (simp add: restore_sorted mirrored_def)

text \<open>
  C16. A restart does not reset the cumulative cap: whatever payments a process presented at
  non-decreasing times, accepted or rejected, a tracker constructed at a later time from the
  database it left has the same unexpired records, and so the same total, as the process would
  have had. (Before the change this guards, a restart began with a total of zero.)
\<close>

theorem restart_keeps_window:
  assumes "db_fault db = None" "sorted_window (spending_records db)" "0 \<le> w"
    and "\<forall>r \<in> set (spending_records db). timestamp r \<le> start \<and> \<not> is_nan (amount r)"
    and "sorted (map fst ps)" "\<forall>p \<in> set ps. start \<le> fst p \<and> fst p \<le> now" "start \<le> now"
  shows "let t = present_payments num c ps (restore w start db); t' = restore w now (store t) in
    window t' = unexpired now t \<and> snd (tracker_total now t') = snd (tracker_total now t)"
proof -
  let ?s = "restore w start db"
  let ?t = "present_payments num c ps ?s"
  have w0: "window ?s = filter (\<lambda>r. start - w \<le> timestamp r) (spending_records db)"
    using assms(1,2) by (rule restore_sorted)
  have "tracker_ok start ?s"
    using assms(2-4) by (auto simp: tracker_ok_def w0 sorted_window_filter)
  moreover have "mirrored start ?s"
    using assms(1,2,4) by (auto simp: mirrored_def w0 unexpired_def)
  ultimately have m: "mirrored now ?t" "tracker_ok now ?t"
    using present_payments_mirrored [of start ?s ps now num c] assms(5-7) by auto
  from restore_window [OF m(1)] have r: "window (restore w now (store ?t)) = unexpired now ?t"
    by simp
  then have "unexpired now (restore w now (store ?t)) = unexpired now ?t"
    by (simp add: unexpired_def)
  moreover have "tracker_ok now (restore w now (store ?t))"
    using m(2) r by (auto simp: tracker_ok_def unexpired_def sorted_window_filter)
  ultimately show ?thesis using m(2) r
    by (simp add: tracker_total_def Let_def prune_old_unexpired del: prune_old_window)
qed

theorem restart_keeps_window_witness:
  "let t = present_payments (\<lambda>r. []) sample_agent_config [(0, JStr ''60''), (5, JStr ''60'')] fresh_tracker;
       t' = restore 1000 10 (store t) in
   window t' = unexpired 10 t \<and> snd (tracker_total 10 t') = snd (tracker_total 10 t)"
  unfolding fresh_tracker_def
  by (rule restart_keeps_window [where start = 0]) (auto simp: empty_db_def)

end
