(* ===== verification/Window.thy ===== *)
theory Window imports Spending "HOL-Library.Sublist" begin

text \<open>
  The cumulative cap over the life of the agent: payments presented to the guard of backend/agent.ts
  and processes that die and restore their window from the database (backend/spending\_tracker.ts), in
  any order.
\<close>

section \<open>Payments and restarts\<close>

datatype spend_event = Pay int string | Restart int

primrec event_time :: "spend_event \<Rightarrow> int" where
  "event_time (Pay n a) = n"
| "event_time (Restart n) = n"

text \<open>The tracker and the payments let through so far, each with its time.\<close>

primrec spend_event_step ::
    "(rat \<Rightarrow> string) \<Rightarrow> agent_config \<Rightarrow> spend_event \<Rightarrow> tracker \<times> (int \<times> string) list \<Rightarrow> tracker \<times> (int \<times> string) list" where
  "spend_event_step num c (Pay now a) q =
     (case assert_within_spending_limit num c now (JStr a) (fst q) of
        (t, Inl e) \<Rightarrow> (t, snd q)
      | (t, Inr u) \<Rightarrow> (t, snd q @ [(now, a)]))"
| "spend_event_step num c (Restart now) q = (restore (window_ms (fst q)) now (store (fst q)), snd q)"

definition spend_run ::
    "(rat \<Rightarrow> string) \<Rightarrow> agent_config \<Rightarrow> spend_event list \<Rightarrow> tracker \<times> (int \<times> string) list \<Rightarrow> tracker \<times> (int \<times> string) list" where
  "spend_run num c es q = foldl (\<lambda>q e. spend_event_step num c e q) q es"

lemma spend_run_simps [simp]:
  "spend_run num c [] q = q"
  "spend_run num c (es @ [e]) q = spend_event_step num c e (spend_run num c es q)"
  by (simp_all add: spend_run_def)

section \<open>What the window covers\<close>

definition paid_records :: "(int \<times> string) list \<Rightarrow> spending_record list" where
  "paid_records ps = map (\<lambda>(n, a). \<lparr>amount = parse_float a, timestamp = n\<rparr>) ps"

text \<open>The units of the payments let through in the window that ends at \<open>now\<close>.\<close>

definition paid_units :: "int \<Rightarrow> int \<Rightarrow> (int \<times> string) list \<Rightarrow> nat" where
  "paid_units w now ps = sum_list (map (\<lambda>(n, a). the (decimal_units a)) (filter (\<lambda>(n, a). now - w \<le> n) ps))"

definition window_covers :: "nat \<Rightarrow> int \<Rightarrow> nat \<Rightarrow> tracker \<times> (int \<times> string) list \<Rightarrow> bool" where
  "window_covers l now k q \<longleftrightarrow>
     (case q of (t, ps) \<Rightarrow>
        tracker_ok now t \<and> mirrored now t \<and> payment_amounts (window t) \<and> length (window t) \<le> k \<and> length ps \<le> k \<and>
        (\<forall>(n, a) \<in> set ps. \<exists>u. decimal_units a = Some u \<and> u \<le> l) \<and>
        subseq (filter (\<lambda>r. now - window_ms t \<le> timestamp r) (paid_records ps)) (unexpired now t))"

lemma unexpired_later: "n \<le> n' \<Longrightarrow> filter (\<lambda>r. n' - window_ms t \<le> timestamp r) (unexpired n t) = unexpired n' t"
  using filter_later [of "n - window_ms t" "n' - window_ms t" "window t"] by (simp add: unexpired_def)

lemma window_covers_later:
  assumes "window_covers l n k (t, ps)" "n \<le> n'"
  shows "window_covers l n' k (t, ps)"
proof -
  have "subseq (filter (\<lambda>r. n' - window_ms t \<le> timestamp r) (filter (\<lambda>r. n - window_ms t \<le> timestamp r) (paid_records ps)))
      (filter (\<lambda>r. n' - window_ms t \<le> timestamp r) (unexpired n t))"
    using assms(1) by (intro subseq_filter) (simp add: window_covers_def)
  with assms show ?thesis
    using filter_later [of "n - window_ms t" "n' - window_ms t" "paid_records ps"] unexpired_later [OF assms(2), of t]
    by (auto simp: window_covers_def intro: tracker_ok_later mirrored_later)
qed

lemma window_covers_restart:
  assumes "window_covers l n k (t, ps)"
  shows "window_covers l n k (restore (window_ms t) n (store t), ps)"
proof -
  let ?r = "restore (window_ms t) n (store t)"
  have m: "mirrored n t" and ok: "tracker_ok n t" using assms by (simp_all add: window_covers_def)
  have w: "window ?r = unexpired n t" by (rule restore_window [OF m])
  then have u: "unexpired n ?r = unexpired n t" by (simp add: unexpired_def)
  have "length (unexpired n t) \<le> length (window t)" by (simp add: unexpired_def)
  moreover have "payment_amounts (unexpired n t)"
    using assms by (auto simp: window_covers_def payment_amounts_def unexpired_def)
  moreover have "tracker_ok n ?r" using ok by (auto simp: tracker_ok_def w unexpired_def sorted_window_filter)
  moreover have "mirrored n ?r" using m u by (simp add: mirrored_def)
  ultimately show ?thesis using assms by (auto simp: window_covers_def w u)
qed

lemma record_payment_window_ms [simp]: "window_ms (fst (record_payment num l now a t)) = window_ms t"
  by (auto simp: record_payment_def tracker_total_def Let_def)

lemma window_covers_pay:
  assumes "window_covers l n k (t, ps)" "decimal_units a = Some u"
    and "decimal_units (AGENT_SPENDING_LIMIT c) = Some l" "l + 2 < 2 ^ 29 * 10 ^ 7"
  shows "window_covers l n (Suc k) (spend_event_step num c (Pay n a) (t, ps))"
proof -
  let ?L = "parse_float (AGENT_SPENDING_LIMIT c)" and ?r = "\<lparr>amount = parse_float a, timestamp = n\<rparr>"
  have ok: "tracker_ok n t" "mirrored n t" "0 \<le> window_ms t" using assms(1) by (auto simp: window_covers_def tracker_ok_def)
  have weaken: "window_covers l n (Suc k) (t, ps)" using assms(1) by (auto simp: window_covers_def)
  obtain t' q where rec: "record_payment num (AGENT_SPENDING_LIMIT c) n a t = (t', q)" by fastforce
  show ?thesis
  proof (cases "js_less ?L (parse_float a) \<or> (STELLAR_NETWORK c = Mainnet \<and> js_less mainnet_spending_cap (parse_float a))")
    case True
    then show ?thesis using weaken by (auto simp: assert_decimal [OF assms(2)])
  next
    case False
    then have step: "assert_within_spending_limit num c n (JStr a) t = (t', q)"
      by (auto simp: assert_decimal [OF assms(2)] rec)
    have ul: "u \<le> l" using False decimal_compare [OF assms(3,2,4)] by simp
    with assms(4) have "u + 1 < 2 ^ 29 * 10 ^ 7" by linarith
    then obtain m where m: "parse_float a = JFin m" "0 \<le> m"
      using decimal_units_parse [OF assms(2)] by (metis to_double_units)
    have "\<not> is_nan (parse_float a)" by (simp add: m is_nan_def)
    from record_payment_window [OF ok(1) this, of num "AGENT_SPENDING_LIMIT c"] rec
    have w: "window t' = unexpired n t @ [?r]" by simp
    have ms: "window_ms t' = window_ms t" using record_payment_window_ms [of num "AGENT_SPENDING_LIMIT c" n a t] rec by simp
    have ok': "tracker_ok n t'" "mirrored n t'"
      using record_payment_ok [OF ok(1), of num "AGENT_SPENDING_LIMIT c" a] mirrored_record [OF ok(2,1), of num "AGENT_SPENDING_LIMIT c" a]
      by (simp_all add: rec)
    have u': "unexpired n t' = unexpired n t @ [?r]" using ok(3) by (auto simp: unexpired_def w ms)
    have "length (unexpired n t) \<le> length (window t)" by (simp add: unexpired_def)
    moreover have "payment_amounts (window t')"
      using assms(1) m by (auto simp: window_covers_def payment_amounts_def w unexpired_def)
    moreover have "subseq (filter (\<lambda>r. n - window_ms t \<le> timestamp r) (paid_records ps)) (unexpired n t)"
      using assms(1) by (simp add: window_covers_def)
    then have "subseq (filter (\<lambda>r. n - window_ms t \<le> timestamp r) (paid_records ps)) (unexpired n t @ [?r])"
        "subseq (filter (\<lambda>r. n - window_ms t \<le> timestamp r) (paid_records (ps @ [(n, a)]))) (unexpired n t @ [?r])"
      using ok(3) by (auto simp: paid_records_def list_emb_append_mono intro: list_emb_append2)
    ultimately show ?thesis
      using assms(1,2) ul ok' by (cases q) (auto simp: step window_covers_def w u' ms)
  qed
qed

lemma spend_run_covers:
  assumes "sorted (map event_time es)" "\<forall>e \<in> set es. start \<le> event_time e \<and> event_time e \<le> now" "start \<le> now"
    and "\<forall>n a. Pay n a \<in> set es \<longrightarrow> decimal_units a \<noteq> None" "0 \<le> w"
    and "decimal_units (AGENT_SPENDING_LIMIT c) = Some l" "l + 2 < 2 ^ 29 * 10 ^ 7"
  shows "window_covers l now (length es) (spend_run num c es (restore w start empty_db, []))"
  using assms(1-4)
proof (induction es arbitrary: now rule: rev_induct)
  case Nil
  have "restore w start empty_db = \<lparr>window_ms = w, window = [], store = empty_db, near_limit_warnings = []\<rparr>"
    by (simp add: restore_def load_spending_records_def get_db_def empty_db_def)
  then show ?case using assms(5)
    by (simp add: window_covers_def tracker_ok_def mirrored_def payment_amounts_def paid_records_def unexpired_def empty_db_def)
next
  case (snoc e es)
  let ?q = "spend_run num c es (restore w start empty_db, [])"
  let ?n = "event_time e"
  have "window_covers l ?n (length es) ?q"
    using snoc.prems by (intro snoc.IH) (auto simp: sorted_append)
  then obtain t ps where q: "?q = (t, ps)" "window_covers l ?n (length es) (t, ps)" by (cases ?q) auto
  have "window_covers l ?n (Suc (length es)) (spend_event_step num c e (t, ps))"
  proof (cases e)
    case (Pay n a)
    with snoc.prems(4) obtain u where "decimal_units a = Some u" by fastforce
    from window_covers_pay [OF _ this assms(6,7), of n "length es" t ps num] q(2) Pay show ?thesis
      by (simp del: spend_event_step.simps)
  next
    case (Restart n)
    with window_covers_restart [of l n "length es" t ps] q(2) show ?thesis by (auto simp: window_covers_def)
  qed
  then obtain t' ps' where r: "spend_event_step num c e (t, ps) = (t', ps')"
      "window_covers l ?n (Suc (length es)) (t', ps')" by (cases "spend_event_step num c e (t, ps)") auto
  have "?n \<le> now" using snoc.prems(2) by simp
  from window_covers_later [OF r(2) this] show ?case by (simp add: q(1) r(1))
qed

lemma spend_run_window_ms: "window_ms (fst (spend_run num c es q)) = window_ms (fst q)"
proof (induction es rule: rev_induct)
  case (snoc e es)
  then show ?case
    by (cases e) (auto split: prod.split sum.split dest: arg_cong [of _ _ "\<lambda>x. window_ms (fst x)"])
qed simp

section \<open>From doubles back to stroops\<close>

lemma units_below_exact:
  assumes "\<forall>(n, a) \<in> set ps. \<exists>u. decimal_units a = Some u \<and> u \<le> l" "l + 2 < 2 ^ 29 * 10 ^ 7"
  shows "of_nat (sum_list (map (\<lambda>(n, a). the (decimal_units a)) ps)) / 10 ^ 7 \<le>
    sum_list (map exact_amount (paid_records ps)) + of_nat (length ps) / 2 ^ 25"
  using assms(1)
proof (induction ps)
  case (Cons p ps)
  obtain n a where p: "p = (n, a)" by fastforce
  with Cons.prems obtain u where u: "decimal_units a = Some u" "u \<le> l" by auto
  with assms(2) have "u + 1 < 2 ^ 29 * 10 ^ 7" by linarith
  then obtain m where m: "parse_float a = JFin m" "\<bar>m - of_nat u / 10 ^ 7\<bar> \<le> 1 / 2 ^ 25"
    using decimal_units_parse [OF u(1)] by (metis to_double_units)
  then have "of_nat u / 10 ^ 7 \<le> m + 1 / 2 ^ 25" unfolding abs_le_iff by linarith
  with Cons show ?case by (simp add: p u paid_records_def exact_amount_def m(1) add_divide_distrib)
qed (simp add: paid_records_def)

lemma exact_amount_nonneg: "payment_amounts rs \<Longrightarrow> r \<in> set rs \<Longrightarrow> 0 \<le> exact_amount r"
  by (auto simp: payment_amounts_def exact_amount_def split: jsnum.splits)

lemma sum_list_map_nonneg: "\<forall>y \<in> set ys. 0 \<le> f y \<Longrightarrow> (0::rat) \<le> sum_list (map f ys)"
  by (induction ys) auto

lemma subseq_sum_le:
  fixes f :: "'a \<Rightarrow> rat"
  assumes "subseq xs ys" "\<forall>y \<in> set ys. 0 \<le> f y"
  shows "sum_list (map f xs) \<le> sum_list (map f ys)"
  using assms by (induction rule: list_emb.induct) (auto intro: sum_list_map_nonneg)

lemma filter_paid_records:
  "filter (\<lambda>r. k \<le> timestamp r) (paid_records ps) = paid_records (filter (\<lambda>(n, a). k \<le> n) ps)"
  by (induction ps) (auto simp: paid_records_def)

text \<open>
  C2. The cumulative cap holds for the whole life of the agent. Payments of decimal amounts are
  presented at non-decreasing times, and processes die and restore their window from the database,
  in any order, beginning with an empty database. Whenever the guard lets a payment through, it is
  at most the limit (and on mainnet at most 10,000), and all payments let through in the window that
  ends with it - by this process or an earlier one - add up to at most the limit, plus what adding
  doubles can lose: less than 0.3 stroops for each of twice the events, plus one.
\<close>

theorem cumulative_cap_holds:
  assumes "sorted (map event_time (es @ [Pay now a]))" "\<forall>e \<in> set (es @ [Pay now a]). start \<le> event_time e"
    and "\<forall>n b. Pay n b \<in> set (es @ [Pay now a]) \<longrightarrow> decimal_units b \<noteq> None" "0 \<le> w"
    and "decimal_units (AGENT_SPENDING_LIMIT c) = Some l" "l + 2 < 2 ^ 29 * 10 ^ 7"
    and "spend_run num c es (restore w start empty_db, []) = (t, ps)"
    and "spend_run num c (es @ [Pay now a]) (restore w start empty_db, []) = (t', ps @ [(now, a)])"
  shows "the (decimal_units a) \<le> l \<and> (STELLAR_NETWORK c = Mainnet \<longrightarrow> the (decimal_units a) \<le> 10000 * 10 ^ 7) \<and>
    of_nat (paid_units w now (ps @ [(now, a)])) \<le> (of_nat l :: rat) + 10 ^ 7 / 2 ^ 25 * of_nat (2 * length es + 3)"
proof -
  let ?es = "es @ [Pay now a]" and ?r0 = "(restore w start empty_db, [])" and ?ps = "filter (\<lambda>(n, a). now - w \<le> n) (ps @ [(now, a)])"
  have b: "\<forall>e \<in> set ?es. start \<le> event_time e \<and> event_time e \<le> now" "start \<le> now"
    using assms(1,2) by (auto simp: sorted_append)
  have "window_covers l now (length es) (t, ps)"
    using spend_run_covers [of es start now w c l num] assms b by (auto simp: sorted_append)
  moreover have cov: "window_covers l now (Suc (length es)) (t', ps @ [(now, a)])"
    using spend_run_covers [OF assms(1) b assms(3-6), of num] by (simp add: assms(8) del: spend_run_simps)
  moreover have ok: "assert_within_spending_limit num c now (JStr a) t = (t', Inr ())"
    using assms(8) by (auto simp: assms(7) split: prod.splits sum.splits)
  moreover obtain u where u: "decimal_units a = Some u" using assms(3) by auto
  ultimately have acc: "u \<le> l" "STELLAR_NETWORK c = Mainnet \<Longrightarrow> u \<le> 10000 * 10 ^ 7"
      "sum_list (map exact_amount (window t')) \<le> of_nat l / 10 ^ 7 + of_nat (length (window t') + 1) / 2 ^ 25"
    using accepted_payment_within_limits [OF _ _ u assms(5,6) ok] by (auto simp: window_covers_def)
  have w: "window_ms t' = w" using spend_run_window_ms [of num c ?es ?r0] by (simp add: assms(8) del: spend_run_simps)
  have "length (window t') \<le> Suc (length es)" "length (ps @ [(now, a)]) \<le> Suc (length es)"
    using cov unfolding window_covers_def by simp_all
  then have len: "length (window t') \<le> Suc (length es)" "length ?ps \<le> Suc (length es)"
    using length_filter_le [of "\<lambda>(n, a). now - w \<le> n" "ps @ [(now, a)]"] by linarith+
  have "subseq (paid_records ?ps) (unexpired now t')" "\<forall>r \<in> set (window t'). 0 \<le> exact_amount r"
    using cov by (auto simp: window_covers_def w filter_paid_records intro: exact_amount_nonneg)
  then have "sum_list (map exact_amount (paid_records ?ps)) \<le> sum_list (map exact_amount (window t'))"
    using subseq_sum_le [of _ "window t'" exact_amount] subseq_order.trans [OF _ subseq_filter_left]
    by (metis unexpired_def)
  moreover have "of_nat (paid_units w now (ps @ [(now, a)])) / 10 ^ 7 \<le>
      sum_list (map exact_amount (paid_records ?ps)) + of_nat (length ?ps) / 2 ^ 25"
    unfolding paid_units_def using cov by (intro units_below_exact [OF _ assms(6)]) (auto simp: window_covers_def)
  moreover have "(of_nat (length ?ps) :: rat) / 2 ^ 25 \<le> of_nat (Suc (length es)) / 2 ^ 25"
      "(of_nat (length (window t') + 1) :: rat) / 2 ^ 25 \<le> of_nat (Suc (length es) + 1) / 2 ^ 25"
    using len by (simp_all add: divide_right_mono)
  ultimately have "of_nat (paid_units w now (ps @ [(now, a)])) / 10 ^ 7 \<le>
      (of_nat l :: rat) / 10 ^ 7 + (of_nat (Suc (length es) + 1) / 2 ^ 25 + of_nat (Suc (length es)) / 2 ^ 25)"
    using acc(3) by linarith
  then have "of_nat (paid_units w now (ps @ [(now, a)])) \<le> (of_nat l :: rat) + 10 ^ 7 / 2 ^ 25 * of_nat (2 * length es + 3)"
    by (simp add: field_simps)
  with acc u show ?thesis by simp
qed

lemma sample_run:
  "\<exists>t. spend_run (\<lambda>r. []) sample_agent_config [Pay 0 ''60'', Restart 5] (restore 1000 0 empty_db, []) = (t, [(0, ''60'')]) \<and>
     window t = [\<lparr>amount = JFin 60, timestamp = 0\<rparr>] \<and> window_ms t = 1000"
  by (simp add: spend_run_def guard_eval parse_float_60 parse_float_100 fresh_tracker_def [symmetric] best_effort_def
      save_spending_record_def get_db_def empty_db_def restore_def load_spending_records_def)

theorem cumulative_cap_holds_witness:
  "\<exists>t'. spend_run (\<lambda>r. []) sample_agent_config [Pay 0 ''60'', Restart 5, Pay 7 ''5''] (restore 1000 0 empty_db, []) =
      (t', [(0, ''60''), (7, ''5'')]) \<and>
    of_nat (paid_units 1000 7 [(0, ''60''), (7, ''5'')]) \<le> (1000000000 :: rat) + 10 ^ 7 / 2 ^ 25 * 7"
proof -
  let ?es = "[Pay 0 ''60'', Restart 5]"
  obtain t where t: "spend_run (\<lambda>r. []) sample_agent_config ?es (restore 1000 0 empty_db, []) = (t, [(0, ''60'')])"
      "window t = [\<lparr>amount = JFin 60, timestamp = 0\<rparr>]" "window_ms t = 1000"
    using sample_run by blast
  have "\<exists>t'. assert_within_spending_limit (\<lambda>r. []) sample_agent_config 7 (JStr ''5'') t = (t', Inr ())"
    using t(2,3) by (simp add: guard_eval parse_float_5 parse_float_100)
  then obtain t' where t': "spend_run (\<lambda>r. []) sample_agent_config (?es @ [Pay 7 ''5'']) (restore 1000 0 empty_db, []) =
      (t', [(0, ''60'')] @ [(7, ''5'')])"
    by (auto simp: t(1) simp del: append.simps)
  have d: "decimal_units ''5'' = Some 50000000" "decimal_units ''60'' = Some 600000000"
      "decimal_units (AGENT_SPENDING_LIMIT sample_agent_config) = Some 1000000000"
    by (simp_all add: decimal_units_def is_digit_def ccode_def digits_val_def digit_val_def decimal_tail_ok_def)
  from cumulative_cap_holds [of ?es 7 "''5''" 0 1000 sample_agent_config, OF _ _ _ _ d(3) _ t(1) t'] t'
  show ?thesis by (simp add: d(1,2))
qed

end
