(* ===== verification/Network.thy ===== *)
theory Network imports Errors "HOL-Library.Multiset" begin

text \<open>
  backend/network.ts: the rate-limit lock. A 429 response activates it for the seconds of the
  Retry-After header; calls made meanwhile wait in a queue that is drained when the lock clears,
  by the timer the activation set or by the first check after its end. Times are milliseconds.
  A queued callback is its name and the generation it was enqueued in; \<open>settled\<close> is the trace
  of callbacks that were started (True) or rejected as superseded (False), in that order.
\<close>

section \<open>State\<close>

record 'c backoff =
  active :: bool
  until :: int
  retry_after_seconds :: int
  queue :: "('c \<times> nat) list"
  generation :: nat
  timers :: "(int \<times> nat) list"
  settled :: "('c \<times> bool) list"

definition initial_backoff :: "'c backoff" where
  "initial_backoff = \<lparr>active = False, until = 0, retry_after_seconds = 0, queue = [],
     generation = 0, timers = [], settled = []\<rparr>"

section \<open>Operations\<close>

text \<open>The loop over the spliced queue: a callback of an older generation rejects.\<close>

definition drain :: "nat \<Rightarrow> ('c \<times> nat) list \<Rightarrow> ('c \<times> bool) list" where
  "drain g pending = map (\<lambda>(c, e). (c, e = g)) pending"

text \<open>\<open>clearBackoff(generation?)\<close>.\<close>

definition clear_backoff :: "nat option \<Rightarrow> 'c backoff \<Rightarrow> 'c backoff" where
  "clear_backoff g s =
     (if g \<noteq> None \<and> g \<noteq> Some (generation s) then s
      else s\<lparr>active := False, retry_after_seconds := 0, until := 0, queue := [],
             settled := settled s @ drain (generation s) (queue s)\<rparr>)"

definition is_throttled :: "int \<Rightarrow> 'c backoff \<Rightarrow> 'c backoff \<times> bool" where
  "is_throttled now s =
     (if \<not> active s then (s, False)
      else if until s \<le> now then (clear_backoff None s, False)
      else (s, True))"

text \<open>The seconds to wait: the header when it parses to a positive integer, else 30.\<close>

definition wait_seconds :: "string option \<Rightarrow> int" where
  "wait_seconds h =
     (case h of None \<Rightarrow> 30
      | Some s \<Rightarrow> (if s = [] then 30
          else case parse_int s of Some n \<Rightarrow> if 0 < n then n else 30 | None \<Rightarrow> 30))"

text \<open>\<open>setTimeout\<close> runs after 1 ms when the delay is below 1 or above \<open>2 ^ 31 - 1\<close>.\<close>

definition timer_delay :: "int \<Rightarrow> int" where
  "timer_delay d = (if d < 1 \<or> 2147483647 < d then 1 else d)"

definition handle_rate_limit_response :: "int \<Rightarrow> string option \<Rightarrow> 'c backoff \<Rightarrow> 'c backoff" where
  "handle_rate_limit_response now h s =
     (let w = wait_seconds h; g = generation s + 1; u = now + w * 1000 in
      s\<lparr>active := True, retry_after_seconds := w, until := u, generation := g,
        timers := timers s @ [(now + timer_delay (u - now), g)]\<rparr>)"

text \<open>\<open>withBackoffGuard(fn)\<close>: True when \<open>fn\<close> runs at once, False when it waits.\<close>

definition with_backoff_guard :: "int \<Rightarrow> 'c \<Rightarrow> 'c backoff \<Rightarrow> 'c backoff \<times> bool" where
  "with_backoff_guard now c s =
     (case is_throttled now s of
        (s', False) \<Rightarrow> (s'\<lparr>settled := settled s' @ [(c, True)]\<rparr>, True)
      | (s', True) \<Rightarrow> (s'\<lparr>queue := queue s' @ [(c, generation s')]\<rparr>, False))"

definition fire_timer :: "int \<times> nat \<Rightarrow> 'c backoff \<Rightarrow> 'c backoff" where
  "fire_timer tm s = clear_backoff (Some (snd tm)) (s\<lparr>timers := remove1 tm (timers s)\<rparr>)"

record backoff_status =
  bs_active :: bool
  bs_retry_after_seconds :: int
  bs_queue_size :: nat

definition get_backoff_status :: "'c backoff \<Rightarrow> backoff_status" where
  "get_backoff_status s = \<lparr>bs_active = active s, bs_retry_after_seconds = retry_after_seconds s,
     bs_queue_size = length (queue s)\<rparr>"

section \<open>The machine\<close>

datatype 'c net_event = Tick | Limited "string option" | Check | Guard 'c | Fire

inductive net_step :: "int \<times> 'c backoff \<Rightarrow> 'c net_event \<Rightarrow> int \<times> 'c backoff \<Rightarrow> bool" where
  tick: "now \<le> now' \<Longrightarrow> net_step (now, s) Tick (now', s)"
| limited: "net_step (now, s) (Limited h) (now, handle_rate_limit_response now h s)"
| check: "net_step (now, s) Check (now, fst (is_throttled now s))"
| guard: "net_step (now, s) (Guard c) (now, fst (with_backoff_guard now c s))"
| fire: "tm \<in> set (timers s) \<Longrightarrow> fst tm \<le> now \<Longrightarrow> net_step (now, s) Fire (now, fire_timer tm s)"

inductive_cases net_stepE: "net_step a e b"

inductive net_run :: "int \<times> 'c backoff \<Rightarrow> 'c net_event list \<Rightarrow> int \<times> 'c backoff \<Rightarrow> bool" where
  done_: "net_run a [] a"
| more: "net_run a es b \<Longrightarrow> net_step b e c \<Longrightarrow> net_run a (es @ [e]) c"

text \<open>The callbacks an execution submitted.\<close>

fun submitted :: "'c net_event list \<Rightarrow> 'c list" where
  "submitted [] = []"
| "submitted (Guard c # es) = c # submitted es"
| "submitted (e # es) = submitted es"

lemma submitted_append [simp]: "submitted (es @ fs) = submitted es @ submitted fs"
  by (induction es rule: submitted.induct) auto

section \<open>Invariant\<close>

text \<open>Callbacks wait only under an active lock, and an active lock has a pending timer of its
  own generation that will clear it.\<close>

definition net_inv :: "'c backoff \<Rightarrow> bool" where
  "net_inv s \<longleftrightarrow>
     (queue s \<noteq> [] \<longrightarrow> active s) \<and>
     (active s \<longrightarrow> (\<exists>d. (d, generation s) \<in> set (timers s))) \<and>
     (\<forall>(d, g) \<in> set (timers s). g \<le> generation s) \<and>
     (\<forall>(c, g) \<in> set (queue s). g \<le> generation s)"

lemma net_inv_initial [simp]: "net_inv initial_backoff"
  by (simp add: net_inv_def initial_backoff_def)

lemma clear_backoff_simps [simp]:
  "timers (clear_backoff g s) = timers s" "generation (clear_backoff g s) = generation s"
  by (simp_all add: clear_backoff_def)

lemma net_inv_clear: "net_inv s \<Longrightarrow> net_inv (clear_backoff g s)"
  by (auto simp: net_inv_def clear_backoff_def)

lemma net_inv_throttled: "net_inv s \<Longrightarrow> net_inv (fst (is_throttled now s))"
  by (auto simp: is_throttled_def net_inv_clear)

lemma net_inv_limited: "net_inv s \<Longrightarrow> net_inv (handle_rate_limit_response now h s)"
  by (fastforce simp: net_inv_def handle_rate_limit_response_def Let_def)

lemma net_inv_guard: "net_inv s \<Longrightarrow> net_inv (fst (with_backoff_guard now c s))"
  by (auto simp: with_backoff_guard_def is_throttled_def net_inv_def clear_backoff_def)

lemma net_inv_fire:
  assumes "net_inv s"
  shows "net_inv (fire_timer tm s)"
proof (cases "snd tm = generation s")
  case True
  then show ?thesis using assms
    by (auto simp: fire_timer_def clear_backoff_def net_inv_def dest: set_remove1_subset [THEN subsetD])
next
  case False
  then have "(d, generation s) \<in> set (remove1 tm (timers s)) \<longleftrightarrow> (d, generation s) \<in> set (timers s)" for d
    by (metis in_set_remove1 snd_conv)
  then show ?thesis using assms False
    by (auto simp: fire_timer_def clear_backoff_def net_inv_def dest: set_remove1_subset [THEN subsetD])
qed

lemma net_inv_step: "net_step a e b \<Longrightarrow> net_inv (snd a) \<Longrightarrow> net_inv (snd b)"
  by (auto elim!: net_stepE simp: net_inv_throttled net_inv_limited net_inv_guard net_inv_fire)

lemma net_inv_run: "net_run a es b \<Longrightarrow> net_inv (snd a) \<Longrightarrow> net_inv (snd b)"
  by (induction rule: net_run.induct) (auto dest: net_inv_step)

section \<open>Every callback settles once\<close>

definition all_calls :: "'c backoff \<Rightarrow> 'c multiset" where
  "all_calls s = mset (map fst (settled s)) + mset (map fst (queue s))"

lemma drain_fst [simp]: "map fst (drain g q) = map fst q"
  by (auto simp: drain_def)

lemma drain_mset [simp]: "image_mset fst (mset (drain g q)) = image_mset fst (mset q)"
  by (simp flip: mset_map)

lemma all_calls_clear [simp]: "all_calls (clear_backoff g s) = all_calls s"
  by (simp add: all_calls_def clear_backoff_def)

lemma all_calls_step:
  "net_step a e b \<Longrightarrow> all_calls (snd b) = all_calls (snd a) + mset (submitted [e])"
  by (auto elim!: net_stepE simp: is_throttled_def with_backoff_guard_def
      handle_rate_limit_response_def fire_timer_def Let_def)
    (auto simp: all_calls_def clear_backoff_def)

lemma all_calls_run:
  "net_run a es b \<Longrightarrow> all_calls (snd b) = all_calls (snd a) + mset (submitted es)"
  by (induction rule: net_run.induct) (auto dest: all_calls_step)

text \<open>
  C13. No call that met the rate-limit lock is lost or made twice. In every state an execution
  reaches, the calls submitted so far are exactly those started or rejected plus those waiting;
  calls wait only while the lock is active, and then a timer of the lock's own generation is
  pending whose firing empties the queue, starting the calls enqueued in that generation and
  rejecting those of an older one.
\<close>

theorem waiting_calls_settle_once:
  assumes "net_run (t0, initial_backoff) es (now, s)"
  shows "mset (map fst (settled s)) + mset (map fst (queue s)) = mset (submitted es) \<and>
    (queue s \<noteq> [] \<longrightarrow> active s \<and> (\<exists>d. (d, generation s) \<in> set (timers s) \<and>
       (let s' = fire_timer (d, generation s) s in
          queue s' = [] \<and> \<not> active s' \<and>
          settled s' = settled s @ map (\<lambda>(c, g). (c, g = generation s)) (queue s))))"
proof -
  have inv: "net_inv s" using net_inv_run [OF assms] by simp
  have "all_calls s = mset (submitted es)"
    using all_calls_run [OF assms] by (simp add: all_calls_def initial_backoff_def)
  with inv show ?thesis
    by (auto simp: all_calls_def net_inv_def fire_timer_def clear_backoff_def drain_def Let_def)
qed

lemma sample_net_run:
  "net_run (0, initial_backoff) [Limited (Some ''2''), Guard (7::nat)]
     (0, fst (with_backoff_guard 0 7 (handle_rate_limit_response 0 (Some ''2'') initial_backoff)))"
proof -
  have "net_run (0::int, initial_backoff) [Limited (Some ''2'')]
      (0, handle_rate_limit_response 0 (Some ''2'') (initial_backoff :: nat backoff))"
    using more [OF done_ limited, of 0 initial_backoff] by simp
  from more [OF this guard [of 0 _ 7]] show ?thesis by simp
qed

theorem waiting_calls_settle_once_witness:
  "\<exists>s :: nat backoff. net_run (0, initial_backoff) [Limited (Some ''2''), Guard 7] (0, s) \<and>
     queue s = [(7, 1)] \<and> active s"
proof -
  let ?s = "fst (with_backoff_guard 0 7 (handle_rate_limit_response 0 (Some ''2'') (initial_backoff :: nat backoff)))"
  have q: "queue ?s = [(7, 1)]" by code_simp
  from waiting_calls_settle_once [OF sample_net_run] q have "active ?s" by simp
  with q sample_net_run show ?thesis by blast
qed

section \<open>The lock holds for as long as the server asked\<close>

definition lock_held :: "int \<Rightarrow> nat \<Rightarrow> ('c \<times> bool) list \<Rightarrow> 'c backoff \<Rightarrow> bool" where
  "lock_held u g tr s \<longleftrightarrow> active s \<and> until s = u \<and> generation s = g \<and> settled s = tr \<and>
     (\<forall>(d, g') \<in> set (timers s). g' = g \<longrightarrow> u \<le> d)"

lemma lock_held_step:
  assumes "net_step (now, s) e (now', s')" "lock_held u g tr s" "now' < u" "\<forall>h. e \<noteq> Limited h"
  shows "lock_held u g tr s' \<and> now \<le> now'"
  using assms
  by (auto elim!: net_stepE simp: lock_held_def is_throttled_def with_backoff_guard_def
      fire_timer_def clear_backoff_def split: if_splits dest: set_remove1_subset [THEN subsetD])

lemma lock_held_run:
  assumes "net_run a es b"
    and "lock_held u g tr (snd a)" "fst b < u" "\<forall>e \<in> set es. \<forall>h. e \<noteq> Limited h"
  shows "lock_held u g tr (snd b) \<and> fst a \<le> fst b"
  using assms
proof (induction rule: net_run.induct)
  case (more a es b e c)
  have "fst b \<le> fst c" using more.hyps(2) by (auto elim!: net_stepE)
  with more have b: "lock_held u g tr (snd b) \<and> fst a \<le> fst b" by simp
  have "lock_held u g tr (snd c) \<and> fst b \<le> fst c"
    using lock_held_step [of "fst b" "snd b" e "fst c" "snd c" u g tr] more.hyps(2) more.prems b by simp
  with b show ?case by simp
qed simp

text \<open>
  The rate-limit lock is not lifted early: after a 429 whose wait is at most 2,147,483
  seconds, and until that wait is over, no sequence of checks, calls and timers (of this or of
  earlier activations) clears the lock, and no call starts or is rejected.
\<close>

theorem lock_holds_until_retry_after:
  assumes "net_inv s" "wait_seconds h \<le> 2147483"
    and "net_run (now, handle_rate_limit_response now h s) es (now', s')"
    and "\<forall>e \<in> set es. \<forall>h. e \<noteq> Limited h" "now' < now + wait_seconds h * 1000"
  shows "active s' \<and> settled s' = settled s \<and> snd (is_throttled now' s')"
proof -
  let ?s = "handle_rate_limit_response now h s"
  have pos: "1 \<le> wait_seconds h"
    by (auto simp: wait_seconds_def split: option.splits)
  have "lock_held (now + wait_seconds h * 1000) (generation s + 1) (settled s) ?s"
    using assms(1,2) pos
    by (auto simp: lock_held_def handle_rate_limit_response_def Let_def timer_delay_def net_inv_def)
  with lock_held_run [OF assms(3)] assms(4,5)
  have "lock_held (now + wait_seconds h * 1000) (generation s + 1) (settled s) s'" by auto
  with assms(5) show ?thesis by (auto simp: lock_held_def is_throttled_def)
qed

theorem lock_holds_until_retry_after_witness:
  "let s' = fst (with_backoff_guard 0 (7::nat) (handle_rate_limit_response 0 (Some ''2'') initial_backoff))
   in active s' \<and> settled s' = [] \<and> snd (is_throttled 1999 s')"
proof -
  let ?s = "handle_rate_limit_response 0 (Some ''2'') (initial_backoff :: nat backoff)"
  have g: "net_run (0, ?s) [Guard 7] (0, fst (with_backoff_guard 0 7 ?s))"
    using more [OF done_ guard, of 0 ?s 7] by simp
  have r: "net_run (0, ?s) [Guard 7, Tick] (1999, fst (with_backoff_guard 0 7 ?s))"
    using more [OF g tick, of 1999] by simp
  have w: "wait_seconds (Some ''2'') = 2" by code_simp
  from lock_holds_until_retry_after [OF net_inv_initial _ r] w
  show ?thesis by (simp add: Let_def initial_backoff_def)
qed

text \<open>
  The lock is lost when the server asks for more than 2,147,483 seconds: the delay does
  not fit the timer, which then runs after one millisecond and clears the lock, starting every
  call that waited in this generation.
\<close>

theorem lock_lost_after_one_ms:
  assumes "2147483 < wait_seconds h"
  shows "\<exists>s'. net_run (now, handle_rate_limit_response now h s) [Tick, Fire] (now + 1, s') \<and>
    \<not> active s' \<and> queue s' = []"
proof -
  let ?s = "handle_rate_limit_response now h s" and ?tm = "(now + 1, generation s + 1)"
  have tm: "?tm \<in> set (timers ?s)"
    using assms by (simp add: handle_rate_limit_response_def Let_def timer_delay_def)
  have "net_run (now, ?s) [Tick] (now + 1, ?s)" using more [OF done_ tick, of now "now + 1" ?s] by simp
  from more [OF this fire [OF tm]] have "net_run (now, ?s) [Tick, Fire] (now + 1, fire_timer ?tm ?s)" by simp
  moreover have "\<not> active (fire_timer ?tm ?s) \<and> queue (fire_timer ?tm ?s) = []"
    by (simp add: fire_timer_def clear_backoff_def handle_rate_limit_response_def Let_def)
  ultimately show ?thesis by blast
qed

theorem lock_lost_after_one_ms_witness:
  "\<exists>s'. net_run (0, handle_rate_limit_response 0 (Some ''2147484'') (initial_backoff :: nat backoff))
     [Tick, Fire] (1, s') \<and> \<not> active s'"
proof -
  have "wait_seconds (Some ''2147484'') = 2147484"
    by (simp add: wait_seconds_def parse_int_def trim_left_def is_js_space_def is_sign_def is_digit_def
        ccode_def digits_val_def digit_val_def)
  with lock_lost_after_one_ms [of "Some ''2147484''" 0] show ?thesis by auto
qed

end
