(* ===== verification/Stellar.thy ===== *)
theory Stellar imports Network Config begin

text \<open>
  What the tools share: the values they hand to the Stellar SDK (assets, memos, operations,
  transactions), the record \<open>platform\<close> of everything that is not code of the repository
  (clock, timers, random numbers, Horizon, the SDK's own checks), and the process state
  \<open>sys\<close> of backend/rpc\_client.ts and backend/network.ts.

  The world \<open>'w\<close> is the state of the network and of time. A call of the platform takes the
  world and returns the next one, so whatever the outside does meanwhile is its choice.
\<close>

section \<open>SDK values\<close>

datatype asset = Native | Credit string string

datatype memo = MemoText string | MemoId string | MemoHash string | MemoReturn string

text \<open>\<open>OpFrom\<close> is an operation with a source of its own, \<open>OpCustom\<close> one made by a named SDK function.\<close>

datatype operation =
    OpPayment string asset string
  | OpPathPaymentStrictSend asset string string asset string "asset list"
  | OpPathPaymentStrictReceive asset string string asset string "asset list"
  | OpChangeTrust asset "string option"
  | OpManageSellOffer asset asset string string string
  | OpManageData string "string option"
  | OpBumpSequence string
  | OpSetInflationDest string
  | OpSetOptions "(string \<times> jsval) list"
  | OpCreateAccount string string
  | OpAccountMerge string
  | OpBeginSponsoring string
  | OpEndSponsoring string
  | OpCreateClaimableBalance asset string "(string \<times> int option) list"
  | OpClaimClaimableBalance string
  | OpLiquidityPoolDeposit string string string string string
  | OpLiquidityPoolWithdraw string string string string
  | OpInvokeContract string string "jsval list"
  | OpCustom string jsval
  | OpFrom string operation

text \<open>A signature: by a key pair the tool holds, or a decorated one that was handed in.\<close>

datatype signature = SignedBy string | Decorated string

text \<open>A built transaction with its time bounds, of which \<open>setTimeout\<close> sets the upper one.\<close>

record transaction =
  tx_source :: string
  tx_sequence :: int
  tx_fee :: string
  tx_ops :: "operation list"
  tx_memo :: "memo option"
  tx_min_time :: int
  tx_max_time :: int
  tx_signatures :: "signature list"

datatype envelope = Envelope transaction | FeeBumpEnvelope string string transaction "signature list"

text \<open>A loaded account. \<open>oid\<close> is the identity of the object: the builder increments the
  sequence number of the object it was given, which may be the one in the cache.\<close>

record balance =
  b_asset_type :: string
  b_asset_code :: string
  b_asset_issuer :: string
  b_balance :: string

record account =
  account_id :: string
  sequence_number :: int
  balances :: "balance list"
  subentry_count :: int
  data_attr :: "(string \<times> string) list"
  inflation_destination :: "string option"
  oid :: nat

section \<open>Platform and process state\<close>

record 'w platform =
  clock :: "'w \<Rightarrow> int"
  sleep_ms :: "rat \<Rightarrow> 'w \<Rightarrow> 'w"
  random :: "'w \<Rightarrow> 'w \<times> rat"
  while_locked :: "'w \<Rightarrow> 'w \<times> bool"
  horizon_load_account :: "string \<Rightarrow> 'w \<Rightarrow> 'w \<times> (js_error + account)"
  horizon_submit :: "envelope \<Rightarrow> 'w \<Rightarrow> 'w \<times> (js_error + jsval)"
  valid_ed25519 :: "string \<Rightarrow> bool"
  asset_fault :: "string \<Rightarrow> string option \<Rightarrow> js_error option"
  op_fault :: "operation \<Rightarrow> js_error option"
  tx_base64 :: "envelope \<Rightarrow> string"
  print_num :: "rat \<Rightarrow> string"

text \<open>
  \<open>rpc_calls\<close>, \<open>sleeps\<close> and \<open>submissions\<close> are traces: how often \<open>withRetry\<close> called its
  function, how long it slept, and which envelopes reached Horizon.
\<close>

record 'w sys =
  world :: 'w
  backoff :: "nat backoff"
  account_cache :: "string \<Rightarrow> (account \<times> int) option"
  next_oid :: nat
  rpc_calls :: nat
  sleeps :: "rat list"
  submissions :: "envelope list"

definition now :: "('w, 'x) platform_scheme \<Rightarrow> ('w, 'y) sys_scheme \<Rightarrow> int" where
  "now p s = clock p (world s)"

text \<open>An outside call that touches nothing but the world.\<close>

definition outside :: "('w \<Rightarrow> 'w \<times> 'a) \<Rightarrow> ('w, 'y) sys_scheme \<Rightarrow> ('w, 'y) sys_scheme \<times> 'a" where
  "outside f s = (let (w, r) = f (world s) in (s\<lparr>world := w\<rparr>, r))"

definition initial_sys :: "'w \<Rightarrow> 'w sys" where
  "initial_sys w = \<lparr>world = w, backoff = initial_backoff, account_cache = (\<lambda>k. None), next_oid = 0,
     rpc_calls = 0, sleeps = [], submissions = []\<rparr>"

text \<open>Sequencing of effectful steps: the first error ends the chain.\<close>

definition andThen ::
    "'s \<times> ('e + 'a) \<Rightarrow> ('s \<Rightarrow> 'a \<Rightarrow> 's \<times> ('e + 'b)) \<Rightarrow> 's \<times> ('e + 'b)" where
  "andThen m f = (case m of (s, Inl e) \<Rightarrow> (s, Inl e) | (s, Inr x) \<Rightarrow> f s x)"

lemma andThen_simps [simp]:
  "andThen (s, Inl e) f = (s, Inl e)" "andThen (s, Inr x) f = f s x"
  by (simp_all add: andThen_def)

lemma andThen_Inr:
  "andThen m f = (s', Inr y) \<longleftrightarrow> (\<exists>s x. m = (s, Inr x) \<and> f s x = (s', Inr y))"
  by (cases m; cases "snd m") auto

lemma andThen_Inl:
  "andThen m f = (s', Inl e) \<longleftrightarrow> m = (s', Inl e) \<or> (\<exists>s x. m = (s, Inr x) \<and> f s x = (s', Inl e))"
  by (cases m; cases "snd m") auto

lemma andThen_const: "andThen (s, r) f = (case r of Inl e \<Rightarrow> (s, Inl e) | Inr x \<Rightarrow> f s x)"
  by (cases r) auto

section \<open>Assets and transactions\<close>

text \<open>\<open>code === 'XLM' ? Asset.native() : new Asset(code, issuer)\<close>.\<close>

definition new_asset :: "('w, 'x) platform_scheme \<Rightarrow> string \<Rightarrow> string option \<Rightarrow> js_error + asset" where
  "new_asset p code issuer =
     (case asset_fault p code issuer of
        Some e \<Rightarrow> Inl e
      | None \<Rightarrow> Inr (Credit code (case issuer of Some i \<Rightarrow> i | None \<Rightarrow> [])))"

definition resolve_asset :: "('w, 'x) platform_scheme \<Rightarrow> string \<Rightarrow> string option \<Rightarrow> js_error + asset" where
  "resolve_asset p code issuer = (if code = ''XLM'' then Inr Native else new_asset p code issuer)"

definition issuer_missing :: "string option \<Rightarrow> bool" where
  "issuer_missing i = (case i of None \<Rightarrow> True | Some s \<Rightarrow> s = [])"

text \<open>\<open>Operation.x(...)\<close>: the SDK's own validation of each operation.\<close>

definition check_op :: "('w, 'x) platform_scheme \<Rightarrow> operation \<Rightarrow> js_error + operation" where
  "check_op p op = (case op_fault p op of Some e \<Rightarrow> Inl e | None \<Rightarrow> Inr op)"

text \<open>\<open>build()\<close> increments the sequence number of the account object it was given; when that
  object is the cached one, the cache sees the new number.\<close>

definition bump_cached ::
    "nat \<Rightarrow> (string \<Rightarrow> (account \<times> int) option) \<Rightarrow> (string \<Rightarrow> (account \<times> int) option)" where
  "bump_cached i c = (\<lambda>k. case c k of
      Some (a, t) \<Rightarrow> Some (if oid a = i then a\<lparr>sequence_number := sequence_number a + 1\<rparr> else a, t)
    | None \<Rightarrow> None)"

definition build_tx ::
    "('w, 'x) platform_scheme \<Rightarrow> string \<Rightarrow> operation list \<Rightarrow> memo option \<Rightarrow> int \<Rightarrow> account \<Rightarrow>
     ('w, 'y) sys_scheme \<Rightarrow> ('w, 'y) sys_scheme \<times> transaction" where
  "build_tx p fee ops memo timeout a s =
     (s\<lparr>account_cache := bump_cached (oid a) (account_cache s)\<rparr>,
      \<lparr>tx_source = account_id a, tx_sequence = sequence_number a + 1, tx_fee = fee, tx_ops = ops,
       tx_memo = memo, tx_min_time = 0, tx_max_time = now p s div 1000 + timeout, tx_signatures = []\<rparr>)"

definition sign_tx :: "string \<Rightarrow> transaction \<Rightarrow> transaction" where
  "sign_tx key tx = tx\<lparr>tx_signatures := tx_signatures tx @ [SignedBy key]\<rparr>"

definition base_fee :: string where
  "base_fee = ''100''"

section \<open>Results of a submission\<close>

record submit_result =
  sr_hash :: string
  sr_ledger :: jsnum

text \<open>\<open>SubmitResultSchema.parse\<close> of backend/tools/StellarPaymentTool.ts.\<close>

definition submit_result_schema :: "jsval \<Rightarrow> js_error + submit_result" where
  "submit_result_schema v =
     (case (v, field v ''hash'', field v ''ledger'') of
        (JObj kvs, JStr h, JNum n) \<Rightarrow>
          if is_nan n then Inl zod_failure else Inr \<lparr>sr_hash = h, sr_ledger = n\<rparr>
      | _ \<Rightarrow> Inl zod_failure)"

end
