(* ===== verification/Retry.thy ===== *)
theory Retry imports Prelude begin

text \<open>
  The contract the retry loops of the program share (\<open>withRetry\<close> of backend/rpc\_client.ts and
  the delivery loop of backend/webhook.ts): an attempt either ends the loop or is followed,
  unless it was the last one, by one pause whose length depends on its number.

  The state \<open>'s\<close> of a loop carries its parameters; \<open>good\<close> is what an attempt needs and keeps.
\<close>

locale retry_contract =
  fixes go :: "nat \<Rightarrow> nat \<Rightarrow> 's \<Rightarrow> 't"
    and good :: "'s \<Rightarrow> bool"
    and tries :: "'s \<Rightarrow> nat" and pauses :: "'s \<Rightarrow> rat list"
    and tries_end :: "'t \<Rightarrow> nat" and pauses_end :: "'t \<Rightarrow> rat list"
    and low :: "'s \<Rightarrow> nat \<Rightarrow> rat" and high :: "'s \<Rightarrow> nat \<Rightarrow> rat"
  assumes stop: "tries_end (go k 0 s) = tries s" "pauses_end (go k 0 s) = pauses s"
    and step: "good s \<Longrightarrow>
      (tries_end (go k (Suc n) s) \<le> tries s + 1 \<and> pauses_end (go k (Suc n) s) = pauses s) \<or>
      (\<exists>s' ds. go k (Suc n) s = go (k + 1) n s' \<and> good s' \<and> tries s' \<le> tries s + 1 \<and>
         pauses s' = pauses s @ ds \<and> length ds = (if n = 0 then 0 else 1) \<and>
         (\<forall>d \<in> set ds. low s k \<le> d \<and> d \<le> high s k) \<and> low s' = low s \<and> high s' = high s)"
begin

text \<open>At most as many tries as were allowed, one pause fewer, each pause within its bounds.\<close>

lemma bounded:
  assumes "good s"
  shows "tries_end (go k n s) \<le> tries s + n \<and>
    (\<exists>ds. pauses_end (go k n s) = pauses s @ ds \<and> length ds \<le> n - 1 \<and>
       (\<forall>i < length ds. low s (k + i) \<le> ds ! i \<and> ds ! i \<le> high s (k + i)))"
  using assms
proof (induction n arbitrary: k s)
  case 0
  show ?case by (simp add: stop)
next
  case (Suc n)
  from step [OF Suc.prems, of k n] show ?case
  proof (elim disjE exE conjE)
    assume "tries_end (go k (Suc n) s) \<le> tries s + 1" "pauses_end (go k (Suc n) s) = pauses s"
    then show ?case by simp
  next
    fix s' ds
    assume s': "go k (Suc n) s = go (k + 1) n s'" "good s'" "tries s' \<le> tries s + 1"
      and ds: "pauses s' = pauses s @ ds" "length ds = (if n = 0 then 0 else 1)"
        "\<forall>d \<in> set ds. low s k \<le> d \<and> d \<le> high s k"
      and eq: "low s' = low s" "high s' = high s"
    from Suc.IH [OF s'(2), of "k + 1"] obtain es where
      t: "tries_end (go (k + 1) n s') \<le> tries s' + n" and
      es: "pauses_end (go (k + 1) n s') = pauses s' @ es" "length es \<le> n - 1"
        "\<forall>i < length es. low s (k + 1 + i) \<le> es ! i \<and> es ! i \<le> high s (k + 1 + i)"
      unfolding eq by blast
    have "pauses_end (go k (Suc n) s) = pauses s @ (ds @ es)" using s'(1) es(1) ds(1) by simp
    moreover have "length (ds @ es) \<le> Suc n - 1" using ds(2) es(2) by (auto split: if_splits)
    moreover have "\<forall>i < length (ds @ es). low s (k + i) \<le> (ds @ es) ! i \<and> (ds @ es) ! i \<le> high s (k + i)"
    proof (cases "n = 0")
      case True
      with ds(2) es(2) show ?thesis by simp
    next
      case False
      then obtain d where d: "ds = [d]" using ds(2) by (cases ds) auto
      with ds(3) es(3) show ?thesis by (auto simp: nth_Cons split: nat.splits)
    qed
    ultimately show ?case using t s'(1,3) by (intro conjI exI [of _ "ds @ es"]) auto
  qed
qed

end

end
