(* ===== verification/TtlCache.thy ===== *)
theory TtlCache imports Prelude begin

text \<open>
  The contract of the caches with a lifetime (the Horizon accounts of backend/rpc\_client.ts, the
  ledger snapshot of LedgerInfoTool, the files of StellarTomlTool): what a lookup at a time
  returns after a store at an earlier one, and what their clients conclude from it.
\<close>

locale ttl_cache =
  fixes find_at :: "int \<Rightarrow> 'k \<Rightarrow> 'c \<Rightarrow> 'v option"
    and put_at :: "int \<Rightarrow> 'k \<Rightarrow> 'v \<Rightarrow> 'c \<Rightarrow> 'c"
    and empty :: 'c
    and ttl :: int
  assumes find_put_same:
      "t \<le> t' \<Longrightarrow> find_at t' k (put_at t k v c) = (if t' < t + ttl then Some v else None)"
    and find_put_other: "k \<noteq> k' \<Longrightarrow> find_at t' k' (put_at t k v c) = find_at t' k' c"
    and find_empty: "find_at t k empty = None"
begin

fun puts :: "(int \<times> 'k \<times> 'v) list \<Rightarrow> 'c \<Rightarrow> 'c" where
  "puts [] c = c"
| "puts ((t, k, v) # h) c = puts h (put_at t k v c)"

lemma puts_append: "puts (h @ h') c = puts h' (puts h c)"
  by (induction h c rule: puts.induct) auto

text \<open>A value is served only if it was the last one stored under its key, and only within the
  lifetime that began when it was stored.\<close>

lemma served_fresh:
  assumes "\<forall>e \<in> set h. fst e \<le> t" "find_at t k (puts h empty) = Some v"
  shows "\<exists>h1 h2 t0. h = h1 @ (t0, k, v) # h2 \<and> t < t0 + ttl \<and> (\<forall>e \<in> set h2. fst (snd e) \<noteq> k)"
  using assms
proof (induction h rule: rev_induct)
  case Nil
  then show ?case by (simp add: find_empty)
next
  case (snoc e h)
  obtain t0 k0 v0 where e: "e = (t0, k0, v0)" by (cases e) auto
  have p: "puts (h @ [e]) empty = put_at t0 k0 v0 (puts h empty)" by (simp add: puts_append e)
  show ?case
  proof (cases "k0 = k")
    case True
    with snoc.prems p have "v0 = v" "t < t0 + ttl"
      using find_put_same [of t0 t k v0 "puts h empty"] by (auto simp: e split: if_splits)
    with True show ?thesis by (intro exI [of _ h] exI [of _ "[]"] exI [of _ t0]) (simp add: e)
  next
    case False
    then have "find_at t k (puts h empty) = Some v"
      using snoc.prems(2) find_put_other [of k0 k t t0 v0 "puts h empty"] by (simp add: p)
    with snoc obtain h1 h2 t1 where "h = h1 @ (t1, k, v) # h2 \<and> t < t1 + ttl \<and> (\<forall>e \<in> set h2. fst (snd e) \<noteq> k)"
      by auto
    with False show ?thesis by (intro exI [of _ h1] exI [of _ "h2 @ [e]"] exI [of _ t1]) (auto simp: e)
  qed
qed

end

end
