(* ===== verification/RpcClient.thy ===== *)
theory RpcClient imports Stellar Retry TtlCache begin

text \<open>
  backend/rpc\_client.ts: retries with exponential back-off, the time limit of a call, the
  account cache, submission, and the simulation and authorization checks of Soroban
  transactions. backend/types/xdr.ts: the check of a base64 payload.

  A call is followed to its end in one process: while a queued call waits for the rate-limit
  lock, the platform says how the world moves on and whether a newer lock superseded it. The
  circuit breakers of the file wrap a third-party package and are used by no other module: they
  are in theory Breaker, here only their thresholds.
\<close>

section \<open>Retryable errors\<close>

definition default_is_retryable :: "js_error \<Rightarrow> bool" where
  "default_is_retryable e =
     (case e of
        ZodErr is m \<Rightarrow> False
      | TypeErr m \<Rightarrow> False
      | RpcRateLimitErr n \<Rightarrow> True
      | _ \<Rightarrow> \<not> (is_error e \<and>
               (js_includes (err_message e) ''budget_exceeded'' \<or>
                js_includes (err_message e) ''simulation failed'')))"

definition extract_retry_after_header :: "js_error \<Rightarrow> string option" where
  "extract_retry_after_header e =
     as_string (field (field (obj_get (err_props e) ''response'') ''headers'') ''retry-after'')"

definition is_rpc_rate_limit :: "js_error \<Rightarrow> bool" where
  "is_rpc_rate_limit e = (case e of RpcRateLimitErr n \<Rightarrow> True | _ \<Rightarrow> False)"

section \<open>withRetry\<close>

text \<open>One attempt: refused while the lock is active, else a call of the function.\<close>

definition attempt ::
    "('w, 'x) platform_scheme \<Rightarrow> (('w, 'y) sys_scheme \<Rightarrow> ('w, 'y) sys_scheme \<times> (js_error + 'a)) \<Rightarrow>
     ('w, 'y) sys_scheme \<Rightarrow> ('w, 'y) sys_scheme \<times> (js_error + 'a)" where
  "attempt p f s =
     (case is_throttled (now p s) (backoff s) of
        (b, True) \<Rightarrow> (s\<lparr>backoff := b\<rparr>, Inl (RpcRateLimitErr 30))
      | (b, False) \<Rightarrow> f (s\<lparr>backoff := b, rpc_calls := rpc_calls s + 1\<rparr>))"

text \<open>The pause after a failed attempt: the capped exponential plus up to a fifth of it.\<close>

definition capped_delay :: "int \<Rightarrow> int \<Rightarrow> nat \<Rightarrow> int" where
  "capped_delay delay_ms max_delay_ms k = min (delay_ms * 2 ^ (k - 1)) max_delay_ms"

definition pause ::
    "('w, 'x) platform_scheme \<Rightarrow> int \<Rightarrow> int \<Rightarrow> nat \<Rightarrow> ('w, 'y) sys_scheme \<Rightarrow> ('w, 'y) sys_scheme" where
  "pause p delay_ms max_delay_ms k s =
     (let (w, r) = random p (world s);
          capped = of_int (capped_delay delay_ms max_delay_ms k);
          d = capped + r * (1 / 5) * capped
      in s\<lparr>world := sleep_ms p d w, sleeps := sleeps s @ [d]\<rparr>)"

definition note_429 ::
    "('w, 'x) platform_scheme \<Rightarrow> js_error \<Rightarrow> ('w, 'y) sys_scheme \<Rightarrow> ('w, 'y) sys_scheme \<times> js_error" where
  "note_429 p e s =
     (if is_error e \<and> js_includes (err_message e) ''429''
      then (s\<lparr>backoff := handle_rate_limit_response (now p s) (extract_retry_after_header e) (backoff s)\<rparr>,
            RpcRateLimitErr 30)
      else (s, e))"

definition exhausted_error :: "nat \<Rightarrow> js_error \<Rightarrow> js_error" where
  "exhausted_error retries prev =
     stellar_rpc_error (''RPC call failed after '' @ nat_str retries @ '' attempt(s): '' @ err_message prev)
       (err_value prev)"

text \<open>The loop from attempt \<open>k\<close> with \<open>n\<close> attempts left. Reading \<open>.message\<close> of a thrown
  undefined or null is a TypeError.\<close>

fun retry_loop ::
    "('w, 'x) platform_scheme \<Rightarrow> nat \<Rightarrow> int \<Rightarrow> (js_error \<Rightarrow> bool) \<Rightarrow> int \<Rightarrow>
     (('w, 'y) sys_scheme \<Rightarrow> ('w, 'y) sys_scheme \<times> (js_error + 'a)) \<Rightarrow> nat \<Rightarrow> nat \<Rightarrow> js_error \<Rightarrow>
     ('w, 'y) sys_scheme \<Rightarrow> ('w, 'y) sys_scheme \<times> (js_error + 'a)" where
  "retry_loop p retries delay_ms retryable max_delay_ms f k 0 prev s = (s, Inl (exhausted_error retries prev))"
| "retry_loop p retries delay_ms retryable max_delay_ms f k (Suc n) prev s =
     (case attempt p f s of
        (s1, Inr x) \<Rightarrow> (s1, Inr x)
      | (s1, Inl e) \<Rightarrow>
          (let (s2, prev') = note_429 p e s1 in
           if \<not> retryable e \<and> \<not> is_rpc_rate_limit e then (s2, Inl e)
           else if (case e of ThrownValue v \<Rightarrow> nullish v | _ \<Rightarrow> False)
             then (s2, Inl (TypeErr ''Cannot read properties (reading 'message')''))
           else retry_loop p retries delay_ms retryable max_delay_ms f (k + 1) n prev'
                  (if n = 0 then s2 else pause p delay_ms max_delay_ms k s2)))"

definition with_retry ::
    "('w, 'x) platform_scheme \<Rightarrow> int \<Rightarrow> int \<Rightarrow> (js_error \<Rightarrow> bool) \<Rightarrow> int \<Rightarrow>
     (('w, 'y) sys_scheme \<Rightarrow> ('w, 'y) sys_scheme \<times> (js_error + 'a)) \<Rightarrow>
     ('w, 'y) sys_scheme \<Rightarrow> ('w, 'y) sys_scheme \<times> (js_error + 'a)" where
  "with_retry p retries delay_ms retryable max_delay_ms f s =
     retry_loop p (nat retries) delay_ms retryable max_delay_ms f 1 (nat retries)
       (plain ''unknown error'') s"

section \<open>Time limits and the lock\<close>

text \<open>\<open>withTimeout\<close>: the call goes on when the limit wins, only its result is dropped.\<close>

definition with_timeout ::
    "('w, 'x) platform_scheme \<Rightarrow> int \<Rightarrow> (('w, 'y) sys_scheme \<Rightarrow> ('w, 'y) sys_scheme \<times> (js_error + 'a)) \<Rightarrow>
     ('w, 'y) sys_scheme \<Rightarrow> ('w, 'y) sys_scheme \<times> (js_error + 'a)" where
  "with_timeout p ms f s =
     (let (s', r) = f s in if ms < now p s' - now p s then (s', Inl (TimeoutErr ms)) else (s', r))"

text \<open>\<open>withBackoffGuard\<close> around a call: run at once, or after the lock has cleared, or rejected
  because a newer activation superseded the wait.\<close>

definition guarded ::
    "('w, 'x) platform_scheme \<Rightarrow> (('w, 'y) sys_scheme \<Rightarrow> ('w, 'y) sys_scheme \<times> (js_error + 'a)) \<Rightarrow>
     ('w, 'y) sys_scheme \<Rightarrow> ('w, 'y) sys_scheme \<times> (js_error + 'a)" where
  "guarded p f s =
     (case is_throttled (now p s) (backoff s) of
        (b, False) \<Rightarrow> f (s\<lparr>backoff := b\<rparr>)
      | (b, True) \<Rightarrow>
          (let (w, superseded) = while_locked p (world s) in
           if superseded
           then (s\<lparr>world := w, backoff := (clear_backoff None b)\<lparr>generation := generation b + 1\<rparr>\<rparr>,
                 Inl (plain ''Backoff superseded before queued callback could run''))
           else f (s\<lparr>world := w, backoff := clear_backoff None b\<rparr>)))"

definition max_retry_delay_ms :: int where
  "max_retry_delay_ms = 30000"

definition submit_timeout_ms :: int where
  "submit_timeout_ms = 30000"

section \<open>The account cache\<close>

definition invalidate_account_cache :: "string option \<Rightarrow> ('w, 'y) sys_scheme \<Rightarrow> ('w, 'y) sys_scheme" where
  "invalidate_account_cache k s =
     (case k of None \<Rightarrow> s\<lparr>account_cache := (\<lambda>x. None)\<rparr>
      | Some pk \<Rightarrow> s\<lparr>account_cache := (account_cache s)(pk := None)\<rparr>)"

text \<open>\<open>horizonServer.loadAccount\<close>: a new account object.\<close>

definition fetch_account ::
    "('w, 'x) platform_scheme \<Rightarrow> string \<Rightarrow> ('w, 'y) sys_scheme \<Rightarrow> ('w, 'y) sys_scheme \<times> (js_error + account)" where
  "fetch_account p pk s =
     (case outside (horizon_load_account p pk) s of
        (s1, Inl e) \<Rightarrow> (s1, Inl e)
      | (s1, Inr a) \<Rightarrow> (s1\<lparr>next_oid := next_oid s1 + 1\<rparr>, Inr (a\<lparr>oid := next_oid s1\<rparr>)))"

definition refresh_account ::
    "('w, 'x) platform_scheme \<Rightarrow> agent_config \<Rightarrow> string \<Rightarrow> ('w, 'y) sys_scheme \<Rightarrow>
     ('w, 'y) sys_scheme \<times> (js_error + account)" where
  "refresh_account p c pk s =
     guarded p (with_timeout p (RPC_TIMEOUT_MS c)
       (with_retry p (MAX_RETRIES c) (RETRY_DELAY_MS c) default_is_retryable max_retry_delay_ms
          (fetch_account p pk))) s"

text \<open>The cached record that may still be served at time \<open>t\<close>, and storing one.\<close>

definition fresh_account :: "int \<Rightarrow> int \<Rightarrow> string \<Rightarrow> (string \<Rightarrow> (account \<times> int) option) \<Rightarrow> account option" where
  "fresh_account ttl t pk cache =
     (if ttl \<le> 0 then None
      else case cache pk of Some (a, e) \<Rightarrow> if t < e then Some a else None | None \<Rightarrow> None)"

definition put_account ::
    "int \<Rightarrow> int \<Rightarrow> string \<Rightarrow> account \<Rightarrow> (string \<Rightarrow> (account \<times> int) option) \<Rightarrow>
     (string \<Rightarrow> (account \<times> int) option)" where
  "put_account ttl t pk a cache = (if 0 < ttl then cache(pk \<mapsto> (a, t + ttl)) else cache)"

definition store_account ::
    "('w, 'x) platform_scheme \<Rightarrow> agent_config \<Rightarrow> string \<Rightarrow> account \<Rightarrow> ('w, 'y) sys_scheme \<Rightarrow> ('w, 'y) sys_scheme" where
  "store_account p c pk a s =
     s\<lparr>account_cache := put_account (ACCOUNT_CACHE_TTL_MS c) (now p s) pk a (account_cache s)\<rparr>"

text \<open>A miss that finds an expired record removes it before the fetch.\<close>

definition load_account ::
    "('w, 'x) platform_scheme \<Rightarrow> agent_config \<Rightarrow> string \<Rightarrow> bool \<Rightarrow> ('w, 'y) sys_scheme \<Rightarrow>
     ('w, 'y) sys_scheme \<times> (js_error + account)" where
  "load_account p c pk force s =
     (let fetch = (\<lambda>s. andThen (refresh_account p c pk s) (\<lambda>s a. (store_account p c pk a s, Inr a))) in
      if force then fetch (s\<lparr>account_cache := (account_cache s)(pk := None)\<rparr>)
      else if 0 < ACCOUNT_CACHE_TTL_MS c then
        (case fresh_account (ACCOUNT_CACHE_TTL_MS c) (now p s) pk (account_cache s) of
           Some a \<Rightarrow> (s, Inr a)
         | None \<Rightarrow> fetch (s\<lparr>account_cache := (account_cache s)(pk := None)\<rparr>))
      else fetch s)"

section \<open>XDR payloads\<close>

definition is_base64_char :: "char \<Rightarrow> bool" where
  "is_base64_char c \<longleftrightarrow> is_digit c \<or> (65 \<le> ccode c \<and> ccode c \<le> 90) \<or> (97 \<le> ccode c \<and> ccode c \<le> 122) \<or>
     c = CHR ''+'' \<or> c = CHR ''/''"

text \<open>The base64 check of the schema library: groups of four, the last one padded.\<close>

fun is_base64 :: "string \<Rightarrow> bool" where
  "is_base64 [] = True"
| "is_base64 [a, b, c, d] =
     (is_base64_char a \<and> is_base64_char b \<and>
      (is_base64_char c \<and> (is_base64_char d \<or> d = CHR ''='') \<or> c = CHR ''='' \<and> d = CHR ''=''))"
| "is_base64 (a # b # c # d # e # s) =
     (is_base64_char a \<and> is_base64_char b \<and> is_base64_char c \<and> is_base64_char d \<and> is_base64 (e # s))"
| "is_base64 _ = False"

definition max_xdr_bytes :: nat where
  "max_xdr_bytes = 65536"

definition validate_xdr :: "jsval \<Rightarrow> js_error + string" where
  "validate_xdr v =
     (case v of
        JStr s \<Rightarrow>
          if s = [] then Inl (InvalidXDRFormat ''XDR payload must not be empty'')
          else if max_xdr_bytes < length s
            then Inl (InvalidXDRFormat ''Payload exceeds maximum XDR size of 65536 bytes'')
          else if \<not> is_base64 s then Inl (InvalidXDRFormat ''Invalid base64 encoding'')
          else Inr s
      | _ \<Rightarrow> Inl (InvalidXDRFormat ''Expected string''))"

section \<open>Submission\<close>

text \<open>One submission raced against its 30 seconds; every envelope handed to Horizon is traced.\<close>

definition submit_once ::
    "('w, 'x) platform_scheme \<Rightarrow> envelope \<Rightarrow> ('w, 'y) sys_scheme \<Rightarrow> ('w, 'y) sys_scheme \<times> (js_error + jsval)" where
  "submit_once p env s =
     with_timeout p submit_timeout_ms (outside (horizon_submit p env))
       (s\<lparr>submissions := submissions s @ [env]\<rparr>)"

definition submit_transaction ::
    "('w, 'x) platform_scheme \<Rightarrow> agent_config \<Rightarrow> envelope \<Rightarrow> ('w, 'y) sys_scheme \<Rightarrow>
     ('w, 'y) sys_scheme \<times> (js_error + jsval)" where
  "submit_transaction p c env s =
     (case validate_xdr (JStr (tx_base64 p env)) of
        Inl e \<Rightarrow> (s, Inl e)
      | Inr x \<Rightarrow>
          (let (s', r) = guarded p (with_retry p (MAX_RETRIES c) (RETRY_DELAY_MS c) default_is_retryable
                             max_retry_delay_ms (submit_once p env)) s
           in (invalidate_account_cache None s', r)))"

text \<open>\<open>SubmitResultSchema.parse(await submitTransaction(tx))\<close>, the last step of most tools.\<close>

definition submit_and_parse ::
    "('w, 'x) platform_scheme \<Rightarrow> agent_config \<Rightarrow> envelope \<Rightarrow> ('w, 'y) sys_scheme \<Rightarrow>
     ('w, 'y) sys_scheme \<times> (js_error + submit_result)" where
  "submit_and_parse p c env s =
     andThen (submit_transaction p c env s) (\<lambda>s v. (s, submit_result_schema v))"

definition resolve_network_passphrase :: "string \<Rightarrow> js_error + string" where
  "resolve_network_passphrase net =
     (if net = ''mainnet'' then Inr ''Public Global Stellar Network ; September 2015''
      else if net = ''futurenet'' then Inr ''Test SDF Future Network ; October 2022''
      else if net = ''testnet'' then Inr ''Test SDF Network ; September 2015''
      else Inl (config_error (''Unsupported network: '' @ net)))"

section \<open>Simulation and authorization of Soroban transactions\<close>

text \<open>What the authorization check reads of an entry: no credentials, credentials that name no
  address, or address credentials with the raw key that could be decoded, if any.\<close>

datatype auth_entry = NoCredentials | SourceCredentials | AddressCredentials "string option"

text \<open>What the code reads of a diagnostic event: \<open>inSuccessfulContractCall()\<close> and, where there is a
  v0 body, its topics and its data after \<open>scValToNative\<close> (None where that throws).\<close>

record diagnostic_event =
  de_in_successful_call :: bool
  de_body :: "(jsval option list \<times> jsval option) option"

datatype simulation =
    SimulationError "string option"
  | SimulationSuccess "auth_entry list list" "diagnostic_event list" jsval

record 'w soroban = "'w platform" +
  simulate_transaction :: "transaction \<Rightarrow> 'w \<Rightarrow> 'w \<times> (js_error + simulation)"
  assemble_transaction :: "transaction \<Rightarrow> simulation \<Rightarrow> transaction"
  encode_public_key :: "string \<Rightarrow> string"

definition simulate_soroban_tx ::
    "('w, 'x) soroban_scheme \<Rightarrow> agent_config \<Rightarrow> transaction \<Rightarrow> ('w, 'y) sys_scheme \<Rightarrow>
     ('w, 'y) sys_scheme \<times> (js_error + simulation)" where
  "simulate_soroban_tx p c tx s =
     guarded p (with_timeout p (RPC_TIMEOUT_MS c)
       (with_retry p (MAX_RETRIES c) (RETRY_DELAY_MS c) default_is_retryable max_retry_delay_ms
          (outside (simulate_transaction p tx)))) s"

definition check_auth_entry :: "(string \<Rightarrow> string) \<Rightarrow> string \<Rightarrow> auth_entry \<Rightarrow> js_error + unit" where
  "check_auth_entry encode agent e =
     (case e of
        AddressCredentials None \<Rightarrow>
          Inl (unauthorized_error ''Unexpected Soroban auth signer format''
                 (JObj [(''signer'', JNull), (''expected'', JStr agent)]))
      | AddressCredentials (Some raw) \<Rightarrow>
          (let signer = encode raw in
           if signer = agent then Inr ()
           else Inl (unauthorized_error (''Unexpected Soroban auth signer: '' @ signer)
                       (JObj [(''signer'', JStr signer), (''expected'', JStr agent)])))
      | _ \<Rightarrow> Inr ())"

definition validate_soroban_auth :: "(string \<Rightarrow> string) \<Rightarrow> string \<Rightarrow> auth_entry list list \<Rightarrow> js_error + unit" where
  "validate_soroban_auth encode agent ops =
     bind_result (map_result (check_auth_entry encode agent) (concat ops)) (\<lambda>us. Inr ())"

record prepared =
  prepared_tx :: transaction
  prepared_events :: "diagnostic_event list"

definition prepare_soroban_tx_with_events ::
    "('w, 'x) soroban_scheme \<Rightarrow> agent_config \<Rightarrow> transaction \<Rightarrow> ('w, 'y) sys_scheme \<Rightarrow>
     ('w, 'y) sys_scheme \<times> (js_error + prepared)" where
  "prepare_soroban_tx_with_events p c tx s =
     andThen (simulate_soroban_tx p c tx s) (\<lambda>s sim.
       case sim of
         SimulationError err \<Rightarrow>
           (let msg = (case err of Some m \<Rightarrow> m | None \<Rightarrow> []) in
            (s, Inl (if js_includes msg ''budget_exceeded''
                     then simulation_budget_error (''Soroban simulation failed: '' @ msg)
                     else contract_error (''Soroban simulation failed: '' @ msg) JUndef (JStr msg))))
       | SimulationSuccess auth events ret \<Rightarrow>
           (let built = assemble_transaction p tx sim in
            case validate_soroban_auth (encode_public_key p) (AGENT_PUBLIC_KEY c) auth of
              Inl e \<Rightarrow> (s, Inl e)
            | Inr u \<Rightarrow> (s, Inr \<lparr>prepared_tx = built, prepared_events = events\<rparr>)))"

definition prepare_soroban_tx ::
    "('w, 'x) soroban_scheme \<Rightarrow> agent_config \<Rightarrow> transaction \<Rightarrow> ('w, 'y) sys_scheme \<Rightarrow>
     ('w, 'y) sys_scheme \<times> (js_error + transaction)" where
  "prepare_soroban_tx p c tx s =
     andThen (prepare_soroban_tx_with_events p c tx s) (\<lambda>s r. (s, Inr (prepared_tx r)))"

section \<open>The loop of withRetry\<close>

text \<open>What a retried function must leave alone: the traces of the loop itself.\<close>

definition retry_frame ::
    "(('w, 'y) sys_scheme \<Rightarrow> ('w, 'y) sys_scheme \<times> (js_error + 'a)) \<Rightarrow> bool" where
  "retry_frame f \<longleftrightarrow> (\<forall>s. rpc_calls (fst (f s)) = rpc_calls s \<and> sleeps (fst (f s)) = sleeps s)"

text \<open>\<open>Math.random()\<close> is at least 0 and below 1.\<close>

definition random_ok :: "('w, 'x) platform_scheme \<Rightarrow> bool" where
  "random_ok p \<longleftrightarrow> (\<forall>w. 0 \<le> snd (random p w) \<and> snd (random p w) < 1)"

record ('s, 'a, 'p) retry_state =
  rs_platform :: 'p
  rs_retries :: nat
  rs_delay :: int
  rs_max_delay :: int
  rs_retryable :: "js_error \<Rightarrow> bool"
  rs_function :: "'s \<Rightarrow> 's \<times> (js_error + 'a)"
  rs_previous :: js_error
  rs_sys :: 's

definition retry_go ::
    "nat \<Rightarrow> nat \<Rightarrow> (('w, 'y) sys_scheme, 'a, ('w, 'x) platform_scheme) retry_state \<Rightarrow>
     ('w, 'y) sys_scheme \<times> (js_error + 'a)" where
  "retry_go k n x = retry_loop (rs_platform x) (rs_retries x) (rs_delay x) (rs_retryable x)
     (rs_max_delay x) (rs_function x) k n (rs_previous x) (rs_sys x)"

definition retry_good :: "(('w, 'y) sys_scheme, 'a, ('w, 'x) platform_scheme) retry_state \<Rightarrow> bool" where
  "retry_good x \<longleftrightarrow> retry_frame (rs_function x) \<and> random_ok (rs_platform x) \<and>
     0 \<le> rs_delay x \<and> 0 \<le> rs_max_delay x"

definition retry_low :: "(('w, 'y) sys_scheme, 'a, ('w, 'x) platform_scheme) retry_state \<Rightarrow> nat \<Rightarrow> rat" where
  "retry_low x k = of_int (capped_delay (rs_delay x) (rs_max_delay x) k)"

definition retry_high :: "(('w, 'y) sys_scheme, 'a, ('w, 'x) platform_scheme) retry_state \<Rightarrow> nat \<Rightarrow> rat" where
  "retry_high x k = 6 / 5 * of_int (capped_delay (rs_delay x) (rs_max_delay x) k)"

lemma capped_delay_nonneg: "0 \<le> d \<Longrightarrow> 0 \<le> m \<Longrightarrow> 0 \<le> capped_delay d m k"
  by (simp add: capped_delay_def)

lemma attempt_frame:
  assumes "retry_frame f"
  shows "rpc_calls (fst (attempt p f s)) \<le> rpc_calls s + 1" "sleeps (fst (attempt p f s)) = sleeps s"
  using assms by (auto simp: attempt_def retry_frame_def split: prod.splits bool.splits)

lemma note_429_frame [simp]:
  "rpc_calls (fst (note_429 p e s)) = rpc_calls s" "sleeps (fst (note_429 p e s)) = sleeps s"
  by (simp_all add: note_429_def)

lemma pause_frame:
  assumes "random_ok p" "0 \<le> d" "0 \<le> m"
  shows "\<exists>x. sleeps (pause p d m k s) = sleeps s @ [x] \<and> of_int (capped_delay d m k) \<le> x \<and>
    x \<le> 6 / 5 * of_int (capped_delay d m k)" "rpc_calls (pause p d m k s) = rpc_calls s"
proof -
  obtain w r where wr: "random p (world s) = (w, r)" by fastforce
  with assms(1) have r: "0 \<le> r" "r < 1" unfolding random_ok_def by (metis snd_conv)+
  let ?c = "of_int (capped_delay d m k) :: rat"
  have c: "0 \<le> ?c" using capped_delay_nonneg [OF assms(2,3)] by simp
  then have "0 \<le> r * (1 / 5) * ?c" "r * (1 / 5) * ?c \<le> 1 * (1 / 5) * ?c"
    using r mult_right_mono [of r 1 ?c] by auto
  then show "\<exists>x. sleeps (pause p d m k s) = sleeps s @ [x] \<and> ?c \<le> x \<and> x \<le> 6 / 5 * ?c"
    by (simp add: pause_def wr Let_def)
  show "rpc_calls (pause p d m k s) = rpc_calls s" by (simp add: pause_def wr Let_def)
qed

interpretation rpc_retry: retry_contract retry_go retry_good
  "\<lambda>x. rpc_calls (rs_sys x)" "\<lambda>x. sleeps (rs_sys x)" "\<lambda>r. rpc_calls (fst r)" "\<lambda>r. sleeps (fst r)"
  retry_low retry_high
proof (unfold_locales, goal_cases)
  case (1 k s)
  show ?case by (simp add: retry_go_def)
next
  case (2 k s)
  show ?case by (simp add: retry_go_def)
next
  case (3 x k n)
  note good = 3
  let ?p = "rs_platform x"
  obtain s1 r where a: "attempt ?p (rs_function x) (rs_sys x) = (s1, r)" by fastforce
  have s1: "rpc_calls s1 \<le> rpc_calls (rs_sys x) + 1" "sleeps s1 = sleeps (rs_sys x)"
    using attempt_frame [of "rs_function x" ?p "rs_sys x"] good a by (simp_all add: retry_good_def)
  let ?fin = "rpc_calls (fst (retry_go k (Suc n) x)) \<le> rpc_calls (rs_sys x) + 1 \<and>
      sleeps (fst (retry_go k (Suc n) x)) = sleeps (rs_sys x)"
  show ?case
  proof (cases r)
    case (Inr v)
    with a s1 show ?thesis by (simp add: retry_go_def)
  next
    case (Inl e)
    obtain s2 e2 where n4: "note_429 ?p e s1 = (s2, e2)" by fastforce
    have s2: "rpc_calls s2 = rpc_calls s1" "sleeps s2 = sleeps s1"
      using note_429_frame [of ?p e s1] n4 by simp_all
    show ?thesis
    proof (cases "(\<not> rs_retryable x e \<and> \<not> is_rpc_rate_limit e) \<or> (case e of ThrownValue v \<Rightarrow> nullish v | _ \<Rightarrow> False)")
      case True
      with a Inl n4 s1 s2 show ?thesis by (auto simp: retry_go_def)
    next
      case False
      let ?s3 = "if n = 0 then s2 else pause ?p (rs_delay x) (rs_max_delay x) k s2"
      let ?x = "x\<lparr>rs_previous := e2, rs_sys := ?s3\<rparr>"
      from False a Inl n4 have go: "retry_go k (Suc n) x = retry_go (k + 1) n ?x"
        by (auto simp: retry_go_def)
      have g: "random_ok ?p" "0 \<le> rs_delay x" "0 \<le> rs_max_delay x" using good by (simp_all add: retry_good_def)
      have lh: "retry_low ?x = retry_low x" "retry_high ?x = retry_high x" "retry_good ?x"
        using good by (auto simp: retry_low_def retry_high_def retry_good_def fun_eq_iff)
      obtain d where d: "sleeps (pause ?p (rs_delay x) (rs_max_delay x) k s2) = sleeps s2 @ [d]"
          "retry_low x k \<le> d" "d \<le> retry_high x k"
        using pause_frame(1) [OF g, of k s2] by (auto simp: retry_low_def retry_high_def)
      show ?thesis
        using go lh d s1 s2 pause_frame(2) [OF g, of k s2]
        by (intro disjI2 exI [of _ ?x] exI [of _ "if n = 0 then [] else [d]"]) auto
    qed
  qed
qed

section \<open>Properties of withRetry\<close>

text \<open>
  C11. \<open>withRetry\<close> calls its function at most \<open>retries\<close> times and sleeps at most
  \<open>retries - 1\<close> times, never after the last attempt; the \<open>i\<close>-th pause is at least the capped
  exponential \<open>min (delay * 2^(i-1)) max\<close> and at most a fifth longer. So the jitter only ever
  lengthens a pause, and may carry it past the stated maximum.
\<close>

theorem with_retry_bounded:
  assumes "retry_frame f" "random_ok p" "0 \<le> delay" "0 \<le> max_delay"
    and "with_retry p retries delay retryable max_delay f s = (s', r)"
  shows "rpc_calls s' \<le> rpc_calls s + nat retries \<and>
    (\<exists>ds. sleeps s' = sleeps s @ ds \<and> length ds \<le> nat retries - 1 \<and>
      (\<forall>i < length ds. of_int (capped_delay delay max_delay (1 + i)) \<le> ds ! i \<and>
         ds ! i \<le> 6 / 5 * of_int (capped_delay delay max_delay (1 + i))))"
proof -
  let ?x = "\<lparr>rs_platform = p, rs_retries = nat retries, rs_delay = delay, rs_max_delay = max_delay,
    rs_retryable = retryable, rs_function = f, rs_previous = plain ''unknown error'', rs_sys = s\<rparr>"
  have "retry_good ?x" using assms(1-4) by (simp add: retry_good_def)
  moreover have "retry_go 1 (nat retries) ?x = (s', r)"
    using assms(5) by (simp add: retry_go_def with_retry_def)
  ultimately show ?thesis
    using rpc_retry.bounded [of ?x 1 "nat retries"] by (simp add: retry_low_def retry_high_def)
qed

text \<open>A world that is a clock, in milliseconds, on which every request fails in a given way.\<close>

definition toy_platform :: "(string \<Rightarrow> int \<Rightarrow> int \<times> (js_error + account)) \<Rightarrow>
    (envelope \<Rightarrow> int \<Rightarrow> int \<times> (js_error + jsval)) \<Rightarrow> int platform" where
  "toy_platform load submit =
     \<lparr>clock = (\<lambda>w. w), sleep_ms = (\<lambda>d w. w + \<lfloor>d\<rfloor>), random = (\<lambda>w. (w, 1 / 2)),
      while_locked = (\<lambda>w. (w + 30000, False)), horizon_load_account = load, horizon_submit = submit,
      valid_ed25519 = (\<lambda>s. length s = 56 \<and> starts_with s ''G''),
      asset_fault = (\<lambda>c i. None), op_fault = (\<lambda>op. None), tx_base64 = (\<lambda>e. ''AAAA''),
      print_num = (\<lambda>r. int_str \<lfloor>r\<rfloor>)\<rparr>"

definition toy_account :: account where
  "toy_account = \<lparr>account_id = sample_key, sequence_number = 41, balances = [], subentry_count = 0,
     data_attr = [], inflation_destination = None, oid = 0\<rparr>"

definition good_platform :: "int platform" where
  "good_platform = toy_platform (\<lambda>k w. (w + 5, Inr toy_account))
     (\<lambda>e w. (w + 5, Inr (JObj [(''hash'', JStr ''h1''), (''ledger'', JNum (JFin 7))])))"

definition down_platform :: "int platform" where
  "down_platform = toy_platform (\<lambda>k w. (w + 5, Inl (plain ''boom'')))
     (\<lambda>e w. (w + 5, Inl (plain ''boom'')))"

lemma random_ok_toy [simp]: "random_ok (toy_platform l u)"
  by (simp add: random_ok_def toy_platform_def)

lemma retry_frame_fetch: "retry_frame (fetch_account p pk)"
  by (auto simp: retry_frame_def fetch_account_def outside_def split: prod.splits sum.splits)

lemma retry_frame_submit: "retry_frame (submit_once p env)"
  by (auto simp: retry_frame_def submit_once_def with_timeout_def outside_def Let_def split: prod.splits)

theorem with_retry_bounded_witness:
  "\<exists>s' r. with_retry down_platform 3 1500 default_is_retryable 30000 (fetch_account down_platform sample_key)
       (initial_sys 0) = (s', r) \<and> rpc_calls s' \<le> 3 \<and> length (sleeps s') \<le> 2"
proof -
  obtain s' r where w: "with_retry down_platform 3 1500 default_is_retryable 30000
      (fetch_account down_platform sample_key) (initial_sys 0) = (s', r)" by fastforce
  have "random_ok down_platform" by (simp add: down_platform_def)
  from with_retry_bounded [OF retry_frame_fetch this _ _ w] w show ?thesis
    by (auto simp: initial_sys_def)
qed

text \<open>What a single failed attempt decides.\<close>

lemma not_throttled_clear:
  "\<not> active b \<Longrightarrow> is_throttled t b = (b, False)"
  by (simp add: is_throttled_def)

text \<open>
  An error that is not retryable (a schema or type error, an exhausted Soroban budget, a
  failed simulation) leaves \<open>withRetry\<close> unchanged after one call: it is neither retried nor
  wrapped, and no time is slept away.
\<close>

theorem non_retryable_thrown_as_is:
  assumes "\<not> active (backoff s)" "1 \<le> retries"
    and "f (s\<lparr>rpc_calls := rpc_calls s + 1\<rparr>) = (s', Inl e)"
    and "\<not> default_is_retryable e"
  shows "\<exists>s''. with_retry p retries delay default_is_retryable max_delay f s = (s'', Inl e) \<and>
    rpc_calls s'' = rpc_calls s' \<and> sleeps s'' = sleeps s' \<and> world s'' = world s'"
proof -
  obtain n where n: "nat retries = Suc n" using assms(2) by (cases "nat retries") auto
  have a: "attempt p f s = (s', Inl e)"
    using assms(1,3) by (simp add: attempt_def not_throttled_clear)
  have rl: "\<not> is_rpc_rate_limit e" using assms(4) by (cases e) (auto simp: default_is_retryable_def is_rpc_rate_limit_def)
  obtain s2 e2 where n4: "note_429 p e s' = (s2, e2)" by fastforce
  have "rpc_calls s2 = rpc_calls s'" "sleeps s2 = sleeps s'" "world s2 = world s'"
    using n4 by (auto simp: note_429_def split: if_splits)
  then show ?thesis
    using a n4 assms(4) rl by (simp add: with_retry_def n)
qed

theorem non_retryable_thrown_as_is_witness:
  "\<exists>s''. with_retry down_platform 3 1500 default_is_retryable 30000
      (\<lambda>s. (s, Inl zod_failure :: js_error + unit)) (initial_sys 0) = (s'', Inl zod_failure) \<and>
    rpc_calls s'' = 1 \<and> sleeps s'' = []"
  using non_retryable_thrown_as_is [of "initial_sys (0::int)" 3 "\<lambda>s. (s, Inl zod_failure :: js_error + unit)"
      _ zod_failure down_platform 1500 30000]
  by (auto simp: initial_sys_def initial_backoff_def default_is_retryable_def)

section \<open>The account cache\<close>

lemma guarded_idle: "\<not> active (backoff s) \<Longrightarrow> guarded p f s = f s"
  by (simp add: guarded_def is_throttled_def)

lemma with_retry_first:
  assumes "\<not> active (backoff s)" "1 \<le> retries" "f (s\<lparr>rpc_calls := rpc_calls s + 1\<rparr>) = (s', Inr x)"
  shows "with_retry p retries delay retryable max_delay f s = (s', Inr x)"
proof -
  obtain n where "nat retries = Suc n" using assms(2) by (cases "nat retries") auto
  with assms show ?thesis by (simp add: with_retry_def attempt_def is_throttled_def)
qed

lemma good_platform_simps [simp]:
  "clock good_platform w = w" "tx_base64 good_platform e = ''AAAA''"
  "horizon_load_account good_platform k w = (w + 5, Inr toy_account)"
  "horizon_submit good_platform e w =
     (w + 5, Inr (JObj [(''hash'', JStr ''h1''), (''ledger'', JNum (JFin 7))]))"
  by (simp_all add: good_platform_def toy_platform_def)

lemma valid_AAAA: "validate_xdr (JStr ''AAAA'') = Inr ''AAAA''"
  by (simp add: validate_xdr_def max_xdr_bytes_def is_base64_char_def ccode_def)

text \<open>Any platform that answers as this one does.\<close>

definition good_like :: "(int, 'x) platform_scheme \<Rightarrow> bool" where
  "good_like p \<longleftrightarrow> (\<forall>w. clock p w = w) \<and> (\<forall>e. tx_base64 p e = ''AAAA'') \<and>
     (\<forall>k w. horizon_load_account p k w = (w + 5, Inr toy_account)) \<and>
     (\<forall>e w. horizon_submit p e w =
        (w + 5, Inr (JObj [(''hash'', JStr ''h1''), (''ledger'', JNum (JFin 7))]))) \<and>
     (\<forall>op. op_fault p op = None)"

lemma good_like_good [simp]: "good_like good_platform"
  by (simp add: good_like_def) (simp add: good_platform_def toy_platform_def)

lemma good_submit:
  "good_like p \<Longrightarrow> \<not> active (backoff s) \<Longrightarrow> submit_transaction p sample_agent_config env s =
     (s\<lparr>rpc_calls := rpc_calls s + 1, submissions := submissions s @ [env], world := world s + 5,
        account_cache := (\<lambda>k. None)\<rparr>, Inr (JObj [(''hash'', JStr ''h1''), (''ledger'', JNum (JFin 7))]))"
  by (simp add: good_like_def submit_transaction_def valid_AAAA guarded_idle
      submit_once_def with_timeout_def outside_def now_def submit_timeout_ms_def
      invalidate_account_cache_def with_retry_def attempt_def is_throttled_def numeral_eq_Suc)

lemma good_fetch:
  "good_like p \<Longrightarrow> \<not> active (backoff s) \<Longrightarrow> refresh_account p sample_agent_config pk s =
     (s\<lparr>rpc_calls := rpc_calls s + 1, world := world s + 5, next_oid := next_oid s + 1\<rparr>,
      Inr (toy_account\<lparr>oid := next_oid s\<rparr>))"
  by (simp add: good_like_def refresh_account_def guarded_idle with_timeout_def with_retry_def attempt_def
      fetch_account_def is_throttled_def outside_def now_def numeral_eq_Suc)

lemma good_load:
  "good_like p \<Longrightarrow> \<not> active (backoff s) \<Longrightarrow> account_cache s = (\<lambda>k. None) \<Longrightarrow>
   load_account p sample_agent_config pk f s =
     (s\<lparr>rpc_calls := rpc_calls s + 1, world := world s + 5, next_oid := next_oid s + 1,
        account_cache := [pk \<mapsto> (toy_account\<lparr>oid := next_oid s\<rparr>, world s + 30005)]\<rparr>,
      Inr (toy_account\<lparr>oid := next_oid s\<rparr>))"
  by (simp add: load_account_def fresh_account_def good_fetch store_account_def put_account_def now_def
      good_like_def add.commute)

lemma good_submit_and_parse:
  "good_like p \<Longrightarrow> \<not> active (backoff s) \<Longrightarrow> submit_and_parse p sample_agent_config env s =
     (s\<lparr>rpc_calls := rpc_calls s + 1, submissions := submissions s @ [env], world := world s + 5,
        account_cache := (\<lambda>k. None)\<rparr>, Inr \<lparr>sr_hash = ''h1'', sr_ledger = JFin 7\<rparr>)"
  by (simp add: submit_and_parse_def good_submit submit_result_schema_def field_def obj_get_def is_nan_def)

interpretation accounts: ttl_cache "fresh_account ttl" "put_account ttl" "\<lambda>k. None" ttl
  by unfold_locales (auto simp: fresh_account_def put_account_def)

lemma load_account_cases:
  assumes "load_account p c pk force s = (s', Inr a)"
  obtains "\<not> force" "fresh_account (ACCOUNT_CACHE_TTL_MS c) (now p s) pk (account_cache s) = Some a" "s' = s"
  | s0 s1 where "s0 = s \<or> s0 = s\<lparr>account_cache := (account_cache s)(pk := None)\<rparr>"
      "refresh_account p c pk s0 = (s1, Inr a)" "s' = store_account p c pk a s1"
  using assms by (auto simp: load_account_def Let_def andThen_Inr split: if_splits option.splits)

lemma submit_clears_cache:
  "validate_xdr (JStr (tx_base64 p env)) = Inr x \<Longrightarrow>
   account_cache (fst (submit_transaction p c env s)) = (\<lambda>k. None)"
  by (simp add: submit_transaction_def invalidate_account_cache_def split: prod.splits)

text \<open>
  No account read before a submission is served after it: whatever the outcome of a
  submission that got past the payload check (success, rejection, time-out, lock superseded),
  the next \<open>loadAccount\<close> of any account that succeeds returns what Horizon answers then.
\<close>

theorem no_cached_account_after_submit:
  assumes "validate_xdr (JStr (tx_base64 p env)) = Inr x"
    and "submit_transaction p c env s = (s', r)"
    and "load_account p c pk force s' = (s'', Inr a)"
  shows "\<exists>s1. refresh_account p c pk s' = (s1, Inr a) \<and> s'' = store_account p c pk a s1"
proof -
  have e: "account_cache s' = (\<lambda>k. None)" using submit_clears_cache [OF assms(1), of c s] assms(2) by simp
  then have same: "s'\<lparr>account_cache := (\<lambda>k. None)\<rparr> = s'" by simp
  from assms(3) show ?thesis
    by (cases rule: load_account_cases) (auto simp: e fresh_account_def same split: if_splits)
qed

theorem no_cached_account_after_submit_witness:
  "\<exists>s' r s'' a. submit_transaction good_platform sample_agent_config
       (Envelope \<lparr>tx_source = sample_key, tx_sequence = 42, tx_fee = base_fee, tx_ops = [], tx_memo = None,
          tx_min_time = 0, tx_max_time = 30, tx_signatures = []\<rparr>) (initial_sys 0) = (s', r) \<and>
     load_account good_platform sample_agent_config sample_key False s' = (s'', Inr a) \<and>
     (\<exists>s1. refresh_account good_platform sample_agent_config sample_key s' = (s1, Inr a))"
proof -
  let ?env = "Envelope \<lparr>tx_source = sample_key, tx_sequence = 42, tx_fee = base_fee, tx_ops = [], tx_memo = None,
          tx_min_time = 0, tx_max_time = 30, tx_signatures = []\<rparr>"
  let ?s' = "(initial_sys (0::int))\<lparr>rpc_calls := 1, submissions := [?env], world := 5\<rparr>"
  have v: "validate_xdr (JStr (tx_base64 good_platform ?env)) = Inr ''AAAA''" by (simp add: valid_AAAA)
  have s': "\<exists>r. submit_transaction good_platform sample_agent_config ?env (initial_sys 0) = (?s', r)"
    by (simp add: good_submit initial_sys_def initial_backoff_def)
  have l: "\<exists>s'' a. load_account good_platform sample_agent_config sample_key False ?s' = (s'', Inr a)"
    by (simp add: load_account_def fresh_account_def good_fetch initial_sys_def initial_backoff_def)
  from s' l no_cached_account_after_submit [OF v] show ?thesis by blast
qed

text \<open>
  A transaction that is built but not submitted leaves a drifted account in the cache: the
  builder increments the sequence number of the cached object itself, so until the record
  expires every further load serves a number the ledger does not have, and the next
  transaction skips one.
\<close>

theorem unsubmitted_build_drifts_cache:
  assumes "0 < ACCOUNT_CACHE_TTL_MS c" "account_cache s pk = Some (a, t)" "now p s < t"
    and "build_tx p fee ops memo timeout a s = (s1, tx)"
  shows "load_account p c pk False s1 = (s1, Inr (a\<lparr>sequence_number := sequence_number a + 1\<rparr>)) \<and>
    tx_sequence (snd (build_tx p fee ops memo timeout (a\<lparr>sequence_number := sequence_number a + 1\<rparr>) s1)) =
      tx_sequence tx + 1"
  using assms
  by (auto simp: build_tx_def load_account_def fresh_account_def bump_cached_def now_def)

theorem unsubmitted_build_drifts_cache_witness:
  "let s = (initial_sys 0)\<lparr>account_cache := [sample_key \<mapsto> (toy_account, 30000)]\<rparr>;
       (s1, tx) = build_tx good_platform base_fee [] None 30 toy_account s
   in tx_sequence tx = 42 \<and>
      load_account good_platform sample_agent_config sample_key False s1 =
        (s1, Inr (toy_account\<lparr>sequence_number := 42\<rparr>))"
proof -
  let ?s = "(initial_sys (0::int))\<lparr>account_cache := [sample_key \<mapsto> (toy_account, 30000)]\<rparr>"
  obtain s1 tx where b: "build_tx good_platform base_fee [] None 30 toy_account ?s = (s1, tx)" by fastforce
  then have "tx_sequence tx = 42" by (auto simp: build_tx_def toy_account_def)
  moreover have "sequence_number toy_account + 1 = 42" by (simp add: toy_account_def)
  moreover have "now good_platform ?s < 30000"
    by (simp add: now_def initial_sys_def good_platform_def toy_platform_def)
  ultimately show ?thesis
    using unsubmitted_build_drifts_cache [of sample_agent_config ?s sample_key toy_account 30000 good_platform, OF _ _ _ b] b
    by simp
qed

section \<open>Authorization\<close>

lemma map_result_ok: "(\<exists>us. map_result f xs = Inr us) \<longleftrightarrow> (\<forall>x \<in> set xs. \<exists>u. f x = Inr u)"
  by (induction xs) (auto split: sum.splits)

definition agent_signs :: "(string \<Rightarrow> string) \<Rightarrow> string \<Rightarrow> auth_entry \<Rightarrow> bool" where
  "agent_signs encode agent e = (case e of
     AddressCredentials k \<Rightarrow> (case k of Some raw \<Rightarrow> encode raw = agent | None \<Rightarrow> False) | _ \<Rightarrow> True)"

lemma check_auth_entry_iff: "(\<exists>u. check_auth_entry encode agent e = Inr u) \<longleftrightarrow> agent_signs encode agent e"
  by (auto simp: check_auth_entry_def agent_signs_def Let_def split: auth_entry.splits option.splits)

lemma validate_soroban_auth_iff:
  "validate_soroban_auth encode agent ops = Inr () \<longleftrightarrow>
     (\<forall>entries \<in> set ops. \<forall>e \<in> set entries. agent_signs encode agent e)"
proof -
  have "validate_soroban_auth encode agent ops = Inr () \<longleftrightarrow>
      (\<exists>us. map_result (check_auth_entry encode agent) (concat ops) = Inr us)"
    by (auto simp: validate_soroban_auth_def bind_result_Inr_iff)
  also have "\<dots> \<longleftrightarrow> (\<forall>e \<in> set (concat ops). agent_signs encode agent e)"
    by (simp only: map_result_ok check_auth_entry_iff)
  finally show ?thesis by simp
qed

lemma validate_soroban_auth_error:
  "validate_soroban_auth encode agent ops = Inl e \<Longrightarrow> get_error_type e = UnauthorizedError"
proof -
  have "map_result (check_auth_entry encode agent) es = Inl e \<Longrightarrow> get_error_type e = UnauthorizedError" for es
    by (induction es)
      (auto simp: check_auth_entry_def get_error_type_def structured_error_defs Let_def
        split: sum.splits auth_entry.splits option.splits if_splits)
  then show "validate_soroban_auth encode agent ops = Inl e \<Longrightarrow> get_error_type e = UnauthorizedError"
    by (auto simp: validate_soroban_auth_def bind_result_def split: sum.splits)
qed


definition sim_platform :: "auth_entry \<Rightarrow> int soroban" where
  "sim_platform e = platform.extend good_platform
     (soroban.fields (\<lambda>tx w. (w + 5, Inr (SimulationSuccess [[e]] [] JNull))) (\<lambda>tx sim. tx)
        (\<lambda>raw. if raw = ''k'' then sample_key else raw))"

lemma sim_platform_simps [simp]:
  "clock (sim_platform e) w = w"
  "simulate_transaction (sim_platform e) tx w = (w + 5, Inr (SimulationSuccess [[e]] [] JNull))"
  "assemble_transaction (sim_platform e) tx sim = tx"
  "encode_public_key (sim_platform e) raw = (if raw = ''k'' then sample_key else raw)"
  by (simp_all add: sim_platform_def platform.defs soroban.defs)

definition toy_tx :: transaction where
  "toy_tx = \<lparr>tx_source = sample_key, tx_sequence = 42, tx_fee = base_fee, tx_ops = [], tx_memo = None,
     tx_min_time = 0, tx_max_time = 30, tx_signatures = []\<rparr>"

lemma sim_platform_simulates:
  "\<exists>s1. simulate_soroban_tx (sim_platform e) sample_agent_config tx (initial_sys 0) =
     (s1, Inr (SimulationSuccess [[e]] [] JNull))"
  by (simp add: simulate_soroban_tx_def guarded_idle initial_sys_def initial_backoff_def with_timeout_def
      with_retry_def attempt_def is_throttled_def outside_def now_def numeral_eq_Suc)


end
