(* ===== verification/Memo.thy ===== *)
theory Memo imports Stellar "HOL-Library.Word" begin

unbundle bit_operations_syntax

text \<open>
  Transaction memos: backend/tools/MemoAttachmentTool.ts and the \<open>buildMemo\<close> of
  backend/tools/StellarPaymentTool.ts (PathPaymentTool has the same text). A text memo is
  limited to 28 bytes of UTF-8. The first section counts them as \<open>Buffer.byteLength\<close> does, on
  UTF-16 code units kept as 16-bit words, surrogates included; a \<open>string\<close> of the model is the
  special case of code units below 256.
\<close>

section \<open>UTF-8 length of UTF-16 text\<close>

definition is_high_surrogate :: "16 word \<Rightarrow> bool" where
  "is_high_surrogate u \<longleftrightarrow> u AND 0xFC00 = 0xD800"

definition is_low_surrogate :: "16 word \<Rightarrow> bool" where
  "is_low_surrogate u \<longleftrightarrow> u AND 0xFC00 = 0xDC00"

text \<open>A unit outside a pair: one, two or three bytes (a lone surrogate becomes U+FFFD).\<close>

definition unit_bytes :: "16 word \<Rightarrow> nat" where
  "unit_bytes u = (if u < 0x80 then 1 else if u < 0x800 then 2 else 3)"

fun utf8_bytes16 :: "16 word list \<Rightarrow> nat" where
  "utf8_bytes16 [] = 0"
| "utf8_bytes16 [u] = unit_bytes u"
| "utf8_bytes16 (u # v # us) =
     (if is_high_surrogate u \<and> is_low_surrogate v then 4 + utf8_bytes16 us
      else unit_bytes u + utf8_bytes16 (v # us))"

definition code_units :: "string \<Rightarrow> 16 word list" where
  "code_units s = map (\<lambda>c. word_of_nat (ccode c)) s"

text \<open>\<open>Buffer.byteLength(s, 'utf8')\<close> of a model string.\<close>

definition utf8_length :: "string \<Rightarrow> nat" where
  "utf8_length s = utf8_bytes16 (code_units s)"

lemma ccode_lt: "ccode c < 256"
  unfolding ccode_def by (cases c) (auto simp: of_char_def)

lemma surrogate_ge: "is_high_surrogate u \<Longrightarrow> 0xD800 \<le> u"
  unfolding is_high_surrogate_def by (metis word_and_le2)

lemma latin1_not_surrogate: "n < 256 \<Longrightarrow> \<not> is_high_surrogate (word_of_nat n)"
  using surrogate_ge [of "word_of_nat n"]
  by (auto simp: word_le_nat_alt unat_of_nat)

text \<open>A code unit below 128 takes one byte, one below 256 two.\<close>

lemma utf8_length_simps [simp]:
  "utf8_length [] = 0"
  "utf8_length (c # s) = (if ccode c < 128 then 1 else 2) + utf8_length s"
proof -
  show "utf8_length [] = 0" by (simp add: utf8_length_def code_units_def)
  have u: "unit_bytes (word_of_nat (ccode c)) = (if ccode c < 128 then 1 else 2)"
    using ccode_lt [of c] by (auto simp: unit_bytes_def word_less_nat_alt unat_of_nat)
  show "utf8_length (c # s) = (if ccode c < 128 then 1 else 2) + utf8_length s"
    using u latin1_not_surrogate [OF ccode_lt, of c]
    by (cases s) (auto simp: utf8_length_def code_units_def)
qed

lemma utf8_length_ge: "length s \<le> utf8_length s"
  by (induction s) auto

lemma utf8_length_ascii: "\<forall>c \<in> set s. ccode c < 128 \<Longrightarrow> utf8_length s = length s"
  by (induction s) auto

text \<open>Every text takes at most three bytes a unit, and a pair four rather than six.\<close>

lemma utf8_bytes16_bounds: "utf8_bytes16 us \<le> 3 * length us" "length us \<le> utf8_bytes16 us"
  by (induction us rule: utf8_bytes16.induct) (auto simp: unit_bytes_def)

section \<open>MemoAttachmentTool\<close>

text \<open>Its ValidationError is a class of its own, not the one of errors.ts.\<close>

definition memo_error :: "string \<Rightarrow> js_error" where
  "memo_error m = PlainErr m [(''name'', JStr ''ValidationError'')]"

datatype memo_type = MEMO_TEXT | MEMO_HASH | MEMO_ID | MEMO_RETURN | OtherMemo string

definition is_hex64 :: "string \<Rightarrow> bool" where
  "is_hex64 s \<longleftrightarrow> length s = 64 \<and> (\<forall>c \<in> set s. is_hex_char c)"

definition check_hash_memo :: "string \<Rightarrow> string \<Rightarrow> js_error + string" where
  "check_hash_memo name v =
     (if is_hex64 v then Inr v
      else if (\<forall>c \<in> set v. is_hex_char c) \<and> length v \<noteq> 64
        then Inl (memo_error (name @ '' must be a 32-byte hex string (64 characters, got '' @
               nat_str (length v) @ '')''))
      else Inl (memo_error (name @ '' must be a valid hex string'')))"

definition max_uint64 :: nat where
  "max_uint64 = 18446744073709551615"

text \<open>\<open>buildMemo(options)\<close>. The decoded buffer of a 64-digit hex string is 32 bytes.\<close>

definition attach_memo :: "memo_type \<Rightarrow> string \<Rightarrow> js_error + memo" where
  "attach_memo ty v =
     (case ty of
        MEMO_TEXT \<Rightarrow>
          if 28 < utf8_length v
          then Inl (memo_error (''MEMO_TEXT exceeds maximum length of 28 bytes (got '' @
                 nat_str (utf8_length v) @ '' bytes)''))
          else Inr (MemoText v)
      | MEMO_HASH \<Rightarrow> map_sum id MemoHash (check_hash_memo ''MEMO_HASH'' v)
      | MEMO_ID \<Rightarrow>
          if v = [] \<or> \<not> (\<forall>c \<in> set v. is_digit c) then Inl (memo_error ''MEMO_ID must be a numeric string'')
          else if max_uint64 < digits_val v
            then Inl (memo_error ''MEMO_ID value out of 64-bit unsigned integer range'')
          else Inr (MemoId v)
      | MEMO_RETURN \<Rightarrow> map_sum id MemoReturn (check_hash_memo ''MEMO_RETURN'' v)
      | OtherMemo t \<Rightarrow> Inl (memo_error (''Unsupported memo type: '' @ t)))"

section \<open>buildMemo of the payment tools\<close>

datatype memo_value = MemoString string | MemoNumber jsnum

definition strip_0x :: "string \<Rightarrow> string" where
  "strip_0x s = (if starts_with s ''0x'' then drop 2 s else s)"

definition hash_memo_value :: "string \<Rightarrow> memo_value \<Rightarrow> js_error + string" where
  "hash_memo_value kind v =
     (case v of
        MemoNumber n \<Rightarrow> Inl (plain (''Memo '' @ kind @ '' must be a string''))
      | MemoString s \<Rightarrow>
          (let h = strip_0x s in
           if length h \<noteq> 64
           then Inl (plain (''Memo '' @ kind @ '' must be a 32-byte hex string (64 hex characters)''))
           else if \<not> is_hex64 h then Inl (plain (''Memo '' @ kind @ '' must contain only valid hex characters''))
           else Inr h))"

definition build_memo :: "string \<Rightarrow> memo_value \<Rightarrow> js_error + memo" where
  "build_memo ty v =
     (if ty = ''id'' then
        (case v of
           MemoString s \<Rightarrow> Inl (plain ''Memo ID must be a number'')
         | MemoNumber (JFin r) \<Rightarrow>
             if r \<noteq> of_int \<lfloor>r\<rfloor> then Inl (RangeErr ''The number cannot be converted to a BigInt'')
             else if \<lfloor>r\<rfloor> < 0 \<or> int max_uint64 < \<lfloor>r\<rfloor>
               then Inl (plain ''Memo ID must be a 64-bit unsigned integer (0 to 2^64-1)'')
             else Inr (MemoId (nat_str (nat \<lfloor>r\<rfloor>)))
         | MemoNumber n \<Rightarrow> Inl (RangeErr ''The number cannot be converted to a BigInt''))
      else if ty = ''hash'' then map_sum id MemoHash (hash_memo_value ''hash'' v)
      else if ty = ''return'' then map_sum id MemoReturn (hash_memo_value ''return'' v)
      else
        (case v of
           MemoNumber n \<Rightarrow> Inl (plain ''Memo text must be a string'')
         | MemoString s \<Rightarrow>
             if 28 < utf8_length s then Inl (plain ''Memo text must be at most 28 bytes'')
             else Inr (MemoText s)))"

section \<open>Every built memo fits the protocol\<close>

definition memo_wf :: "memo \<Rightarrow> bool" where
  "memo_wf m = (case m of
      MemoText s \<Rightarrow> utf8_length s \<le> 28
    | MemoId s \<Rightarrow> s \<noteq> [] \<and> (\<forall>c \<in> set s. is_digit c) \<and> digits_val s < 2 ^ 64
    | MemoHash s \<Rightarrow> is_hex64 s
    | MemoReturn s \<Rightarrow> is_hex64 s)"

lemma attach_memo_wf: "attach_memo ty v = Inr m \<Longrightarrow> memo_wf m"
  by (auto simp: attach_memo_def memo_wf_def check_hash_memo_def max_uint64_def
      split: memo_type.splits if_splits)

lemma hash_memo_value_hex: "hash_memo_value kind v = Inr h \<Longrightarrow> is_hex64 h"
  by (auto simp: hash_memo_value_def Let_def split: memo_value.splits if_splits)

lemma build_memo_id_wf:
  assumes "build_memo ''id'' v = Inr m"
  shows "memo_wf m"
proof -
  from assms obtain r where r: "v = MemoNumber (JFin r)" and m: "m = MemoId (nat_str (nat \<lfloor>r\<rfloor>))"
    and b: "0 \<le> \<lfloor>r\<rfloor>" "\<lfloor>r\<rfloor> \<le> int max_uint64"
    by (auto simp: build_memo_def split: memo_value.splits jsnum.splits if_splits)
  have "nat \<lfloor>r\<rfloor> < 2 ^ 64" using b by (simp add: max_uint64_def nat_less_iff)
  then show ?thesis by (simp add: m memo_wf_def nat_str_digits)
qed

lemma build_memo_text_wf: "(case v of MemoNumber n \<Rightarrow> Inl a
     | MemoString s \<Rightarrow> if 28 < utf8_length s then Inl b else Inr (MemoText s)) = Inr m \<Longrightarrow> memo_wf m"
  by (auto simp: memo_wf_def split: memo_value.splits if_splits)

lemma map_sum_Inr: "map_sum id f r = Inr m \<longleftrightarrow> (\<exists>h. r = Inr h \<and> m = f h)"
  by (cases r) auto

lemma build_memo_wf: "build_memo ty v = Inr m \<Longrightarrow> memo_wf m"
proof (cases "ty = ''id''")
  case False
  assume b: "build_memo ty v = Inr m"
  show ?thesis
  proof (cases "ty = ''hash'' \<or> ty = ''return''")
    case True
    with False b have "\<exists>kind h. hash_memo_value kind v = Inr h \<and> (m = MemoHash h \<or> m = MemoReturn h)"
      by (elim disjE) (auto simp: build_memo_def map_sum_Inr)
    with hash_memo_value_hex show ?thesis by (auto simp: memo_wf_def)
  next
    case f: False
    with False b show ?thesis by (simp add: build_memo_def build_memo_text_wf)
  qed
qed (simp add: build_memo_id_wf)

text \<open>
  Both memo builders only ever produce memos the protocol can carry: a text of at most 28
  bytes in UTF-8 (not characters), an unsigned 64-bit id, or a 32-byte hash; and a text is
  refused exactly when it is longer, so no admissible text is lost.
\<close>

theorem built_memos_fit_protocol:
  "(attach_memo ty v = Inr m \<longrightarrow> memo_wf m) \<and> (build_memo kind x = Inr m' \<longrightarrow> memo_wf m') \<and>
   (attach_memo MEMO_TEXT v = Inr (MemoText v) \<longleftrightarrow> utf8_bytes16 (code_units v) \<le> 28) \<and>
   (build_memo ''text'' (MemoString v) = Inr (MemoText v) \<longleftrightarrow> utf8_bytes16 (code_units v) \<le> 28)"
proof (intro conjI impI)
  show "attach_memo ty v = Inr m \<Longrightarrow> memo_wf m" by (rule attach_memo_wf)
  show "build_memo kind x = Inr m' \<Longrightarrow> memo_wf m'" by (rule build_memo_wf)
  show "attach_memo MEMO_TEXT v = Inr (MemoText v) \<longleftrightarrow> utf8_bytes16 (code_units v) \<le> 28"
    by (simp add: attach_memo_def utf8_length_def)
  show "build_memo ''text'' (MemoString v) = Inr (MemoText v) \<longleftrightarrow> utf8_bytes16 (code_units v) \<le> 28"
    by (simp add: build_memo_def utf8_length_def)
qed

theorem built_memos_fit_protocol_witness:
  "memo_wf (MemoId ''7'') \<and> memo_wf (MemoText ''hi'') \<and> attach_memo MEMO_ID ''7'' = Inr (MemoId ''7'')"
proof -
  have a: "attach_memo MEMO_ID ''7'' = Inr (MemoId ''7'')"
    by (simp add: attach_memo_def max_uint64_def digits_val_def digit_val_def is_digit_def ccode_def)
  have b: "build_memo ''text'' (MemoString ''hi'') = Inr (MemoText ''hi'')"
    by (simp add: build_memo_def ccode_def)
  from built_memos_fit_protocol [of MEMO_ID "''7''" "MemoId ''7''" "''text''" "MemoString ''hi''" "MemoText ''hi''"] a b
  show ?thesis by simp
qed

end
