(* ===== verification/Zod.thy ===== *)
theory Zod imports Errors begin

text \<open>
  The schema combinators the tools use on unknown input, by the documented meaning of the
  validation library: a parser takes a value and returns None where the schema has an issue.
  \<open>undefined\<close> takes a default, or is absent; null is not undefined; an array is not an object;
  NaN is not a number. Which of several issues is reported is not modelled.
\<close>

definition z_str :: "jsval \<Rightarrow> string option" where
  "z_str v = (case v of JStr s \<Rightarrow> Some s | _ \<Rightarrow> None)"

definition z_num :: "jsval \<Rightarrow> jsnum option" where
  "z_num v = (case v of JNum n \<Rightarrow> if is_nan n then None else Some n | _ \<Rightarrow> None)"

definition z_int :: "jsval \<Rightarrow> int option" where
  "z_int v = (case v of JNum (JFin r) \<Rightarrow> if r = of_int \<lfloor>r\<rfloor> then Some \<lfloor>r\<rfloor> else None | _ \<Rightarrow> None)"

definition z_bool :: "jsval \<Rightarrow> bool option" where
  "z_bool v = (case v of JBool b \<Rightarrow> Some b | _ \<Rightarrow> None)"

definition z_obj :: "jsval \<Rightarrow> jsval option" where
  "z_obj v = (case v of JObj kvs \<Rightarrow> Some v | _ \<Rightarrow> None)"

definition z_any :: "jsval \<Rightarrow> jsval option" where
  "z_any v = Some v"

definition z_enum :: "string list \<Rightarrow> jsval \<Rightarrow> string option" where
  "z_enum ws v = (case v of JStr s \<Rightarrow> if s \<in> set ws then Some s else None | _ \<Rightarrow> None)"

definition z_opt :: "(jsval \<Rightarrow> 'a option) \<Rightarrow> jsval \<Rightarrow> 'a option option" where
  "z_opt f v = (if v = JUndef then Some None else map_option Some (f v))"

definition z_def :: "'a \<Rightarrow> (jsval \<Rightarrow> 'a option) \<Rightarrow> jsval \<Rightarrow> 'a option" where
  "z_def d f v = (if v = JUndef then Some d else f v)"

definition z_check :: "('a \<Rightarrow> bool) \<Rightarrow> 'a option \<Rightarrow> 'a option" where
  "z_check P x = (case x of Some a \<Rightarrow> if P a then Some a else None | None \<Rightarrow> None)"

fun all_some :: "'a option list \<Rightarrow> 'a list option" where
  "all_some [] = Some []"
| "all_some (None # xs) = None"
| "all_some (Some x # xs) = map_option ((#) x) (all_some xs)"

definition z_arr :: "(jsval \<Rightarrow> 'a option) \<Rightarrow> jsval \<Rightarrow> 'a list option" where
  "z_arr f v = (case v of JArr vs \<Rightarrow> all_some (map f vs) | _ \<Rightarrow> None)"

text \<open>\<open>schema.parse(v)\<close>: None becomes the thrown ZodError.\<close>

definition or_zod :: "'a option \<Rightarrow> js_error + 'a" where
  "or_zod x = (case x of None \<Rightarrow> Inl zod_failure | Some a \<Rightarrow> Inr a)"

lemma or_zod_simps [simp]: "or_zod None = Inl zod_failure" "or_zod (Some a) = Inr a"
  by (simp_all add: or_zod_def)

lemma or_zod_Inr: "or_zod x = Inr a \<longleftrightarrow> x = Some a"
  by (cases x) auto

lemma z_check_Some: "z_check P x = Some a \<longleftrightarrow> x = Some a \<and> P a"
  by (auto simp: z_check_def split: option.splits)

lemma z_str_Some: "z_str v = Some s \<longleftrightarrow> v = JStr s"
  by (auto simp: z_str_def split: jsval.splits)

lemma all_some_length: "all_some xs = Some ys \<Longrightarrow> length ys = length xs"
  by (induction xs arbitrary: ys rule: all_some.induct) auto

lemma all_some_in: "all_some xs = Some ys \<Longrightarrow> y \<in> set ys \<Longrightarrow> Some y \<in> set xs"
  by (induction xs arbitrary: ys rule: all_some.induct) auto

lemma z_arr_in: "z_arr f v = Some ys \<Longrightarrow> y \<in> set ys \<Longrightarrow> \<exists>x. f x = Some y"
  by (auto simp: z_arr_def split: jsval.splits dest!: all_some_in) metis

lemmas zod_defs = z_str_def z_num_def z_int_def z_bool_def z_obj_def z_any_def z_enum_def z_opt_def
  z_def_def z_check_def z_arr_def

end
