(* ===== verification/Payment.thy ===== *)
theory Payment imports RpcClient Memo Zod Spending begin

text \<open>
  backend/tools/StellarPaymentTool.ts: validation, asset and memo of a payment, and its
  submission with one retry on a bad sequence number. The amount schema here is shared, in the
  same text, by the batch, multi-signature, path payment, swap and offer tools.
\<close>

section \<open>Amounts\<close>

text \<open>\<open>/^(?!0(\.0+)?$)\d+(\.\d{1,7})?$/\<close> and \<open>parseFloat(v) > 0\<close>.\<close>

definition zero_literal :: "string \<Rightarrow> bool" where
  "zero_literal s \<longleftrightarrow> s = ''0'' \<or>
     (3 \<le> length s \<and> take 2 s = ''0.'' \<and> (\<forall>c \<in> set (drop 2 s). c = CHR ''0''))"

definition amount_regex :: "string \<Rightarrow> bool" where
  "amount_regex s \<longleftrightarrow> \<not> zero_literal s \<and> takeWhile is_digit s \<noteq> [] \<and> decimal_tail_ok (dropWhile is_digit s)"

definition amount_ok :: "string \<Rightarrow> bool" where
  "amount_ok s \<longleftrightarrow> amount_regex s \<and> js_less (JFin 0) (parse_float s)"

lemma to_double_positive:
  assumes "0 < x" "1 / 10 ^ 7 \<le> x"
  shows "js_less (JFin 0) (to_double x)"
proof -
  have "(1::rat) / 10 ^ 7 < 2 powi (- 22)" by (simp add: power_int_def power_one_over)
  from to_double_near [OF _ this] obtain m where m: "to_double (1 / 10 ^ 7) = JFin m"
    "\<bar>m - 1 / 10 ^ 7\<bar> \<le> 2 powi (- 22 - 54)" by auto
  have "(2::rat) powi (- 22 - 54) < 1 / 10 ^ 7" by (simp add: power_int_def power_one_over)
  with m(2) have "0 < m" unfolding abs_le_iff by linarith
  moreover have "js_leq (to_double (1 / 10 ^ 7)) (to_double x)"
    using assms by (intro to_double_mono) auto
  ultimately show ?thesis unfolding m(1)
    by (cases "to_double x") (auto simp: js_leq_def)
qed

lemma decimal_units_iff:
  "(\<exists>u. decimal_units s = Some u) \<longleftrightarrow> takeWhile is_digit s \<noteq> [] \<and> decimal_tail_ok (dropWhile is_digit s)"
  by (auto simp: decimal_units_def Let_def)

lemma digits_val_zeros: "\<forall>c \<in> set ds. c = CHR ''0'' \<Longrightarrow> digits_val ds = 0"
proof (induction ds rule: rev_induct)
  case (snoc d ds)
  then show ?case by (simp add: digit_val_def ccode_def)
qed simp

lemma zero_literal_units: "zero_literal s \<Longrightarrow> decimal_units s = Some u \<Longrightarrow> u = 0"
proof -
  assume z: "zero_literal s" and u: "decimal_units s = Some u"
  have d0: "is_digit (CHR ''0'')" and dot: "\<not> is_digit (CHR ''.'')" by (simp_all add: is_digit_def ccode_def)
  show "u = 0"
  proof (cases "s = ''0''")
    case True
    with u d0 show ?thesis by (simp add: decimal_units_def decimal_tail_ok_def digits_val_def digit_val_def ccode_def)
  next
    case False
    with z obtain r where r: "s = CHR ''0'' # CHR ''.'' # r" "\<forall>c \<in> set r. c = CHR ''0''"
      by (cases s; cases "tl s") (auto simp: zero_literal_def)
    with u d0 dot digits_val_zeros [OF r(2)] show ?thesis
      by (auto simp: decimal_units_def Let_def digits_val_def digit_val_def ccode_def split: if_splits)
  qed
qed

text \<open>The accepted amounts are exactly the positive decimals with at most seven places.\<close>

lemma amount_ok_units: "amount_ok s \<longleftrightarrow> (\<exists>u. decimal_units s = Some u \<and> 0 < u)"
proof
  assume a: "amount_ok s"
  then obtain u where u: "decimal_units s = Some u"
    using decimal_units_iff [of s] by (auto simp: amount_ok_def amount_regex_def)
  have "u \<noteq> 0"
  proof
    assume "u = 0"
    with decimal_units_parse [OF u] have "parse_float s = JFin 0" by simp
    with a show False by (simp add: amount_ok_def)
  qed
  with u show "\<exists>u. decimal_units s = Some u \<and> 0 < u" by auto
next
  assume "\<exists>u. decimal_units s = Some u \<and> 0 < u"
  then obtain u where u: "decimal_units s = Some u" "0 < u" by blast
  then have "js_less (JFin 0) (parse_float s)"
    unfolding decimal_units_parse [OF u(1)] by (intro to_double_positive) (auto simp: divide_simps)
  moreover have "\<not> zero_literal s" using zero_literal_units u by blast
  ultimately show "amount_ok s"
    using decimal_units_iff [of s] u(1) by (auto simp: amount_ok_def amount_regex_def)
qed

section \<open>Input\<close>

record payment_input =
  pi_destination :: string
  pi_amount :: string
  pi_asset_code :: string
  pi_asset_issuer :: "string option"
  pi_memo_type :: string
  pi_memo :: "memo_value option"

text \<open>\<open>z.union([z.string(), z.number()])\<close>.\<close>

definition z_memo :: "jsval \<Rightarrow> memo_value option" where
  "z_memo v = (case v of JStr s \<Rightarrow> Some (MemoString s)
     | JNum n \<Rightarrow> if is_nan n then None else Some (MemoNumber n) | _ \<Rightarrow> None)"

definition memo_types :: "string list" where
  "memo_types = [''text'', ''id'', ''hash'', ''return'']"

text \<open>The refinement on the whole object: a text memo of more than 28 bytes is an issue.\<close>

definition memo_fits :: "payment_input \<Rightarrow> bool" where
  "memo_fits i \<longleftrightarrow> (pi_memo_type i = ''text'' \<longrightarrow>
     (case pi_memo i of Some (MemoString s) \<Rightarrow> utf8_length s \<le> 28 | _ \<Rightarrow> True))"

definition payment_input_schema :: "('w, 'x) platform_scheme \<Rightarrow> jsval \<Rightarrow> payment_input option" where
  "payment_input_schema p v = do {
     _ \<leftarrow> z_obj v;
     dest \<leftarrow> z_check (\<lambda>s. length s = 56 \<and> valid_ed25519 p s) (z_str (field v ''destination''));
     amt \<leftarrow> z_check amount_ok (z_str (field v ''amount''));
     code \<leftarrow> z_def ''XLM'' z_str (field v ''assetCode'');
     issuer \<leftarrow> z_opt z_str (field v ''assetIssuer'');
     mty \<leftarrow> z_def ''text'' (z_enum memo_types) (field v ''memoType'');
     mem \<leftarrow> z_opt z_memo (field v ''memo'');
     z_check memo_fits (Some \<lparr>pi_destination = dest, pi_amount = amt, pi_asset_code = code,
       pi_asset_issuer = issuer, pi_memo_type = mty, pi_memo = mem\<rparr>)
   }"

section \<open>Execution\<close>

definition soroban_tx_timeout :: int where
  "soroban_tx_timeout = 30"

definition issuer_required_error :: "string \<Rightarrow> js_error" where
  "issuer_required_error code = plain (''Asset issuer is required for non-native asset '' @ code)"

definition self_payment_error :: js_error where
  "self_payment_error = plain ''Payment destination cannot be the agent's own address''"

text \<open>\<open>buildTx\<close>: the operation is checked, then the memo, then the transaction is built, which
  advances the account's sequence number; it is signed right after.\<close>

definition build_payment ::
    "('w, 'x) platform_scheme \<Rightarrow> string \<Rightarrow> operation \<Rightarrow> string \<Rightarrow> memo_value option \<Rightarrow> int \<Rightarrow> account \<Rightarrow>
     ('w, 'y) sys_scheme \<Rightarrow> ('w, 'y) sys_scheme \<times> (js_error + transaction)" where
  "build_payment p self op mty mem timeout a s =
     (case check_op p op of
        Inl e \<Rightarrow> (s, Inl e)
      | Inr op' \<Rightarrow>
          (case mem of
             None \<Rightarrow> (let (s', tx) = build_tx p base_fee [op'] None timeout a s in (s', Inr (sign_tx self tx)))
           | Some v \<Rightarrow>
               (case build_memo mty v of
                  Inl e \<Rightarrow> (s, Inl e)
                | Inr m \<Rightarrow> (let (s', tx) = build_tx p base_fee [op'] (Some m) timeout a s
                            in (s', Inr (sign_tx self tx))))))"

text \<open>\<open>err instanceof Error && err.message.includes('tx_bad_seq')\<close>.\<close>

definition is_bad_seq :: "js_error \<Rightarrow> bool" where
  "is_bad_seq e \<longleftrightarrow> is_error e \<and> js_includes (err_message e) ''tx_bad_seq''"

text \<open>Load, build, sign, submit; on a bad sequence number once more from a fresh account.\<close>

definition submit_with_reload ::
    "('w, 'x) platform_scheme \<Rightarrow> agent_config \<Rightarrow> string \<Rightarrow>
     (account \<Rightarrow> ('w, 'y) sys_scheme \<Rightarrow> ('w, 'y) sys_scheme \<times> (js_error + transaction)) \<Rightarrow>
     ('w, 'y) sys_scheme \<Rightarrow> ('w, 'y) sys_scheme \<times> (js_error + submit_result)" where
  "submit_with_reload p c self build s =
     andThen (load_account p c self False s) (\<lambda>s1 a.
     andThen (build a s1) (\<lambda>s2 tx.
       case submit_and_parse p c (Envelope tx) s2 of
         (s3, Inr r) \<Rightarrow> (s3, Inr r)
       | (s3, Inl e) \<Rightarrow>
           if is_bad_seq e then
             andThen (load_account p c self True s3) (\<lambda>s4 a'.
             andThen (build a' s4) (\<lambda>s5 tx'. submit_and_parse p c (Envelope tx') s5))
           else (s3, Inl e)))"

definition payment_execute ::
    "('w, 'x) platform_scheme \<Rightarrow> agent_config \<Rightarrow> string \<Rightarrow> jsval \<Rightarrow> ('w, 'y) sys_scheme \<Rightarrow>
     ('w, 'y) sys_scheme \<times> (js_error + submit_result)" where
  "payment_execute p c self v s =
     andThen (s, or_zod (payment_input_schema p v)) (\<lambda>s i.
       if pi_destination i = self then (s, Inl self_payment_error)
       else if pi_asset_code i \<noteq> ''XLM'' \<and> issuer_missing (pi_asset_issuer i)
         then (s, Inl (issuer_required_error (pi_asset_code i)))
       else andThen (s, resolve_asset p (pi_asset_code i) (pi_asset_issuer i)) (\<lambda>s ast.
         submit_with_reload p c self
           (build_payment p self (OpPayment (pi_destination i) ast (pi_amount i))
              (pi_memo_type i) (pi_memo i) soroban_tx_timeout) s))"

section \<open>What reaches Horizon\<close>

text \<open>A step that submits \<open>env\<close> at most \<open>b\<close> times and nothing else.\<close>

definition submits :: "nat \<Rightarrow> envelope \<Rightarrow> (('w, 'y) sys_scheme \<Rightarrow> ('w, 'y) sys_scheme \<times> 'a) \<Rightarrow> bool" where
  "submits b env f \<longleftrightarrow> (\<forall>s. \<exists>k \<le> b. submissions (fst (f s)) = submissions s @ replicate k env)"

lemma submits_at: "submits b env f \<Longrightarrow> \<exists>k \<le> b. submissions (fst (f s)) = submissions s @ replicate k env"
  by (simp add: submits_def)

lemma submitsD: "submits b env f \<Longrightarrow> f s = (s', r) \<Longrightarrow>
    \<exists>k \<le> b. submissions s' = submissions s @ replicate k env"
  unfolding submits_def by (metis fst_conv)

lemma submits_attempt:
  assumes "submits b env f"
  shows "submits b env (attempt p f)"
  unfolding submits_def
proof
  fix s
  show "\<exists>k \<le> b. submissions (fst (attempt p f s)) = submissions s @ replicate k env"
  proof (cases "is_throttled (now p s) (backoff s)")
    case (Pair bo th)
    show ?thesis
    proof (cases th)
      case True
      with Pair show ?thesis by (auto simp: attempt_def intro: exI [of _ 0])
    next
      case False
      with Pair assms show ?thesis
        by (auto simp: attempt_def submits_def dest: spec [of _ "s\<lparr>backoff := bo, rpc_calls := rpc_calls s + 1\<rparr>"])
    qed
  qed
qed

lemma note_429_submissions [simp]: "submissions (fst (note_429 p e s)) = submissions s"
  by (simp add: note_429_def)

lemma pause_submissions [simp]: "submissions (pause p d m k s) = submissions s"
  by (simp add: pause_def Let_def split: prod.splits)

lemma retry_loop_submits:
  assumes "submits b env f"
  shows "\<exists>i \<le> n * b. submissions (fst (retry_loop p retries d ret m f k n prev s)) = submissions s @ replicate i env"
proof (induction n arbitrary: k prev s)
  case 0
  show ?case by simp
next
  case (Suc n)
  obtain s1 r where a: "attempt p f s = (s1, r)" by fastforce
  from submitsD [OF submits_attempt [OF assms] a]
  obtain i where i: "i \<le> b" "submissions s1 = submissions s @ replicate i env" by blast
  show ?case
  proof (cases r)
    case (Inr x)
    with a i show ?thesis by (auto intro!: exI [of _ i])
  next
    case (Inl e)
    obtain s2 e2 where n4: "note_429 p e s1 = (s2, e2)" by fastforce
    have s2: "submissions s2 = submissions s1" using note_429_submissions [of p e s1] n4 by simp
    let ?s3 = "if n = 0 then s2 else pause p d m k s2"
    from Suc.IH [of "k + 1" e2 ?s3] obtain j where j: "j \<le> n * b"
      "submissions (fst (retry_loop p retries d ret m f (k + 1) n e2 ?s3)) = submissions ?s3 @ replicate j env"
      by blast
    have s3: "submissions ?s3 = submissions s @ replicate i env" using s2 i by simp
    have both: "i + j \<le> Suc n * b" using i j by simp
    show ?thesis
    proof (cases "(\<not> ret e \<and> \<not> is_rpc_rate_limit e) \<or> (case e of ThrownValue v \<Rightarrow> nullish v | _ \<Rightarrow> False)")
      case True
      then show ?thesis using a Inl n4 s2 i by (auto intro!: exI [of _ i])
    next
      case False
      then have "retry_loop p retries d ret m f k (Suc n) prev s =
          retry_loop p retries d ret m f (k + 1) n e2 ?s3"
        using a Inl n4 by auto
      with j(2) s3 both show ?thesis by (auto simp: replicate_add intro!: exI [of _ "i + j"])
    qed
  qed
qed

lemma submits_with_retry: "submits b env f \<Longrightarrow> submits (nat retries * b) env (with_retry p retries d ret m f)"
  using retry_loop_submits unfolding submits_def with_retry_def by blast

lemma submits_with_timeout: "submits b env f \<Longrightarrow> submits b env (with_timeout p ms f)"
  unfolding submits_def with_timeout_def Let_def by (auto split: prod.splits) (metis fst_conv)+

lemma submits_guarded:
  assumes "submits b env f"
  shows "submits b env (guarded p f)"
  unfolding submits_def
proof
  fix s :: "('a, 'b) sys_scheme"
  obtain bo th where t: "is_throttled (now p s) (backoff s) = (bo, th)" by fastforce
  obtain w sup where w: "while_locked p (world s) = (w, sup)" by fastforce
  show "\<exists>k \<le> b. submissions (fst (guarded p f s)) = submissions s @ replicate k env"
  proof (cases "th \<and> sup")
    case True
    with t w show ?thesis by (auto simp: guarded_def intro!: exI [of _ 0])
  next
    case False
    have "\<exists>k \<le> b. submissions (fst (f s')) = submissions s' @ replicate k env" for s'
      using assms by (simp add: submits_def)
    from this [of "s\<lparr>backoff := bo\<rparr>"] this [of "s\<lparr>world := w, backoff := clear_backoff None bo\<rparr>"] False t w
    show ?thesis by (cases th) (auto simp: guarded_def)
  qed
qed

lemma submits_outside: "submits 0 env (outside f)"
  by (auto simp: submits_def outside_def split: prod.splits)

lemma submits_fetch: "submits 0 env (fetch_account p pk)"
  by (auto simp: submits_def fetch_account_def outside_def split: prod.splits sum.splits)

lemma submits_refresh: "submits 0 env (refresh_account p c pk)"
proof -
  have "submits (nat (MAX_RETRIES c) * 0) env (\<lambda>s. guarded p (with_timeout p (RPC_TIMEOUT_MS c)
       (with_retry p (MAX_RETRIES c) (RETRY_DELAY_MS c) default_is_retryable max_retry_delay_ms
          (fetch_account p pk))) s)"
    by (intro submits_guarded submits_with_timeout submits_with_retry submits_fetch)
  then show ?thesis by (simp add: refresh_account_def [abs_def])
qed

lemma load_account_submissions:
  fixes s :: "('a, 'b) sys_scheme"
  shows "submissions (fst (load_account p c pk force s)) = submissions s"
proof -
  have f: "submissions (fst (refresh_account p c pk s)) = submissions s" for s :: "('a, 'b) sys_scheme"
    using submits_at [OF submits_refresh, of p c pk s] by simp
  have g: "submissions (fst (andThen (refresh_account p c pk s) (\<lambda>s a. (store_account p c pk a s, Inr a)))) = submissions s" for s :: "('a, 'b) sys_scheme"
    using f [of s] by (cases "refresh_account p c pk s"; cases "snd (refresh_account p c pk s)")
      (auto simp: store_account_def)
  show ?thesis
    by (auto simp: load_account_def Let_def g split: option.splits)
qed

lemma submits_submit_once: "submits 1 env (submit_once p env)"
  unfolding submits_def
proof
  fix s
  have "submissions (fst (submit_once p env s)) = submissions s @ [env]"
    using submits_at [OF submits_with_timeout [OF submits_outside],
        of p submit_timeout_ms "horizon_submit p env" "s\<lparr>submissions := submissions s @ [env]\<rparr>"]
    by (simp add: submit_once_def)
  then show "\<exists>k \<le> 1. submissions (fst (submit_once p env s)) = submissions s @ replicate k env"
    by (auto intro!: exI [of _ 1])
qed

lemma submit_transaction_submissions:
  fixes s :: "('a, 'b) sys_scheme"
  shows "\<exists>k \<le> nat (MAX_RETRIES c). submissions (fst (submit_transaction p c env s)) = submissions s @ replicate k env"
proof (cases "validate_xdr (JStr (tx_base64 p env))")
  case (Inl e)
  then show ?thesis by (auto simp: submit_transaction_def)
next
  case (Inr x)
  let ?g = "guarded p (with_retry p (MAX_RETRIES c) (RETRY_DELAY_MS c)
     default_is_retryable max_retry_delay_ms (submit_once p env))"
  have "submits (nat (MAX_RETRIES c) * 1) env ?g"
    by (intro submits_guarded submits_with_retry submits_submit_once)
  from submits_at [OF this, of s] show ?thesis
    by (cases "?g s") (simp add: submit_transaction_def Inr invalidate_account_cache_def)
qed

lemma submit_and_parse_submissions:
  fixes s :: "('a, 'b) sys_scheme"
  shows "\<exists>k \<le> nat (MAX_RETRIES c). submissions (fst (submit_and_parse p c env s)) = submissions s @ replicate k env"
proof -
  have "fst (submit_and_parse p c env s) = fst (submit_transaction p c env s)"
    by (auto simp: submit_and_parse_def andThen_def split: prod.splits sum.splits)
  then show ?thesis using submit_transaction_submissions by metis
qed


text \<open>The transactions of a payment: its one operation, from the tool's account, signed by the
  tool's key alone.\<close>

definition payment_envelope :: "string \<Rightarrow> operation \<Rightarrow> envelope \<Rightarrow> bool" where
  "payment_envelope self op env \<longleftrightarrow> (case env of
     Envelope tx \<Rightarrow> tx_ops tx = [op] \<and> tx_fee tx = base_fee \<and> tx_signatures tx = [SignedBy self]
   | _ \<Rightarrow> False)"

lemma build_payment_envelope:
  assumes "build_payment p self op mty mem timeout a s = (s', r)"
  shows "submissions s' = submissions s \<and> (\<forall>tx. r = Inr tx \<longrightarrow> payment_envelope self op (Envelope tx))"
  using assms
  by (auto simp: build_payment_def check_op_def build_tx_def sign_tx_def payment_envelope_def
      split: option.splits sum.splits)

text \<open>At most two different envelopes, each at most as often as a submission is retried.\<close>

definition two_rounds :: "nat \<Rightarrow> (envelope \<Rightarrow> bool) \<Rightarrow> envelope list \<Rightarrow> bool" where
  "two_rounds n P es \<longleftrightarrow> (\<exists>i j e1 e2. es = replicate i e1 @ replicate j e2 \<and> i \<le> n \<and> j \<le> n \<and> P e1 \<and> P e2)"

lemma submit_with_reload_trace:
  fixes s :: "('a, 'b) sys_scheme"
  assumes build: "\<And>a s s' r. build a (s :: ('a, 'b) sys_scheme) = (s', r) \<Longrightarrow>
      submissions s' = submissions s \<and> (\<forall>tx. r = Inr tx \<longrightarrow> P (Envelope tx))"
    and ex: "P e0"
  shows "\<exists>es. submissions (fst (submit_with_reload p c self build s)) = submissions s @ es \<and>
    two_rounds (nat (MAX_RETRIES c)) P es"
proof -
  let ?n = "nat (MAX_RETRIES c)"
  have none: "two_rounds ?n P []" unfolding two_rounds_def using ex by (intro exI [of _ 0]) auto
  have one: "two_rounds ?n P (replicate i e)" if "i \<le> ?n" "P e" for i e
    unfolding two_rounds_def using that by (intro exI [of _ i] exI [of _ 0] exI [of _ e]) auto
  obtain s1 r1 where l1: "load_account p c self False s = (s1, r1)" by fastforce
  have s1: "submissions s1 = submissions s" using load_account_submissions [of p c self False s] l1 by simp
  show ?thesis
  proof (cases r1)
    case (Inl e)
    with l1 s1 none show ?thesis by (auto simp: submit_with_reload_def)
  next
    case a: (Inr a)
    obtain s2 r2 where b1: "build a s1 = (s2, r2)" by fastforce
    from build [OF b1] have s2: "submissions s2 = submissions s1" by simp
    show ?thesis
    proof (cases r2)
      case (Inl e)
      with l1 a b1 s1 s2 none show ?thesis by (auto simp: submit_with_reload_def)
    next
      case tx: (Inr tx)
      with build [OF b1] have P1: "P (Envelope tx)" by simp
      obtain s3 r3 where u1: "submit_and_parse p c (Envelope tx) s2 = (s3, r3)" by fastforce
      obtain i where i: "i \<le> ?n" "submissions s3 = submissions s2 @ replicate i (Envelope tx)"
        using submit_and_parse_submissions [of c p "Envelope tx" s2] u1 by auto
      show ?thesis
      proof (cases "\<exists>e. r3 = Inl e \<and> is_bad_seq e")
        case False
        then show ?thesis using l1 a b1 tx u1 s1 s2 i one [OF i(1) P1]
          by (auto simp: submit_with_reload_def split: sum.splits)
      next
        case True
        then obtain e where e: "r3 = Inl e" "is_bad_seq e" by blast
        obtain s4 r4 where l2: "load_account p c self True s3 = (s4, r4)" by fastforce
        have s4: "submissions s4 = submissions s3" using load_account_submissions [of p c self True s3] l2 by simp
        show ?thesis
        proof (cases r4)
          case (Inl e')
          then show ?thesis using l1 a b1 tx u1 e l2 s1 s2 s4 i one [OF i(1) P1]
            by (auto simp: submit_with_reload_def)
        next
          case a': (Inr a')
          obtain s5 r5 where b2: "build a' s4 = (s5, r5)" by fastforce
          from build [OF b2] have s5: "submissions s5 = submissions s4" by simp
          show ?thesis
          proof (cases r5)
            case (Inl e')
            then show ?thesis using l1 a b1 tx u1 e l2 a' b2 s1 s2 s4 s5 i one [OF i(1) P1]
              by (auto simp: submit_with_reload_def)
          next
            case tx': (Inr tx')
            with build [OF b2] have P2: "P (Envelope tx')" by simp
            obtain j where j: "j \<le> ?n" "submissions (fst (submit_and_parse p c (Envelope tx') s5)) =
                submissions s5 @ replicate j (Envelope tx')"
              using submit_and_parse_submissions [of c p "Envelope tx'" s5] by blast
            have "two_rounds ?n P (replicate i (Envelope tx) @ replicate j (Envelope tx'))"
              unfolding two_rounds_def using i j P1 P2 by blast
            then show ?thesis using l1 a b1 tx u1 e l2 a' b2 tx' s1 s2 s4 s5 i j
              by (auto simp: submit_with_reload_def)
          qed
        qed
      qed
    qed
  qed
qed

lemma payment_trace:
  fixes s :: "('w, 'y) sys_scheme"
  assumes "payment_execute p c self v s = (s', r)"
  shows "case payment_input_schema p v of
      None \<Rightarrow> s' = s \<and> r = Inl zod_failure
    | Some i \<Rightarrow> \<exists>es. submissions s' = submissions s @ es \<and>
        (es = [] \<or> (pi_destination i \<noteq> self \<and> amount_ok (pi_amount i) \<and>
          (\<exists>ast. resolve_asset p (pi_asset_code i) (pi_asset_issuer i) = Inr ast \<and>
            two_rounds (nat (MAX_RETRIES c))
              (payment_envelope self (OpPayment (pi_destination i) ast (pi_amount i))) es)))"
proof (cases "payment_input_schema p v")
  case None
  with assms show ?thesis by (simp add: payment_execute_def)
next
  case (Some i)
  have am: "amount_ok (pi_amount i)"
    using Some by (auto simp: payment_input_schema_def Option.bind_eq_Some_conv z_check_Some)
  consider (early) "s' = s" | (go) ast where "pi_destination i \<noteq> self"
      "resolve_asset p (pi_asset_code i) (pi_asset_issuer i) = Inr ast"
      "s' = fst (submit_with_reload p c self (build_payment p self
         (OpPayment (pi_destination i) ast (pi_amount i)) (pi_memo_type i) (pi_memo i) soroban_tx_timeout) s)"
    using assms Some by (auto simp: payment_execute_def andThen_const split: if_splits sum.splits)
  then show ?thesis
  proof cases
    case early
    with Some show ?thesis by simp
  next
    case go
    let ?op = "OpPayment (pi_destination i) ast (pi_amount i)"
    have "payment_envelope self ?op (Envelope \<lparr>tx_source = [], tx_sequence = 0, tx_fee = base_fee, tx_ops = [?op],
        tx_memo = None, tx_min_time = 0, tx_max_time = 0, tx_signatures = [SignedBy self]\<rparr>)"
      by (simp add: payment_envelope_def)
    from submit_with_reload_trace [OF build_payment_envelope this] go(3)
    have "\<exists>es. submissions s' = submissions s @ es \<and>
        two_rounds (nat (MAX_RETRIES c)) (payment_envelope self ?op) es" by auto
    with Some go am show ?thesis by auto
  qed
qed

text \<open>
  C4. A payment task sends the payment it describes and nothing else. Input that fails the
  schema changes nothing; otherwise everything that reaches Horizon carries exactly one
  operation, the payment of the given amount and asset to the given destination, which is not
  the agent itself, in a transaction at the base fee signed by the tool's key alone. There are
  at most two different such transactions, one after the other, and each is handed over at most
  MAX\_RETRIES times, so a bad sequence number is retried once and never in a loop.
\<close>

theorem payment_submits_only_the_payment:
  fixes s :: "('w, 'y) sys_scheme"
  assumes "payment_execute p c self v s = (s', r)"
  shows "case payment_input_schema p v of
      None \<Rightarrow> s' = s \<and> r = Inl zod_failure
    | Some i \<Rightarrow> \<exists>es. submissions s' = submissions s @ es \<and>
        (es = [] \<or> (pi_destination i \<noteq> self \<and> amount_ok (pi_amount i) \<and>
          (\<exists>ast. resolve_asset p (pi_asset_code i) (pi_asset_issuer i) = Inr ast \<and>
            two_rounds (nat (MAX_RETRIES c))
              (payment_envelope self (OpPayment (pi_destination i) ast (pi_amount i))) es)))"
  using assms by (rule payment_trace)

definition payee :: string where
  "payee = CHR ''G'' # replicate 55 (CHR ''B'')"

definition sample_payment :: jsval where
  "sample_payment = JObj [(''destination'', JStr payee), (''amount'', JStr ''5'')]"

lemma amount_ok_5: "amount_ok ''5''"
  by (simp add: amount_ok_units decimal_units_def is_digit_def ccode_def digits_val_def digit_val_def decimal_tail_ok_def)

lemma sample_payment_schema: "payment_input_schema good_platform sample_payment =
    Some \<lparr>pi_destination = payee, pi_amount = ''5'', pi_asset_code = ''XLM'', pi_asset_issuer = None,
      pi_memo_type = ''text'', pi_memo = None\<rparr>"
  by (simp add: payment_input_schema_def sample_payment_def zod_defs field_def obj_get_def amount_ok_5 memo_fits_def
      good_platform_def toy_platform_def payee_def)

theorem payment_submits_only_the_payment_witness:
  "\<exists>s' r es. payment_execute good_platform sample_agent_config sample_key sample_payment (initial_sys 0) = (s', r) \<and>
     submissions s' = es \<and> (es = [] \<or> two_rounds 3 (payment_envelope sample_key (OpPayment payee Native ''5'')) es)"
proof -
  obtain s' r where e: "payment_execute good_platform sample_agent_config sample_key sample_payment (initial_sys 0) = (s', r)"
    by fastforce
  from payment_submits_only_the_payment [OF e] e show ?thesis
    by (auto simp: sample_payment_schema resolve_asset_def initial_sys_def)
qed

lemma good_payment:
  assumes "good_like p" "\<not> active (backoff s)" "account_cache s = (\<lambda>k. None)"
    and "payment_input_schema p v = Some i" "pi_destination i \<noteq> self" "pi_asset_code i = ''XLM''"
    and "case pi_memo i of None \<Rightarrow> True | Some m \<Rightarrow> \<exists>q. build_memo (pi_memo_type i) m = Inr q"
  shows "\<exists>s' tx. payment_execute p sample_agent_config self v s = (s', Inr \<lparr>sr_hash = ''h1'', sr_ledger = JFin 7\<rparr>) \<and>
     submissions s' = submissions s @ [Envelope tx] \<and> tx_ops tx = [OpPayment (pi_destination i) Native (pi_amount i)] \<and>
     tx_memo tx = (case pi_memo i of None \<Rightarrow> None | Some m \<Rightarrow> (case build_memo (pi_memo_type i) m of Inr q \<Rightarrow> Some q | Inl e \<Rightarrow> None)) \<and>
     world s' = world s + 10 \<and> sys.more s' = sys.more s \<and> backoff s' = backoff s \<and> account_cache s' = (\<lambda>k. None)"
proof -
  have o: "op_fault p op = None" for op using assms(1) by (simp add: good_like_def)
  have cl: "clock p w = w" for w using assms(1) by (simp add: good_like_def)
  show ?thesis
    using assms
    by (auto simp: payment_execute_def resolve_asset_def submit_with_reload_def good_load build_payment_def
        check_op_def o build_tx_def good_submit_and_parse sign_tx_def split: option.splits)
qed

end
