(* ===== verification/RpcFrame.thy ===== *)
theory RpcFrame imports Payment begin

text \<open>
  What the calls of backend/rpc\_client.ts leave alone. A preorder on process states that holds
  across each elementary effect (a request, a pause, a change of the lock, the cache or a trace)
  holds across every composed call; the two instances used are "the tool's own state is
  unchanged" and "the clock does not go back".
\<close>

definition timing_ok :: "('w, 'x) platform_scheme \<Rightarrow> agent_config \<Rightarrow> bool" where
  "timing_ok p c \<longleftrightarrow> random_ok p \<and> 0 \<le> RETRY_DELAY_MS c"

locale sys_preorder =
  fixes p :: "('w, 'x) platform_scheme" and R :: "('w, 'y) sys_scheme \<Rightarrow> ('w, 'y) sys_scheme \<Rightarrow> bool"
  assumes refl: "R s s"
    and trans: "R s t \<Longrightarrow> R t u \<Longrightarrow> R s u"
    and backoff_step: "R s (s\<lparr>backoff := b\<rparr>)"
    and calls_step: "R s (s\<lparr>rpc_calls := n\<rparr>)"
    and cache_step: "R s (s\<lparr>account_cache := m\<rparr>)"
    and oid_step: "R s (s\<lparr>next_oid := n\<rparr>)"
    and submissions_step: "R s (s\<lparr>submissions := es\<rparr>)"
    and sleeps_step: "R s (s\<lparr>sleeps := ds\<rparr>)"
    and load_step: "R s (s\<lparr>world := fst (horizon_load_account p k (world s))\<rparr>)"
    and submit_step: "R s (s\<lparr>world := fst (horizon_submit p env (world s))\<rparr>)"
    and pause_step: "0 \<le> d \<Longrightarrow> R s (s\<lparr>world := sleep_ms p d (fst (random p (world s)))\<rparr>)"
    and locked_step: "R s (s\<lparr>world := fst (while_locked p (world s))\<rparr>)"
begin

definition steps :: "(('w, 'y) sys_scheme \<Rightarrow> ('w, 'y) sys_scheme \<times> 'a) \<Rightarrow> bool" where
  "steps f \<longleftrightarrow> (\<forall>s. R s (fst (f s)))"

lemma stepsI: "(\<And>s s' r. f s = (s', r) \<Longrightarrow> R s s') \<Longrightarrow> steps f"
  unfolding steps_def by (metis prod.collapse)

lemma stepsR: "steps f \<Longrightarrow> R s (fst (f s))"
  by (simp add: steps_def)

lemma stepsD: "steps f \<Longrightarrow> f s = (s', r) \<Longrightarrow> R s s'"
  unfolding steps_def by (metis fst_conv)

lemma steps_andThen:
  assumes "steps f" "\<And>x. steps (\<lambda>s. g s x)"
  shows "steps (\<lambda>s. andThen (f s) g)"
proof (rule stepsI)
  fix s s' :: "('w, 'y) sys_scheme" and r
  assume a: "andThen (f s) g = (s', r)"
  obtain t q where f: "f s = (t, q)" by fastforce
  show "R s s'"
  proof (cases q)
    case (Inl e)
    with a f stepsD [OF assms(1) f] show ?thesis by simp
  next
    case (Inr x)
    with a f have "g t x = (s', r)" by simp
    from trans [OF stepsD [OF assms(1) f] stepsD [OF assms(2) this]] show ?thesis .
  qed
qed

lemma attempt_steps: "steps f \<Longrightarrow> steps (attempt p f)"
proof (rule stepsI)
  fix s s' :: "('w, 'y) sys_scheme" and r
  assume f: "steps f" and a: "attempt p f s = (s', r)"
  obtain bo th where t: "is_throttled (now p s) (backoff s) = (bo, th)" by fastforce
  have "R s (s\<lparr>backoff := bo, rpc_calls := n\<rparr>)" for n
    using trans [OF backoff_step [of s bo] calls_step [of "s\<lparr>backoff := bo\<rparr>" n]] .
  then have n: "R s (s\<lparr>backoff := bo, rpc_calls := rpc_calls s + 1\<rparr>)" .
  show "R s s'"
  proof (cases th)
    case True
    with a t backoff_step [of s bo] show ?thesis by (auto simp: attempt_def)
  next
    case False
    with a t have "f (s\<lparr>backoff := bo, rpc_calls := rpc_calls s + 1\<rparr>) = (s', r)" by (simp add: attempt_def)
    from trans [OF n stepsD [OF f this]] show ?thesis .
  qed
qed

lemma note_429_step: "note_429 p e s = (s', e') \<Longrightarrow> R s s'"
  using refl backoff_step by (auto simp: note_429_def split: if_splits)

text \<open>A pause of non-negative length.\<close>

lemma pause_R: "random_ok p \<Longrightarrow> 0 \<le> d \<Longrightarrow> 0 \<le> m \<Longrightarrow> R s (pause p d m k s)"
proof -
  assume ok: "random_ok p" "0 \<le> d" "0 \<le> m"
  obtain w r where wr: "random p (world s) = (w, r)" by fastforce
  with ok(1) have r: "0 \<le> r" unfolding random_ok_def by (metis snd_conv)
  let ?c = "of_int (capped_delay d m k) :: rat"
  let ?x = "?c + r * (1 / 5) * ?c"
  have "0 \<le> ?x" using capped_delay_nonneg [OF ok(2,3), of k] r by simp
  from pause_step [OF this, of s] have "R s (s\<lparr>world := sleep_ms p ?x w\<rparr>)" by (simp add: wr)
  from trans [OF this sleeps_step [of _ "sleeps s @ [?x]"]]
  show "R s (pause p d m k s)" by (simp add: pause_def wr Let_def)
qed

lemma retry_loop_step:
  assumes "steps f" "random_ok p" "0 \<le> d" "0 \<le> m"
  shows "R s (fst (retry_loop p retries d ret m f k n prev s))"
proof (induction n arbitrary: k prev s)
  case 0
  show ?case by (simp add: refl)
next
  case (Suc n)
  obtain s1 r where a: "attempt p f s = (s1, r)" by fastforce
  from stepsD [OF attempt_steps [OF assms(1)] a] have s1: "R s s1" .
  show ?case
  proof (cases r)
    case (Inr x)
    with a s1 show ?thesis by simp
  next
    case (Inl e)
    obtain s2 e2 where n4: "note_429 p e s1 = (s2, e2)" by fastforce
    from trans [OF s1 note_429_step [OF n4]] have s2: "R s s2" .
    let ?s3 = "if n = 0 then s2 else pause p d m k s2"
    have s3: "R s ?s3" using trans [OF s2 pause_R [OF assms(2-4)]] s2 by simp
    show ?thesis
      using a Inl n4 s2 trans [OF s3 Suc.IH] by (auto split: js_error.splits)
  qed
qed

lemma with_retry_steps: "steps f \<Longrightarrow> random_ok p \<Longrightarrow> 0 \<le> d \<Longrightarrow> 0 \<le> m \<Longrightarrow> steps (with_retry p n d ret m f)"
  unfolding steps_def [of "with_retry p n d ret m f"] with_retry_def
  by (intro allI retry_loop_step)

lemma with_timeout_steps: "steps f \<Longrightarrow> steps (with_timeout p ms f)"
  by (rule stepsI) (auto simp: with_timeout_def Let_def dest: stepsD split: prod.splits if_splits)

lemma guarded_steps:
  assumes "steps f"
  shows "steps (guarded p f)"
proof (rule stepsI)
  fix s s' :: "('w, 'y) sys_scheme" and r
  assume a: "guarded p f s = (s', r)"
  obtain bo th where t: "is_throttled (now p s) (backoff s) = (bo, th)" by fastforce
  obtain w sup where w: "while_locked p (world s) = (w, sup)" by fastforce
  have bw: "R s (s\<lparr>world := w, backoff := b\<rparr>)" for b
    using trans [OF locked_step [of s] backoff_step [of _ b]] by (simp add: w)
  have b: "R s (fst (f (s\<lparr>backoff := bo\<rparr>)))" by (rule trans [OF backoff_step stepsR [OF assms]])
  have c: "R s (fst (f (s\<lparr>world := w, backoff := clear_backoff None bo\<rparr>)))"
    by (rule trans [OF bw stepsR [OF assms]])
  show "R s s'"
    using a t w bw b c by (cases th; cases sup) (auto simp: guarded_def)
qed

lemma fetch_account_steps: "steps (fetch_account p pk)"
proof (rule stepsI)
  fix s s' :: "('w, 'y) sys_scheme" and r
  assume "fetch_account p pk s = (s', r)"
  then show "R s s'"
    using load_step [of s pk] trans [OF load_step oid_step]
    by (auto simp: fetch_account_def outside_def split: prod.splits sum.splits) (metis fst_conv)+
qed

lemma refresh_steps: "timing_ok p c \<Longrightarrow> steps (refresh_account p c pk)"
proof -
  assume "timing_ok p c"
  then have "steps (\<lambda>s. guarded p (with_timeout p (RPC_TIMEOUT_MS c)
       (with_retry p (MAX_RETRIES c) (RETRY_DELAY_MS c) default_is_retryable max_retry_delay_ms
          (fetch_account p pk))) s)"
    by (intro guarded_steps with_timeout_steps with_retry_steps fetch_account_steps)
      (auto simp: timing_ok_def max_retry_delay_ms_def)
  then show ?thesis by (simp add: refresh_account_def [abs_def])
qed

lemma load_account_steps:
  assumes "timing_ok p c"
  shows "steps (load_account p c pk force)"
proof -
  let ?fetch = "\<lambda>s. andThen (refresh_account p c pk s) (\<lambda>s a. (store_account p c pk a s, Inr a))"
  have f: "steps ?fetch"
    by (rule steps_andThen [OF refresh_steps [OF assms]])
      (rule stepsI, auto simp: store_account_def intro: cache_step)
  have d: "R s (fst (?fetch (s\<lparr>account_cache := m\<rparr>)))" for s m
    by (rule trans [OF cache_step stepsR [OF f]])
  have "R s (fst (load_account p c pk force s))" for s
    using stepsR [OF f] d by (auto simp: load_account_def Let_def refl split: option.splits)
  then show ?thesis by (simp add: steps_def)
qed

lemma submit_once_steps: "steps (submit_once p env)"
proof -
  have o: "steps (outside (horizon_submit p env))"
    by (rule stepsI) (use submit_step in \<open>auto simp: outside_def split: prod.splits\<close>, metis fst_conv)
  have "R s (fst (submit_once p env s))" for s
    unfolding submit_once_def by (rule trans [OF submissions_step stepsR [OF with_timeout_steps [OF o]]])
  then show ?thesis by (simp add: steps_def)
qed

lemma submit_transaction_steps:
  assumes "timing_ok p c"
  shows "steps (submit_transaction p c env)"
proof -
  let ?g = "guarded p (with_retry p (MAX_RETRIES c) (RETRY_DELAY_MS c) default_is_retryable
     max_retry_delay_ms (submit_once p env))"
  have g: "steps ?g"
    using assms by (intro guarded_steps with_retry_steps submit_once_steps)
      (auto simp: timing_ok_def max_retry_delay_ms_def)
  show ?thesis
  proof (rule stepsI)
    fix s s' :: "('w, 'y) sys_scheme" and r
    assume a: "submit_transaction p c env s = (s', r)"
    obtain t q where t: "?g s = (t, q)" by fastforce
    from trans [OF stepsD [OF g t] cache_step] a t refl show "R s s'"
      by (auto simp: submit_transaction_def invalidate_account_cache_def split: sum.splits)
  qed
qed

lemma submit_and_parse_steps: "timing_ok p c \<Longrightarrow> steps (submit_and_parse p c env)"
  unfolding submit_and_parse_def [abs_def]
  by (rule steps_andThen [OF submit_transaction_steps]) (auto simp: steps_def refl)

lemma build_tx_step: "build_tx p fee ops m t a s = (s', tx) \<Longrightarrow> R s s'"
  by (auto simp: build_tx_def intro: cache_step)

lemma build_payment_steps: "steps (build_payment p self op mty mem timeout a)"
  by (rule stepsI)
    (auto simp: build_payment_def refl split: sum.splits option.splits prod.splits dest!: build_tx_step)

lemma submit_with_reload_steps:
  assumes "timing_ok p c" "\<And>a. steps (build a)"
  shows "steps (submit_with_reload p c self build)"
proof -
  have tail: "steps (\<lambda>s. andThen (load_account p c self True s) (\<lambda>s4 a'.
      andThen (build a' s4) (\<lambda>s5 tx'. submit_and_parse p c (Envelope tx') s5)))"
    by (intro steps_andThen load_account_steps submit_and_parse_steps assms)
  have "steps (\<lambda>s. case submit_and_parse p c (Envelope tx) s of
       (s3, Inr r) \<Rightarrow> (s3, Inr r)
     | (s3, Inl e) \<Rightarrow> if is_bad_seq e then
             andThen (load_account p c self True s3) (\<lambda>s4 a'.
             andThen (build a' s4) (\<lambda>s5 tx'. submit_and_parse p c (Envelope tx') s5))
           else (s3, Inl e))" for tx
  proof (rule stepsI)
    fix s s' :: "('w, 'y) sys_scheme" and r
    assume a: "(case submit_and_parse p c (Envelope tx) s of
       (s3, Inr r) \<Rightarrow> (s3, Inr r)
     | (s3, Inl e) \<Rightarrow> if is_bad_seq e then
             andThen (load_account p c self True s3) (\<lambda>s4 a'.
             andThen (build a' s4) (\<lambda>s5 tx'. submit_and_parse p c (Envelope tx') s5))
           else (s3, Inl e)) = (s', r)"
    obtain t q where u: "submit_and_parse p c (Envelope tx) s = (t, q)" by fastforce
    have t: "R s t" by (rule stepsD [OF submit_and_parse_steps [OF assms(1)] u])
    show "R s s'"
      using a u t trans [OF t stepsD [OF tail]] by (cases q) (auto split: if_splits)
  qed
  then show ?thesis
    unfolding submit_with_reload_def [abs_def]
    by (intro steps_andThen load_account_steps assms) auto
qed

lemma payment_execute_steps:
  assumes "timing_ok p c"
  shows "steps (payment_execute p c self v)"
proof (rule stepsI)
  fix s s' :: "('w, 'y) sys_scheme" and r
  assume a: "payment_execute p c self v s = (s', r)"
  have "R s (fst (submit_with_reload p c self (build_payment p self op mty mem t) s))" for op mty mem t
    by (rule stepsR [OF submit_with_reload_steps [OF assms build_payment_steps]])
  then show "R s s'" using a refl
    by (auto simp: payment_execute_def andThen_const split: sum.splits if_splits) (metis fst_conv)+
qed

end

section \<open>The two preorders\<close>

text \<open>No request and no pause turns the clock back.\<close>

definition clock_forward :: "('w, 'x) platform_scheme \<Rightarrow> bool" where
  "clock_forward p \<longleftrightarrow> (\<forall>w k env d.
     clock p w \<le> clock p (fst (horizon_load_account p k w)) \<and>
     clock p w \<le> clock p (fst (horizon_submit p env w)) \<and>
     (0 \<le> d \<longrightarrow> clock p w \<le> clock p (sleep_ms p d (fst (random p w)))) \<and>
     clock p w \<le> clock p (fst (while_locked p w)))"

definition same_tool_state :: "('w, 'y) sys_scheme \<Rightarrow> ('w, 'y) sys_scheme \<Rightarrow> bool" where
  "same_tool_state s s' \<longleftrightarrow> sys.more s' = sys.more s"

definition not_before :: "('w, 'x) platform_scheme \<Rightarrow> ('w, 'y) sys_scheme \<Rightarrow> ('w, 'y) sys_scheme \<Rightarrow> bool" where
  "not_before p s s' \<longleftrightarrow> (clock_forward p \<longrightarrow> now p s \<le> now p s')"

interpretation own: sys_preorder p same_tool_state
  by unfold_locales (auto simp: same_tool_state_def)

interpretation forward: sys_preorder p "not_before p"
  by unfold_locales (auto simp: not_before_def clock_forward_def now_def)

lemma good_platform_timing: "clock_forward good_platform" "random_ok good_platform"
  by (auto simp: clock_forward_def good_platform_def toy_platform_def random_ok_def)

end
