(* ===== verification/NonceStore.thy ===== *)
theory NonceStore imports Errors begin

text \<open>
  backend/nonce\_store.ts: the store of used x402 nonces, its contract \<open>INonceStore\<close> as a
  locale, and the two implementations of the file. \<open>has\<close> and \<open>add\<close> prune first, with the
  configured lifetime. A call reads one time.
\<close>

definition max_nonce_ttl_ms :: int where
  "max_nonce_ttl_ms = 24 * 60 * 60 * 1000"

text \<open>\<open>configuredTtlMs()\<close>: None is a configuration object without the field.\<close>

definition configured_ttl_ms :: "int option \<Rightarrow> int" where
  "configured_ttl_ms v = (case v of Some t \<Rightarrow> if 0 < t then t else max_nonce_ttl_ms | None \<Rightarrow> max_nonce_ttl_ms)"

section \<open>The contract\<close>

text \<open>What a client does to the store over time: \<open>has\<close>, \<open>add\<close>, and a prune with a lifetime
  of its own.\<close>

datatype nonce_op = Has int string | Add int string | PruneWith int int

fun op_time :: "nonce_op \<Rightarrow> int" where
  "op_time (Has t n) = t"
| "op_time (Add t n) = t"
| "op_time (PruneWith t l) = t"

text \<open>No prune of the client uses a lifetime below \<open>life\<close>.\<close>

fun keeps :: "int \<Rightarrow> nonce_op \<Rightarrow> bool" where
  "keeps life (PruneWith t l) = (life \<le> l)"
| "keeps life _ = True"

text \<open>\<open>used_at s n\<close> is the recorded time of a nonce. Pruning keeps exactly what is not older
  than the lifetime; adding a nonce that survived the pruning does nothing.\<close>

locale nonce_store =
  fixes has :: "int \<Rightarrow> int \<Rightarrow> string \<Rightarrow> 'n \<Rightarrow> 'n \<times> bool"
    and add :: "int \<Rightarrow> int \<Rightarrow> string \<Rightarrow> 'n \<Rightarrow> 'n"
    and prune :: "int \<Rightarrow> int \<Rightarrow> 'n \<Rightarrow> 'n"
    and used_at :: "'n \<Rightarrow> string \<Rightarrow> int option"
  assumes prune_used: "used_at (prune t ttl s) n =
      (case used_at s n of Some u \<Rightarrow> if t - ttl \<le> u then Some u else None | None \<Rightarrow> None)"
    and has_result: "snd (has ttl t n s) = (used_at (prune t ttl s) n \<noteq> None)"
    and has_store: "used_at (fst (has ttl t n s)) = used_at (prune t ttl s)"
    and add_used: "used_at (add ttl t n s) m =
      (if m = n \<and> used_at (prune t ttl s) n = None then Some t else used_at (prune t ttl s) m)"
begin

fun apply_op :: "int \<Rightarrow> nonce_op \<Rightarrow> 'n \<Rightarrow> 'n" where
  "apply_op ttl (Has t n) s = fst (has ttl t n s)"
| "apply_op ttl (Add t n) s = add ttl t n s"
| "apply_op ttl (PruneWith t l) s = prune t l s"

lemma apply_op_keeps:
  assumes "used_at s n = Some u" "life \<le> ttl" "keeps life x" "op_time x \<le> u + life"
  shows "used_at (apply_op ttl x s) n = Some u"
  using assms by (cases x) (auto simp: has_store add_used prune_used)

lemma ops_keep:
  assumes "used_at s n = Some u" "life \<le> ttl" "\<forall>x \<in> set xs. keeps life x \<and> op_time x \<le> u + life"
  shows "used_at (foldl (\<lambda>s x. apply_op ttl x s) s xs) n = Some u"
  using assms
proof (induction xs arbitrary: s)
  case (Cons x xs)
  with apply_op_keeps [of s n u life ttl x] show ?case by simp
qed simp

text \<open>A nonce that was added is found for the shorter of the configured lifetime and the
  lifetimes the client prunes with, whatever happens to the store in between.\<close>

lemma added_is_found:
  assumes "life \<le> ttl" "0 \<le> ttl" "\<forall>x \<in> set xs. keeps life x \<and> op_time x \<le> t + life" "t' \<le> t + life"
    and "\<forall>u. used_at s n = Some u \<longrightarrow> u < t - ttl \<or> u = t"
  shows "snd (has ttl t' n (foldl (\<lambda>s x. apply_op ttl x s) (add ttl t n s) xs))"
proof -
  have "used_at (add ttl t n s) n = Some t"
    using assms(2,5) by (auto simp: add_used prune_used split: option.splits)
  from ops_keep [OF this assms(1,3)]
  have "used_at (foldl (\<lambda>s x. apply_op ttl x s) (add ttl t n s) xs) n = Some t" .
  with assms(1,4) show ?thesis by (simp add: has_result prune_used)
qed

text \<open>A prune with a lifetime that has passed forgets the nonce, and \<open>has\<close> then says no.\<close>

lemma pruned_is_forgotten:
  assumes "used_at s n = Some u" "u < t - l" "t \<le> t'"
  shows "\<not> snd (has ttl t' n (prune t l s))"
  using assms by (simp add: has_result prune_used)

end

section \<open>SqliteNonceStore\<close>

text \<open>The rows of \<open>x402_used_nonces\<close>; \<open>nonce\<close> is the primary key, so no two rows share it.\<close>

record nonce_row =
  nonce :: string
  used_at_ms :: int

typedef nonce_table = "{rows :: nonce_row list. distinct (map nonce rows)}"
  by (rule exI [of _ "[]"]) simp

setup_lifting type_definition_nonce_table

definition row_time :: "nonce_row list \<Rightarrow> string \<Rightarrow> int option" where
  "row_time rows n = map_option used_at_ms (find (\<lambda>r. nonce r = n) rows)"

lift_definition empty_nonces :: nonce_table is "[]"
  by simp

lift_definition nonce_time :: "nonce_table \<Rightarrow> string \<Rightarrow> int option" is row_time .

text \<open>\<open>DELETE FROM x402_used_nonces WHERE used_at_ms < ?\<close>.\<close>

lift_definition sqlite_prune :: "int \<Rightarrow> int \<Rightarrow> nonce_table \<Rightarrow> nonce_table" is
  "\<lambda>t ttl rows. filter (\<lambda>r. \<not> used_at_ms r < t - ttl) rows"
  by (simp add: distinct_map_filter)

lemma find_nonce_None: "find (\<lambda>r. nonce r = n) rows = None \<longleftrightarrow> n \<notin> nonce ` set rows"
  by (auto simp: find_None_iff)

text \<open>\<open>INSERT OR IGNORE\<close>: a row with the same key stays.\<close>

lift_definition insert_or_ignore :: "string \<Rightarrow> int \<Rightarrow> nonce_table \<Rightarrow> nonce_table" is
  "\<lambda>n t rows. if row_time rows n = None then rows @ [\<lparr>nonce = n, used_at_ms = t\<rparr>] else rows"
  by (auto simp: row_time_def find_nonce_None)

definition sqlite_has :: "int \<Rightarrow> int \<Rightarrow> string \<Rightarrow> nonce_table \<Rightarrow> nonce_table \<times> bool" where
  "sqlite_has ttl t n tab = (let tab' = sqlite_prune t ttl tab in (tab', nonce_time tab' n \<noteq> None))"

definition sqlite_add :: "int \<Rightarrow> int \<Rightarrow> string \<Rightarrow> nonce_table \<Rightarrow> nonce_table" where
  "sqlite_add ttl t n tab = insert_or_ignore n t (sqlite_prune t ttl tab)"

section \<open>InMemoryNonceStore\<close>

type_synonym nonce_map = "string \<Rightarrow> int option"

definition memory_prune :: "int \<Rightarrow> int \<Rightarrow> nonce_map \<Rightarrow> nonce_map" where
  "memory_prune t ttl m = (\<lambda>n. case m n of Some u \<Rightarrow> if u < t - ttl then None else Some u | None \<Rightarrow> None)"

definition memory_has :: "int \<Rightarrow> int \<Rightarrow> string \<Rightarrow> nonce_map \<Rightarrow> nonce_map \<times> bool" where
  "memory_has ttl t n m = (let m' = memory_prune t ttl m in (m', m' n \<noteq> None))"

definition memory_add :: "int \<Rightarrow> int \<Rightarrow> string \<Rightarrow> nonce_map \<Rightarrow> nonce_map" where
  "memory_add ttl t n m =
     (let m' = memory_prune t ttl m in if m' n = None then m'(n \<mapsto> t) else m')"

section \<open>Both implement the contract\<close>

lemma row_time_Cons:
  "row_time (r # rows) n = (if nonce r = n then Some (used_at_ms r) else row_time rows n)"
  by (simp add: row_time_def)

lemma row_time_None: "row_time rows n = None \<longleftrightarrow> n \<notin> nonce ` set rows"
  by (auto simp: row_time_def find_nonce_None)

lemma row_time_snoc:
  "row_time (rows @ [r]) n = (case row_time rows n of Some u \<Rightarrow> Some u
     | None \<Rightarrow> if nonce r = n then Some (used_at_ms r) else None)"
  by (induction rows) (auto simp: row_time_def)

lemma row_time_filter:
  "distinct (map nonce rows) \<Longrightarrow> row_time (filter (\<lambda>r. \<not> used_at_ms r < c) rows) n =
     (case row_time rows n of Some u \<Rightarrow> if c \<le> u then Some u else None | None \<Rightarrow> None)"
proof (induction rows)
  case Nil
  then show ?case by (simp add: row_time_def)
next
  case (Cons r rows)
  have "row_time (filter (\<lambda>r. \<not> used_at_ms r < c) rows) n = None" if "nonce r = n"
    using Cons.prems that by (auto simp: row_time_None)
  with Cons show ?case by (auto simp: row_time_Cons)
qed

lemma nonce_time_prune: "nonce_time (sqlite_prune t ttl tab) n =
    (case nonce_time tab n of Some u \<Rightarrow> if t - ttl \<le> u then Some u else None | None \<Rightarrow> None)"
  by transfer (rule row_time_filter)

lemma nonce_time_insert: "nonce_time (insert_or_ignore n t tab) m =
    (if m = n \<and> nonce_time tab n = None then Some t else nonce_time tab m)"
  by transfer (auto simp: row_time_snoc split: option.splits)

lemma nonce_time_empty [simp]: "nonce_time empty_nonces n = None"
  by transfer (simp add: row_time_def)

interpretation sqlite: nonce_store sqlite_has sqlite_add sqlite_prune nonce_time
  by unfold_locales
    (auto simp: sqlite_has_def sqlite_add_def nonce_time_prune nonce_time_insert Let_def)

interpretation memory: nonce_store memory_has memory_add memory_prune "\<lambda>m. m"
  by unfold_locales
    (auto simp: memory_has_def memory_add_def memory_prune_def Let_def split: option.splits)

text \<open>
  C15. The two stores are interchangeable: started from stores that record the same nonces at
  the same times, they answer \<open>has\<close> alike and record alike after every \<open>has\<close>, \<open>add\<close> and prune,
  so what holds of the store used in tests holds of the one used in production.
\<close>

theorem nonce_stores_agree:
  assumes "nonce_time tab = m"
  shows "snd (sqlite_has ttl t n tab) = snd (memory_has ttl t n m) \<and>
    nonce_time (fst (sqlite_has ttl t n tab)) = fst (memory_has ttl t n m) \<and>
    nonce_time (sqlite_add ttl t n tab) = memory_add ttl t n m \<and>
    nonce_time (sqlite_prune t l tab) = memory_prune t l m"
proof -
  have p: "nonce_time (sqlite_prune t l tab) = memory_prune t l m" for l
    using assms by (auto simp: fun_eq_iff nonce_time_prune memory_prune_def split: option.splits)
  then show ?thesis
    by (auto simp: sqlite_has_def memory_has_def sqlite_add_def memory_add_def Let_def fun_eq_iff nonce_time_insert)
qed

theorem nonce_stores_agree_witness:
  "snd (sqlite_has 10 5 ''a'' (sqlite_add 10 0 ''a'' empty_nonces)) =
   snd (memory_has 10 5 ''a'' (memory_add 10 0 ''a'' (\<lambda>n. None)))"
proof -
  have e: "nonce_time empty_nonces = (\<lambda>n. None)" by (simp add: fun_eq_iff)
  then have "nonce_time (sqlite_add 10 0 ''a'' empty_nonces) = memory_add 10 0 ''a'' (\<lambda>n. None)"
    by (auto simp: sqlite_add_def memory_add_def Let_def fun_eq_iff nonce_time_insert nonce_time_prune memory_prune_def)
  from nonce_stores_agree [OF this] show ?thesis by simp
qed

end
