(* ===== verification/X402.thy ===== *)
theory X402 imports RpcFrame NonceStore begin

text \<open>
  backend/tools/X402PaymentTool.ts: answering a payment challenge and verifying a proof. The
  tool's own state is the rate window and the nonce table of its SqliteNonceStore; a database
  whose statements raise has \<open>nonce_fault\<close>. URL, UUID and date parsing, SHA-256, and the two
  Horizon queries are fields of the platform. The second part follows concurrent calls: each
  await is a point where another call may run.
\<close>

section \<open>Platform, state, data\<close>

record 'w x402_platform = "'w soroban" +
  url_ok :: "string \<Rightarrow> bool"
  url_hostname :: "string \<Rightarrow> string"
  is_uuid :: "string \<Rightarrow> bool"
  parse_datetime :: "string \<Rightarrow> int option"
  iso_string :: "int \<Rightarrow> string"
  sha256_hex :: "string \<Rightarrow> string"
  ledger_closed_at :: "jsnum \<Rightarrow> 'w \<Rightarrow> 'w \<times> (js_error + string)"
  horizon_transaction :: "string \<Rightarrow> 'w \<Rightarrow> 'w \<times> (js_error + jsval)"
  horizon_operations :: "string \<Rightarrow> 'w \<Rightarrow> 'w \<times> (js_error + jsval list)"

record 'w x402_sys = "'w sys" +
  payment_count :: nat
  window_start :: int
  nonces :: nonce_table
  nonce_fault :: "js_error option"

record challenge =
  ch_resource :: string
  ch_amount :: string
  ch_asset_code :: string
  ch_asset_issuer :: string
  ch_pay_to :: string
  ch_nonce :: string
  ch_expires_at :: string

record payment_proof =
  pp_protocol :: string
  pp_network :: network
  pp_tx_hash :: string
  pp_nonce :: string
  pp_payer :: string
  pp_signed_at :: string

definition x402_challenge_schema ::
    "('w, 'x) x402_platform_scheme \<Rightarrow> agent_config \<Rightarrow> jsval \<Rightarrow> challenge option" where
  "x402_challenge_schema p c v = do {
     _ \<leftarrow> z_obj v;
     res \<leftarrow> z_check (url_ok p) (z_str (field v ''resource''));
     amt \<leftarrow> z_str (field v ''amount'');
     code \<leftarrow> z_def (X402_ASSET_CODE c) z_str (field v ''assetCode'');
     issuer \<leftarrow> z_def (X402_ASSET_ISSUER c) z_str (field v ''assetIssuer'');
     to \<leftarrow> z_check (\<lambda>s. length s = 56) (z_str (field v ''payTo''));
     non \<leftarrow> z_check (is_uuid p) (z_str (field v ''nonce''));
     ex \<leftarrow> z_check (\<lambda>s. parse_datetime p s \<noteq> None) (z_str (field v ''expiresAt''));
     z_check (\<lambda>ch. ch_asset_code ch = ''XLM'' \<or> ch_asset_issuer ch \<noteq> [])
       (Some \<lparr>ch_resource = res, ch_amount = amt, ch_asset_code = code, ch_asset_issuer = issuer,
          ch_pay_to = to, ch_nonce = non, ch_expires_at = ex\<rparr>)
   }"

section \<open>Responding\<close>

definition rate_limit_window_ms :: int where
  "rate_limit_window_ms = 60000"

text \<open>The rate window: the new counter and start, or None when the limit is reached (the
  window may have been restarted even then).\<close>

definition rate_check :: "int \<Rightarrow> int \<Rightarrow> nat \<times> int \<Rightarrow> (nat \<times> int) \<times> bool" where
  "rate_check limit t cs =
     (let (n, w) = (if rate_limit_window_ms \<le> t - snd cs then (0, t) else cs)
      in if limit \<le> int n then ((n, w), False) else ((n + 1, w), True))"

text \<open>\<open>ALLOWED_X402_ORIGINS.split(',').map((o) => o.trim())\<close> and the membership test.\<close>

definition origin_allowed :: "('w, 'x) x402_platform_scheme \<Rightarrow> agent_config \<Rightarrow> string \<Rightarrow> bool" where
  "origin_allowed p c resource =
     (case ALLOWED_X402_ORIGINS c of
        Some s \<Rightarrow> s = [] \<or> url_hostname p resource \<in> set (map trim (split_on (CHR '','') s))
      | None \<Rightarrow> True)"

text \<open>Everything \<open>respond\<close> does before its first await.\<close>

definition x402_admit ::
    "('w, 'x) x402_platform_scheme \<Rightarrow> agent_config \<Rightarrow> string \<Rightarrow> jsval \<Rightarrow> ('w, 'y) x402_sys_scheme \<Rightarrow>
     ('w, 'y) x402_sys_scheme \<times> (js_error + challenge)" where
  "x402_admit p c self v s =
     (let t = now p s;
          ((n, w), ok) = rate_check (MAX_X402_PAYMENTS_PER_MINUTE c) t (payment_count s, window_start s);
          s1 = s\<lparr>payment_count := n, window_start := w\<rparr>
      in if \<not> ok then (s1, Inl (plain ''x402: rate limit exceeded''))
         else (case x402_challenge_schema p c v of
             None \<Rightarrow> (s1, Inl zod_failure)
           | Some ch \<Rightarrow>
               if ch_pay_to ch = self then (s1, Inl self_payment_error)
               else if \<not> origin_allowed p c (ch_resource ch)
                 then (s1, Inl (plain ''x402: untrusted resource origin''))
               else if (case parse_datetime p (ch_expires_at ch) of Some e \<Rightarrow> e < t | None \<Rightarrow> False)
                 then (s1, Inl (plain (''x402 challenge expired at '' @ ch_expires_at ch)))
               else (s1, Inr ch)))"

definition nonce_ttl :: "agent_config \<Rightarrow> int" where
  "nonce_ttl c = configured_ttl_ms (Some (X402_NONCE_TTL_MS c))"

text \<open>\<open>await this.nonceStore.has(nonce)\<close>.\<close>

definition x402_check_nonce ::
    "('w, 'x) x402_platform_scheme \<Rightarrow> agent_config \<Rightarrow> string \<Rightarrow> ('w, 'y) x402_sys_scheme \<Rightarrow>
     ('w, 'y) x402_sys_scheme \<times> (js_error + unit)" where
  "x402_check_nonce p c n s =
     (case nonce_fault s of
        Some e \<Rightarrow> (s, Inl e)
      | None \<Rightarrow>
          (let (tab, used) = sqlite_has (nonce_ttl c) (now p s) n (nonces s)
           in (s\<lparr>nonces := tab\<rparr>, if used then Inl (plain ''x402: nonce already used'') else Inr ())))"

text \<open>\<open>extractTxHash(err)\<close>: the first non-empty string among three places of the error.\<close>

definition extract_tx_hash :: "js_error \<Rightarrow> jsval" where
  "extract_tx_hash e =
     (let v = err_value e;
          hits = filter (\<lambda>x. case x of JStr s \<Rightarrow> s \<noteq> [] | _ \<Rightarrow> False)
                   [field v ''txHash'', field v ''hash'', field (field (field v ''response'') ''data'') ''hash'']
      in case hits of [] \<Rightarrow> JUndef | x # xs \<Rightarrow> x)"

definition x402_memo :: "('w, 'x) x402_platform_scheme \<Rightarrow> string \<Rightarrow> string" where
  "x402_memo p n = take 28 (sha256_hex p n)"

text \<open>The input handed to the payment tool, and the payment, whose failure of any kind becomes a
  TransactionFailureError.\<close>

definition x402_payment_input :: "challenge \<Rightarrow> string \<Rightarrow> jsval" where
  "x402_payment_input ch m =
     JObj [(''destination'', JStr (ch_pay_to ch)), (''amount'', JStr (ch_amount ch)),
       (''assetCode'', JStr (ch_asset_code ch)),
       (''assetIssuer'', if ch_asset_code ch = ''XLM'' then JUndef else JStr (ch_asset_issuer ch)),
       (''memo'', JStr m)]"

definition x402_pay ::
    "('w, 'x) x402_platform_scheme \<Rightarrow> agent_config \<Rightarrow> string \<Rightarrow> challenge \<Rightarrow> ('w, 'y) x402_sys_scheme \<Rightarrow>
     ('w, 'y) x402_sys_scheme \<times> (js_error + submit_result)" where
  "x402_pay p c self ch s =
     (case (case attach_memo MEMO_TEXT (x402_memo p (ch_nonce ch)) of
              Inl e \<Rightarrow> (s, Inl e)
            | Inr m \<Rightarrow> payment_execute p c self (x402_payment_input ch (x402_memo p (ch_nonce ch))) s) of
        (s', Inr r) \<Rightarrow> (s', Inr r)
      | (s', Inl e) \<Rightarrow> (s', Inl (transaction_failure_error (err_message e) (extract_tx_hash e) (err_value e))))"

text \<open>\<open>add\<close>, then the prune with MAX\_NONCE\_TTL\_MS whose failure is only logged.\<close>

definition x402_record ::
    "('w, 'x) x402_platform_scheme \<Rightarrow> agent_config \<Rightarrow> string \<Rightarrow> ('w, 'y) x402_sys_scheme \<Rightarrow>
     ('w, 'y) x402_sys_scheme \<times> (js_error + unit)" where
  "x402_record p c n s =
     (case nonce_fault s of
        Some e \<Rightarrow> (s, Inl e)
      | None \<Rightarrow> (s\<lparr>nonces := sqlite_prune (now p s) max_nonce_ttl_ms
                    (sqlite_add (nonce_ttl c) (now p s) n (nonces s))\<rparr>, Inr ()))"

definition x402_proof ::
    "('w, 'x) x402_platform_scheme \<Rightarrow> agent_config \<Rightarrow> string \<Rightarrow> challenge \<Rightarrow> submit_result \<Rightarrow>
     ('w, 'y) x402_sys_scheme \<Rightarrow> ('w, 'y) x402_sys_scheme \<times> payment_proof" where
  "x402_proof p c self ch r s =
     (let (s', closed) = outside (ledger_closed_at p (sr_ledger r)) s
      in (s', \<lparr>pp_protocol = ''x402'', pp_network = STELLAR_NETWORK c, pp_tx_hash = sr_hash r,
               pp_nonce = ch_nonce ch, pp_payer = self,
               pp_signed_at = (case closed of Inr d \<Rightarrow> d | Inl e \<Rightarrow> iso_string p (now p s'))\<rparr>))"

definition x402_respond ::
    "('w, 'x) x402_platform_scheme \<Rightarrow> agent_config \<Rightarrow> string \<Rightarrow> jsval \<Rightarrow> ('w, 'y) x402_sys_scheme \<Rightarrow>
     ('w, 'y) x402_sys_scheme \<times> (js_error + payment_proof)" where
  "x402_respond p c self v s =
     andThen (x402_admit p c self v s) (\<lambda>s ch.
     andThen (x402_check_nonce p c (ch_nonce ch) s) (\<lambda>s u.
     andThen (x402_pay p c self ch s) (\<lambda>s r.
     andThen (x402_record p c (ch_nonce ch) s) (\<lambda>s u.
       (let (s', pr) = x402_proof p c self ch r s in (s', Inr pr))))))"

section \<open>Verifying\<close>

text \<open>\<open>a || b\<close> on unknown values.\<close>

definition js_or :: "jsval \<Rightarrow> jsval \<Rightarrow> jsval" where
  "js_or a b = (if truthy a then a else b)"

record extracted_op =
  op_to :: jsval
  op_amount :: jsval
  op_asset_code :: jsval
  op_from :: jsval

definition extract_op :: "jsval \<Rightarrow> extracted_op" where
  "extract_op v =
     \<lparr>op_to = js_or (field v ''to'') (field v ''destination''), op_amount = field v ''amount'',
      op_asset_code = (if field v ''asset_type'' = JStr ''native'' then JStr ''XLM''
                       else js_or (field v ''asset_code'') (field (field v ''asset'') ''code'')),
      op_from = js_or (field v ''from'') (field v ''source_account'')\<rparr>"

definition verification_error :: "string \<Rightarrow> js_error" where
  "verification_error m = plain (''x402 verification failed: '' @ m)"

definition check_proof ::
    "('w, 'x) x402_platform_scheme \<Rightarrow> payment_proof \<Rightarrow> challenge \<Rightarrow> jsval \<Rightarrow> jsval \<Rightarrow> js_error + unit" where
  "check_proof p pr ch tx op =
     (let x = extract_op op in
      if op_to x \<noteq> JStr (ch_pay_to ch) then Inl (verification_error ''destination mismatch'')
      else if op_amount x \<noteq> JStr (ch_amount ch) then Inl (verification_error ''amount mismatch'')
      else if op_asset_code x \<noteq> JStr (ch_asset_code ch) then Inl (verification_error ''asset mismatch'')
      else if field tx ''memo'' \<noteq> JStr (x402_memo p (ch_nonce ch))
        then Inl (verification_error ''nonce mismatch'')
      else if op_from x \<noteq> JStr (pp_payer pr) then Inl (verification_error ''payer mismatch'')
      else Inr ())"

definition x402_verify ::
    "('w, 'x) x402_platform_scheme \<Rightarrow> payment_proof \<Rightarrow> challenge \<Rightarrow> ('w, 'y) x402_sys_scheme \<Rightarrow>
     ('w, 'y) x402_sys_scheme \<times> (js_error + unit)" where
  "x402_verify p pr ch s =
     andThen (outside (horizon_transaction p (pp_tx_hash pr)) s) (\<lambda>s tx.
     andThen (outside (horizon_operations p (pp_tx_hash pr)) s) (\<lambda>s ops.
       case ops of
         [] \<Rightarrow> (s, Inl (verification_error ''missing operation''))
       | op # rest \<Rightarrow> (s, check_proof p pr ch tx op)))"

section \<open>The rate window\<close>

text \<open>The requests of a list of times that are admitted.\<close>

fun rate_run :: "int \<Rightarrow> int list \<Rightarrow> nat \<times> int \<Rightarrow> (nat \<times> int) \<times> int list" where
  "rate_run limit [] cs = (cs, [])"
| "rate_run limit (t # ts) cs =
     (let (cs1, ok) = rate_check limit t cs; (cs2, adm) = rate_run limit ts cs1
      in (cs2, if ok then t # adm else adm))"

lemma rate_run_window:
  assumes "\<forall>t \<in> set ts. t - w < rate_limit_window_ms"
  shows "\<exists>n'. fst (rate_run limit ts (n, w)) = (n', w) \<and> n' = n + length (snd (rate_run limit ts (n, w))) \<and>
    (int n \<le> max 0 limit \<longrightarrow> int n' \<le> max 0 limit)"
  using assms
proof (induction ts arbitrary: n)
  case (Cons t ts)
  have t: "\<not> rate_limit_window_ms \<le> t - w" using Cons.prems by simp
  show ?case
  proof (cases "limit \<le> int n")
    case True
    with t Cons.IH [of n] Cons.prems show ?thesis
      by (auto simp: rate_check_def Let_def split: prod.splits)
  next
    case False
    with t Cons.IH [of "n + 1"] Cons.prems show ?thesis
      by (auto simp: rate_check_def Let_def split: prod.splits)
  qed
qed simp

lemma rate_run_admits_all:
  assumes "\<forall>t \<in> set ts. t - w < rate_limit_window_ms" "int n + int (length ts) \<le> limit"
  shows "rate_run limit ts (n, w) = ((n + length ts, w), ts)"
  using assms
proof (induction ts arbitrary: n)
  case (Cons t ts)
  have "rate_check limit t (n, w) = ((n + 1, w), True)"
    using Cons.prems by (auto simp: rate_check_def Let_def)
  with Cons.IH [of "n + 1"] Cons.prems show ?case by simp
qed simp

lemma rate_run_append:
  "rate_run limit (ts @ us) cs =
     (let (c1, a1) = rate_run limit ts cs; (c2, a2) = rate_run limit us c1 in (c2, a1 @ a2))"
  by (induction ts arbitrary: cs) (auto simp: Let_def split: prod.splits)

text \<open>
  The x402 limit is per fixed window, not per sliding one: within a window at most
  MAX\_X402\_PAYMENTS\_PER\_MINUTE requests are admitted, but twice as many are admitted within
  one millisecond when they straddle the end of a window.
\<close>

theorem rate_limit_fixed_window:
  assumes "1 \<le> limit"
  shows "(\<forall>ts w. (\<forall>t \<in> set ts. t - w < rate_limit_window_ms) \<longrightarrow>
      int (length (snd (rate_run limit ts (0, w)))) \<le> limit) \<and>
    (\<exists>ts. length ts = 2 * nat limit \<and> (\<forall>t \<in> set ts. \<forall>u \<in> set ts. t - u \<le> 1) \<and>
      snd (rate_run limit ts (0, 0)) = ts)"
proof
  show "\<forall>ts w. (\<forall>t \<in> set ts. t - w < rate_limit_window_ms) \<longrightarrow>
      int (length (snd (rate_run limit ts (0, w)))) \<le> limit"
  proof (intro allI impI)
    fix ts w
    assume "\<forall>t \<in> set ts. t - w < rate_limit_window_ms"
    from rate_run_window [OF this, of limit 0] assms
    show "int (length (snd (rate_run limit ts (0, w)))) \<le> limit" by auto
  qed
next
  obtain m where m: "nat limit = Suc m" using assms by (cases "nat limit") auto
  let ?a = "replicate (Suc m) (59999::int)" and ?b = "replicate (Suc m) (60000::int)"
  have lim: "limit = int (Suc m)" using m assms by linarith
  have a: "rate_run limit ?a (0, 0) = ((Suc m, 0), ?a)"
    using rate_run_admits_all [of ?a 0 0 limit] lim by (simp add: rate_limit_window_ms_def del: replicate_Suc)
  have "rate_check limit 60000 (Suc m, 0) = ((1, 60000), True)"
    using lim by (simp add: rate_check_def rate_limit_window_ms_def)
  moreover have "rate_run limit (replicate m 60000) (1, 60000) = ((Suc m, 60000), replicate m 60000)"
    using rate_run_admits_all [of "replicate m 60000" 60000 1 limit] lim by (simp add: rate_limit_window_ms_def)
  ultimately have b: "snd (rate_run limit ?b (Suc m, 0)) = ?b" by simp
  obtain c2 where "rate_run limit ?b (Suc m, 0) = (c2, ?b)" using b by (metis prod.collapse)
  then have "snd (rate_run limit (?a @ ?b) (0, 0)) = ?a @ ?b"
    using a by (simp add: rate_run_append Let_def del: replicate_Suc)
  moreover have "\<forall>t \<in> set (?a @ ?b). \<forall>u \<in> set (?a @ ?b). t - u \<le> 1"
    by (auto simp: in_set_replicate simp del: replicate_Suc)
  moreover have "length (?a @ ?b) = 2 * nat limit" using m by simp
  ultimately show "\<exists>ts. length ts = 2 * nat limit \<and> (\<forall>t \<in> set ts. \<forall>u \<in> set ts. t - u \<le> 1) \<and>
      snd (rate_run limit ts (0, 0)) = ts" by blast
qed

theorem rate_limit_fixed_window_witness:
  "\<exists>ts. length ts = 20 \<and> (\<forall>t \<in> set ts. \<forall>u \<in> set ts. t - u \<le> 1) \<and> snd (rate_run 10 ts (0, 0)) = ts"
  using rate_limit_fixed_window [of 10] by simp

section \<open>A nonce is paid once\<close>

definition x402_clock_forward :: "('w, 'x) x402_platform_scheme \<Rightarrow> bool" where
  "x402_clock_forward p \<longleftrightarrow> clock_forward p \<and> (\<forall>w n. clock p w \<le> clock p (fst (ledger_closed_at p n w)))"

lemma same_tool_state_fields:
  fixes s :: "('w, 'y) x402_sys_scheme"
  assumes "same_tool_state s s'"
  shows "nonces s' = nonces s" "nonce_fault s' = nonce_fault s"
  using assms by (cases s; cases s'; simp add: same_tool_state_def)+

lemma admit_frame:
  assumes "x402_admit p c self v s = (s', r)"
  shows "nonces s' = nonces s" "nonce_fault s' = nonce_fault s" "world s' = world s" "submissions s' = submissions s"
  using assms by (auto simp: x402_admit_def Let_def split: prod.splits option.splits if_splits)

lemma check_nonce_frame:
  assumes "x402_check_nonce p c n s = (s', r)"
  shows "world s' = world s" "submissions s' = submissions s" "nonce_fault s' = nonce_fault s"
    "nonces s' = nonces s \<or> nonces s' = sqlite_prune (now p s) (nonce_ttl c) (nonces s)"
  using assms by (auto simp: x402_check_nonce_def sqlite_has_def Let_def split: option.splits prod.splits)

lemma pay_frame:
  fixes s :: "('w, 'y) x402_sys_scheme"
  assumes "x402_pay p c self ch s = (s', r)" "random_ok p" "0 \<le> RETRY_DELAY_MS c"
  shows "nonces s' = nonces s" "nonce_fault s' = nonce_fault s" "clock_forward p \<Longrightarrow> now p s \<le> now p s'"
proof -
  have t: "timing_ok p c" using assms(2,3) by (simp add: timing_ok_def)
  have "same_tool_state s s' \<and> not_before p s s'"
  proof (cases "attach_memo MEMO_TEXT (x402_memo p (ch_nonce ch))")
    case (Inl e)
    with assms(1) have "s' = s" by (auto simp: x402_pay_def)
    then show ?thesis by (simp add: same_tool_state_def not_before_def)
  next
    case (Inr m)
    with assms(1) obtain r' where "payment_execute p c self (x402_payment_input ch (x402_memo p (ch_nonce ch))) s = (s', r')"
      by (auto simp: x402_pay_def split: prod.splits sum.splits)
    then show ?thesis
      using own.stepsD [OF own.payment_execute_steps [OF t]]
        forward.stepsD [OF forward.payment_execute_steps [OF t]] by blast
  qed
  then show "nonces s' = nonces s" "nonce_fault s' = nonce_fault s" "clock_forward p \<Longrightarrow> now p s \<le> now p s'"
    using same_tool_state_fields by (auto simp: not_before_def)
qed

lemma proof_frame:
  assumes "x402_proof p c self ch r s = (s', pr)"
  shows "nonces s' = nonces s" "submissions s' = submissions s" "pp_nonce pr = ch_nonce ch"
    "x402_clock_forward p \<Longrightarrow> now p s \<le> now p s'"
  using assms
  by (auto simp: x402_proof_def outside_def now_def x402_clock_forward_def Let_def split: prod.splits)
    (metis fst_conv)

lemma record_frame:
  assumes "x402_record p c n s = (s', r)"
  shows "world s' = world s" "submissions s' = submissions s"
  using assms by (auto simp: x402_record_def split: option.splits)

lemma nonce_ttl_pos: "0 < nonce_ttl c"
  by (simp add: nonce_ttl_def configured_ttl_ms_def max_nonce_ttl_ms_def)

text \<open>For this long a used nonce is certainly remembered.\<close>

definition nonce_life :: "agent_config \<Rightarrow> int" where
  "nonce_life c = min (nonce_ttl c) max_nonce_ttl_ms"

lemma record_keeps:
  assumes "x402_record p c n s = (s', r)" "nonce_time (nonces s) m = Some u" "now p s \<le> u + nonce_life c"
  shows "nonce_time (nonces s') m = Some u"
  using assms
  by (auto simp: x402_record_def sqlite_add_def nonce_time_prune nonce_time_insert nonce_life_def
      split: option.splits)

lemma record_adds:
  assumes "x402_record p c n s = (s', Inr x)" "0 \<le> now p s - t"
    and "\<forall>u. nonce_time (nonces s) n = Some u \<longrightarrow> u < now p s - nonce_ttl c \<or> t \<le> u"
  shows "\<exists>u. nonce_time (nonces s') n = Some u \<and> t \<le> u \<or> nonce_time (nonces s) n \<noteq> None"
  using assms nonce_ttl_pos [of c]
  by (auto simp: x402_record_def sqlite_add_def nonce_time_prune nonce_time_insert max_nonce_ttl_ms_def
      split: option.splits)

text \<open>The stages of a response.\<close>

lemma respond_cases:
  assumes "x402_respond p c self v s = (s', r)"
  obtains (admit) e where "x402_admit p c self v s = (s', Inl e)" "r = Inl e"
  | (used) s1 ch e where "x402_admit p c self v s = (s1, Inr ch)"
      "x402_check_nonce p c (ch_nonce ch) s1 = (s', Inl e)" "r = Inl e"
  | (pay) s1 s2 ch e where "x402_admit p c self v s = (s1, Inr ch)"
      "x402_check_nonce p c (ch_nonce ch) s1 = (s2, Inr ())" "x402_pay p c self ch s2 = (s', Inl e)" "r = Inl e"
  | (rec) s1 s2 s3 ch q e where "x402_admit p c self v s = (s1, Inr ch)"
      "x402_check_nonce p c (ch_nonce ch) s1 = (s2, Inr ())" "x402_pay p c self ch s2 = (s3, Inr q)"
      "x402_record p c (ch_nonce ch) s3 = (s', Inl e)" "r = Inl e"
  | (paid) s1 s2 s3 s4 ch q pr where "x402_admit p c self v s = (s1, Inr ch)"
      "x402_check_nonce p c (ch_nonce ch) s1 = (s2, Inr ())" "x402_pay p c self ch s2 = (s3, Inr q)"
      "x402_record p c (ch_nonce ch) s3 = (s4, Inr ())" "x402_proof p c self ch q s4 = (s', pr)" "r = Inr pr"
proof -
  show thesis
  proof (cases r)
    case (Inl e)
    with assms show ?thesis using that(1-4)
      by (auto simp: x402_respond_def andThen_Inl Let_def split: prod.split_asm)
  next
    case (Inr pr)
    with assms show ?thesis using that(5)
      by (auto simp: x402_respond_def andThen_Inr Let_def split: prod.split_asm) (metis surj_pair)
  qed
qed

definition x402_env_ok :: "('w, 'x) x402_platform_scheme \<Rightarrow> agent_config \<Rightarrow> bool" where
  "x402_env_ok p c \<longleftrightarrow> x402_clock_forward p \<and> random_ok p \<and> 0 \<le> RETRY_DELAY_MS c"

lemma check_keeps:
  assumes "x402_check_nonce p c n s = (s', r)" "nonce_time (nonces s) m = Some u" "now p s \<le> u + nonce_life c"
  shows "nonce_time (nonces s') m = Some u"
  using check_nonce_frame(4) [OF assms(1)] assms(2,3)
  by (auto simp: nonce_time_prune nonce_life_def)

lemma respond_keeps:
  fixes s :: "('w, 'y) x402_sys_scheme"
  assumes "x402_env_ok p c" "x402_respond p c self v s = (s', r)"
  shows "now p s \<le> now p s' \<and>
    (\<forall>m u. nonce_time (nonces s) m = Some u \<and> now p s' \<le> u + nonce_life c \<longrightarrow> nonce_time (nonces s') m = Some u)"
  using assms(2)
proof (cases rule: respond_cases)
  case (admit e)
  with admit_frame [OF admit(1)] show ?thesis by (simp add: now_def)
next
  case (used s1 ch e)
  have n: "now p s1 = now p s" "now p s' = now p s"
    using admit_frame [OF used(1)] check_nonce_frame [OF used(2)] by (simp_all add: now_def)
  then show ?thesis using check_keeps [OF used(2)] admit_frame(1) [OF used(1)] by auto
next
  case (pay s1 s2 ch e)
  have cf: "clock_forward p" "random_ok p" "0 \<le> RETRY_DELAY_MS c"
    using assms(1) by (simp_all add: x402_env_ok_def x402_clock_forward_def)
  have n: "now p s1 = now p s" "now p s2 = now p s"
    using admit_frame [OF pay(1)] check_nonce_frame [OF pay(2)] by (simp_all add: now_def)
  note f = pay_frame [OF pay(3) cf(2,3)]
  from n f(3) [OF cf(1)] have le: "now p s \<le> now p s'" by simp
  then show ?thesis using check_keeps [OF pay(2)] admit_frame(1) [OF pay(1)] f(1) n by auto
next
  case (rec s1 s2 s3 ch q e)
  have cf: "clock_forward p" "random_ok p" "0 \<le> RETRY_DELAY_MS c"
    using assms(1) by (simp_all add: x402_env_ok_def x402_clock_forward_def)
  have n: "now p s1 = now p s" "now p s2 = now p s" "now p s' = now p s3"
    using admit_frame [OF rec(1)] check_nonce_frame [OF rec(2)] record_frame [OF rec(4)] by (simp_all add: now_def)
  note f = pay_frame [OF rec(3) cf(2,3)]
  from n f(3) [OF cf(1)] have le: "now p s \<le> now p s3" by simp
  then show ?thesis
    using check_keeps [OF rec(2)] record_keeps [OF rec(4)] admit_frame(1) [OF rec(1)] f(1) n by auto
next
  case (paid s1 s2 s3 s4 ch q pr)
  have cf: "clock_forward p" "random_ok p" "0 \<le> RETRY_DELAY_MS c" "x402_clock_forward p"
    using assms(1) by (simp_all add: x402_env_ok_def x402_clock_forward_def)
  have n: "now p s1 = now p s" "now p s2 = now p s" "now p s4 = now p s3"
    using admit_frame [OF paid(1)] check_nonce_frame [OF paid(2)] record_frame [OF paid(4)] by (simp_all add: now_def)
  note f = pay_frame [OF paid(3) cf(2,3)] and g = proof_frame [OF paid(5)]
  from n f(3) [OF cf(1)] g(4) [OF cf(4)] have le: "now p s \<le> now p s3" "now p s3 \<le> now p s'" by simp_all
  then show ?thesis
    using check_keeps [OF paid(2)] record_keeps [OF paid(4)] admit_frame(1) [OF paid(1)] f(1) g(1) n by auto
qed

lemma check_passed:
  assumes "x402_check_nonce p c n s = (s', Inr ())"
  shows "nonce_time (nonces s') n = None" "nonce_fault s' = None"
  using assms
  by (auto simp: x402_check_nonce_def sqlite_has_def Let_def split: option.splits if_splits)

lemma respond_records:
  fixes s :: "('w, 'y) x402_sys_scheme"
  assumes "x402_env_ok p c" "x402_respond p c self v s = (s', Inr pr)"
  shows "\<exists>u. nonce_time (nonces s') (pp_nonce pr) = Some u \<and> now p s \<le> u"
  using assms(2)
proof (cases rule: respond_cases)
  case (paid s1 s2 s3 s4 ch q pr')
  have cf: "clock_forward p" "random_ok p" "0 \<le> RETRY_DELAY_MS c"
    using assms(1) by (simp_all add: x402_env_ok_def x402_clock_forward_def)
  have n: "now p s2 = now p s"
    using admit_frame [OF paid(1)] check_nonce_frame [OF paid(2)] by (simp add: now_def)
  note f = pay_frame [OF paid(3) cf(2,3)] and g = proof_frame [OF paid(5)] and h = check_passed [OF paid(2)]
  have "nonce_time (nonces s4) (ch_nonce ch) = Some (now p s3)"
    using paid(4) f(1,2) h nonce_ttl_pos [of c]
    by (auto simp: x402_record_def sqlite_add_def nonce_time_prune nonce_time_insert max_nonce_ttl_ms_def)
  then show ?thesis using g f(3) [OF cf(1)] n paid(6) by auto
qed auto

fun respond_all ::
    "('w, 'x) x402_platform_scheme \<Rightarrow> agent_config \<Rightarrow> string \<Rightarrow> jsval list \<Rightarrow> ('w, 'y) x402_sys_scheme \<Rightarrow>
     ('w, 'y) x402_sys_scheme" where
  "respond_all p c self [] s = s"
| "respond_all p c self (v # vs) s = respond_all p c self vs (fst (x402_respond p c self v s))"

lemma respond_all_keeps:
  fixes s :: "('w, 'y) x402_sys_scheme"
  assumes "x402_env_ok p c"
  shows "now p s \<le> now p (respond_all p c self vs s) \<and>
    (nonce_time (nonces s) m = Some u \<and> now p (respond_all p c self vs s) \<le> u + nonce_life c \<longrightarrow>
     nonce_time (nonces (respond_all p c self vs s)) m = Some u)"
proof (induction vs arbitrary: s)
  case (Cons v vs)
  obtain t r where t: "x402_respond p c self v s = (t, r)" by fastforce
  from respond_keeps [OF assms t] Cons.IH [of t] show ?case by (auto simp: t)
qed simp

lemma admit_challenge:
  "x402_admit p c self v s = (s', Inr ch) \<Longrightarrow> x402_challenge_schema p c v = Some ch"
  by (auto simp: x402_admit_def Let_def split: prod.splits option.splits if_splits)

lemma used_nonce_refused:
  assumes "x402_challenge_schema p c v = Some ch" "nonce_time (nonces s) (ch_nonce ch) = Some u"
    and "now p s \<le> u + nonce_ttl c" "x402_respond p c self v s = (s', r)"
  shows "(\<exists>e. r = Inl e) \<and> submissions s' = submissions s"
proof -
  obtain s1 r1 where a: "x402_admit p c self v s = (s1, r1)" by fastforce
  note f = admit_frame [OF a]
  show ?thesis
  proof (cases r1)
    case (Inl e)
    with a f assms(4) show ?thesis by (auto simp: x402_respond_def)
  next
    case (Inr ch1)
    with admit_challenge [of p c self v s s1 ch1] a assms(1) have ch1: "ch1 = ch" by simp
    obtain s2 r2 where k: "x402_check_nonce p c (ch_nonce ch) s1 = (s2, r2)" by fastforce
    have "\<exists>e. r2 = Inl e" using k assms(2,3) f(1,3)
      by (auto simp: x402_check_nonce_def sqlite_has_def nonce_time_prune now_def Let_def split: option.splits)
    then show ?thesis using a Inr ch1 k check_nonce_frame [OF k] f assms(4)
      by (auto simp: x402_respond_def)
  qed
qed

text \<open>
  C3. One call after the other, a nonce is paid at most once: after a challenge was answered,
  and whatever other challenges were presented since, a challenge with the same nonce is
  refused, and nothing reaches Horizon for it, as long as it comes within the shorter of
  X402\_NONCE\_TTL\_MS and 24 hours from the start of the first answer.
\<close>

theorem nonce_not_paid_twice:
  fixes s :: "('w, 'y) x402_sys_scheme"
  assumes "x402_env_ok p c"
    and "x402_respond p c self v s = (s1, Inr pr)"
    and "s2 = respond_all p c self vs s1"
    and "x402_challenge_schema p c v' = Some ch" "ch_nonce ch = pp_nonce pr"
    and "x402_respond p c self v' s2 = (s3, r)"
    and "now p s2 \<le> now p s + min (nonce_ttl c) max_nonce_ttl_ms"
  shows "(\<exists>e. r = Inl e) \<and> submissions s3 = submissions s2"
proof -
  obtain u where u: "nonce_time (nonces s1) (pp_nonce pr) = Some u" "now p s \<le> u"
    using respond_records [OF assms(1,2)] by blast
  from u(2) assms(7) have le: "now p s2 \<le> u + nonce_life c" by (simp add: nonce_life_def)
  with respond_all_keeps [OF assms(1), of s1 self vs "pp_nonce pr" u] u(1) assms(3)
  have "nonce_time (nonces s2) (ch_nonce ch) = Some u" by (simp add: assms(5))
  moreover have "now p s2 \<le> u + nonce_ttl c" using le by (simp add: nonce_life_def)
  ultimately show ?thesis by (rule used_nonce_refused [OF assms(4) _ _ assms(6)])
qed

text \<open>A platform and a challenge to evaluate on: times are read from their digits.\<close>

definition x402_toy :: "int x402_platform" where
  "x402_toy = soroban.extend (sim_platform SourceCredentials)
     (x402_platform.fields (\<lambda>s. starts_with s ''https'') (\<lambda>s. ''shop'') (\<lambda>s. s \<noteq> [])
        (\<lambda>s. parse_int s) int_str (\<lambda>s. replicate 64 (CHR ''a''))
        (\<lambda>n w. (w + 5, Inr ''closed'')) (\<lambda>h w. (w + 5, Inl (plain ''none''))) (\<lambda>h w. (w + 5, Inr [])))"

definition x402_start :: "int x402_sys" where
  "x402_start = sys.extend (initial_sys 0) (x402_sys.fields 0 0 empty_nonces None)"

definition toy_challenge :: jsval where
  "toy_challenge = JObj [(''resource'', JStr ''https://shop/x''), (''amount'', JStr ''5''),
     (''assetCode'', JStr ''XLM''), (''payTo'', JStr payee), (''nonce'', JStr ''n1''),
     (''expiresAt'', JStr ''100000000000'')]"

lemma x402_toy_simps [simp]:
  "clock x402_toy w = w" "tx_base64 x402_toy e = ''AAAA''"
  "horizon_load_account x402_toy k w = (w + 5, Inr toy_account)"
  "horizon_submit x402_toy e w = (w + 5, Inr (JObj [(''hash'', JStr ''h1''), (''ledger'', JNum (JFin 7))]))"
  "url_ok x402_toy s = starts_with s ''https''" "is_uuid x402_toy s = (s \<noteq> [])"
  "parse_datetime x402_toy s = parse_int s" "sha256_hex x402_toy s = replicate 64 (CHR ''a'')"
  "ledger_closed_at x402_toy n w = (w + 5, Inr ''closed'')" "asset_fault x402_toy cd i = None"
  "op_fault x402_toy op = None" "valid_ed25519 x402_toy s = (length s = 56 \<and> starts_with s ''G'')"
  by (simp_all add: x402_toy_def sim_platform_def soroban.defs good_platform_def toy_platform_def platform.defs x402_platform.defs)

lemma x402_toy_env: "x402_env_ok x402_toy sample_agent_config"
  by (auto simp: x402_env_ok_def x402_clock_forward_def clock_forward_def random_ok_def)
    (auto simp: x402_toy_def sim_platform_def soroban.defs good_platform_def toy_platform_def platform.defs x402_platform.defs)


definition toy_challenge_parsed :: challenge where
  "toy_challenge_parsed = \<lparr>ch_resource = ''https://shop/x'', ch_amount = ''5'', ch_asset_code = ''XLM'',
     ch_asset_issuer = sample_key, ch_pay_to = payee, ch_nonce = ''n1'', ch_expires_at = ''100000000000''\<rparr>"

lemma x402_toy_good: "good_like x402_toy"
  by (simp add: good_like_def)

lemma toy_challenge_schema:
  "x402_challenge_schema x402_toy sample_agent_config toy_challenge = Some toy_challenge_parsed"
  by (simp add: x402_challenge_schema_def toy_challenge_def toy_challenge_parsed_def zod_defs field_def obj_get_def
      payee_def sample_agent_config_def sample_key_def parse_int_def trim_left_def is_js_space_def is_sign_def
      is_digit_def ccode_def digits_val_def digit_val_def)

lemma payee_neq: "payee \<noteq> sample_key"
  by (simp add: payee_def sample_key_def)

lemma toy_expiry: "parse_int ''100000000000'' = Some 100000000000"
  by (simp add: parse_int_def trim_left_def is_js_space_def is_sign_def is_digit_def ccode_def
      digits_val_def digit_val_def)

lemma toy_admit:
  "x402_admit x402_toy sample_agent_config sample_key toy_challenge x402_start =
     (x402_start\<lparr>payment_count := 1\<rparr>, Inr toy_challenge_parsed)"
  by (simp add: x402_admit_def toy_challenge_schema rate_check_def rate_limit_window_ms_def x402_start_def
      x402_sys.defs sys.defs initial_sys_def now_def Let_def origin_allowed_def payee_neq toy_expiry)
    (simp add: toy_challenge_parsed_def payee_neq sample_agent_config_def toy_expiry)

lemma toy_memo: "x402_memo x402_toy n = replicate 28 (CHR ''a'')"
  by (simp add: x402_memo_def)

lemma toy_attach: "attach_memo MEMO_TEXT (replicate 28 (CHR ''a'')) = Inr (MemoText (replicate 28 (CHR ''a'')))"
  by (simp add: attach_memo_def ccode_def numeral_eq_Suc)

lemma toy_pay_schema:
  "payment_input_schema x402_toy (x402_payment_input toy_challenge_parsed (replicate 28 (CHR ''a''))) =
   Some \<lparr>pi_destination = payee, pi_amount = ''5'', pi_asset_code = ''XLM'', pi_asset_issuer = None,
     pi_memo_type = ''text'', pi_memo = Some (MemoString (replicate 28 (CHR ''a'')))\<rparr>"
proof -
  have "utf8_length (replicate 28 (CHR ''a'')) \<le> 28" by (simp add: ccode_def numeral_eq_Suc)
  then show ?thesis
    by (simp add: payment_input_schema_def x402_payment_input_def toy_challenge_parsed_def zod_defs z_memo_def
        field_def obj_get_def amount_ok_5 memo_fits_def payee_def del: replicate.simps)
qed

lemma toy_respond:
  "\<exists>s1 pr. x402_respond x402_toy sample_agent_config sample_key toy_challenge x402_start = (s1, Inr pr) \<and>
     pp_nonce pr = ''n1'' \<and> length (submissions s1) = 1 \<and> world s1 = 15"
proof -
  let ?s = "x402_start\<lparr>payment_count := 1\<rparr>"
  have c: "x402_check_nonce x402_toy sample_agent_config ''n1'' ?s =
      (?s\<lparr>nonces := sqlite_prune 0 (nonce_ttl sample_agent_config) empty_nonces\<rparr>, Inr ())"
    by (simp add: x402_check_nonce_def sqlite_has_def nonce_time_prune x402_start_def x402_sys.defs sys.defs
        initial_sys_def now_def Let_def)
  let ?t = "?s\<lparr>nonces := sqlite_prune 0 (nonce_ttl sample_agent_config) empty_nonces\<rparr>"
  let ?in = "x402_payment_input toy_challenge_parsed (replicate 28 (CHR ''a''))"
  have m: "build_memo ''text'' (MemoString (replicate 28 (CHR ''a''))) = Inr (MemoText (replicate 28 (CHR ''a'')))"
    by (simp add: build_memo_def ccode_def numeral_eq_Suc)
  have "\<not> active (backoff ?t)" "account_cache ?t = (\<lambda>k. None)" "submissions ?t = []" "world ?t = 0"
    by (simp_all add: x402_start_def sys.defs initial_sys_def initial_backoff_def)
  with good_payment [OF x402_toy_good _ _ toy_pay_schema, of ?t sample_key] payee_neq m
  obtain u tx where u: "payment_execute x402_toy sample_agent_config sample_key ?in ?t =
      (u, Inr \<lparr>sr_hash = ''h1'', sr_ledger = JFin 7\<rparr>)" "submissions u = [Envelope tx]" "world u = 10"
      "sys.more u = sys.more ?t"
    by auto
  have nf: "nonce_fault u = None" using same_tool_state_fields [of ?t u] u(4)
    by (simp add: same_tool_state_def x402_start_def sys.defs x402_sys.defs)
  have ch: "ch_nonce toy_challenge_parsed = ''n1''" by (simp add: toy_challenge_parsed_def)
  have p: "x402_pay x402_toy sample_agent_config sample_key toy_challenge_parsed ?t =
      (u, Inr \<lparr>sr_hash = ''h1'', sr_ledger = JFin 7\<rparr>)"
    by (simp only: x402_pay_def toy_memo toy_attach sum.case u(1) prod.case)
  show ?thesis
    using nf u(2,3) by (simp add: x402_respond_def toy_admit ch c [simplified] p [simplified] x402_record_def x402_proof_def outside_def)
qed

theorem nonce_not_paid_twice_witness:
  "\<exists>s1 s2 pr r. x402_respond x402_toy sample_agent_config sample_key toy_challenge x402_start = (s1, Inr pr) \<and>
     x402_respond x402_toy sample_agent_config sample_key toy_challenge s1 = (s2, r) \<and>
     (\<exists>e. r = Inl e) \<and> length (submissions s2) = 1"
proof -
  obtain s1 pr where s1: "x402_respond x402_toy sample_agent_config sample_key toy_challenge x402_start = (s1, Inr pr)"
    "pp_nonce pr = ''n1''" "length (submissions s1) = 1" "world s1 = 15"
    using toy_respond by blast
  obtain s2 r where s2: "x402_respond x402_toy sample_agent_config sample_key toy_challenge s1 = (s2, r)" by fastforce
  have t: "now x402_toy s1 \<le> now x402_toy x402_start + min (nonce_ttl sample_agent_config) max_nonce_ttl_ms"
    by (simp add: now_def s1(4) x402_start_def sys.defs initial_sys_def nonce_ttl_def configured_ttl_ms_def
        max_nonce_ttl_ms_def)
  have "ch_nonce toy_challenge_parsed = pp_nonce pr" by (simp add: s1(2) toy_challenge_parsed_def)
  from nonce_not_paid_twice [OF x402_toy_env s1(1) _ toy_challenge_schema this s2, of "[]"] t s1 s2
  show ?thesis by auto
qed

section \<open>Concurrent calls\<close>

text \<open>
  A call of \<open>respond\<close> is a session; between its awaits other sessions run. \<open>x402_paid\<close> lists the
  nonces whose payment succeeded, in order.
\<close>

datatype x402_phase =
    Checking challenge
  | Paying challenge
  | Recording challenge submit_result
  | Finished "js_error option"

record 'w x402_run =
  shared :: "'w x402_sys"
  phase :: "nat \<Rightarrow> x402_phase option"
  x402_paid :: "string list"

definition set_phase :: "nat \<Rightarrow> x402_phase \<Rightarrow> 'w x402_sys \<Rightarrow> 'w x402_run \<Rightarrow> 'w x402_run" where
  "set_phase i ph s g = g\<lparr>shared := s, phase := (phase g)(i \<mapsto> ph)\<rparr>"

text \<open>What a session does when it is its turn; a new session presents \<open>v\<close>.\<close>

definition session_turn ::
    "('w, 'x) x402_platform_scheme \<Rightarrow> agent_config \<Rightarrow> string \<Rightarrow> jsval \<Rightarrow> nat \<Rightarrow> 'w x402_run \<Rightarrow> 'w x402_run" where
  "session_turn p c self v i g =
     (case phase g i of
        None \<Rightarrow>
          (case x402_admit p c self v (shared g) of
             (s, Inl e) \<Rightarrow> set_phase i (Finished (Some e)) s g
           | (s, Inr ch) \<Rightarrow> set_phase i (Checking ch) s g)
      | Some (Checking ch) \<Rightarrow>
          (case x402_check_nonce p c (ch_nonce ch) (shared g) of
             (s, Inl e) \<Rightarrow> set_phase i (Finished (Some e)) s g
           | (s, Inr u) \<Rightarrow> set_phase i (Paying ch) s g)
      | Some (Paying ch) \<Rightarrow>
          (case x402_pay p c self ch (shared g) of
             (s, Inl e) \<Rightarrow> set_phase i (Finished (Some e)) s g
           | (s, Inr r) \<Rightarrow> (set_phase i (Recording ch r) s g)\<lparr>x402_paid := x402_paid g @ [ch_nonce ch]\<rparr>)
      | Some (Recording ch r) \<Rightarrow>
          (case x402_record p c (ch_nonce ch) (shared g) of
             (s, Inl e) \<Rightarrow> set_phase i (Finished (Some e)) s g
           | (s, Inr u) \<Rightarrow> set_phase i (Finished None) s g)
      | Some (Finished e) \<Rightarrow> g)"

inductive x402_reach ::
    "('w, 'x) x402_platform_scheme \<Rightarrow> agent_config \<Rightarrow> string \<Rightarrow> 'w x402_run \<Rightarrow> 'w x402_run \<Rightarrow> bool"
  for p c self where
  here: "x402_reach p c self g g"
| turn: "x402_reach p c self g h \<Longrightarrow> x402_reach p c self g (session_turn p c self v i h)"

definition fresh_run :: "'w x402_sys \<Rightarrow> 'w x402_run" where
  "fresh_run s = \<lparr>shared = s, phase = (\<lambda>i. None), x402_paid = []\<rparr>"


lemma toy_admit_again:
  "x402_admit x402_toy sample_agent_config sample_key toy_challenge (x402_start\<lparr>payment_count := 1\<rparr>) =
     (x402_start\<lparr>payment_count := 2\<rparr>, Inr toy_challenge_parsed)"
  by (simp add: x402_admit_def toy_challenge_schema rate_check_def rate_limit_window_ms_def x402_start_def
      x402_sys.defs sys.defs initial_sys_def now_def Let_def origin_allowed_def payee_neq toy_expiry)
    (simp add: toy_challenge_parsed_def payee_neq sample_agent_config_def toy_expiry)

lemma toy_check_unused:
  "nonce_fault s = None \<Longrightarrow> nonce_time (nonces s) n = None \<Longrightarrow>
   x402_check_nonce x402_toy sample_agent_config n s =
     (s\<lparr>nonces := sqlite_prune (world s) (nonce_ttl sample_agent_config) (nonces s)\<rparr>, Inr ())"
  by (simp add: x402_check_nonce_def sqlite_has_def nonce_time_prune now_def Let_def)

lemma toy_pay:
  fixes s :: "int x402_sys"
  assumes "\<not> active (backoff s)" "account_cache s = (\<lambda>k. None)"
  shows "\<exists>s' r. x402_pay x402_toy sample_agent_config sample_key toy_challenge_parsed s = (s', Inr r) \<and>
    \<not> active (backoff s') \<and> account_cache s' = (\<lambda>k. None) \<and> length (submissions s') = length (submissions s) + 1 \<and>
    nonces s' = nonces s \<and> nonce_fault s' = nonce_fault s"
proof -
  let ?in = "x402_payment_input toy_challenge_parsed (replicate 28 (CHR ''a''))"
  have m: "build_memo ''text'' (MemoString (replicate 28 (CHR ''a''))) = Inr (MemoText (replicate 28 (CHR ''a'')))"
    by (simp add: build_memo_def ccode_def numeral_eq_Suc)
  from good_payment [OF x402_toy_good assms toy_pay_schema, of sample_key] payee_neq m
  obtain u tx where u: "payment_execute x402_toy sample_agent_config sample_key ?in s =
      (u, Inr \<lparr>sr_hash = ''h1'', sr_ledger = JFin 7\<rparr>)" "submissions u = submissions s @ [Envelope tx]"
      "sys.more u = sys.more s" "backoff u = backoff s" "account_cache u = (\<lambda>k. None)"
    by auto
  have p: "x402_pay x402_toy sample_agent_config sample_key toy_challenge_parsed s =
      (u, Inr \<lparr>sr_hash = ''h1'', sr_ledger = JFin 7\<rparr>)"
    by (simp only: x402_pay_def toy_memo toy_attach sum.case u(1) prod.case)
  have "same_tool_state s u" by (simp add: same_tool_state_def u(3))
  from same_tool_state_fields [OF this] p u(2,4,5) assms(1) show ?thesis by auto
qed


section \<open>Forgetting\<close>

text \<open>
  A configured nonce lifetime above 24 hours is not honoured: every answered challenge
  prunes the table with the fixed 24 hours, so a nonce used before that is forgotten and its
  lookup, at any later time, says unused, however long X402\_NONCE\_TTL\_MS is.
\<close>

theorem longer_nonce_ttl_ignored:
  assumes "nonce_time (nonces s) n = Some u" "u < now p s - max_nonce_ttl_ms" "m \<noteq> n"
    and "x402_record p c m s = (s', Inr ())" "now p s \<le> t"
  shows "\<not> snd (sqlite_has (nonce_ttl c) t n (nonces s'))"
proof -
  have "nonce_time (sqlite_add (nonce_ttl c) (now p s) m (nonces s)) n = Some u \<or>
      nonce_time (sqlite_add (nonce_ttl c) (now p s) m (nonces s)) n = None"
    using assms(1,3) by (simp add: sqlite_add_def nonce_time_insert nonce_time_prune)
  then show ?thesis using assms(2,4)
    by (auto simp: x402_record_def sqlite_has_def nonce_time_prune Let_def split: option.splits)
qed

theorem longer_nonce_ttl_ignored_witness:
  "let tab = insert_or_ignore ''n1'' 0 empty_nonces;
       s = x402_start\<lparr>nonces := tab, world := 90000000\<rparr>;
       c = sample_agent_config\<lparr>X402_NONCE_TTL_MS := 172800000\<rparr>;
       s' = fst (x402_record x402_toy c ''n2'' s)
   in snd (sqlite_has (nonce_ttl c) 90000000 ''n1'' (nonces s)) \<and>
      \<not> snd (sqlite_has (nonce_ttl c) 90000000 ''n1'' (nonces s'))"
proof -
  define c where "c = sample_agent_config\<lparr>X402_NONCE_TTL_MS := 172800000\<rparr>"
  define s where "s = x402_start\<lparr>nonces := insert_or_ignore ''n1'' 0 empty_nonces, world := 90000000\<rparr>"
  have n: "nonce_time (nonces s) ''n1'' = Some 0" by (simp add: s_def nonce_time_insert)
  have t: "now x402_toy s = 90000000" by (simp add: now_def s_def)
  have ttl: "nonce_ttl c = 172800000" by (simp add: nonce_ttl_def configured_ttl_ms_def c_def)
  obtain s' where r: "x402_record x402_toy c ''n2'' s = (s', Inr ())"
    by (simp add: x402_record_def s_def x402_start_def sys.defs x402_sys.defs)
  have "snd (sqlite_has (nonce_ttl c) 90000000 ''n1'' (nonces s))"
    by (simp add: sqlite_has_def nonce_time_prune n ttl Let_def)
  moreover have "\<not> snd (sqlite_has (nonce_ttl c) 90000000 ''n1'' (nonces s'))"
    by (rule longer_nonce_ttl_ignored [OF n _ _ r]) (simp_all add: t max_nonce_ttl_ms_def)
  ultimately show ?thesis using r by (simp add: c_def s_def Let_def)
qed

section \<open>Verification\<close>

text \<open>
  A proof that verifies names a transaction whose memo and first operation match the
  challenge in destination, amount text, asset code, memo and payer; but nothing else is
  looked at: replacing the asset's issuer in the operation, or the success flag in the
  transaction, never changes the verdict, so a payment in an asset of the same code from any
  issuer is accepted.
\<close>

theorem verification_ignores_issuer:
  "(check_proof p pr ch (JObj tx) (JObj op) = Inr () \<longleftrightarrow>
      op_to (extract_op (JObj op)) = JStr (ch_pay_to ch) \<and>
      op_amount (extract_op (JObj op)) = JStr (ch_amount ch) \<and>
      op_asset_code (extract_op (JObj op)) = JStr (ch_asset_code ch) \<and>
      obj_get tx ''memo'' = JStr (x402_memo p (ch_nonce ch)) \<and>
      op_from (extract_op (JObj op)) = JStr (pp_payer pr)) \<and>
   check_proof p pr ch (JObj (obj_set tx ''successful'' b)) (JObj (obj_set op ''asset_issuer'' x)) =
     check_proof p pr ch (JObj tx) (JObj op)"
  by (simp add: check_proof_def extract_op_def field_def Let_def)

end
