(* ===== verification/Agent.thy ===== *)
theory Agent imports X402 "HOL-Library.Sublist" begin

text \<open>
  backend/agent.ts: the orchestrator. A task goes through the middleware chain to the switch
  over task types, its result is emitted, stored and handed to the webhook, and every failure
  becomes a failed result. The 22 tools are the fields of \<open>tool_table\<close>; the theory Dispatch
  fills it with the models of the tools. Tool bodies run one after the other here; the slots
  and the queue of concurrent tasks are the second half.
\<close>

section \<open>Tasks and state\<close>

record agent_task =
  t_type :: string
  t_payload :: jsval
  t_correlation :: "string option"

datatype agent_event =
    TaskComplete agent_result
  | TaskFailed agent_result
  | RetryExhausted string int

record 'w agent_platform = "'w x402_platform" +
  random_uuid :: "'w \<Rightarrow> 'w \<times> string"

text \<open>\<open>events\<close>, \<open>webhooks\<close> and \<open>failure_log\<close> are traces: what was emitted, what was handed to
  \<open>dispatchWebhook\<close>, and the error and payload of each failure as logged. The audit log is
  the database of the spending tracker; \<open>toml_cache\<close> is the cache of the agent's StellarTomlTool.\<close>

record 'w agent_sys = "'w x402_sys" +
  spending :: tracker
  active_tasks :: nat
  is_draining :: bool
  events :: "agent_event list"
  webhooks :: "agent_result list"
  failure_log :: "(string \<times> jsval) list"
  toml_cache :: "string \<Rightarrow> (jsval \<times> int) option"

record 's tool_table =
  payment_tool :: "jsval \<Rightarrow> 's \<Rightarrow> 's \<times> (js_error + submit_result)"
  soroban_tool :: "jsval \<Rightarrow> 's \<Rightarrow> 's \<times> (js_error + jsval)"
  soroban_query_tool :: "jsval \<Rightarrow> 's \<Rightarrow> 's \<times> (js_error + jsval)"
  x402_tool :: "jsval \<Rightarrow> 's \<Rightarrow> 's \<times> (js_error + payment_proof)"
  account_info_tool :: "'s \<Rightarrow> 's \<times> (js_error + jsval)"
  trustline_tool :: "jsval \<Rightarrow> 's \<Rightarrow> 's \<times> (js_error + jsval)"
  multisig_tool :: "jsval \<Rightarrow> 's \<Rightarrow> 's \<times> (js_error + jsval)"
  batch_payment_tool :: "jsval \<Rightarrow> 's \<Rightarrow> 's \<times> (js_error + jsval)"
  balance_check_tool :: "jsval \<Rightarrow> 's \<Rightarrow> 's \<times> (js_error + jsval)"
  path_payment_tool :: "jsval \<Rightarrow> 's \<Rightarrow> 's \<times> (js_error + jsval)"
  fee_bump_tool :: "jsval \<Rightarrow> 's \<Rightarrow> 's \<times> (js_error + jsval)"
  dex_offer_tool :: "jsval \<Rightarrow> 's \<Rightarrow> 's \<times> (js_error + jsval)"
  swap_tool :: "jsval \<Rightarrow> 's \<Rightarrow> 's \<times> (js_error + jsval)"
  account_history_tool :: "jsval \<Rightarrow> 's \<Rightarrow> 's \<times> (js_error + jsval)"
  soroban_deploy_tool :: "jsval \<Rightarrow> 's \<Rightarrow> 's \<times> (js_error + jsval)"
  liquidity_pool_tool :: "jsval \<Rightarrow> 's \<Rightarrow> 's \<times> (js_error + jsval)"
  stellar_toml_tool :: "jsval \<Rightarrow> 's \<Rightarrow> 's \<times> (js_error + jsval)"
  data_entry_tool :: "jsval \<Rightarrow> 's \<Rightarrow> 's \<times> (js_error + jsval)"
  sequence_number_tool :: "jsval \<Rightarrow> 's \<Rightarrow> 's \<times> (js_error + jsval)"
  sponsored_account_tool :: "jsval \<Rightarrow> 's \<Rightarrow> 's \<times> (js_error + jsval)"
  anchor_quote_tool :: "jsval \<Rightarrow> 's \<Rightarrow> 's \<times> (js_error + jsval)"
  inflation_tool :: "jsval \<Rightarrow> 's \<Rightarrow> 's \<times> (js_error + jsval)"

section \<open>Dispatch\<close>

definition network_name :: "network \<Rightarrow> string" where
  "network_name n = (case n of Mainnet \<Rightarrow> ''mainnet'' | Testnet \<Rightarrow> ''testnet'' | Futurenet \<Rightarrow> ''futurenet'')"

definition payment_data :: "agent_config \<Rightarrow> submit_result \<Rightarrow> jsval" where
  "payment_data c r = JObj [(''txHash'', JStr (sr_hash r)), (''ledger'', JNum (sr_ledger r)),
     (''network'', JStr (network_name (STELLAR_NETWORK c)))]"

definition proof_data :: "payment_proof \<Rightarrow> jsval" where
  "proof_data pr = JObj [(''protocol'', JStr (pp_protocol pr)),
     (''network'', JStr (network_name (pp_network pr))), (''txHash'', JStr (pp_tx_hash pr)),
     (''nonce'', JStr (pp_nonce pr)), (''payer'', JStr (pp_payer pr)), (''signedAt'', JStr (pp_signed_at pr))]"

definition map_data :: "('a \<Rightarrow> jsval) \<Rightarrow> 's \<times> (js_error + 'a) \<Rightarrow> 's \<times> (js_error + jsval)" where
  "map_data f m = (case m of (s, Inl e) \<Rightarrow> (s, Inl e) | (s, Inr x) \<Rightarrow> (s, Inr (f x)))"

text \<open>\<open>assertWithinSpendingLimit(p?.amount)\<close> on the agent's tracker.\<close>

definition spending_guard ::
    "('w, 'x) agent_platform_scheme \<Rightarrow> agent_config \<Rightarrow> jsval \<Rightarrow> ('w, 'y) agent_sys_scheme \<Rightarrow>
     ('w, 'y) agent_sys_scheme \<times> (js_error + unit)" where
  "spending_guard p c payload s =
     (let (t, r) = assert_within_spending_limit (print_num p) c (now p s) (field payload ''amount'') (spending s)
      in (s\<lparr>spending := t\<rparr>, r))"

text \<open>The cases of the switch that only call their tool.\<close>

definition plain_tools :: "'s tool_table \<Rightarrow> (string \<times> (jsval \<Rightarrow> 's \<Rightarrow> 's \<times> (js_error + jsval))) list" where
  "plain_tools tt =
     [(''soroban_invoke'', soroban_tool tt), (''soroban_query'', soroban_query_tool tt),
      (''account_info'', \<lambda>v. account_info_tool tt), (''change_trust'', trustline_tool tt),
      (''multisig_payment'', multisig_tool tt), (''batch_payment'', batch_payment_tool tt),
      (''balance_check'', balance_check_tool tt), (''path_payment'', path_payment_tool tt),
      (''fee_bump'', fee_bump_tool tt), (''dex_offer'', dex_offer_tool tt), (''swap'', swap_tool tt),
      (''account_history'', account_history_tool tt), (''soroban_deploy'', soroban_deploy_tool tt),
      (''liquidity_pool'', liquidity_pool_tool tt), (''stellar_toml'', stellar_toml_tool tt),
      (''data_entry'', data_entry_tool tt), (''sequence_number'', sequence_number_tool tt),
      (''sponsored_account'', sponsored_account_tool tt), (''anchor_quote'', anchor_quote_tool tt),
      (''inflation'', inflation_tool tt)]"

definition dispatch ::
    "('w, 'x) agent_platform_scheme \<Rightarrow> agent_config \<Rightarrow> ('w, 'y) agent_sys_scheme tool_table \<Rightarrow> agent_task \<Rightarrow>
     ('w, 'y) agent_sys_scheme \<Rightarrow> ('w, 'y) agent_sys_scheme \<times> (js_error + jsval)" where
  "dispatch p c tt task s =
     (let v = t_payload task in
      if t_type task = ''stellar_payment'' then
        andThen (spending_guard p c v s) (\<lambda>s u. map_data (payment_data c) (payment_tool tt v s))
      else if t_type task = ''x402_respond'' then
        andThen (spending_guard p c v s) (\<lambda>s u. map_data proof_data (x402_tool tt v s))
      else (case map_of (plain_tools tt) (t_type task) of
              Some f \<Rightarrow> f v s
            | None \<Rightarrow> (s, Inl (plain (''Unknown task type: '' @ t_type task)))))"

section \<open>Executing a task\<close>

definition emit :: "agent_event \<Rightarrow> ('w, 'y) agent_sys_scheme \<Rightarrow> ('w, 'y) agent_sys_scheme" where
  "emit ev s = s\<lparr>events := events s @ [ev]\<rparr>"

definition send_webhook :: "agent_result \<Rightarrow> ('w, 'y) agent_sys_scheme \<Rightarrow> ('w, 'y) agent_sys_scheme" where
  "send_webhook r s = s\<lparr>webhooks := webhooks s @ [r]\<rparr>"

definition safe_error :: "('w, 'x) agent_platform_scheme \<Rightarrow> js_error \<Rightarrow> string" where
  "safe_error p e = redact_secret_string (describe_error (print_num p) e)"

definition log_failure ::
    "string \<Rightarrow> agent_task \<Rightarrow> ('w, 'y) agent_sys_scheme \<Rightarrow> ('w, 'y) agent_sys_scheme" where
  "log_failure msg task s = s\<lparr>failure_log := failure_log s @ [(msg, sanitize_payload (t_payload task))]\<rparr>"

text \<open>The inner catch.\<close>

definition task_failed ::
    "('w, 'x) agent_platform_scheme \<Rightarrow> agent_task \<Rightarrow> string \<Rightarrow> js_error \<Rightarrow> ('w, 'y) agent_sys_scheme \<Rightarrow>
     ('w, 'y) agent_sys_scheme \<times> agent_result" where
  "task_failed p task cid e s =
     (let safe = safe_error p e;
          r = failed_result (t_type task) safe (Some (error_type_code (get_error_type e))) cid None
      in (send_webhook r (emit (TaskFailed r) (log_failure safe task s)), r))"

text \<open>\<open>saveResult(...)\<close> comes after the completion event; what it throws is caught as a failure
  of the task.\<close>

definition execute_inner ::
    "('w, 'x) agent_platform_scheme \<Rightarrow> agent_config \<Rightarrow> ('w, 'y) agent_sys_scheme tool_table \<Rightarrow> agent_task \<Rightarrow>
     string \<Rightarrow> ('w, 'y) agent_sys_scheme \<Rightarrow> ('w, 'y) agent_sys_scheme \<times> agent_result" where
  "execute_inner p c tt task cid s =
     (case dispatch p c tt task s of
        (s1, Inl e) \<Rightarrow> task_failed p task cid e s1
      | (s1, Inr v) \<Rightarrow>
          (let r = ok_result (t_type task) v cid; s2 = emit (TaskComplete r) s1
           in case save_result (print_num p) r (iso_string p (now p s2)) (store (spending s2)) of
                Inl e \<Rightarrow> task_failed p task cid e s2
              | Inr db \<Rightarrow> (send_webhook r (s2\<lparr>spending := (spending s2)\<lparr>store := db\<rparr>\<rparr>), r)))"

type_synonym 's middleware = "agent_task \<Rightarrow> ('s \<Rightarrow> 's \<times> (js_error + agent_result)) \<Rightarrow> 's \<Rightarrow> 's \<times> (js_error + agent_result)"

definition use_middleware :: "'s middleware list \<Rightarrow> 's middleware \<Rightarrow> 's middleware list" where
  "use_middleware ms m = ms @ [m]"

text \<open>Built from the last middleware inwards, so that the first registered runs first.\<close>

definition chain :: "'s middleware list \<Rightarrow> agent_task \<Rightarrow> ('s \<Rightarrow> 's \<times> (js_error + agent_result)) \<Rightarrow>
    's \<Rightarrow> 's \<times> (js_error + agent_result)" where
  "chain ms task inner = foldr (\<lambda>m next. m task next) ms inner"

text \<open>The outer catch, reached by what a middleware throws.\<close>

definition chain_failed ::
    "('w, 'x) agent_platform_scheme \<Rightarrow> agent_config \<Rightarrow> agent_task \<Rightarrow> string \<Rightarrow> int \<Rightarrow> js_error \<Rightarrow>
     ('w, 'y) agent_sys_scheme \<Rightarrow> ('w, 'y) agent_sys_scheme \<times> agent_result" where
  "chain_failed p c task cid start e s =
     (let dur = now p s - start;
          safe = safe_error p e;
          s1 = log_failure safe task s;
          s2 = (case e of StellarRPCErr m v \<Rightarrow> emit (RetryExhausted (t_type task) (MAX_RETRIES c)) s1 | _ \<Rightarrow> s1);
          r = failed_result (t_type task) safe (Some (error_type_code (get_error_type e))) cid (Some dur)
      in (send_webhook r (emit (TaskFailed r) s2), r))"

text \<open>The slot is taken before the chain and given back in the finally block; the queue is
  served by the machine below.\<close>

definition execute_task ::
    "('w, 'x) agent_platform_scheme \<Rightarrow> agent_config \<Rightarrow> ('w, 'y) agent_sys_scheme tool_table \<Rightarrow>
     ('w, 'y) agent_sys_scheme middleware list \<Rightarrow> agent_task \<Rightarrow> string \<Rightarrow>
     ('w, 'y) agent_sys_scheme \<Rightarrow> ('w, 'y) agent_sys_scheme \<times> agent_result" where
  "execute_task p c tt ms task cid s =
     (let s1 = s\<lparr>active_tasks := active_tasks s + 1\<rparr>;
          start = now p s1;
          inner = (\<lambda>s. let (s', r) = execute_inner p c tt task cid s in (s', Inr r));
          (s2, r) = (case chain ms task inner s1 of
                       (s', Inr r) \<Rightarrow> (s', r)
                     | (s', Inl e) \<Rightarrow> chain_failed p c task cid start e s')
      in (s2\<lparr>active_tasks := active_tasks s2 - 1\<rparr>, r))"

section \<open>Running tasks one after the other\<close>

text \<open>The em dash of the two messages is written as a hyphen: a \<open>char\<close> holds a code unit below 256.\<close>

definition shutting_down_result :: "string \<Rightarrow> string \<Rightarrow> agent_result" where
  "shutting_down_result ty cid =
     failed_result ty (''Agent is shutting down - task rejected'') None cid None"

definition at_capacity_result :: "agent_config \<Rightarrow> nat \<Rightarrow> string \<Rightarrow> string \<Rightarrow> agent_result" where
  "at_capacity_result c n ty cid =
     failed_result ty (''Agent is at capacity - '' @ nat_str n @ ''/'' @
       int_str (MAX_CONCURRENT_TASKS c) @ '' concurrent tasks in flight; task rejected'') None cid None"

text \<open>\<open>run\<close> with an empty queue and no room in it: what a caller sees that awaits each task.\<close>

definition run_task ::
    "('w, 'x) agent_platform_scheme \<Rightarrow> agent_config \<Rightarrow> ('w, 'y) agent_sys_scheme tool_table \<Rightarrow>
     ('w, 'y) agent_sys_scheme middleware list \<Rightarrow> agent_task \<Rightarrow>
     ('w, 'y) agent_sys_scheme \<Rightarrow> ('w, 'y) agent_sys_scheme \<times> agent_result" where
  "run_task p c tt ms task s =
     (let (s1, cid) = (case t_correlation task of
                         Some i \<Rightarrow> (s, i)
                       | None \<Rightarrow> outside (random_uuid p) s)
      in if is_draining s1 then (s1, shutting_down_result (t_type task) cid)
         else if MAX_CONCURRENT_TASKS c \<le> int (active_tasks s1)
           then (s1, at_capacity_result c (active_tasks s1) (t_type task) cid)
         else execute_task p c tt ms task cid s1)"

text \<open>\<open>runSequence\<close>, over any way to run one task.\<close>

fun run_sequence_from ::
    "nat \<Rightarrow> (agent_task \<Rightarrow> 's \<Rightarrow> 's \<times> agent_result) \<Rightarrow> agent_task list \<Rightarrow> 's \<Rightarrow> 's \<times> agent_result list" where
  "run_sequence_from i run [] s = (s, [])"
| "run_sequence_from i run (task # tasks) s =
     (let (s1, r) = run task s; entry = r\<lparr>sequence_index := Some i\<rparr>
      in if \<not> success r then (s1, [entry])
         else (let (s2, rs) = run_sequence_from (i + 1) run tasks s1 in (s2, entry # rs)))"

definition run_sequence ::
    "(agent_task \<Rightarrow> 's \<Rightarrow> 's \<times> agent_result) \<Rightarrow> agent_task list \<Rightarrow> 's \<Rightarrow> 's \<times> agent_result list" where
  "run_sequence = run_sequence_from 0"

definition drain_agent :: "('w, 'y) agent_sys_scheme \<Rightarrow> ('w, 'y) agent_sys_scheme" where
  "drain_agent s = s\<lparr>is_draining := True\<rparr>"

section \<open>What a task leaves behind\<close>

lemma task_failed_fields:
  assumes "task_failed p task cid e s = (s', r)"
  shows "r = failed_result (t_type task) (safe_error p e) (Some (error_type_code (get_error_type e))) cid None"
    "events s' = events s @ [TaskFailed r]" "webhooks s' = webhooks s @ [r]"
    "spending s' = spending s" "active_tasks s' = active_tasks s" "submissions s' = submissions s"
    "failure_log s' = failure_log s @ [(safe_error p e, sanitize_payload (t_payload task))]"
  using assms
  by (auto simp: task_failed_def Let_def send_webhook_def emit_def log_failure_def)

lemma chain_Nil [simp]: "chain [] task inner = inner"
  by (simp add: chain_def)

text \<open>Without middlewares the outer catch is never reached.\<close>

lemma execute_plain:
  "execute_task p c tt [] task cid s =
     (let (s2, r) = execute_inner p c tt task cid (s\<lparr>active_tasks := active_tasks s + 1\<rparr>)
      in (s2\<lparr>active_tasks := active_tasks s2 - 1\<rparr>, r))"
  by (simp add: execute_task_def Let_def split: prod.splits)

lemma execute_plain_cases:
  assumes "execute_task p c tt [] task cid s = (s', r)"
    and "dispatch p c tt task (s\<lparr>active_tasks := active_tasks s + 1\<rparr>) = (s1, d)"
  obtains (stored) v db where "d = Inr v" "r = ok_result (t_type task) v cid"
      "save_result (print_num p) r (iso_string p (now p s1)) (store (spending s1)) = Inr db"
      "s' = (send_webhook r ((emit (TaskComplete r) s1)\<lparr>spending := (spending s1)\<lparr>store := db\<rparr>\<rparr>))
              \<lparr>active_tasks := active_tasks s1 - 1\<rparr>"
  | (unsaved) v e s2 where "d = Inr v"
      "save_result (print_num p) (ok_result (t_type task) v cid) (iso_string p (now p s1)) (store (spending s1)) = Inl e"
      "task_failed p task cid e (emit (TaskComplete (ok_result (t_type task) v cid)) s1) = (s2, r)"
      "s' = s2\<lparr>active_tasks := active_tasks s1 - 1\<rparr>"
  | (failed) e s2 where "d = Inl e" "task_failed p task cid e s1 = (s2, r)"
      "s' = s2\<lparr>active_tasks := active_tasks s1 - 1\<rparr>"
proof -
  have n: "now p (emit ev s) = now p s" "spending (emit ev s) = spending s"
    "active_tasks (emit ev s) = active_tasks s"
    "active_tasks (send_webhook w s) = active_tasks s" for ev w s
    by (simp_all add: emit_def now_def send_webhook_def)
  show ?thesis
  proof (cases d)
    case (Inl e)
    obtain s2 q where f: "task_failed p task cid e s1 = (s2, q)" by fastforce
    with assms Inl have "q = r" "s' = s2\<lparr>active_tasks := active_tasks s1 - 1\<rparr>"
      using task_failed_fields(5) [OF f] by (auto simp: execute_plain execute_inner_def)
    with failed Inl f show ?thesis by blast
  next
    case (Inr v)
    let ?ok = "ok_result (t_type task) v cid"
    show ?thesis
    proof (cases "save_result (print_num p) ?ok (iso_string p (now p s1)) (store (spending s1))")
      case (Inl e)
      obtain s2 q where f: "task_failed p task cid e (emit (TaskComplete ?ok) s1) = (s2, q)" by fastforce
      with assms Inr Inl have "q = r" "s' = s2\<lparr>active_tasks := active_tasks s1 - 1\<rparr>"
        using task_failed_fields(5) [OF f] by (auto simp: execute_plain execute_inner_def Let_def n)
      with unsaved Inr Inl f show ?thesis by blast
    next
      case (Inr db)
      with assms \<open>d = Inr v\<close> have "r = ?ok" "s' = (send_webhook r ((emit (TaskComplete r) s1)
          \<lparr>spending := (spending s1)\<lparr>store := db\<rparr>\<rparr>))\<lparr>active_tasks := active_tasks s1 - 1\<rparr>"
        by (auto simp: execute_plain execute_inner_def Let_def n)
      with stored Inr \<open>d = Inr v\<close> show ?thesis by blast
    qed
  qed
qed


text \<open>
  A payment that went through is reported as failed when the audit log cannot be written:
  the completion event has already gone out, then the same task is announced as failed and the
  webhook receives the failure.
\<close>

theorem unsaved_success_reported_as_failure:
  assumes "execute_task p c tt [] task cid s = (s', r)"
    and "dispatch p c tt task (s\<lparr>active_tasks := active_tasks s + 1\<rparr>) = (s1, Inr v)"
    and "db_fault (store (spending s1)) = Some e"
  shows "\<not> success r \<and> webhooks s' = webhooks s1 @ [r] \<and>
    events s' = events s1 @ [TaskComplete (ok_result (t_type task) v cid), TaskFailed r]"
  using assms(1,2)
proof (cases rule: execute_plain_cases)
  case stored
  with assms(3) show ?thesis by (simp add: save_result_def get_db_def)
next
  case unsaved
  note f = task_failed_fields [OF unsaved(3)]
  from unsaved(1,4) f show ?thesis by (auto simp: failed_result_def emit_def)
qed simp

text \<open>
  The event task:retry\_exhausted is not emitted for a tool whose RPC retries are exhausted:
  the tool's error ends in the inner catch, so without a middleware that throws it the event
  never occurs and no result carries a duration.
\<close>

theorem rpc_exhaustion_not_announced:
  assumes "execute_task p c tt [] task cid s = (s', r)"
    and "dispatch p c tt task (s\<lparr>active_tasks := active_tasks s + 1\<rparr>) = (s1, Inl (StellarRPCErr m v))"
  shows "events s' = events s1 @ [TaskFailed r] \<and> duration_ms r = None"
  using assms(1,2)
proof (cases rule: execute_plain_cases)
  case failed
  note f = task_failed_fields [OF failed(2)]
  from failed(3) f show ?thesis by (simp add: failed_result_def)
qed simp_all

section \<open>Payments through the agent\<close>

lemma spending_guard_frame:
  assumes "spending_guard p c v s = (s1, u)"
  shows "submissions s1 = submissions s" "active_tasks s1 = active_tasks s" "x402_sys.truncate s1 = x402_sys.truncate s"
  using assms by (auto simp: spending_guard_def x402_sys.defs split: prod.splits)

lemma execute_plain_submissions:
  assumes "execute_task p c tt [] task cid s = (s', r)"
    and "dispatch p c tt task (s\<lparr>active_tasks := active_tasks s + 1\<rparr>) = (s1, d)"
  shows "submissions s' = submissions s1"
  using assms
  by (cases rule: execute_plain_cases)
    (auto simp: send_webhook_def emit_def dest: task_failed_fields(6))

text \<open>
  C1. A payment task run by the agent cannot send more than the configured limit. With the
  payment tool in place and a decimal limit below 536,870,911: whatever the payload, everything
  the task hands to Horizon is a payment of one decimal amount that is at most
  AGENT\_SPENDING\_LIMIT and, on mainnet, at most 10,000, to one destination other than the
  agent, signed by the agent's key alone; a payload without an amount that passes sends nothing.
\<close>

theorem agent_payment_within_limit:
  fixes s :: "('w, 'y) agent_sys_scheme"
  assumes "execute_task p c tt [] task cid s = (s', r)" "t_type task = ''stellar_payment''"
    and "payment_tool tt = payment_execute p c self"
    and "decimal_units (AGENT_SPENDING_LIMIT c) = Some l" "l + 2 < 2 ^ 29 * 10 ^ 7"
  shows "\<exists>es. submissions s' = submissions s @ es \<and>
    (es = [] \<or> (\<exists>a u dest ast. field (t_payload task) ''amount'' = JStr a \<and> decimal_units a = Some u \<and>
       0 < u \<and> u \<le> l \<and> (STELLAR_NETWORK c = Mainnet \<longrightarrow> u \<le> 10000 * 10 ^ 7) \<and> dest \<noteq> self \<and>
       (\<forall>env \<in> set es. payment_envelope self (OpPayment dest ast a) env)))"
proof -
  let ?s0 = "s\<lparr>active_tasks := active_tasks s + 1\<rparr>" and ?v = "t_payload task"
  obtain s1 d where d: "dispatch p c tt task ?s0 = (s1, d)" by fastforce
  note sub = execute_plain_submissions [OF assms(1) d]
  obtain g u where g: "spending_guard p c ?v ?s0 = (g, u)" by fastforce
  note gs = spending_guard_frame [OF g]
  show ?thesis
  proof (cases u)
    case (Inl e)
    with d g assms(2) have "s1 = g" by (simp add: dispatch_def)
    with sub gs show ?thesis by simp
  next
    case (Inr ok)
    obtain s2 q where e: "payment_execute p c self ?v g = (s2, q)" by fastforce
    with d g Inr assms(2,3) have s1: "submissions s1 = submissions s2"
      by (auto simp: dispatch_def map_data_def split: sum.splits)
    show ?thesis
    proof (cases "payment_input_schema p ?v")
      case None
      with e have "s2 = g" by (simp add: payment_execute_def)
      with sub s1 gs show ?thesis by simp
    next
      case (Some i)
      have am: "field ?v ''amount'' = JStr (pi_amount i)" "amount_ok (pi_amount i)"
        using Some by (auto simp: payment_input_schema_def Option.bind_eq_Some_conv z_check_Some z_str_Some)
      from am(2) obtain n where n: "decimal_units (pi_amount i) = Some n" "0 < n"
        unfolding amount_ok_units by blast
      from g Inr am(1) obtain t where "assert_within_spending_limit (print_num p) c (now p ?s0)
          (JStr (pi_amount i)) (spending ?s0) = (t, Inr ())"
        by (auto simp: spending_guard_def split: prod.splits)
      from guard_units [OF n(1) assms(4,5) this]
      have lim: "n \<le> l" "STELLAR_NETWORK c = Mainnet \<Longrightarrow> n \<le> 10000 * 10 ^ 7" by auto
      from payment_trace [OF e] Some obtain es where es: "submissions s2 = submissions g @ es"
        "es = [] \<or> (pi_destination i \<noteq> self \<and> (\<exists>ast. two_rounds (nat (MAX_RETRIES c))
           (payment_envelope self (OpPayment (pi_destination i) ast (pi_amount i))) es))" by auto
      from es(2) have "es = [] \<or> (pi_destination i \<noteq> self \<and> (\<exists>ast. \<forall>env \<in> set es.
          payment_envelope self (OpPayment (pi_destination i) ast (pi_amount i)) env))"
        by (auto simp: two_rounds_def dest!: iffD1 [OF in_set_replicate] split: if_splits)
      with es(1) sub s1 gs am(1) n lim show ?thesis by auto
    qed
  qed
qed

text \<open>A concrete agent: a platform that accepts every payment, and a table with the payment
  tool only.\<close>

definition agent_toy :: "int agent_platform" where
  "agent_toy = x402_platform.extend x402_toy (agent_platform.fields (\<lambda>w. (w, ''id'')))"

definition agent_start :: "database \<Rightarrow> int agent_sys" where
  "agent_start db = x402_sys.extend x402_start
     (agent_sys.fields (fresh_tracker\<lparr>store := db\<rparr>) 0 False [] [] [] (\<lambda>d. None))"

definition no_tool :: "jsval \<Rightarrow> 's \<Rightarrow> 's \<times> (js_error + 'a)" where
  "no_tool v s = (s, Inl (plain ''no such tool''))"

definition only_payments ::
    "(jsval \<Rightarrow> 's \<Rightarrow> 's \<times> (js_error + submit_result)) \<Rightarrow> 's tool_table" where
  "only_payments f = \<lparr>payment_tool = f, soroban_tool = no_tool, soroban_query_tool = no_tool,
     x402_tool = no_tool, account_info_tool = no_tool JUndef, trustline_tool = no_tool,
     multisig_tool = no_tool, batch_payment_tool = no_tool, balance_check_tool = no_tool,
     path_payment_tool = no_tool, fee_bump_tool = no_tool, dex_offer_tool = no_tool,
     swap_tool = no_tool, account_history_tool = no_tool, soroban_deploy_tool = no_tool,
     liquidity_pool_tool = no_tool, stellar_toml_tool = no_tool, data_entry_tool = no_tool,
     sequence_number_tool = no_tool, sponsored_account_tool = no_tool, anchor_quote_tool = no_tool,
     inflation_tool = \<lambda>v s. (s, Inl (StellarRPCErr ''retries exhausted'' JUndef))\<rparr>"

definition toy_tools :: "int agent_sys tool_table" where
  "toy_tools = only_payments (payment_execute agent_toy sample_agent_config sample_key)"

definition toy_task :: "string \<Rightarrow> agent_task" where
  "toy_task ty = \<lparr>t_type = ty, t_payload = sample_payment, t_correlation = Some ''c1''\<rparr>"

lemma toy_task_simps [simp]:
  "t_type (toy_task ty) = ty" "t_payload (toy_task ty) = sample_payment" "t_correlation (toy_task ty) = Some ''c1''"
  by (simp_all add: toy_task_def)

lemma agent_toy_good: "good_like agent_toy"
  by (simp add: good_like_def agent_toy_def x402_platform.defs x402_toy_def sim_platform_def soroban.defs good_platform_def toy_platform_def platform.defs)

lemma agent_toy_simps [simp]:
  "clock agent_toy w = w" "op_fault agent_toy op = None" "valid_ed25519 agent_toy k = (length k = 56 \<and> starts_with k ''G'')"
  by (simp_all add: agent_toy_def x402_platform.defs x402_toy_def sim_platform_def soroban.defs good_platform_def toy_platform_def platform.defs)

lemma agent_start_simps [simp]:
  "spending (agent_start db) = fresh_tracker\<lparr>store := db\<rparr>" "active_tasks (agent_start db) = 0"
  "is_draining (agent_start db) = False" "events (agent_start db) = []" "webhooks (agent_start db) = []"
  "submissions (agent_start db) = []" "account_cache (agent_start db) = (\<lambda>k. None)"
  "world (agent_start db) = 0" "\<not> active (backoff (agent_start db))"
  by (simp_all add: agent_start_def x402_sys.defs x402_start_def sys.defs agent_sys.defs initial_sys_def initial_backoff_def)

lemma toy_schema: "payment_input_schema agent_toy sample_payment =
    Some \<lparr>pi_destination = payee, pi_amount = ''5'', pi_asset_code = ''XLM'', pi_asset_issuer = None,
      pi_memo_type = ''text'', pi_memo = None\<rparr>"
  by (simp add: payment_input_schema_def sample_payment_def zod_defs field_def obj_get_def amount_ok_5 memo_fits_def payee_def)

lemma save_fault [simp]: "db_fault (best_effort (save_spending_record r) db) = db_fault db"
  by (auto simp: best_effort_def db_defs bind_result_def split: option.splits sum.splits)

lemma toy_guard: "\<exists>t. assert_within_spending_limit num sample_agent_config 0 (JStr ''5'')
      (fresh_tracker\<lparr>store := db\<rparr>) = (t, Inr ()) \<and> db_fault (store t) = db_fault db"
  by (simp add: guard_eval parse_float_5 parse_float_100 save_fault)

lemma toy_payment_dispatch:
  "\<exists>s1 tx. dispatch agent_toy sample_agent_config toy_tools (toy_task ''stellar_payment'')
      ((agent_start db)\<lparr>active_tasks := 1\<rparr>) =
      (s1, Inr (payment_data sample_agent_config \<lparr>sr_hash = ''h1'', sr_ledger = JFin 7\<rparr>)) \<and>
    submissions s1 = [Envelope tx] \<and> tx_ops tx = [OpPayment payee Native ''5''] \<and>
    db_fault (store (spending s1)) = db_fault db \<and> events s1 = [] \<and> webhooks s1 = []"
proof -
  obtain t where t: "assert_within_spending_limit (print_num agent_toy) sample_agent_config 0 (JStr ''5'')
      (fresh_tracker\<lparr>store := db\<rparr>) = (t, Inr ())" "db_fault (store t) = db_fault db"
    using toy_guard by blast
  let ?g = "(agent_start db)\<lparr>active_tasks := 1, spending := t\<rparr>"
  have "field sample_payment ''amount'' = JStr ''5''"
    by (simp add: sample_payment_def field_def obj_get_def)
  then have g: "spending_guard agent_toy sample_agent_config sample_payment ((agent_start db)\<lparr>active_tasks := 1\<rparr>) = (?g, Inr ())"
    using t by (simp add: spending_guard_def now_def)
  have ne: "payee \<noteq> sample_key" by (simp add: payee_def sample_key_def)
  have "\<not> active (backoff ?g)" "account_cache ?g = (\<lambda>k. None)" by simp_all
  from good_payment [OF agent_toy_good this toy_schema, of sample_key] ne obtain s' tx where
    e: "payment_execute agent_toy sample_agent_config sample_key sample_payment ?g =
          (s', Inr \<lparr>sr_hash = ''h1'', sr_ledger = JFin 7\<rparr>)"
    and x: "submissions s' = [Envelope tx]" "tx_ops tx = [OpPayment payee Native ''5'']"
      "sys.more s' = sys.more ?g" by auto
  have "spending s' = t" "events s' = []" "webhooks s' = []"
    using x(3) by (cases s'; simp add: agent_start_def x402_sys.defs x402_start_def sys.defs agent_sys.defs initial_sys_def)+
  with g e x(1,2) t(2) show ?thesis
    by (simp add: dispatch_def toy_tools_def only_payments_def map_data_def Let_def)
qed



theorem unsaved_success_reported_as_failure_witness:
  "\<exists>s' r tx. execute_task agent_toy sample_agent_config toy_tools [] (toy_task ''stellar_payment'') ''c1''
       (agent_start (empty_db\<lparr>db_fault := Some (plain ''SQLITE_CORRUPT'')\<rparr>)) = (s', r) \<and>
     \<not> success r \<and> submissions s' = [Envelope tx] \<and> tx_ops tx = [OpPayment payee Native ''5'']"
proof -
  let ?db = "empty_db\<lparr>db_fault := Some (plain ''SQLITE_CORRUPT'')\<rparr>"
  let ?s = "agent_start ?db"
  obtain s1 tx where d: "dispatch agent_toy sample_agent_config toy_tools (toy_task ''stellar_payment'')
        (?s\<lparr>active_tasks := 1\<rparr>) = (s1, Inr (payment_data sample_agent_config \<lparr>sr_hash = ''h1'', sr_ledger = JFin 7\<rparr>))"
    and x: "submissions s1 = [Envelope tx]" "tx_ops tx = [OpPayment payee Native ''5'']"
      "db_fault (store (spending s1)) = Some (plain ''SQLITE_CORRUPT'')"
    using toy_payment_dispatch [of ?db] by auto
  obtain s' r where e: "execute_task agent_toy sample_agent_config toy_tools [] (toy_task ''stellar_payment'') ''c1'' ?s = (s', r)"
    by fastforce
  have d': "dispatch agent_toy sample_agent_config toy_tools (toy_task ''stellar_payment'')
      (?s\<lparr>active_tasks := active_tasks ?s + 1\<rparr>) =
      (s1, Inr (payment_data sample_agent_config \<lparr>sr_hash = ''h1'', sr_ledger = JFin 7\<rparr>))"
    using d by simp
  from unsaved_success_reported_as_failure [OF e d' x(3)] execute_plain_submissions [OF e d'] x e
  show ?thesis by auto
qed

theorem rpc_exhaustion_not_announced_witness:
  "\<exists>s' r. execute_task agent_toy sample_agent_config toy_tools [] (toy_task ''inflation'') ''c1'' (agent_start empty_db) = (s', r) \<and>
     events s' = [TaskFailed r] \<and> duration_ms r = None"
proof -
  let ?s = "agent_start empty_db"
  obtain s' r where e: "execute_task agent_toy sample_agent_config toy_tools [] (toy_task ''inflation'') ''c1'' ?s = (s', r)"
    by fastforce
  have d: "dispatch agent_toy sample_agent_config toy_tools (toy_task ''inflation'') (?s\<lparr>active_tasks := active_tasks ?s + 1\<rparr>) =
      (?s\<lparr>active_tasks := active_tasks ?s + 1\<rparr>, Inl (StellarRPCErr ''retries exhausted'' JUndef))"
    by (simp add: dispatch_def toy_tools_def only_payments_def plain_tools_def)
  from rpc_exhaustion_not_announced [OF e d] e show ?thesis by auto
qed

lemma decimal_units_100: "decimal_units ''100'' = Some 1000000000"
  by (simp add: decimal_units_def is_digit_def ccode_def digits_val_def digit_val_def decimal_tail_ok_def)

theorem agent_payment_within_limit_witness:
  "\<exists>s' r tx. execute_task agent_toy sample_agent_config toy_tools [] (toy_task ''stellar_payment'') ''c1''
       (agent_start empty_db) = (s', r) \<and> submissions s' = [Envelope tx] \<and>
     (\<exists>a u dest ast. decimal_units a = Some u \<and> u \<le> 1000000000 \<and>
        payment_envelope sample_key (OpPayment dest ast a) (Envelope tx))"
proof -
  let ?s = "agent_start empty_db"
  obtain s1 tx where d: "dispatch agent_toy sample_agent_config toy_tools (toy_task ''stellar_payment'')
        (?s\<lparr>active_tasks := 1\<rparr>) = (s1, Inr (payment_data sample_agent_config \<lparr>sr_hash = ''h1'', sr_ledger = JFin 7\<rparr>))"
    and x: "submissions s1 = [Envelope tx]"
    using toy_payment_dispatch [of empty_db] by auto
  obtain s' r where e: "execute_task agent_toy sample_agent_config toy_tools [] (toy_task ''stellar_payment'') ''c1'' ?s = (s', r)"
    by fastforce
  have sub: "submissions s' = [Envelope tx]"
    using execute_plain_submissions [OF e] d x by simp
  have t: "payment_tool toy_tools = payment_execute agent_toy sample_agent_config sample_key"
    by (simp add: toy_tools_def only_payments_def)
  have l: "decimal_units (AGENT_SPENDING_LIMIT sample_agent_config) = Some 1000000000"
    by (simp add: decimal_units_100)
  from agent_payment_within_limit [OF e _ t l] sub e show ?thesis by auto
qed

section \<open>Sequences\<close>

text \<open>The states a list of tasks goes through when each is run in turn.\<close>

fun run_all :: "(agent_task \<Rightarrow> 's \<Rightarrow> 's \<times> agent_result) \<Rightarrow> agent_task list \<Rightarrow> 's \<Rightarrow> 's \<times> agent_result list" where
  "run_all run [] s = (s, [])"
| "run_all run (t # ts) s = (let (s1, r) = run t s; (s2, rs) = run_all run ts s1 in (s2, r # rs))"

lemma run_sequence_from_prefix:
  assumes "run_sequence_from i run tasks s = (s', rs)"
  shows "length rs \<le> length tasks \<and>
    (\<exists>qs. run_all run (take (length rs) tasks) s = (s', qs) \<and> length qs = length rs \<and>
       (\<forall>k < length rs. rs ! k = (qs ! k)\<lparr>sequence_index := Some (i + k)\<rparr>)) \<and>
    (\<forall>k. k + 1 < length rs \<longrightarrow> success (rs ! k)) \<and>
    (length rs < length tasks \<longrightarrow> rs \<noteq> [] \<and> \<not> success (last rs))"
  using assms
proof (induction tasks arbitrary: i s s' rs)
  case (Cons t ts)
  obtain s1 r where r: "run t s = (s1, r)" by fastforce
  let ?e = "r\<lparr>sequence_index := Some i\<rparr>"
  show ?case
  proof (cases "success r")
    case False
    with Cons.prems r have "rs = [?e]" "s' = s1" by auto
    with False r show ?thesis by auto
  next
    case True
    obtain s2 us where u: "run_sequence_from (i + 1) run ts s1 = (s2, us)" by fastforce
    with Cons.prems r True have rs: "rs = ?e # us" "s' = s2" by auto
    from Cons.IH [OF u] obtain qs where q: "length us \<le> length ts"
      "run_all run (take (length us) ts) s1 = (s2, qs)" "length qs = length us"
      "\<forall>k < length us. us ! k = (qs ! k)\<lparr>sequence_index := Some (i + 1 + k)\<rparr>"
      "\<forall>k. k + 1 < length us \<longrightarrow> success (us ! k)"
      "length us < length ts \<longrightarrow> us \<noteq> [] \<and> \<not> success (last us)" by blast
    have "run_all run (take (length rs) (t # ts)) s = (s', r # qs)" using r q rs by simp
    moreover have "\<forall>k < length rs. rs ! k = ((r # qs) ! k)\<lparr>sequence_index := Some (i + k)\<rparr>"
      using q(4) rs by (auto simp: nth_Cons split: nat.splits)
    moreover have "\<forall>k. k + 1 < length rs \<longrightarrow> success (rs ! k)"
      using q(5) rs True by (auto simp: nth_Cons split: nat.splits)
    ultimately show ?thesis using q rs by auto
  qed
qed simp

text \<open>
  \<open>runSequence\<close> runs a prefix of its tasks, in order, each in the state the one before left:
  every entry but the last is a success, it stops before the end only at a failure, which is the
  last entry, and each entry is the task's own result stamped with its position.
\<close>

theorem sequence_stops_at_first_failure:
  assumes "run_sequence (run_task p c tt ms) tasks s = (s', rs)"
  shows "length rs \<le> length tasks \<and>
    (\<exists>qs. run_all (run_task p c tt ms) (take (length rs) tasks) s = (s', qs) \<and> length qs = length rs \<and>
       (\<forall>k < length rs. rs ! k = (qs ! k)\<lparr>sequence_index := Some k\<rparr>)) \<and>
    (\<forall>k. k + 1 < length rs \<longrightarrow> success (rs ! k)) \<and>
    (length rs < length tasks \<longrightarrow> rs \<noteq> [] \<and> \<not> success (last rs))"
  using run_sequence_from_prefix [OF assms [unfolded run_sequence_def]] by simp

theorem sequence_stops_at_first_failure_witness:
  "\<exists>s' rs. run_sequence (run_task agent_toy sample_agent_config toy_tools []) [toy_task ''swap'', toy_task ''stellar_payment'']
      (agent_start empty_db) = (s', rs) \<and> length rs = 1 \<and> sequence_index (rs ! 0) = Some 0 \<and> \<not> success (rs ! 0)"
proof -
  let ?s = "agent_start empty_db" and ?run = "run_task agent_toy sample_agent_config toy_tools []"
  let ?ts = "[toy_task ''swap'', toy_task ''stellar_payment'']"
  obtain s' rs where q: "run_sequence ?run ?ts ?s = (s', rs)" by fastforce
  obtain s1 r where e: "?run (toy_task ''swap'') ?s = (s1, r)" by fastforce
  then have "\<not> success r"
    by (auto simp: run_task_def execute_plain execute_inner_def task_failed_def Let_def failed_result_def
        dispatch_def toy_tools_def only_payments_def plain_tools_def no_tool_def split: prod.splits)
  with q e have rs: "rs = [r\<lparr>sequence_index := Some 0\<rparr>]" by (auto simp: run_sequence_def)
  from sequence_stops_at_first_failure [OF q] have "rs ! 0 = (fst (rs ! 0, ()))\<lparr>sequence_index := Some 0\<rparr>"
    unfolding rs by auto
  with q rs \<open>\<not> success r\<close> show ?thesis by auto
qed

section \<open>Slots and queue\<close>

text \<open>
  Concurrent calls of \<open>run\<close>, numbered. A running task may finish at any time with any result,
  which covers every interleaving of the tools' bodies. \<open>called\<close>, \<open>started\<close> and \<open>settled\<close> are
  traces: calls in order, tasks in the order they took a slot, and promises resolved.
\<close>

record agent_run =
  slots :: nat
  task_queue :: "(nat \<times> agent_task \<times> string) list"
  draining :: bool
  running :: "nat list"
  called :: "nat list"
  started :: "nat list"
  settled :: "(nat \<times> agent_result) list"

definition idle_run :: agent_run where
  "idle_run = \<lparr>slots = 0, task_queue = [], draining = False, running = [], called = [], started = [], settled = []\<rparr>"

definition settle :: "nat \<Rightarrow> agent_result \<Rightarrow> agent_run \<Rightarrow> agent_run" where
  "settle i r g = g\<lparr>settled := settled g @ [(i, r)]\<rparr>"

definition take_slot :: "nat \<Rightarrow> agent_run \<Rightarrow> agent_run" where
  "take_slot i g = g\<lparr>slots := slots g + 1, running := running g @ [i], started := started g @ [i]\<rparr>"

definition run_call :: "agent_config \<Rightarrow> nat \<Rightarrow> agent_task \<Rightarrow> string \<Rightarrow> agent_run \<Rightarrow> agent_run" where
  "run_call c i task cid g0 =
     (let g = g0\<lparr>called := called g0 @ [i]\<rparr> in
      if draining g then settle i (shutting_down_result (t_type task) cid) g
      else if MAX_CONCURRENT_TASKS c \<le> int (slots g) then
        (if 0 < QUEUE_CAPACITY c \<and> int (length (task_queue g)) < QUEUE_CAPACITY c
         then g\<lparr>task_queue := task_queue g @ [(i, task, cid)]\<rparr>
         else settle i (at_capacity_result c (slots g) (t_type task) cid) g)
      else take_slot i g)"

definition dispatch_queued :: "agent_config \<Rightarrow> agent_run \<Rightarrow> agent_run" where
  "dispatch_queued c g =
     (case task_queue g of
        [] \<Rightarrow> g
      | next_task # rest \<Rightarrow>
          if MAX_CONCURRENT_TASKS c \<le> int (slots g) then g
          else take_slot (fst next_task) (g\<lparr>task_queue := rest\<rparr>))"

text \<open>The finally block of \<open>executeTask\<close>, after which its promise resolves.\<close>

definition finish_call :: "agent_config \<Rightarrow> nat \<Rightarrow> agent_result \<Rightarrow> agent_run \<Rightarrow> agent_run" where
  "finish_call c i r g =
     settle i r (dispatch_queued c (g\<lparr>slots := slots g - 1, running := remove1 i (running g)\<rparr>))"

inductive run_step :: "agent_config \<Rightarrow> agent_run \<Rightarrow> agent_run \<Rightarrow> bool" for c where
  calling: "i \<notin> set (called g) \<Longrightarrow> run_step c g (run_call c i task cid g)"
| finishing: "i \<in> set (running g) \<Longrightarrow> run_step c g (finish_call c i r g)"
| stopping: "run_step c g (g\<lparr>draining := True\<rparr>)"

definition queued_ids :: "agent_run \<Rightarrow> nat list" where
  "queued_ids g = map fst (task_queue g)"

definition settled_ids :: "agent_run \<Rightarrow> nat list" where
  "settled_ids g = map fst (settled g)"

definition run_inv :: "agent_config \<Rightarrow> agent_run \<Rightarrow> bool" where
  "run_inv c g \<longleftrightarrow> slots g = length (running g) \<and> int (slots g) \<le> MAX_CONCURRENT_TASKS c \<and>
     (task_queue g \<noteq> [] \<longrightarrow> int (slots g) = MAX_CONCURRENT_TASKS c) \<and>
     int (length (task_queue g)) \<le> max 0 (QUEUE_CAPACITY c) \<and>
     distinct (running g @ queued_ids g @ settled_ids g) \<and>
     set (called g) = set (running g @ queued_ids g @ settled_ids g) \<and> distinct (called g) \<and>
     subseq (started g @ queued_ids g) (called g)"

lemmas run_defs = run_call_def dispatch_queued_def finish_call_def settle_def take_slot_def
  queued_ids_def settled_ids_def

lemma subseq_snoc: "subseq xs ys \<Longrightarrow> subseq (xs @ [x]) (ys @ [x])" "subseq xs ys \<Longrightarrow> subseq xs (ys @ [y])"
  by (simp add: list_emb_append_mono) (meson prefix_imp_subseq prefixI subseq_order.trans)

lemma run_call_inv:
  assumes "run_inv c g" "i \<notin> set (called g)"
  shows "run_inv c (run_call c i task cid g)"
proof -
  let ?M = "MAX_CONCURRENT_TASKS c"
  have "(\<exists>r. run_call c i task cid g = settle i r (g\<lparr>called := called g @ [i]\<rparr>)) \<or>
      (?M \<le> int (slots g) \<and> int (length (task_queue g)) < QUEUE_CAPACITY c \<and>
        run_call c i task cid g = g\<lparr>called := called g @ [i], task_queue := task_queue g @ [(i, task, cid)]\<rparr>) \<or>
      (int (slots g) < ?M \<and> run_call c i task cid g = take_slot i (g\<lparr>called := called g @ [i]\<rparr>))"
    by (auto simp: run_call_def Let_def)
  then consider (settle) r where "run_call c i task cid g = settle i r (g\<lparr>called := called g @ [i]\<rparr>)"
    | (queue) "?M \<le> int (slots g)" "int (length (task_queue g)) < QUEUE_CAPACITY c"
        "run_call c i task cid g = g\<lparr>called := called g @ [i], task_queue := task_queue g @ [(i, task, cid)]\<rparr>"
    | (start) "int (slots g) < ?M" "run_call c i task cid g = take_slot i (g\<lparr>called := called g @ [i]\<rparr>)"
    by blast
  then show ?thesis
  proof cases
    case settle
    with assms show ?thesis by (auto simp: run_inv_def settle_def queued_ids_def settled_ids_def subseq_snoc)
  next
    case queue
    with assms have "subseq ((started g @ queued_ids g) @ [i]) (called g @ [i])"
      by (intro subseq_snoc) (simp add: run_inv_def)
    with assms queue show ?thesis by (auto simp: run_inv_def queued_ids_def settled_ids_def)
  next
    case start
    with assms have q: "task_queue g = []" by (auto simp: run_inv_def)
    from assms have "subseq (started g @ queued_ids g) (called g)" by (simp add: run_inv_def)
    with q have "subseq (started g @ [i]) (called g @ [i])" by (simp add: queued_ids_def subseq_snoc)
    with assms start q show ?thesis by (auto simp: run_inv_def take_slot_def queued_ids_def settled_ids_def)
  qed
qed

lemma finish_call_inv:
  assumes "run_inv c g" "i \<in> set (running g)"
  shows "run_inv c (finish_call c i r g)"
    and "length (running (finish_call c i r g)) + length (task_queue (finish_call c i r g)) + 1 =
      length (running g) + length (task_queue g)"
    and "called (finish_call c i r g) = called g"
proof -
  let ?M = "MAX_CONCURRENT_TASKS c"
  from assms(2) have "0 < length (running g)" by (cases "running g") auto
  moreover have rem: "length (remove1 i (running g)) = length (running g) - 1"
    using assms(2) by (simp add: length_remove1)
  moreover have "slots g = length (running g)" "int (slots g) \<le> ?M"
    using assms(1) unfolding run_inv_def by blast+
  ultimately have pos: "0 < slots g" "int (slots g - 1) < ?M" "length (running g) \<noteq> 0" by linarith+
  have setr: "set (remove1 i (running g)) = set (running g) - {i}" "distinct (remove1 i (running g))"
    using assms(1) by (auto simp: run_inv_def set_remove1_eq distinct_remove1)
  show "called (finish_call c i r g) = called g"
    by (auto simp: run_defs split: list.splits)
  show "length (running (finish_call c i r g)) + length (task_queue (finish_call c i r g)) + 1 =
      length (running g) + length (task_queue g)"
    using pos rem by (cases "task_queue g") (auto simp: run_defs)
  show "run_inv c (finish_call c i r g)"
  proof (cases "task_queue g")
    case Nil
    with assms setr rem pos show ?thesis by (auto simp: run_inv_def run_defs)
  next
    case (Cons e q)
    have "finish_call c i r g = settle i r (take_slot (fst e)
        (g\<lparr>slots := slots g - 1, running := remove1 i (running g), task_queue := q\<rparr>))"
      using Cons pos by (simp add: finish_call_def dispatch_queued_def)
    with assms setr rem pos Cons show ?thesis
      by (auto simp: run_inv_def take_slot_def settle_def queued_ids_def settled_ids_def)
  qed
qed

lemma draining_inv: "run_inv c (g\<lparr>draining := b\<rparr>) \<longleftrightarrow> run_inv c g"
  by (simp add: run_inv_def queued_ids_def settled_ids_def)

lemma run_step_inv: "run_step c g h \<Longrightarrow> run_inv c g \<Longrightarrow> run_inv c h"
  by (induction rule: run_step.induct) (simp_all add: run_call_inv finish_call_inv draining_inv)

lemma run_reach_inv:
  assumes "(run_step c)\<^sup>*\<^sup>* idle_run g" "0 \<le> MAX_CONCURRENT_TASKS c"
  shows "run_inv c g"
  using assms(1)
proof induction
  case base
  from assms(2) show ?case by (simp add: run_inv_def idle_run_def queued_ids_def settled_ids_def)
qed (rule run_step_inv)

text \<open>
  C6. However calls, completions and the shutdown interleave: at most MAX\_CONCURRENT\_TASKS
  tasks hold a slot and at most QUEUE\_CAPACITY wait; tasks wait only while every slot is taken;
  tasks take their slots in the order of the calls, so the queue is fair; and each call is, at
  every moment, exactly one of running, waiting or settled, and is settled at most once.
\<close>

theorem queue_bounded_and_fair:
  assumes "(run_step c)\<^sup>*\<^sup>* idle_run g" "0 \<le> MAX_CONCURRENT_TASKS c"
  shows "int (length (running g)) \<le> MAX_CONCURRENT_TASKS c \<and>
    int (length (task_queue g)) \<le> max 0 (QUEUE_CAPACITY c) \<and>
    (task_queue g \<noteq> [] \<longrightarrow> int (length (running g)) = MAX_CONCURRENT_TASKS c) \<and>
    subseq (started g @ queued_ids g) (called g) \<and>
    distinct (running g @ queued_ids g @ settled_ids g) \<and>
    set (called g) = set (running g @ queued_ids g @ settled_ids g)"
  using run_reach_inv [OF assms] unfolding run_inv_def by metis

text \<open>Completions in any order, from a given moment on.\<close>

inductive finishes :: "agent_config \<Rightarrow> nat \<Rightarrow> agent_run \<Rightarrow> agent_run \<Rightarrow> bool" for c where
  none: "finishes c 0 g g"
| more: "finishes c n g h \<Longrightarrow> i \<in> set (running h) \<Longrightarrow> finishes c (Suc n) g (finish_call c i r h)"

lemma finishes_inv:
  "finishes c n g h \<Longrightarrow> run_inv c g \<Longrightarrow>
     run_inv c h \<and> called h = called g \<and>
     length (running h) + length (task_queue h) + n = length (running g) + length (task_queue g)"
proof (induction rule: finishes.induct)
  case (more n g h i r)
  then have h: "run_inv c h" "called h = called g"
    "length (running h) + length (task_queue h) + n = length (running g) + length (task_queue g)" by auto
  from finish_call_inv(2) [OF h(1) more.hyps(2), of r] h(3)
  show ?case using finish_call_inv(1,3) [OF h(1) more.hyps(2), of r] h(2) by simp
qed simp

text \<open>
  C7. Waiting for pending tasks ends, with nothing lost: with at least one slot, once no call
  comes in, every completion brings the number of running and waiting tasks down by one, some
  task can complete as long as that number is not zero, and when it is zero no slot is taken
  and every call ever made has been settled.
\<close>

theorem pending_tasks_all_settle:
  assumes "(run_step c)\<^sup>*\<^sup>* idle_run g" "1 \<le> MAX_CONCURRENT_TASKS c" "finishes c n g h"
  shows "n \<le> length (running g) + length (task_queue g) \<and>
    (n < length (running g) + length (task_queue g) \<longrightarrow> running h \<noteq> []) \<and>
    (n = length (running g) + length (task_queue g) \<longrightarrow>
       slots h = 0 \<and> task_queue h = [] \<and> set (settled_ids h) = set (called g))"
proof -
  have inv: "run_inv c g" using run_reach_inv assms(1,2) by simp
  from finishes_inv [OF assms(3) this] have h: "run_inv c h" "called h = called g"
    "length (running h) + length (task_queue h) + n = length (running g) + length (task_queue g)" by auto
  have some: "running h \<noteq> []" if "n < length (running g) + length (task_queue g)"
  proof
    assume e: "running h = []"
    with h(3) that have "task_queue h \<noteq> []" by auto
    with h(1) assms(2) e show False unfolding run_inv_def by simp
  qed
  have none: "running h = [] \<and> task_queue h = []" if "n = length (running g) + length (task_queue g)"
    using h(3) that by simp
  have "slots h = 0 \<and> set (settled_ids h) = set (called g)" if "running h = [] \<and> task_queue h = []"
    using h(1,2) that by (simp add: run_inv_def queued_ids_def)
  with some none h(3) show ?thesis by (metis le_add2)
qed


theorem queue_bounded_and_fair_witness:
  "\<exists>g. (run_step (sample_agent_config\<lparr>MAX_CONCURRENT_TASKS := 1, QUEUE_CAPACITY := 1\<rparr>))\<^sup>*\<^sup>* idle_run g \<and>
     running g = [1] \<and> queued_ids g = [2] \<and> settled_ids g = [3] \<and> int (length (running g)) \<le> 1"
proof -
  define c where "c = sample_agent_config\<lparr>MAX_CONCURRENT_TASKS := 1, QUEUE_CAPACITY := 1\<rparr>"
  define call where "call i = run_call c i (toy_task ''swap'') ''c''" for i
  define g1 where "g1 = call 1 idle_run"
  define g2 where "g2 = call 2 g1"
  define g where "g = call 3 g2"
  note d = run_defs idle_run_def Let_def g1_def g2_def g_def call_def c_def
  have "run_step c idle_run g1" unfolding g1_def call_def by (rule calling) (simp add: idle_run_def)
  moreover have "run_step c g1 g2" unfolding g2_def call_def by (rule calling) (simp add: d)
  moreover have "run_step c g2 g" unfolding g_def call_def by (rule calling) (simp add: d)
  ultimately have r: "(run_step c)\<^sup>*\<^sup>* idle_run g"
    by (meson rtranclp.rtrancl_refl rtranclp.rtrancl_into_rtrancl)
  have "running g = [1]" "queued_ids g = [2]" "settled_ids g = [3]" by (simp_all add: d)
  moreover have "int (length (running g)) \<le> 1" using queue_bounded_and_fair [OF r] by (simp add: c_def)
  ultimately show ?thesis using r unfolding c_def by blast
qed

theorem pending_tasks_all_settle_witness:
  "\<exists>g r h. (run_step sample_agent_config)\<^sup>*\<^sup>* idle_run g \<and> finishes sample_agent_config 1 g h \<and>
     h = finish_call sample_agent_config 7 r g \<and> slots h = 0 \<and> set (settled_ids h) = {7}"
proof -
  let ?c = sample_agent_config
  let ?g = "run_call ?c 7 (toy_task ''swap'') ''c'' idle_run"
  let ?r = "ok_result ''swap'' JUndef ''c''"
  have r: "(run_step ?c)\<^sup>*\<^sup>* idle_run ?g"
    by (rule r_into_rtranclp, rule calling) (simp add: idle_run_def)
  have f: "finishes ?c (Suc 0) ?g (finish_call ?c 7 ?r ?g)"
    by (rule more [OF none]) (simp add: run_defs idle_run_def Let_def)
  have "running ?g = [7]" "task_queue ?g = []" "called ?g = [7]"
    by (simp_all add: run_defs idle_run_def Let_def)
  note q = this
  have "1 \<le> MAX_CONCURRENT_TASKS ?c" by simp
  from pending_tasks_all_settle [OF r this f] q
  have "slots (finish_call ?c 7 ?r ?g) = 0" "set (settled_ids (finish_call ?c 7 ?r ?g)) = {7}" by simp_all
  with f r show ?thesis unfolding One_nat_def by blast
qed

end
