(* ===== verification/Webhook.thy ===== *)
theory Webhook imports Agent begin

text \<open>
  backend/webhook.ts: signing, verification, and the delivery of a result with up to three
  attempts. HMAC-SHA256 (as hexadecimal text) and the HTTP client are fields of the platform;
  a response is a value whose \<open>status\<close> is read. Delivery shares the rate-limit lock of the RPC
  client. \<open>posts\<close> and \<open>hook_pauses\<close> are traces of the requests sent and of the waits.
\<close>

section \<open>Signatures\<close>

record 'w hook_platform = "'w agent_platform" +
  hmac_sha256_hex :: "string \<Rightarrow> string \<Rightarrow> string"
  http_post :: "string \<Rightarrow> string \<Rightarrow> (string \<times> string) list \<Rightarrow> 'w \<Rightarrow> 'w \<times> (js_error + jsval)"

definition sign_payload :: "('w, 'x) hook_platform_scheme \<Rightarrow> string \<Rightarrow> string \<Rightarrow> string" where
  "sign_payload p payload secret = hmac_sha256_hex p secret payload"

text \<open>\<open>Buffer.from(s, 'hex')\<close>: decoding stops at the first pair that is not hexadecimal.\<close>

fun hex_bytes :: "string \<Rightarrow> nat list" where
  "hex_bytes (a # b # cs) = (case (hex_val a, hex_val b) of
     (Some x, Some y) \<Rightarrow> (16 * x + y) # hex_bytes cs | _ \<Rightarrow> [])"
| "hex_bytes _ = []"

definition verify_webhook_signature ::
    "('w, 'x) hook_platform_scheme \<Rightarrow> string \<Rightarrow> jsval \<Rightarrow> string \<Rightarrow> bool" where
  "verify_webhook_signature p payload sig secret =
     (case sig of
        JStr s \<Rightarrow>
          if \<not> is_hex64 s then False
          else (let expected = hex_bytes (sign_payload p payload secret); received = hex_bytes s
                in if length expected \<noteq> length received then False else expected = received)
      | _ \<Rightarrow> False)"

section \<open>Retry decision\<close>

text \<open>\<open>err.response?.status ?? err.status\<close> of an unknown error.\<close>

definition http_status :: "jsval \<Rightarrow> jsval" where
  "http_status v = coalesce (field (field v ''response'') ''status'') (field v ''status'')"

definition status_between :: "rat \<Rightarrow> rat \<Rightarrow> jsval \<Rightarrow> bool" where
  "status_between a b v = (case v of JNum n \<Rightarrow> js_leq (JFin a) n \<and> js_less n (JFin b) | _ \<Rightarrow> False)"

definition is_retryable_webhook_error :: "jsval \<Rightarrow> bool" where
  "is_retryable_webhook_error v =
     (let status = (case v of JNum n \<Rightarrow> v | _ \<Rightarrow> http_status v) in
      if status_between 200 300 status then False
      else if status = JNum (JFin 429) then True
      else if status_between 400 500 status then False
      else True)"

section \<open>Delivery\<close>

definition result_json :: "agent_result \<Rightarrow> jsval" where
  "result_json r =
     (let opt = \<lambda>k v. (case v of None \<Rightarrow> [] | Some x \<Rightarrow> [(k, x)]) in
      JObj ([(''success'', JBool (success r)), (''taskType'', JStr (task_type r)), (''data'', result_data r)] @
        opt ''error'' (map_option JStr (result_error r)) @
        opt ''errorType'' (map_option JStr (result_error_type r)) @
        opt ''correlationId'' (map_option JStr (correlation_id r)) @
        opt ''durationMs'' (map_option (\<lambda>n. JNum (JFin (of_int n))) (duration_ms r)) @
        opt ''sequenceIndex'' (map_option (\<lambda>n. JNum (JFin (of_nat n))) (sequence_index r))))"

record 'w hook_run = "'w sys" +
  posts :: "(string \<times> string \<times> (string \<times> string) list) list"
  hook_pauses :: "rat list"

definition hook_headers :: "('w, 'x) hook_platform_scheme \<Rightarrow> agent_config \<Rightarrow> string \<Rightarrow> (string \<times> string) list" where
  "hook_headers p c body =
     (''Content-Type'', ''application/json'') #
     (case WEBHOOK_SECRET c of
        Some secret \<Rightarrow> if secret = [] then [] else [(''X-Vela-Signature'', sign_payload p body secret)]
      | None \<Rightarrow> [])"

text \<open>One request; a response whose status is a number outside the 200s is an error that carries
  its status and itself.\<close>

definition post_once ::
    "('w, 'x) hook_platform_scheme \<Rightarrow> string \<Rightarrow> string \<Rightarrow> (string \<times> string) list \<Rightarrow> ('w, 'y) hook_run_scheme \<Rightarrow>
     ('w, 'y) hook_run_scheme \<times> (js_error + unit)" where
  "post_once p url body headers s =
     andThen (outside (http_post p url body headers) (s\<lparr>posts := posts s @ [(url, body, headers)]\<rparr>)) (\<lambda>s v.
       (let status = field v ''status'' in
        (s, case status of
              JNum n \<Rightarrow> if js_less n (JFin 200) \<or> js_leq (JFin 300) n
                then Inl (PlainErr (''Webhook responded with status '' @ num_text (print_num p) n)
                            [(''status'', status), (''response'', v)])
                else Inr ()
            | _ \<Rightarrow> Inr ())))"

definition note_hook_429 :: "('w, 'x) hook_platform_scheme \<Rightarrow> jsval \<Rightarrow> ('w, 'y) hook_run_scheme \<Rightarrow> ('w, 'y) hook_run_scheme" where
  "note_hook_429 p v s =
     (if http_status v = JNum (JFin 429)
      then s\<lparr>backoff := handle_rate_limit_response (now p s)
               (as_string (field (field (field v ''response'') ''headers'') ''retry-after'')) (backoff s)\<rparr>
      else s)"

definition hook_delay :: "int \<Rightarrow> nat \<Rightarrow> rat" where
  "hook_delay initial k = of_int (initial * 2 ^ (k - 1))"

definition hook_pause ::
    "('w, 'x) hook_platform_scheme \<Rightarrow> rat \<Rightarrow> ('w, 'y) hook_run_scheme \<Rightarrow> ('w, 'y) hook_run_scheme" where
  "hook_pause p d s = s\<lparr>world := sleep_ms p d (world s), hook_pauses := hook_pauses s @ [d]\<rparr>"

fun deliver ::
    "('w, 'x) hook_platform_scheme \<Rightarrow> string \<Rightarrow> string \<Rightarrow> (string \<times> string) list \<Rightarrow> int \<Rightarrow> nat \<Rightarrow> nat \<Rightarrow>
     ('w, 'y) hook_run_scheme \<Rightarrow> ('w, 'y) hook_run_scheme" where
  "deliver p url body headers initial k 0 s = s"
| "deliver p url body headers initial k (Suc n) s =
     (case post_once p url body headers s of
        (s1, Inr u) \<Rightarrow> s1
      | (s1, Inl e) \<Rightarrow>
          (let v = err_value e; s2 = note_hook_429 p v s1 in
           if \<not> is_retryable_webhook_error v then s2
           else deliver p url body headers initial (k + 1) n
                  (if n = 0 then s2 else hook_pause p (hook_delay initial k) s2)))"

text \<open>\<open>dispatchWebhook(result, options)\<close>; a result without JSON text rejects before any request.\<close>

definition dispatch_webhook ::
    "('w, 'x) hook_platform_scheme \<Rightarrow> agent_config \<Rightarrow> agent_result \<Rightarrow> int option \<Rightarrow> int option \<Rightarrow>
     ('w, 'y) hook_run_scheme \<Rightarrow> ('w, 'y) hook_run_scheme" where
  "dispatch_webhook p c r max_attempts initial_delay s =
     (case WEBHOOK_URL c of
        None \<Rightarrow> s
      | Some url \<Rightarrow>
          if url = [] then s
          else (case json_value (print_num p) (result_json r) of
                  Inr (Some body) \<Rightarrow>
                    deliver p url body (hook_headers p c body)
                      (case initial_delay of None \<Rightarrow> 1000 | Some d \<Rightarrow> d) 1
                      (nat (case max_attempts of None \<Rightarrow> 3 | Some m \<Rightarrow> m)) s
                | _ \<Rightarrow> s))"

section \<open>Properties of signatures\<close>

lemma hex_val_lower: "is_hex_char c \<Longrightarrow> \<exists>x < 16. hex_val c = Some x \<and> hex_val (lower_char c) = Some x"
  by (auto simp: is_hex_char_def hex_val_def lower_char_def is_digit_def digit_val_def ccode_def)

lemma char_of_ccode: "char_of (ccode c) = c"
  by (simp add: ccode_def)

lemma hex_val_eq: "is_hex_char a \<Longrightarrow> is_hex_char b \<Longrightarrow> hex_val a = hex_val b \<longleftrightarrow> lower_char a = lower_char b"
proof
  assume h: "is_hex_char a" "is_hex_char b" "hex_val a = hex_val b"
  have "ccode (lower_char x) = (if 65 \<le> ccode x \<and> ccode x \<le> 90 then ccode x + 32 else ccode x)" if "is_hex_char x" for x
    using that by (auto simp: lower_char_def ccode_def is_hex_char_def is_digit_def)
  with h have "ccode (lower_char a) = ccode (lower_char b)"
    by (auto simp: is_hex_char_def hex_val_def is_digit_def digit_val_def split: if_splits)
  then show "lower_char a = lower_char b" by (metis char_of_ccode)
next
  assume "is_hex_char a" "is_hex_char b" "lower_char a = lower_char b"
  then show "hex_val a = hex_val b" using hex_val_lower by metis
qed

lemma hex_bytes_eq:
  assumes "length s = length t" "even (length s)" "\<forall>c \<in> set s. is_hex_char c" "\<forall>c \<in> set t. is_hex_char c"
  shows "hex_bytes s = hex_bytes t \<longleftrightarrow> to_lower s = to_lower t"
  using assms
proof (induction s arbitrary: t rule: hex_bytes.induct)
  case (1 a b cs)
  then obtain c d ds where t: "t = c # d # ds" by (cases t; cases "tl t") auto
  from 1 t obtain x y z w where v: "hex_val a = Some x" "x < 16" "hex_val b = Some y" "y < 16"
    "hex_val c = Some z" "z < 16" "hex_val d = Some w" "w < 16" using hex_val_lower by (metis list.set_intros)
  have "y = w" if "16 * x + y = 16 * z + w"
  proof -
    from that have "(16 * x + y) mod 16 = (16 * z + w) mod 16" by simp
    with v(4,8) show ?thesis by simp
  qed
  then have "16 * x + y = 16 * z + w \<longleftrightarrow> x = z \<and> y = w" by auto
  also have "\<dots> \<longleftrightarrow> lower_char a = lower_char c \<and> lower_char b = lower_char d"
    using hex_val_eq [of a c] hex_val_eq [of b d] 1 t v by auto
  finally show ?case using 1 t v by (auto simp: to_lower_def)
qed (auto simp: to_lower_def)

lemma hex_bytes_length: "\<forall>c \<in> set s. is_hex_char c \<Longrightarrow> length (hex_bytes s) = length s div 2"
proof (induction s rule: hex_bytes.induct)
  case (1 a b cs)
  then obtain x y where "hex_val a = Some x" "hex_val b = Some y"
    using hex_val_lower by (metis list.set_intros)
  with 1 show ?case by auto
qed auto

text \<open>
  A signature is accepted exactly when it is the HMAC of the payload in hexadecimal, in
  either case; in particular the header the dispatcher sends always verifies, and nothing that
  is not a 64-digit hexadecimal text does.
\<close>

theorem webhook_signature_sound_complete:
  assumes "\<And>k m. is_hex64 (hmac_sha256_hex p k m) \<and> to_lower (hmac_sha256_hex p k m) = hmac_sha256_hex p k m"
  shows "(verify_webhook_signature p payload sig secret \<longleftrightarrow>
      (\<exists>s. sig = JStr s \<and> is_hex64 s \<and> to_lower s = sign_payload p payload secret)) \<and>
    verify_webhook_signature p payload (JStr (sign_payload p payload secret)) secret"
proof -
  let ?e = "sign_payload p payload secret"
  have e: "is_hex64 ?e" "to_lower ?e = ?e" using assms by (simp_all add: sign_payload_def)
  have "verify_webhook_signature p payload (JStr s) secret \<longleftrightarrow> is_hex64 s \<and> to_lower s = ?e" for s
    using e hex_bytes_eq [of ?e s] hex_bytes_length [of s] hex_bytes_length [of ?e]
    by (auto simp: verify_webhook_signature_def Let_def is_hex64_def)
  with e show ?thesis by (cases sig) (auto simp: verify_webhook_signature_def)
qed

definition hook_toy :: "jsval \<Rightarrow> int hook_platform" where
  "hook_toy answer = agent_platform.extend agent_toy
     (hook_platform.fields (\<lambda>k m. replicate 64 (CHR ''5'')) (\<lambda>u b h w. (w + 5, Inr answer)))"

lemma hook_toy_simps [simp]:
  "hmac_sha256_hex (hook_toy v) k m = replicate 64 (CHR ''5'')" "http_post (hook_toy v) u b h w = (w + 5, Inr v)"
  "clock (hook_toy v) w = w"
  by (simp_all add: hook_toy_def hook_platform.defs agent_platform.defs agent_toy_def x402_platform.defs x402_toy_def
      sim_platform_def soroban.defs good_platform_def toy_platform_def platform.defs)

theorem webhook_signature_sound_complete_witness:
  "verify_webhook_signature (hook_toy JUndef) ''body'' (JStr (replicate 64 (CHR ''5''))) ''k'' \<and>
   \<not> verify_webhook_signature (hook_toy JUndef) ''body'' (JStr (replicate 64 (CHR ''6''))) ''k''"
proof -
  let ?p = "hook_toy JUndef"
  have h: "is_hex64 (hmac_sha256_hex ?p k m) \<and> to_lower (hmac_sha256_hex ?p k m) = hmac_sha256_hex ?p k m" for k m
    by (simp add: is_hex64_def is_hex_char_def is_digit_def ccode_def to_lower_def lower_char_def)
  have u: "is_hex64 (replicate 64 (CHR ''5''))" "to_lower (replicate 64 (CHR ''5'')) = sign_payload ?p ''body'' ''k''"
    "to_lower (replicate 64 (CHR ''6'')) \<noteq> sign_payload ?p ''body'' ''k''"
    by (simp_all add: is_hex64_def is_hex_char_def is_digit_def ccode_def to_lower_def lower_char_def sign_payload_def)
  have "verify_webhook_signature ?p ''body'' (JStr s) ''k'' \<longleftrightarrow> is_hex64 s \<and> to_lower s = sign_payload ?p ''body'' ''k''" for s
    using webhook_signature_sound_complete [OF h, of "''body''" "JStr s" "''k''"] by blast
  with u show ?thesis by blast
qed

section \<open>Properties of the delivery\<close>

text \<open>The delivery loop is a second instance of the retry contract.\<close>

type_synonym ('w, 'x, 'y) hook_state =
  "('w, 'x) hook_platform_scheme \<times> string \<times> string \<times> (string \<times> string) list \<times> int \<times> ('w, 'y) hook_run_scheme"

definition hook_go :: "nat \<Rightarrow> nat \<Rightarrow> ('w, 'x, 'y) hook_state \<Rightarrow> ('w, 'y) hook_run_scheme" where
  "hook_go k n x = (case x of (p, url, body, headers, initial, s) \<Rightarrow> deliver p url body headers initial k n s)"

definition hook_state_run :: "('w, 'x, 'y) hook_state \<Rightarrow> ('w, 'y) hook_run_scheme" where
  "hook_state_run x = (case x of (p, url, body, headers, initial, s) \<Rightarrow> s)"

definition hook_state_delay :: "('w, 'x, 'y) hook_state \<Rightarrow> nat \<Rightarrow> rat" where
  "hook_state_delay x = (case x of (p, url, body, headers, initial, s) \<Rightarrow> hook_delay initial)"

lemma post_once_frame:
  assumes "post_once p url body headers s = (s1, r)"
  shows "posts s1 = posts s @ [(url, body, headers)]" "hook_pauses s1 = hook_pauses s" "backoff s1 = backoff s"
  using assms by (auto simp: post_once_def outside_def andThen_const Let_def split: prod.splits sum.splits)

lemma note_hook_429_frame [simp]:
  "posts (note_hook_429 p v s) = posts s" "hook_pauses (note_hook_429 p v s) = hook_pauses s"
  by (simp_all add: note_hook_429_def)

interpretation hook_retry: retry_contract hook_go "\<lambda>x. True" "\<lambda>x. length (posts (hook_state_run x))"
  "\<lambda>x. hook_pauses (hook_state_run x)" "\<lambda>s. length (posts s)" hook_pauses hook_state_delay hook_state_delay
proof (unfold_locales, goal_cases)
  case (1 k x)
  show ?case by (cases x) (simp add: hook_go_def hook_state_run_def)
next
  case (2 k x)
  show ?case by (cases x) (simp add: hook_go_def hook_state_run_def)
next
  case (3 x k n)
  obtain p url body headers initial s where x: "x = (p, url, body, headers, initial, s)" by (cases x)
  obtain s1 r where post: "post_once p url body headers s = (s1, r)" by fastforce
  note f = post_once_frame [OF post]
  show ?case
  proof (cases r)
    case (Inr u)
    with x post f show ?thesis by (simp add: hook_go_def hook_state_run_def)
  next
    case (Inl e)
    let ?s2 = "note_hook_429 p (err_value e) s1"
    let ?s3 = "if n = 0 then ?s2 else hook_pause p (hook_delay initial k) ?s2"
    show ?thesis
    proof (cases "is_retryable_webhook_error (err_value e)")
      case False
      with x post Inl f show ?thesis by (simp add: hook_go_def hook_state_run_def Let_def)
    next
      case True
      then have "hook_go k (Suc n) x = hook_go (k + 1) n (p, url, body, headers, initial, ?s3)"
        using x post Inl by (simp add: hook_go_def Let_def)
      then show ?thesis using x f
        by (intro disjI2 exI [of _ "(p, url, body, headers, initial, ?s3)"]
            exI [of _ "if n = 0 then [] else [hook_delay initial k]"])
          (auto simp: hook_state_run_def hook_state_delay_def hook_pause_def)
    qed
  qed
qed

lemma deliver_posts:
  "\<exists>i \<le> n. posts (deliver p url body headers initial k n s) = posts s @ replicate i (url, body, headers)"
proof (induction n arbitrary: k s)
  case (Suc n)
  obtain s1 r where post: "post_once p url body headers s = (s1, r)" by fastforce
  note f = post_once_frame(1) [OF post]
  show ?case
  proof (cases "\<exists>e. r = Inl e \<and> is_retryable_webhook_error (err_value e)")
    case False
    with post f show ?thesis by (cases r) (auto simp: Let_def intro!: exI [of _ 1])
  next
    case True
    then obtain e where e: "r = Inl e" "is_retryable_webhook_error (err_value e)" by blast
    let ?s2 = "note_hook_429 p (err_value e) s1"
    let ?s3 = "if n = 0 then ?s2 else hook_pause p (hook_delay initial k) ?s2"
    from Suc.IH [of "k + 1" ?s3] obtain i where i: "i \<le> n"
      "posts (deliver p url body headers initial (k + 1) n ?s3) = posts ?s3 @ replicate i (url, body, headers)" by blast
    have "posts ?s3 = posts s @ [(url, body, headers)]" using f by (simp add: hook_pause_def)
    with i e post show ?thesis by (auto simp: Let_def intro!: exI [of _ "Suc i"])
  qed
qed simp

text \<open>
  A result is posted at most three times, every time the same body with the same headers to
  WEBHOOK\_URL, with at most two waits, of one and two seconds; the body is the JSON text of the
  result, signed over exactly those bytes when a secret is set. Without a URL nothing is sent.
\<close>

theorem webhook_delivery_bounded:
  "\<exists>batch ds. posts (dispatch_webhook p c r None None s) = posts s @ batch \<and> length batch \<le> 3 \<and>
     (\<forall>b \<in> set batch. \<exists>url body. WEBHOOK_URL c = Some url \<and>
        json_value (print_num p) (result_json r) = Inr (Some body) \<and> b = (url, body, hook_headers p c body)) \<and>
     hook_pauses (dispatch_webhook p c r None None s) = hook_pauses s @ ds \<and> length ds \<le> 2 \<and>
     (\<forall>k < length ds. ds ! k = 1000 * 2 ^ k)"
proof (cases "\<exists>url body. WEBHOOK_URL c = Some url \<and> url \<noteq> [] \<and>
    json_value (print_num p) (result_json r) = Inr (Some body)")
  case False
  have "dispatch_webhook p c r None None s = s"
    using False by (auto simp: dispatch_webhook_def split: option.splits sum.splits)
  then show ?thesis by simp
next
  case True
  then obtain url body where u: "WEBHOOK_URL c = Some url" "url \<noteq> []"
    "json_value (print_num p) (result_json r) = Inr (Some body)" by blast
  let ?h = "hook_headers p c body"
  have d: "dispatch_webhook p c r None None s = deliver p url body ?h 1000 1 3 s"
    using u by (simp add: dispatch_webhook_def)
  obtain i where i: "i \<le> 3" "posts (deliver p url body ?h 1000 1 3 s) = posts s @ replicate i (url, body, ?h)"
    using deliver_posts by blast
  from hook_retry.bounded [where s = "(p, url, body, ?h, 1000, s)" and k = 1 and n = 3] obtain ds where
    "hook_pauses (deliver p url body ?h 1000 1 3 s) = hook_pauses s @ ds" "length ds \<le> 2"
    "\<forall>k < length ds. hook_delay 1000 (1 + k) \<le> ds ! k \<and> ds ! k \<le> hook_delay 1000 (1 + k)"
    by (auto simp: hook_go_def hook_state_run_def hook_state_delay_def)
  with i d u show ?thesis
    by (intro exI [of _ "replicate i (url, body, ?h)"] exI [of _ ds]) (auto simp: hook_delay_def antisym)
qed

theorem webhook_delivery_bounded_witness:
  "length (posts (dispatch_webhook (hook_toy (JObj [(''status'', JNum (JFin 500))]))
       (sample_agent_config\<lparr>WEBHOOK_URL := Some ''https://hook''\<rparr>) (ok_result ''swap'' JUndef ''c1'') None None
       (sys.extend (initial_sys 0) (hook_run.fields [] [])))) \<le> 3"
proof -
  let ?s = "sys.extend (initial_sys 0) (hook_run.fields [] [])"
  have n: "posts ?s = []" by (simp add: sys.defs hook_run.defs)
  from webhook_delivery_bounded [of "hook_toy (JObj [(''status'', JNum (JFin 500))])"
      "sample_agent_config\<lparr>WEBHOOK_URL := Some ''https://hook''\<rparr>" "ok_result ''swap'' JUndef ''c1''" ?s]
  show ?thesis unfolding n append_Nil by blast
qed

text \<open>
  A webhook receiver that answers 429 stops the payments: the delivery sets the same lock
  the RPC client obeys, so afterwards every RPC attempt within the Retry-After time fails
  without being made.
\<close>

theorem webhook_429_locks_rpc:
  fixes s :: "('w, 'y) hook_run_scheme" and f :: "('w, 'y) hook_run_scheme \<Rightarrow> ('w, 'y) hook_run_scheme \<times> (js_error + 'a)"
  assumes "http_status v = JNum (JFin 429)" "note_hook_429 p v s = s'"
    and "now p t < now p s + 30000" "backoff t = backoff s'"
    and "field (field (field v ''response'') ''headers'') ''retry-after'' = JUndef"
  shows "attempt p f t = (t, Inl (RpcRateLimitErr 30))"
proof -
  have "backoff s' = handle_rate_limit_response (now p s) None (backoff s)"
    using assms(1,2,5) by (auto simp: note_hook_429_def as_string_def)
  with assms(3,4) have "is_throttled (now p t) (backoff t) = (backoff t, True)"
    by (simp add: handle_rate_limit_response_def wait_seconds_def is_throttled_def Let_def)
  then show ?thesis by (simp add: attempt_def)
qed


theorem webhook_429_locks_rpc_witness:
  "attempt (hook_toy JUndef) (\<lambda>s. (s, Inr ()))
     (note_hook_429 (hook_toy JUndef) (JObj [(''status'', JNum (JFin 429))]) (sys.extend (initial_sys 0) (hook_run.fields [] []))) =
   (note_hook_429 (hook_toy JUndef) (JObj [(''status'', JNum (JFin 429))]) (sys.extend (initial_sys 0) (hook_run.fields [] [])),
    Inl (RpcRateLimitErr 30))"
proof (rule webhook_429_locks_rpc)
  let ?v = "JObj [(''status'', JNum (JFin 429))]" and ?s = "sys.extend (initial_sys 0) (hook_run.fields [] [])"
  show st: "http_status ?v = JNum (JFin 429)" "field (field (field ?v ''response'') ''headers'') ''retry-after'' = JUndef"
    by (simp_all add: http_status_def coalesce_def nullish_def field_def obj_get_def)
  show "now (hook_toy JUndef) (note_hook_429 (hook_toy JUndef) ?v ?s) < now (hook_toy JUndef) ?s + 30000"
    by (simp add: note_hook_429_def now_def)
qed simp_all

end
