(* ===== verification/Operations.thy ===== *)
theory Operations imports Webhook begin

text \<open>
  What the tools that submit one transaction share: load the account, build the operations,
  sign, submit, parse the result. The platform gains the Horizon queries and XDR codecs those
  tools use; XDR is decoded by the SDK into the values given here.
\<close>

datatype op_outcome = NotInner | InnerOther | InnerSellOffer "string option"

record tx_outcome =
  to_success :: bool
  to_ops :: "op_outcome list"

text \<open>\<open>source_signature tx\<close> is None when no signature of the inner transaction carries the hint
  of its source, else whether that signature verifies under the agent's network passphrase;
  \<open>fee_bump_fault account fee inner\<close> is what the SDK throws when it builds such a fee bump.\<close>

record 'w tools_platform = "'w hook_platform" +
  strict_send_paths :: "asset \<Rightarrow> string \<Rightarrow> asset list \<Rightarrow> 'w \<Rightarrow> 'w \<times> (js_error + jsval list)"
  horizon_offer :: "string \<Rightarrow> 'w \<Rightarrow> 'w \<times> (js_error + jsval)"
  is_not_found :: "js_error \<Rightarrow> bool"
  decode_tx_result :: "string \<Rightarrow> tx_outcome option"
  decode_signature :: "string \<Rightarrow> js_error + string"
  decode_tx :: "string \<Rightarrow> js_error + envelope"
  source_signature :: "transaction \<Rightarrow> bool option"
  utf8_text :: "nat list \<Rightarrow> string"
  fee_bump_fault :: "string \<Rightarrow> string \<Rightarrow> transaction \<Rightarrow> js_error option"

definition asset_of :: "('w, 'x) platform_scheme \<Rightarrow> (string \<Rightarrow> js_error) \<Rightarrow> string \<Rightarrow> string option \<Rightarrow> js_error + asset" where
  "asset_of p missing code issuer =
     (if code = ''XLM'' then Inr Native
      else if issuer_missing issuer then Inl (missing code)
      else new_asset p code issuer)"

text \<open>The account given to the builder, the operations checked one after the other, the signed
  transaction handed over.\<close>

definition sign_and_submit ::
    "('w, 'x) platform_scheme \<Rightarrow> agent_config \<Rightarrow> string \<Rightarrow> operation list \<Rightarrow> memo option \<Rightarrow> int \<Rightarrow> account \<Rightarrow>
     ('w, 'y) sys_scheme \<Rightarrow> ('w, 'y) sys_scheme \<times> (js_error + submit_result)" where
  "sign_and_submit p c self ops m timeout a s =
     (case map_result (check_op p) ops of
        Inl e \<Rightarrow> (s, Inl e)
      | Inr ops' \<Rightarrow> (let (s', tx) = build_tx p base_fee ops' m timeout a s
                     in submit_and_parse p c (Envelope (sign_tx self tx)) s'))"

definition submit_ops ::
    "('w, 'x) platform_scheme \<Rightarrow> agent_config \<Rightarrow> string \<Rightarrow> bool \<Rightarrow> operation list \<Rightarrow> memo option \<Rightarrow> int \<Rightarrow>
     ('w, 'y) sys_scheme \<Rightarrow> ('w, 'y) sys_scheme \<times> (js_error + submit_result)" where
  "submit_ops p c self fresh ops m timeout s =
     andThen (load_account p c self fresh s) (\<lambda>s a. sign_and_submit p c self ops m timeout a s)"

definition result_fields :: "submit_result \<Rightarrow> (string \<times> jsval) list" where
  "result_fields r = [(''txHash'', JStr (sr_hash r)), (''ledger'', JNum (sr_ledger r))]"

section \<open>What these tools submit\<close>

definition ops_tx :: "string \<Rightarrow> operation list \<Rightarrow> transaction \<Rightarrow> bool" where
  "ops_tx self ops tx \<longleftrightarrow> tx_ops tx = ops \<and> tx_fee tx = base_fee \<and> tx_signatures tx = [SignedBy self]"

text \<open>Nothing, or one transaction of these operations, repeated by the retries of one submission.\<close>

definition one_tx :: "agent_config \<Rightarrow> (transaction \<Rightarrow> bool) \<Rightarrow> envelope list \<Rightarrow> bool" where
  "one_tx c P es \<longleftrightarrow> (\<exists>i tx. es = replicate i (Envelope tx) \<and> i \<le> nat (MAX_RETRIES c) \<and> (i = 0 \<or> P tx))"

lemma one_tx_Nil [simp]: "one_tx c P []"
  unfolding one_tx_def by (intro exI [of _ 0]) simp

lemma one_txD: "one_tx c P es \<Longrightarrow> env \<in> set es \<Longrightarrow> \<exists>tx. env = Envelope tx \<and> P tx"
  by (auto simp: one_tx_def)

lemma one_tx_mono: "one_tx c P es \<Longrightarrow> (\<And>tx. P tx \<Longrightarrow> Q tx) \<Longrightarrow> one_tx c Q es"
  unfolding one_tx_def by blast

lemma check_ops_same: "map_result (check_op p) ops = Inr ops' \<Longrightarrow> ops' = ops"
  by (induction ops arbitrary: ops')
    (auto simp: check_op_def bind_result_def split: option.splits sum.splits)

lemma submit_and_parse_one:
  fixes s :: "('w, 'y) sys_scheme"
  assumes "P tx" "submit_and_parse p c (Envelope tx) s = (s', r)"
  shows "\<exists>es. submissions s' = submissions s @ es \<and> one_tx c P es"
  using submit_and_parse_submissions [of c p "Envelope tx" s] assms unfolding one_tx_def
  by (metis fst_conv)

lemma build_tx_frame:
  assumes "build_tx p fee ops m t a s = (s', tx)"
  shows "submissions s' = submissions s" "tx_ops tx = ops" "tx_fee tx = fee" "tx_signatures tx = []" "tx_memo tx = m"
  using assms by (auto simp: build_tx_def)

lemma sign_and_submit_trace:
  fixes s :: "('w, 'y) sys_scheme"
  assumes "sign_and_submit p c self ops m t a s = (s', r)"
  shows "\<exists>es. submissions s' = submissions s @ es \<and> one_tx c (ops_tx self ops) es"
proof (cases "map_result (check_op p) ops")
  case (Inl e)
  with assms show ?thesis by (auto simp: sign_and_submit_def)
next
  case (Inr ops')
  obtain s1 tx where b: "build_tx p base_fee ops' m t a s = (s1, tx)" by fastforce
  note f = build_tx_frame [OF b]
  have "ops_tx self ops (sign_tx self tx)"
    using f check_ops_same [OF Inr] by (simp add: ops_tx_def sign_tx_def)
  moreover have "submit_and_parse p c (Envelope (sign_tx self tx)) s1 = (s', r)"
    using assms Inr b by (simp add: sign_and_submit_def)
  ultimately show ?thesis using submit_and_parse_one [of "ops_tx self ops"] f(1) by metis
qed

lemma submit_ops_trace:
  fixes s :: "('w, 'y) sys_scheme"
  assumes "submit_ops p c self fresh ops m t s = (s', r)"
  shows "\<exists>es. submissions s' = submissions s @ es \<and> one_tx c (ops_tx self ops) es"
proof -
  obtain s1 q where l: "load_account p c self fresh s = (s1, q)" by fastforce
  have s1: "submissions s1 = submissions s" using load_account_submissions [of p c self fresh s] l by simp
  show ?thesis
  proof (cases q)
    case (Inl e)
    with assms l s1 show ?thesis by (auto simp: submit_ops_def)
  next
    case (Inr a)
    with assms l have "sign_and_submit p c self ops m t a s1 = (s', r)" by (simp add: submit_ops_def)
    from sign_and_submit_trace [OF this] s1 show ?thesis by simp
  qed
qed

section \<open>Traces of composed calls\<close>

text \<open>What the call \<open>m\<close>, started in \<open>s\<close>, hands to Horizon satisfies \<open>Q\<close>.\<close>

definition sends :: "(envelope list \<Rightarrow> bool) \<Rightarrow> ('w, 'y) sys_scheme \<Rightarrow> ('w, 'y) sys_scheme \<times> 'a \<Rightarrow> bool" where
  "sends Q s m \<longleftrightarrow> (\<exists>es. submissions (fst m) = submissions s @ es \<and> Q es)"

named_theorems sends_intros

lemma sendsD: "sends Q s m \<Longrightarrow> m = (s', r) \<Longrightarrow> \<exists>es. submissions s' = submissions s @ es \<and> Q es"
  by (simp add: sends_def)

lemma sends_silent: "submissions (fst m) = submissions s \<Longrightarrow> Q [] \<Longrightarrow> sends Q s m"
  by (simp add: sends_def)

lemma sends_pure [sends_intros]: "Q [] \<Longrightarrow> sends Q s (s, r)"
  by (simp add: sends_silent)

lemma sends_frame: "submissions t = submissions s \<Longrightarrow> sends Q t m \<Longrightarrow> sends Q s m"
  by (simp add: sends_def)

lemma sends_andThen:
  assumes "submissions (fst m) = submissions s" "Q []" "\<And>t x. m = (t, Inr x) \<Longrightarrow> sends Q t (f t x)"
  shows "sends Q s (andThen m f)"
proof -
  obtain t r where m: "m = (t, r)" by fastforce
  show ?thesis
  proof (cases r)
    case (Inl e)
    with m assms(1,2) show ?thesis by (simp add: sends_silent)
  next
    case (Inr x)
    with m assms(1) sends_frame [of t s Q "f t x", OF _ assms(3)] show ?thesis by simp
  qed
qed

lemma sends_map_data [sends_intros]: "sends Q s m \<Longrightarrow> sends Q s (map_data g m)"
  by (auto simp: sends_def map_data_def split: prod.splits sum.splits)

lemma sends_mono: "sends Q s m \<Longrightarrow> (\<And>es. Q es \<Longrightarrow> R es) \<Longrightarrow> sends R s m"
  unfolding sends_def by blast

lemma outside_submissions [simp]: "submissions (fst (outside f s)) = submissions s"
  by (simp add: outside_def split: prod.splits)

lemma sends_sign_and_submit:
  fixes s :: "('w, 'y) sys_scheme"
  shows "sends (one_tx c (ops_tx self ops)) s (sign_and_submit p c self ops m t a s)"
proof -
  obtain s' r where "sign_and_submit p c self ops m t a s = (s', r)" by fastforce
  with sign_and_submit_trace [OF this] show ?thesis by (simp add: sends_def)
qed

lemma sends_submit_ops:
  fixes s :: "('w, 'y) sys_scheme"
  shows "sends (one_tx c (ops_tx self ops)) s (submit_ops p c self fresh ops m t s)"
proof -
  obtain s' r where "submit_ops p c self fresh ops m t s = (s', r)" by fastforce
  with submit_ops_trace [OF this] show ?thesis by (simp add: sends_def)
qed

text \<open>One payment-like operation, submitted with one reload.\<close>

definition reloaded :: "agent_config \<Rightarrow> string \<Rightarrow> operation \<Rightarrow> envelope list \<Rightarrow> bool" where
  "reloaded c self op es \<longleftrightarrow> (\<forall>env \<in> set es. payment_envelope self op env) \<and> length es \<le> 2 * nat (MAX_RETRIES c)"

lemma reloaded_Nil [simp]: "reloaded c self op []"
  by (simp add: reloaded_def)

lemma sends_reloaded:
  fixes s :: "('w, 'y) sys_scheme"
  shows "sends (reloaded c self op) s (submit_with_reload p c self (build_payment p self op mty mem t) s)"
proof -
  have e: "payment_envelope self op (Envelope \<lparr>tx_source = [], tx_sequence = 0, tx_fee = base_fee, tx_ops = [op],
      tx_memo = None, tx_min_time = 0, tx_max_time = 0, tx_signatures = [SignedBy self]\<rparr>)"
    by (simp add: payment_envelope_def)
  have "\<exists>es. submissions (fst (submit_with_reload p c self (build_payment p self op mty mem t) s)) = submissions s @ es \<and>
      two_rounds (nat (MAX_RETRIES c)) (payment_envelope self op) es"
    by (rule submit_with_reload_trace [OF build_payment_envelope e])
  then show ?thesis by (auto simp: sends_def reloaded_def two_rounds_def)
qed

end
