(* ===== verification/Accounts.thy ===== *)
theory Accounts imports Operations begin

text \<open>
  The tools around one account: backend/tools/BalanceCheckTool.ts, TrustlineTool.ts,
  AccountInfoTool.ts, DataEntryTool.ts, InflationTool.ts and SequenceNumberTool.ts.
\<close>

section \<open>BalanceCheckTool\<close>

record balance_check_input =
  bc_public_key :: string
  bc_asset_issuer :: string
  bc_asset_code :: "string option"

definition balance_check_schema :: "('w, 'x) platform_scheme \<Rightarrow> jsval \<Rightarrow> balance_check_input option" where
  "balance_check_schema p v = do {
     _ \<leftarrow> z_obj v;
     pk \<leftarrow> z_check (valid_ed25519 p) (map_option trim (z_str (field v ''publicKey'')));
     issuer \<leftarrow> z_check (valid_ed25519 p) (map_option trim (z_str (field v ''assetIssuer'')));
     code \<leftarrow> z_opt (\<lambda>w. z_check (\<lambda>t. 1 \<le> length t) (map_option trim (z_str w))) (field v ''assetCode'');
     Some \<lparr>bc_public_key = pk, bc_asset_issuer = issuer, bc_asset_code = code\<rparr>
   }"

definition is_line_of :: "string \<Rightarrow> string \<Rightarrow> balance \<Rightarrow> bool" where
  "is_line_of code issuer b \<longleftrightarrow> b_asset_type b \<noteq> ''native'' \<and> b_asset_code b = code \<and> b_asset_issuer b = issuer"

definition line_balance :: "string option \<Rightarrow> string \<Rightarrow> account \<Rightarrow> string" where
  "line_balance code issuer a = (case code of None \<Rightarrow> ''0'' | Some code \<Rightarrow>
     (case find (is_line_of code issuer) (balances a) of Some l \<Rightarrow> b_balance l | None \<Rightarrow> ''0''))"

definition balance_check_execute ::
    "('w, 'x) platform_scheme \<Rightarrow> agent_config \<Rightarrow> jsval \<Rightarrow> ('w, 'y) sys_scheme \<Rightarrow>
     ('w, 'y) sys_scheme \<times> (js_error + string)" where
  "balance_check_execute p c v s =
     andThen (s, or_zod (balance_check_schema p v)) (\<lambda>s i.
     andThen (load_account p c (bc_public_key i) False s) (\<lambda>s a.
       (s, Inr (line_balance (bc_asset_code i) (bc_asset_issuer i) a))))"

section \<open>TrustlineTool\<close>

record trustline_input =
  tl_code :: string
  tl_issuer :: string
  tl_action :: string
  tl_limit :: "string option"

definition trustline_schema :: "('w, 'x) platform_scheme \<Rightarrow> jsval \<Rightarrow> trustline_input option" where
  "trustline_schema p v = do {
     _ \<leftarrow> z_obj v;
     code \<leftarrow> z_check (\<lambda>t. 1 \<le> length t \<and> length t \<le> 12) (z_str (field v ''assetCode''));
     issuer \<leftarrow> z_check (\<lambda>t. length t = 56 \<and> valid_ed25519 p t) (z_str (field v ''assetIssuer''));
     act \<leftarrow> z_enum [''add'', ''remove''] (field v ''action'');
     lim \<leftarrow> z_opt z_str (field v ''limit'');
     Some \<lparr>tl_code = code, tl_issuer = issuer, tl_action = act, tl_limit = lim\<rparr>
   }"

definition check_trustline ::
    "('w, 'x) platform_scheme \<Rightarrow> agent_config \<Rightarrow> string \<Rightarrow> string \<Rightarrow> string \<Rightarrow> ('w, 'y) sys_scheme \<Rightarrow>
     ('w, 'y) sys_scheme \<times> (js_error + bool)" where
  "check_trustline p c self code issuer s =
     andThen (load_account p c self False s) (\<lambda>s a. (s, Inr (\<exists>b \<in> set (balances a). is_line_of code issuer b)))"

text \<open>The limit of the operation: 0 to remove, the given one unless it is empty, else the SDK's.\<close>

definition trust_limit :: "trustline_input \<Rightarrow> string option" where
  "trust_limit i = (if tl_action i = ''remove'' then Some ''0''
     else (case tl_limit i of Some l \<Rightarrow> if l = [] then None else Some l | None \<Rightarrow> None))"

definition balance_left_error :: "string \<Rightarrow> js_error" where
  "balance_left_error code = validation_error (''Cannot remove trustline: non-zero balance of '' @ code) JUndef"

definition removal_check ::
    "('w, 'x) platform_scheme \<Rightarrow> agent_config \<Rightarrow> string \<Rightarrow> trustline_input \<Rightarrow> ('w, 'y) sys_scheme \<Rightarrow>
     ('w, 'y) sys_scheme \<times> (js_error + unit)" where
  "removal_check p c self i s =
     (if tl_action i = ''remove'' then
        andThen (balance_check_execute p c (JObj [(''publicKey'', JStr self), (''assetCode'', JStr (tl_code i)),
            (''assetIssuer'', JStr (tl_issuer i))]) s) (\<lambda>s b.
          (s, if js_less (JFin 0) (number_of_string b) then Inl (balance_left_error (tl_code i)) else Inr ()))
      else (s, Inr ()))"

definition trustline_execute ::
    "('w, 'x) platform_scheme \<Rightarrow> agent_config \<Rightarrow> string \<Rightarrow> jsval \<Rightarrow> ('w, 'y) sys_scheme \<Rightarrow>
     ('w, 'y) sys_scheme \<times> (js_error + submit_result)" where
  "trustline_execute p c self v s =
     andThen (s, or_zod (trustline_schema p v)) (\<lambda>s i.
     andThen (s, new_asset p (tl_code i) (Some (tl_issuer i))) (\<lambda>s ast.
     andThen (load_account p c self False s) (\<lambda>s a.
     andThen (removal_check p c self i s) (\<lambda>s u.
       sign_and_submit p c self [OpChangeTrust ast (trust_limit i)] None 30 a s))))"

section \<open>AccountInfoTool\<close>

definition account_info_fetch ::
    "('w, 'x) platform_scheme \<Rightarrow> agent_config \<Rightarrow> ('w, 'y) sys_scheme \<Rightarrow> ('w, 'y) sys_scheme \<times> (js_error + jsval)" where
  "account_info_fetch p c s =
     andThen (load_account p c (AGENT_PUBLIC_KEY c) False s) (\<lambda>s a.
       (s, Inr (JObj [(''publicKey'', JStr (AGENT_PUBLIC_KEY c)),
          (''balances'', JArr (map (\<lambda>b. JObj [(''asset'', JStr (if b_asset_type b = ''native'' then ''XLM''
               else b_asset_code b @ '':'' @ b_asset_issuer b)), (''balance'', JStr (b_balance b))]) (balances a))),
          (''sequenceNumber'', JStr (int_str (sequence_number a))),
          (''subentryCount'', JNum (JFin (of_int (subentry_count a))))])))"

section \<open>DataEntryTool\<close>

datatype data_entry_input =
    DataSet string string
  | DataDelete string
  | DataGet string "string option"

text \<open>An optional account id, shared by the tools that read an account.\<close>

definition z_account :: "('w, 'x) platform_scheme \<Rightarrow> jsval \<Rightarrow> string option" where
  "z_account p v = z_check (\<lambda>t. length t = 56 \<and> valid_ed25519 p t) (z_str v)"

definition data_name :: "jsval \<Rightarrow> string option" where
  "data_name v = z_check (\<lambda>t. 1 \<le> length t \<and> length t \<le> 64) (z_str (field v ''name''))"

definition data_entry_schema :: "('w, 'x) platform_scheme \<Rightarrow> jsval \<Rightarrow> data_entry_input option" where
  "data_entry_schema p v =
     (if field v ''action'' = JStr ''set'' then do {
        n \<leftarrow> data_name v;
        w \<leftarrow> z_check (\<lambda>t. length t \<le> 64) (z_str (field v ''value''));
        Some (DataSet n w) }
      else if field v ''action'' = JStr ''delete'' then map_option DataDelete (data_name v)
      else if field v ''action'' = JStr ''get'' then do {
        n \<leftarrow> data_name v;
        a \<leftarrow> z_opt (z_account p) (field v ''accountId'');
        Some (DataGet n a) }
      else None)"

text \<open>\<open>Buffer.from(s, 'base64')\<close>: characters outside the alphabet are skipped, padding ends it.\<close>

definition base64_val :: "char \<Rightarrow> nat option" where
  "base64_val ch = (let n = ccode ch in
     if 65 \<le> n \<and> n \<le> 90 then Some (n - 65)
     else if 97 \<le> n \<and> n \<le> 122 then Some (n - 71)
     else if 48 \<le> n \<and> n \<le> 57 then Some (n + 4)
     else if n = 43 \<or> n = 45 then Some 62
     else if n = 47 \<or> n = 95 then Some 63 else None)"

fun sextet_bytes :: "nat list \<Rightarrow> nat list" where
  "sextet_bytes (a # b # c # d # xs) =
     (4 * a + b div 16) # (16 * (b mod 16) + c div 4) # (64 * (c mod 4) + d) # sextet_bytes xs"
| "sextet_bytes [a, b, c] = [4 * a + b div 16, 16 * (b mod 16) + c div 4]"
| "sextet_bytes [a, b] = [4 * a + b div 16]"
| "sextet_bytes xs = []"

definition base64_bytes :: "string \<Rightarrow> nat list" where
  "base64_bytes t = sextet_bytes (List.map_filter base64_val (takeWhile (\<lambda>ch. ch \<noteq> CHR ''='') t))"

definition bytes_hex :: "nat list \<Rightarrow> string" where
  "bytes_hex bs = concat (map (\<lambda>b. [hex_digit_char (b div 16), hex_digit_char (b mod 16)]) bs)"

definition data_entry_get ::
    "('w, 'x) tools_platform_scheme \<Rightarrow> agent_config \<Rightarrow> string \<Rightarrow> string \<Rightarrow> string option \<Rightarrow> ('w, 'y) sys_scheme \<Rightarrow>
     ('w, 'y) sys_scheme \<times> (js_error + jsval)" where
  "data_entry_get p c self n acc s =
     (let target = (case acc of None \<Rightarrow> self | Some k \<Rightarrow> k) in
      andThen (load_account p c target False s) (\<lambda>s a.
        (s, Inr (case map_of (data_attr a) n of
             None \<Rightarrow> JObj [(''name'', JStr n), (''accountId'', JStr target), (''exists'', JBool False), (''value'', JNull)]
           | Some raw \<Rightarrow>
               (let buf = base64_bytes raw; txt = utf8_text p buf in
                JObj [(''name'', JStr n), (''accountId'', JStr target), (''exists'', JBool True), (''value'', JStr txt),
                  (''utf8'', JStr txt), (''hex'', JStr (bytes_hex buf)), (''rawBase64'', JStr raw)])))))"

definition data_mutation :: "string \<Rightarrow> string \<Rightarrow> submit_result \<Rightarrow> jsval" where
  "data_mutation n act r = JObj (result_fields r @ [(''name'', JStr n), (''action'', JStr act)])"

definition data_entry_execute ::
    "('w, 'x) tools_platform_scheme \<Rightarrow> agent_config \<Rightarrow> string \<Rightarrow> jsval \<Rightarrow> ('w, 'y) sys_scheme \<Rightarrow>
     ('w, 'y) sys_scheme \<times> (js_error + jsval)" where
  "data_entry_execute p c self v s =
     andThen (s, or_zod (data_entry_schema p v)) (\<lambda>s i.
       case i of
         DataGet n acc \<Rightarrow> data_entry_get p c self n acc s
       | DataSet n w \<Rightarrow> map_data (data_mutation n ''set'') (submit_ops p c self False [OpManageData n (Some w)] None 30 s)
       | DataDelete n \<Rightarrow> map_data (data_mutation n ''delete'') (submit_ops p c self False [OpManageData n None] None 30 s))"

section \<open>InflationTool\<close>

definition inflation_get ::
    "('w, 'x) platform_scheme \<Rightarrow> agent_config \<Rightarrow> string \<Rightarrow> string option \<Rightarrow> ('w, 'y) sys_scheme \<Rightarrow>
     ('w, 'y) sys_scheme \<times> (js_error + jsval)" where
  "inflation_get p c self acc s =
     (let target = (case acc of None \<Rightarrow> self | Some k \<Rightarrow> k) in
      andThen (load_account p c target False s) (\<lambda>s a.
        (s, Inr (JObj [(''action'', JStr ''get''), (''accountId'', JStr target),
           (''inflationDestination'', case inflation_destination a of None \<Rightarrow> JNull | Some d \<Rightarrow> JStr d),
           (''isSet'', JBool (inflation_destination a \<noteq> None))]))))"

definition inflation_set ::
    "('w, 'x) platform_scheme \<Rightarrow> agent_config \<Rightarrow> string \<Rightarrow> string \<Rightarrow> ('w, 'y) sys_scheme \<Rightarrow>
     ('w, 'y) sys_scheme \<times> (js_error + jsval)" where
  "inflation_set p c self dest s =
     map_data (\<lambda>r. JObj ([(''action'', JStr ''set'')] @ result_fields r @ [(''inflationDestination'', JStr dest)]))
       (submit_ops p c self False [OpSetInflationDest dest] None 30 s)"

text \<open>The two alternatives of the schema: Inl the account to read, Inr the destination to set.\<close>

definition inflation_schema :: "('w, 'x) platform_scheme \<Rightarrow> jsval \<Rightarrow> (string option + string) option" where
  "inflation_schema p v =
     (if field v ''action'' = JStr ''set'' then map_option Inr (z_account p (field v ''inflationDestination''))
      else if field v ''action'' = JStr ''get'' then map_option Inl (z_opt (z_account p) (field v ''accountId''))
      else None)"

definition inflation_execute ::
    "('w, 'x) platform_scheme \<Rightarrow> agent_config \<Rightarrow> string \<Rightarrow> jsval \<Rightarrow> ('w, 'y) sys_scheme \<Rightarrow>
     ('w, 'y) sys_scheme \<times> (js_error + jsval)" where
  "inflation_execute p c self v s =
     andThen (s, or_zod (inflation_schema p v)) (\<lambda>s i.
       case i of Inl acc \<Rightarrow> inflation_get p c self acc s | Inr dest \<Rightarrow> inflation_set p c self dest s)"

section \<open>SequenceNumberTool\<close>

text \<open>\<open>String(v)\<close> of a positive integer, a big integer or a non-empty string.\<close>

definition bump_target :: "('w, 'x) platform_scheme \<Rightarrow> jsval \<Rightarrow> string option" where
  "bump_target p v =
     (case v of
        JStr t \<Rightarrow> if t = [] then None else Some t
      | JBig i \<Rightarrow> Some (int_str i)
      | _ \<Rightarrow> (case z_int v of Some i \<Rightarrow> if 0 < i then Some (num_text (print_num p) (JFin (of_int i))) else None
             | None \<Rightarrow> None))"

definition sequence_schema :: "('w, 'x) platform_scheme \<Rightarrow> jsval \<Rightarrow> (string option + string) option" where
  "sequence_schema p v =
     (if field v ''action'' = JStr ''get'' then map_option Inl (z_opt (z_account p) (field v ''accountId''))
      else if field v ''action'' = JStr ''bump'' then map_option Inr (bump_target p (field v ''bumpTo''))
      else None)"

definition sequence_get ::
    "('w, 'x) platform_scheme \<Rightarrow> agent_config \<Rightarrow> string \<Rightarrow> string option \<Rightarrow> ('w, 'y) sys_scheme \<Rightarrow>
     ('w, 'y) sys_scheme \<times> (js_error + jsval)" where
  "sequence_get p c self acc s =
     (let target = (case acc of None \<Rightarrow> self | Some k \<Rightarrow> k) in
      andThen (load_account p c target True s) (\<lambda>s a.
        (s, Inr (JObj [(''accountId'', JStr target), (''sequence'', JStr (int_str (sequence_number a)))]))))"

definition sequence_bump ::
    "('w, 'x) platform_scheme \<Rightarrow> agent_config \<Rightarrow> string \<Rightarrow> string \<Rightarrow> ('w, 'y) sys_scheme \<Rightarrow>
     ('w, 'y) sys_scheme \<times> (js_error + jsval)" where
  "sequence_bump p c self to s =
     map_data (\<lambda>r. JObj (result_fields r @ [(''bumpedTo'', JStr to), (''sequence'', JStr to)]))
       (submit_ops p c self True [OpBumpSequence to] None 30 s)"

definition sequence_execute ::
    "('w, 'x) platform_scheme \<Rightarrow> agent_config \<Rightarrow> string \<Rightarrow> jsval \<Rightarrow> ('w, 'y) sys_scheme \<Rightarrow>
     ('w, 'y) sys_scheme \<times> (js_error + jsval)" where
  "sequence_execute p c self v s =
     andThen (s, or_zod (sequence_schema p v)) (\<lambda>s i.
       case i of Inl acc \<Rightarrow> sequence_get p c self acc s | Inr to \<Rightarrow> sequence_bump p c self to s)"

end
