(* ===== verification/Trading.thy ===== *)
theory Trading imports Accounts begin

text \<open>
  backend/tools/PathPaymentTool.ts, SwapTool.ts and DexOfferTool.ts. The path payment
  tool has a memo builder of its own, which agrees with the payment tool's.
\<close>

section \<open>PathPaymentTool\<close>

record asset_input =
  ai_code :: string
  ai_issuer :: "string option"

definition asset_schema :: "jsval \<Rightarrow> asset_input option" where
  "asset_schema v = do {
     _ \<leftarrow> z_obj v;
     code \<leftarrow> z_str (field v ''code'');
     issuer \<leftarrow> z_opt z_str (field v ''issuer'');
     Some \<lparr>ai_code = code, ai_issuer = issuer\<rparr>
   }"

record path_payment_input =
  pp_destination :: string
  pp_send_asset :: asset_input
  pp_send_amount :: string
  pp_dest_asset :: asset_input
  pp_dest_min :: string
  pp_path :: "asset_input list"
  pp_allow_self :: bool
  pp_memo_type :: string
  pp_memo :: "memo_value option"

definition path_payment_schema :: "jsval \<Rightarrow> path_payment_input option" where
  "path_payment_schema v = do {
     _ \<leftarrow> z_obj v;
     dest \<leftarrow> z_check (\<lambda>t. length t = 56) (z_str (field v ''destination''));
     sa \<leftarrow> asset_schema (field v ''sendAsset'');
     amt \<leftarrow> z_check amount_ok (z_str (field v ''sendAmount''));
     da \<leftarrow> asset_schema (field v ''destAsset'');
     dmin \<leftarrow> z_check amount_ok (z_str (field v ''destMinAmount''));
     pth \<leftarrow> z_def [] (z_arr asset_schema) (field v ''path'');
     allow \<leftarrow> z_def False z_bool (field v ''allowSelfPayment'');
     mty \<leftarrow> z_def ''text'' (z_enum memo_types) (field v ''memoType'');
     mem \<leftarrow> z_opt z_memo (field v ''memo'');
     Some \<lparr>pp_destination = dest, pp_send_asset = sa, pp_send_amount = amt, pp_dest_asset = da,
       pp_dest_min = dmin, pp_path = pth, pp_allow_self = allow, pp_memo_type = mty, pp_memo = mem\<rparr>
   }"

definition to_asset :: "('w, 'x) platform_scheme \<Rightarrow> asset_input \<Rightarrow> js_error + asset" where
  "to_asset p a = asset_of p issuer_required_error (ai_code a) (ai_issuer a)"

text \<open>The tool's own \<open>buildMemo\<close>: no value is no memo.\<close>

definition path_hex_memo :: "string \<Rightarrow> memo_value \<Rightarrow> js_error + string" where
  "path_hex_memo kind v =
     (case v of
        MemoNumber n \<Rightarrow> Inl (plain (''Memo '' @ kind @ '' must be a string''))
      | MemoString s \<Rightarrow>
          (let h = (if starts_with s ''0x'' then drop 2 s else s) in
           if length h \<noteq> 64 then Inl (plain (''Memo '' @ kind @ '' must be a 32-byte hex string (64 hex characters)''))
           else if \<not> (\<forall>ch \<in> set h. is_hex_char ch) then Inl (plain (''Memo '' @ kind @ '' must contain only valid hex characters''))
           else Inr h))"

definition path_build_memo :: "string \<Rightarrow> memo_value option \<Rightarrow> js_error + memo option" where
  "path_build_memo ty memo_value =
     (case memo_value of
        None \<Rightarrow> Inr None
      | Some v \<Rightarrow>
          if ty = ''id'' then
            (case v of
               MemoString s \<Rightarrow> Inl (plain ''Memo ID must be a number'')
             | MemoNumber (JFin r) \<Rightarrow>
                 if r \<noteq> of_int \<lfloor>r\<rfloor> then Inl (RangeErr ''The number cannot be converted to a BigInt'')
                 else if \<lfloor>r\<rfloor> < 0 \<or> 18446744073709551615 < \<lfloor>r\<rfloor>
                   then Inl (plain ''Memo ID must be a 64-bit unsigned integer (0 to 2^64-1)'')
                 else Inr (Some (MemoId (nat_str (nat \<lfloor>r\<rfloor>))))
             | MemoNumber n \<Rightarrow> Inl (RangeErr ''The number cannot be converted to a BigInt''))
          else if ty = ''hash'' then map_sum id (\<lambda>h. Some (MemoHash h)) (path_hex_memo ''hash'' v)
          else if ty = ''return'' then map_sum id (\<lambda>h. Some (MemoReturn h)) (path_hex_memo ''return'' v)
          else
            (case v of
               MemoNumber n \<Rightarrow> Inl (plain ''Memo text must be a string'')
             | MemoString s \<Rightarrow>
                 if 28 < utf8_length s then Inl (plain ''Memo text must be at most 28 bytes'') else Inr (Some (MemoText s))))"

lemma path_hex_memo_agrees: "path_hex_memo kind v = hash_memo_value kind v"
  by (simp add: path_hex_memo_def hash_memo_value_def strip_0x_def is_hex64_def Let_def split: memo_value.split)

text \<open>So the payment below, which is built like the payment tool's, carries the memo this builder makes.\<close>

lemma path_build_memo_agrees:
  "path_build_memo ty m = (case m of None \<Rightarrow> Inr None | Some v \<Rightarrow> map_sum id Some (build_memo ty v))"
proof (cases m)
  case (Some v)
  then show ?thesis
    by (cases v; cases "hash_memo_value ''hash'' v"; cases "hash_memo_value ''return'' v")
      (auto simp: path_build_memo_def build_memo_def path_hex_memo_agrees max_uint64_def split: jsnum.split)
qed (simp add: path_build_memo_def)

text \<open>One step of a path Horizon found.\<close>

definition string_or :: "jsval \<Rightarrow> jsval \<Rightarrow> string option" where
  "string_or a b = as_string (js_or a b)"

definition step_asset :: "('w, 'x) platform_scheme \<Rightarrow> jsval \<Rightarrow> js_error + asset" where
  "step_asset p v =
     (if field v ''asset_type'' = JStr ''native'' \<or> field v ''code'' = JStr ''XLM'' then Inr Native
      else new_asset p (case string_or (field v ''asset_code'') (field v ''code'') of Some t \<Rightarrow> t | None \<Rightarrow> [])
             (string_or (field v ''asset_issuer'') (field v ''issuer'')))"

text \<open>An empty path is filled from Horizon's best one.\<close>

definition resolve_path ::
    "('w, 'x) tools_platform_scheme \<Rightarrow> asset \<Rightarrow> string \<Rightarrow> asset \<Rightarrow> asset list \<Rightarrow> ('w, 'y) sys_scheme \<Rightarrow>
     ('w, 'y) sys_scheme \<times> (js_error + asset list)" where
  "resolve_path p sa amt da path s =
     (if path \<noteq> [] then (s, Inr path)
      else andThen (outside (strict_send_paths p sa amt [da]) s) (\<lambda>s records.
             case records of
               [] \<Rightarrow> (s, Inl (validation_error ''No path found between assets'' JUndef))
             | best # rest \<Rightarrow> (s, (case field best ''path'' of JArr steps \<Rightarrow> map_result (step_asset p) steps
                                   | _ \<Rightarrow> Inr path))))"

definition path_payment_execute ::
    "('w, 'x) tools_platform_scheme \<Rightarrow> agent_config \<Rightarrow> string \<Rightarrow> jsval \<Rightarrow> ('w, 'y) sys_scheme \<Rightarrow>
     ('w, 'y) sys_scheme \<times> (js_error + submit_result)" where
  "path_payment_execute p c self v s =
     andThen (s, or_zod (path_payment_schema v)) (\<lambda>s i.
       if \<not> pp_allow_self i \<and> pp_destination i = self then (s, Inl self_payment_error)
       else andThen (s, to_asset p (pp_send_asset i)) (\<lambda>s sa.
            andThen (s, to_asset p (pp_dest_asset i)) (\<lambda>s da.
            andThen (s, map_result (to_asset p) (pp_path i)) (\<lambda>s pth.
            andThen (resolve_path p sa (pp_send_amount i) da pth s) (\<lambda>s pth'.
              submit_with_reload p c self
                (build_payment p self
                   (OpPathPaymentStrictSend sa (pp_send_amount i) (pp_destination i) da (pp_dest_min i) pth')
                   (pp_memo_type i) (pp_memo i) 30) s)))))"

section \<open>SwapTool\<close>

record swap_input =
  sw_sell_asset :: asset_input
  sw_buy_asset :: asset_input
  sw_sell_amount :: string
  sw_slippage :: jsnum

definition swap_schema :: "jsval \<Rightarrow> swap_input option" where
  "swap_schema v = do {
     _ \<leftarrow> z_obj v;
     sell \<leftarrow> asset_schema (field v ''sellAsset'');
     buy \<leftarrow> asset_schema (field v ''buyAsset'');
     amt \<leftarrow> z_check amount_ok (z_str (field v ''sellAmount''));
     slip \<leftarrow> z_check (\<lambda>n. js_leq (JFin 0) n \<and> js_leq n (JFin 100)) (z_num (field v ''maxSlippagePct''));
     Some \<lparr>sw_sell_asset = sell, sw_buy_asset = buy, sw_sell_amount = amt, sw_slippage = slip\<rparr>
   }"

definition swap_asset :: "('w, 'x) platform_scheme \<Rightarrow> asset_input \<Rightarrow> js_error + asset" where
  "swap_asset p a = asset_of p (\<lambda>code. validation_error (''Asset issuer is required for non-native asset '' @ code) JUndef)
     (ai_code a) (ai_issuer a)"

definition path_step_input :: "jsval \<Rightarrow> jsval" where
  "path_step_input v =
     (if field v ''asset_type'' = JStr ''native'' then JObj [(''code'', JStr ''XLM'')]
      else JObj ((''code'', field v ''asset_code'') #
             (if truthy (field v ''asset_issuer'') then [(''issuer'', field v ''asset_issuer'')] else [])))"

definition destination_amount :: "jsval \<Rightarrow> jsnum" where
  "destination_amount v = (case field v ''destination_amount'' of JStr t \<Rightarrow> parse_float t | _ \<Rightarrow> JNaN)"

text \<open>\<open>Math.max(...xs)\<close> and \<open>Math.min(...xs)\<close>.\<close>

definition js_max_list :: "jsnum list \<Rightarrow> jsnum" where
  "js_max_list xs = foldl js_max (JInf False) xs"

definition js_min_list :: "jsnum list \<Rightarrow> jsnum" where
  "js_min_list xs = foldl js_min (JInf True) xs"

fun best_record :: "jsval \<Rightarrow> jsval list \<Rightarrow> jsval" where
  "best_record b [] = b"
| "best_record b (v # vs) =
     best_record (if js_less (destination_amount b) (destination_amount v) then v else b) vs"

definition deviation_pct :: "jsnum \<Rightarrow> jsnum \<Rightarrow> jsnum" where
  "deviation_pct best worst = js_mul (js_div (js_sub best worst) best) (JFin 100)"

text \<open>\<open>x.toFixed(f)\<close>: exponent notation from \<open>10 ^ 21\<close> on.\<close>

definition num_to_fixed :: "(rat \<Rightarrow> string) \<Rightarrow> nat \<Rightarrow> jsnum \<Rightarrow> string" where
  "num_to_fixed num f n = (case n of JFin x \<Rightarrow> if 10 ^ 21 \<le> \<bar>x\<bar> then num x else to_fixed f x | _ \<Rightarrow> num_text num n)"

definition dest_min_amount :: "(rat \<Rightarrow> string) \<Rightarrow> jsnum \<Rightarrow> jsnum \<Rightarrow> string" where
  "dest_min_amount num best slip = num_to_fixed num 7 (js_mul best (js_sub (JFin 1) (js_div slip (JFin 100))))"

definition slippage_error :: "(rat \<Rightarrow> string) \<Rightarrow> jsnum \<Rightarrow> jsnum \<Rightarrow> js_error" where
  "slippage_error num dev slip = validation_error (''Slippage deviation '' @ num_to_fixed num 2 dev @
     ''% exceeds tolerance '' @ num_text num slip @ ''%'') JUndef"

text \<open>The path payment a swap asks for.\<close>

definition swap_payment :: "string \<Rightarrow> jsval \<Rightarrow> string \<Rightarrow> jsval \<Rightarrow> jsval" where
  "swap_payment self v dmin best =
     JObj [(''destination'', JStr self), (''sendAsset'', field v ''sellAsset''),
       (''sendAmount'', field v ''sellAmount''), (''destAsset'', field v ''buyAsset''),
       (''destMinAmount'', JStr dmin),
       (''path'', case field best ''path'' of JArr steps \<Rightarrow> JArr (map path_step_input steps) | w \<Rightarrow> w),
       (''allowSelfPayment'', JBool True)]"

definition swap_execute ::
    "('w, 'x) tools_platform_scheme \<Rightarrow> agent_config \<Rightarrow> string \<Rightarrow> jsval \<Rightarrow> ('w, 'y) sys_scheme \<Rightarrow>
     ('w, 'y) sys_scheme \<times> (js_error + submit_result)" where
  "swap_execute p c self v s =
     andThen (s, or_zod (swap_schema v)) (\<lambda>s i.
     andThen (s, swap_asset p (sw_sell_asset i)) (\<lambda>s sell.
     andThen (s, swap_asset p (sw_buy_asset i)) (\<lambda>s buy.
     andThen (outside (strict_send_paths p sell (sw_sell_amount i) [buy]) s) (\<lambda>s records.
       case records of
         [] \<Rightarrow> (s, Inl (validation_error ''No swap path found for the requested assets'' JUndef))
       | r # rs \<Rightarrow>
           (let amounts = map destination_amount records;
                best = js_max_list amounts; worst = js_min_list amounts;
                dev = deviation_pct best worst
            in if js_leq best (JFin 0) then (s, Inl (validation_error ''Swap path returned zero destination amount'' JUndef))
               else if js_less (sw_slippage i) dev then (s, Inl (slippage_error (print_num p) dev (sw_slippage i)))
               else path_payment_execute p c self
                      (swap_payment self v (dest_min_amount (print_num p) best (sw_slippage i)) (best_record r rs)) s)))))"

section \<open>DexOfferTool\<close>

record dex_offer_input =
  do_action :: string
  do_selling :: asset_input
  do_buying :: asset_input
  do_amount :: string
  do_price :: string
  do_offer_id :: "memo_value option"

text \<open>\<open>/^\d+(\.\d+)?$/\<close>.\<close>

definition price_ok :: "string \<Rightarrow> bool" where
  "price_ok t \<longleftrightarrow> takeWhile is_digit t \<noteq> [] \<and>
     (case dropWhile is_digit t of [] \<Rightarrow> True
      | d # f \<Rightarrow> d = CHR ''.'' \<and> f \<noteq> [] \<and> (\<forall>ch \<in> set f. is_digit ch))"

definition dex_offer_schema :: "jsval \<Rightarrow> dex_offer_input option" where
  "dex_offer_schema v = do {
     _ \<leftarrow> z_obj v;
     act \<leftarrow> z_enum [''create'', ''update'', ''delete''] (field v ''action'');
     sell \<leftarrow> asset_schema (field v ''selling'');
     buy \<leftarrow> asset_schema (field v ''buying'');
     amt \<leftarrow> z_check amount_ok (z_str (field v ''amount''));
     pr \<leftarrow> z_check price_ok (z_str (field v ''price''));
     offer \<leftarrow> z_opt z_memo (field v ''offerId'');
     z_check (\<lambda>i. do_action i \<in> {''update'', ''delete''} \<longrightarrow> do_offer_id i \<noteq> None)
       (Some \<lparr>do_action = act, do_selling = sell, do_buying = buy, do_amount = amt, do_price = pr, do_offer_id = offer\<rparr>)
   }"

definition dex_asset :: "('w, 'x) platform_scheme \<Rightarrow> asset_input \<Rightarrow> js_error + asset" where
  "dex_asset p a = resolve_asset p (ai_code a) (ai_issuer a)"

definition offer_id_text :: "('w, 'x) platform_scheme \<Rightarrow> memo_value option \<Rightarrow> string" where
  "offer_id_text p offer = (case offer of None \<Rightarrow> ''0'' | Some (MemoString t) \<Rightarrow> t
     | Some (MemoNumber n) \<Rightarrow> num_text (print_num p) n)"

definition verify_offer_exists ::
    "('w, 'x) tools_platform_scheme \<Rightarrow> string \<Rightarrow> ('w, 'y) sys_scheme \<Rightarrow> ('w, 'y) sys_scheme \<times> (js_error + unit)" where
  "verify_offer_exists p offer s =
     (case outside (horizon_offer p offer) s of
        (s', Inr v) \<Rightarrow> (s', Inr ())
      | (s', Inl e) \<Rightarrow> (s', Inl (if is_not_found p e
            then validation_error (''Offer '' @ offer @ '' not found on Stellar network'') JUndef else e)))"

definition extract_offer_id :: "('w, 'x) tools_platform_scheme \<Rightarrow> string \<Rightarrow> string \<Rightarrow> string option" where
  "extract_offer_id p xdr action =
     (if action \<noteq> ''create'' then None
      else case decode_tx_result p xdr of
             None \<Rightarrow> None
           | Some t \<Rightarrow> if \<not> to_success t then None
               else (case to_ops t of InnerSellOffer (Some i) # rest \<Rightarrow> Some i | _ \<Rightarrow> None))"

definition final_offer_id :: "('w, 'x) tools_platform_scheme \<Rightarrow> string \<Rightarrow> string \<Rightarrow> jsval \<Rightarrow> string" where
  "final_offer_id p action offer v =
     (case field v ''result_xdr'' of
        JStr x \<Rightarrow> if action = ''create'' then (case extract_offer_id p x action of
                       Some i \<Rightarrow> if i = [] then offer else i | None \<Rightarrow> offer) else offer
      | _ \<Rightarrow> offer)"

definition dex_offer_execute ::
    "('w, 'x) tools_platform_scheme \<Rightarrow> agent_config \<Rightarrow> string \<Rightarrow> jsval \<Rightarrow> ('w, 'y) sys_scheme \<Rightarrow>
     ('w, 'y) sys_scheme \<times> (js_error + jsval)" where
  "dex_offer_execute p c self v s =
     andThen (s, or_zod (dex_offer_schema v)) (\<lambda>s i.
     andThen (s, dex_asset p (do_selling i)) (\<lambda>s sell.
     andThen (s, dex_asset p (do_buying i)) (\<lambda>s buy.
       let amt = (if do_action i = ''delete'' then ''0'' else do_amount i);
           offer = offer_id_text p (do_offer_id i);
           op = OpManageSellOffer sell buy amt (do_price i) offer
       in andThen (if do_action i = ''update'' \<or> do_action i = ''delete'' then verify_offer_exists p offer s
                   else (s, Inr ())) (\<lambda>s u.
          andThen (load_account p c self False s) (\<lambda>s a.
          andThen (s, check_op p op) (\<lambda>s op'.
            let (s1, tx) = build_tx p base_fee [op'] None soroban_tx_timeout a s in
            andThen (submit_transaction p c (Envelope (sign_tx self tx)) s1) (\<lambda>s w.
            andThen (s, submit_result_schema w) (\<lambda>s r.
              (s, Inr (JObj (result_fields r @ [(''offerId'', JStr (final_offer_id p (do_action i) offer w))])))))))))))"

section \<open>Path payments and swaps\<close>

lemma resolve_path_submissions [simp]: "submissions (fst (resolve_path p sa amt da path s)) = submissions s"
  by (cases "outside (strict_send_paths p sa amt [da]) s"; cases "snd (outside (strict_send_paths p sa amt [da]) s)")
    (use outside_submissions [of "strict_send_paths p sa amt [da]" s] in
      \<open>auto simp: resolve_path_def andThen_def split: list.splits\<close>)

text \<open>What a path payment that passes its schema sends.\<close>

definition path_payment_sends :: "agent_config \<Rightarrow> string \<Rightarrow> path_payment_input \<Rightarrow> envelope list \<Rightarrow> bool" where
  "path_payment_sends c self i es \<longleftrightarrow> (\<exists>sa da path. reloaded c self
     (OpPathPaymentStrictSend sa (pp_send_amount i) (pp_destination i) da (pp_dest_min i) path) es)"

lemma path_payment_trace:
  fixes s :: "('w, 'y) sys_scheme"
  shows "sends (\<lambda>es. es = [] \<or> (\<exists>i. path_payment_schema v = Some i \<and> path_payment_sends c self i es)) s
    (path_payment_execute p c self v s)"
proof (cases "path_payment_schema v")
  case None
  then show ?thesis by (simp add: path_payment_execute_def sends_silent)
next
  case (Some i)
  have "sends (path_payment_sends c self i) s (submit_with_reload p c self (build_payment p self
     (OpPathPaymentStrictSend sa (pp_send_amount i) (pp_destination i) da (pp_dest_min i) path) mty mem t) s)"
    for sa da path mty mem t and s :: "('w, 'y) sys_scheme"
    by (rule sends_mono [OF sends_reloaded]) (auto simp: path_payment_sends_def)
  then have "sends (path_payment_sends c self i) s (path_payment_execute p c self v s)"
    using Some by (auto simp: path_payment_execute_def path_payment_sends_def intro!: sends_andThen sends_pure)
  with Some show ?thesis by (auto elim: sends_mono)
qed

lemma swap_payment_fields:
  "field (swap_payment self v d best) ''destination'' = JStr self"
  "field (swap_payment self v d best) ''sendAmount'' = field v ''sellAmount''"
  "field (swap_payment self v d best) ''destMinAmount'' = JStr d"
  by (simp_all add: swap_payment_def field_def obj_get_def)

lemma swap_payment_schema:
  assumes "path_payment_schema (swap_payment self v d best) = Some i"
  shows "pp_destination i = self \<and> JStr (pp_send_amount i) = field v ''sellAmount'' \<and> pp_dest_min i = d \<and> amount_ok d"
  using assms
  by (auto simp: path_payment_schema_def Option.bind_eq_Some_conv z_check_Some z_str_Some swap_payment_fields)

text \<open>What a swap with input \<open>i\<close> sends, in terms of the quotes it got.\<close>

definition swap_sends :: "(rat \<Rightarrow> string) \<Rightarrow> agent_config \<Rightarrow> string \<Rightarrow> jsval \<Rightarrow> swap_input \<Rightarrow> envelope list \<Rightarrow> bool" where
  "swap_sends num c self v i es \<longleftrightarrow> es = [] \<or> (\<exists>quotes amt sa da path dmin. field v ''sellAmount'' = JStr amt \<and>
     \<not> js_less (sw_slippage i) (deviation_pct (js_max_list quotes) (js_min_list quotes)) \<and>
     dmin = dest_min_amount num (js_max_list quotes) (sw_slippage i) \<and> amount_ok dmin \<and>
     reloaded c self (OpPathPaymentStrictSend sa amt self da dmin path) es)"

lemma path_payment_of_swap:
  fixes s :: "('w, 'y) sys_scheme"
  assumes "\<not> js_less (sw_slippage i) (deviation_pct (js_max_list quotes) (js_min_list quotes))"
  shows "sends (swap_sends (print_num p) c self v i) s (path_payment_execute p c self
    (swap_payment self v (dest_min_amount (print_num p) (js_max_list quotes) (sw_slippage i)) best) s)"
proof (rule sends_mono [OF path_payment_trace], elim disjE exE conjE)
  fix es j
  let ?d = "dest_min_amount (print_num p) (js_max_list quotes) (sw_slippage i)"
  assume j: "path_payment_schema (swap_payment self v ?d best) = Some j" "path_payment_sends c self j es"
  from swap_payment_schema [OF j(1)] j(2) assms show "swap_sends (print_num p) c self v i es"
    unfolding swap_sends_def path_payment_sends_def by metis
qed (simp add: swap_sends_def)

lemma swap_trace:
  fixes s :: "('w, 'y) sys_scheme"
  assumes "swap_schema v = Some i"
  shows "sends (swap_sends (print_num p) c self v i) s (swap_execute p c self v s)"
proof -
  have n: "swap_sends (print_num p) c self v i []" by (simp add: swap_sends_def)
  show ?thesis unfolding swap_execute_def
    by (intro sends_andThen n)
      (auto simp: assms n sends_pure Let_def simp del: list.map intro!: path_payment_of_swap split: list.split)
qed


lemma zero_dest_min: "\<not> amount_ok (dest_min_amount num best (JFin 100))"
proof -
  have one: "to_double (1::rat) = JFin 1" using to_double_int [of 1] by simp
  have zero: "to_double (0::rat) = JFin 0" using to_double_int [of 0] by simp
  have factor: "js_sub (JFin 1) (js_div (JFin 100) (JFin 100)) = JFin 0"
    by (simp add: js_sub_def one zero)
  have z: "nat_str 0 = ''0''" by code_simp
  have half: "nat \<lfloor>(0::rat) * 10 ^ 7 + 1 / 2\<rfloor> = 0" by simp
  have pad: "pad_left 7 ''0'' = ''0000000''" by (simp add: pad_left_def numeral_eq_Suc)
  have f0: "to_fixed 7 0 = ''0.0000000''"
    unfolding to_fixed_def half fixed_digits_def by (simp add: z pad)
  have "\<not> amount_ok ''0.0000000''" "\<not> amount_ok ''NaN''"
    by (simp_all add: amount_ok_def amount_regex_def zero_literal_def is_digit_def ccode_def)
  then show ?thesis
    unfolding dest_min_amount_def factor by (cases best) (auto simp: zero f0 num_to_fixed_def num_text_def)
qed

text \<open>
  A swap with maxSlippagePct = 100, which the schema accepts, never sends anything: its
  minimum is 0.0000000, which the path payment's schema rejects.
\<close>

theorem full_slippage_never_swaps:
  fixes s :: "('w, 'y) sys_scheme"
  assumes "swap_execute p c self v s = (s', r)" "swap_schema v = Some i" "sw_slippage i = JFin 100"
  shows "submissions s' = submissions s"
proof -
  obtain es where es: "submissions s' = submissions s @ es" "swap_sends (print_num p) c self v i es"
    using sendsD [OF swap_trace [OF assms(2)] assms(1)] by blast
  then have "es = []" using zero_dest_min assms(3) unfolding swap_sends_def by metis
  with es(1) show ?thesis by simp
qed

lemma good_reload:
  assumes "good_like p" "\<not> active (backoff s)" "account_cache s = (\<lambda>k. None)"
  shows "\<exists>s' tx. submit_with_reload p sample_agent_config self (build_payment p self op mty None t) s =
       (s', Inr \<lparr>sr_hash = ''h1'', sr_ledger = JFin 7\<rparr>) \<and> submissions s' = submissions s @ [Envelope tx] \<and> tx_ops tx = [op]"
proof -
  have o: "op_fault p op = None" using assms(1) by (simp add: good_like_def)
  show ?thesis using assms
    by (auto simp: submit_with_reload_def good_load build_payment_def check_op_def o build_tx_def
        good_submit_and_parse sign_tx_def)
qed

text \<open>A platform on which Horizon quotes 10 for every sale and knows no offer.\<close>

definition toy_quote :: jsval where
  "toy_quote = JObj [(''destination_amount'', JStr ''10''), (''path'', JArr [])]"

definition tools_toy :: "int tools_platform" where
  "tools_toy = hook_platform.extend (hook_toy JUndef)
     (tools_platform.fields (\<lambda>a m b w. (w + 5, Inr [toy_quote])) (\<lambda>k w. (w + 5, Inl (plain ''404'')))
        (\<lambda>e. True) (\<lambda>x. None) (\<lambda>x. Inr x)
        (\<lambda>x. Inr (Envelope \<lparr>tx_source = sample_key, tx_sequence = 1, tx_fee = ''200'', tx_ops = [OpBumpSequence ''9''],
            tx_memo = None, tx_min_time = 0, tx_max_time = 0, tx_signatures = []\<rparr>)) (\<lambda>t. None) (map char_of) (\<lambda>a f t. None))"

lemma tools_toy_good: "good_like tools_toy"
  by (simp add: good_like_def tools_toy_def hook_platform.defs hook_toy_def agent_platform.defs agent_toy_def
      x402_platform.defs x402_toy_def sim_platform_def soroban.defs good_platform_def toy_platform_def platform.defs)

lemma tools_toy_simps [simp]:
  "strict_send_paths tools_toy a m b w = (w + 5, Inr [toy_quote])" "asset_fault tools_toy k i = None"
  "print_num tools_toy r = int_str \<lfloor>r\<rfloor>" "decode_signature tools_toy x = Inr x" "source_signature tools_toy t = None"
  "fee_bump_fault tools_toy acc f t = None"
  "valid_ed25519 tools_toy k = (length k = 56 \<and> starts_with k ''G'')" "op_fault tools_toy op = None"
  "tx_base64 tools_toy e = ''AAAA''" "clock tools_toy w = w"
  "decode_tx tools_toy x = Inr (Envelope \<lparr>tx_source = sample_key, tx_sequence = 1, tx_fee = ''200'', tx_ops = [OpBumpSequence ''9''],
            tx_memo = None, tx_min_time = 0, tx_max_time = 0, tx_signatures = []\<rparr>)"
  by (simp_all add: tools_toy_def tools_platform.defs hook_platform.defs hook_toy_def agent_platform.defs agent_toy_def
      x402_platform.defs x402_toy_def sim_platform_def soroban.defs good_platform_def toy_platform_def platform.defs)

definition toy_swap :: "rat \<Rightarrow> jsval" where
  "toy_swap slip = JObj [(''sellAsset'', JObj [(''code'', JStr ''XLM'')]),
     (''buyAsset'', JObj [(''code'', JStr ''USDC''), (''issuer'', JStr sample_key)]),
     (''sellAmount'', JStr ''5''), (''maxSlippagePct'', JNum (JFin slip))]"

lemma toy_swap_schema:
  assumes "slip \<in> {0, 100}"
  shows "swap_schema (toy_swap slip) = Some \<lparr>sw_sell_asset = \<lparr>ai_code = ''XLM'', ai_issuer = None\<rparr>,
    sw_buy_asset = \<lparr>ai_code = ''USDC'', ai_issuer = Some sample_key\<rparr>, sw_sell_amount = ''5'', sw_slippage = JFin slip\<rparr>"
  using assms
  by (auto simp: swap_schema_def toy_swap_def zod_defs asset_schema_def field_def obj_get_def amount_ok_5 js_leq_def is_nan_def)

lemma toy_amount: "parse_float ''10'' = JFin 10"
  by (simp add: parse_float_integer is_digit_def ccode_def digits_val_def digit_val_def to_double_numeral)

lemma toy_dest_min: "dest_min_amount num (JFin 10) (JFin 0) = ''10.0000000''"
proof -
  have c: "to_double (0::rat) = JFin 0" "to_double (1::rat) = JFin 1" "to_double (10::rat) = JFin 10"
    using to_double_int [of 0] to_double_int [of 1] to_double_int [of 10] by simp_all
  have z: "nat_str 0 = ''0''" "nat_str 10 = ''10''" by code_simp+
  have "\<lfloor>(200000001::rat) / 2\<rfloor> = 100000000" by (rule floor_unique) simp_all
  then have half: "nat \<lfloor>(10::rat) * 10 ^ 7 + 1 / 2\<rfloor> = 100000000" by simp
  have pad: "pad_left 7 ''0'' = ''0000000''" by (simp add: pad_left_def numeral_eq_Suc)
  have "to_fixed 7 10 = ''10.0000000''"
    unfolding to_fixed_def half fixed_digits_def by (simp add: z pad)
  then show ?thesis by (simp add: dest_min_amount_def js_sub_def c num_to_fixed_def)
qed

lemma amount_ok_10: "amount_ok ''10.0000000''"
  by (simp add: amount_ok_units decimal_units_def is_digit_def ccode_def digits_val_def digit_val_def decimal_tail_ok_def)

theorem full_slippage_never_swaps_witness:
  "submissions (fst (swap_execute tools_toy sample_agent_config sample_key (toy_swap 100) (initial_sys 0))) = []"
proof -
  obtain s' r where e: "swap_execute tools_toy sample_agent_config sample_key (toy_swap 100) (initial_sys 0) = (s', r)"
    by fastforce
  have "submissions s' = submissions (initial_sys (0::int))"
    by (rule full_slippage_never_swaps [OF e toy_swap_schema]) simp_all
  with e show ?thesis by (simp add: initial_sys_def)
qed

lemma toy_swap_runs:
  "\<exists>s' tx. swap_execute tools_toy sample_agent_config sample_key (toy_swap 0) (initial_sys 0) =
       (s', Inr \<lparr>sr_hash = ''h1'', sr_ledger = JFin 7\<rparr>) \<and> submissions s' = [Envelope tx]"
proof -
  let ?c = sample_agent_config and ?k = sample_key
  let ?s = "initial_sys (0::int)\<lparr>world := 5\<rparr>" and ?s2 = "initial_sys (0::int)\<lparr>world := 10\<rparr>"
  let ?op = "OpPathPaymentStrictSend Native ''5'' ?k (Credit ''USDC'' ?k) ''10.0000000'' []"
  have sub: "\<not> active (backoff ?s2)" "account_cache ?s2 = (\<lambda>k. None)" "submissions ?s2 = []"
    by (simp_all add: initial_sys_def initial_backoff_def)
  from good_reload [OF tools_toy_good sub(1,2), of ?k ?op "''text''" 30] obtain s' tx where
    "submit_with_reload tools_toy ?c ?k (build_payment tools_toy ?k ?op ''text'' None 30) ?s2 =
        (s', Inr \<lparr>sr_hash = ''h1'', sr_ledger = JFin 7\<rparr>)" "submissions s' = submissions ?s2 @ [Envelope tx]" by blast
  note g = this(1) this(2) [unfolded sub(3) append_Nil]
  have len: "length ?k = 56" by (simp add: sample_key_def)
  have sch: "path_payment_schema (swap_payment ?k (toy_swap 0) ''10.0000000'' toy_quote) =
    Some \<lparr>pp_destination = ?k, pp_send_asset = \<lparr>ai_code = ''XLM'', ai_issuer = None\<rparr>, pp_send_amount = ''5'',
      pp_dest_asset = \<lparr>ai_code = ''USDC'', ai_issuer = Some ?k\<rparr>, pp_dest_min = ''10.0000000'', pp_path = [],
      pp_allow_self = True, pp_memo_type = ''text'', pp_memo = None\<rparr>"
    using len by (simp add: path_payment_schema_def swap_payment_def toy_swap_def toy_quote_def zod_defs asset_schema_def
        field_def obj_get_def amount_ok_5 amount_ok_10)
  have quote_path: "field toy_quote ''path'' = JArr []" by (simp add: toy_quote_def field_def obj_get_def)
  have "?k \<noteq> []" by (simp add: sample_key_def)
  then have "path_payment_execute tools_toy ?c ?k (swap_payment ?k (toy_swap 0) ''10.0000000'' toy_quote) ?s =
      (s', Inr \<lparr>sr_hash = ''h1'', sr_ledger = JFin 7\<rparr>)"
    using g(1) by (simp add: path_payment_execute_def sch to_asset_def asset_of_def issuer_missing_def new_asset_def
        resolve_path_def outside_def quote_path)
  moreover have "destination_amount toy_quote = JFin 10"
    by (simp add: destination_amount_def toy_quote_def field_def obj_get_def toy_amount)
  moreover have "deviation_pct (JFin 10) (JFin 10) = JFin 0"
    using to_double_int [of 0] by (simp add: deviation_pct_def js_sub_def)
  ultimately have "swap_execute tools_toy ?c ?k (toy_swap 0) (initial_sys 0) = (s', Inr \<lparr>sr_hash = ''h1'', sr_ledger = JFin 7\<rparr>)"
    using \<open>?k \<noteq> []\<close> by (simp add: swap_execute_def toy_swap_schema swap_asset_def asset_of_def issuer_missing_def new_asset_def
        outside_def initial_sys_def js_max_list_def js_min_list_def js_max_def js_min_def is_nan_def js_leq_def Let_def toy_dest_min)
  with g(2) show ?thesis by blast
qed


end
