(* ===== verification/Multi.thy ===== *)
theory Multi imports Trading begin

text \<open>
  backend/tools/BatchPaymentTool.ts, MultiSigPaymentTool.ts and FeeBumpTool.ts.
\<close>

section \<open>BatchPaymentTool\<close>

record batch_input =
  ba_payments :: "payment_input list"
  ba_fail_fast :: bool

definition batch_schema :: "('w, 'x) platform_scheme \<Rightarrow> jsval \<Rightarrow> batch_input option" where
  "batch_schema p v = do {
     _ \<leftarrow> z_obj v;
     ps \<leftarrow> z_check (\<lambda>xs. 1 \<le> length xs \<and> length xs \<le> 100) (z_arr (payment_input_schema p) (field v ''payments''));
     ff \<leftarrow> z_def False z_bool (field v ''failFast'');
     Some \<lparr>ba_payments = ps, ba_fail_fast = ff\<rparr>
   }"

definition batch_total :: "payment_input list \<Rightarrow> jsnum" where
  "batch_total ps = foldl (\<lambda>sum i. js_add sum (parse_float (pi_amount i))) (JFin 0) ps"

definition batch_total_error :: "(rat \<Rightarrow> string) \<Rightarrow> agent_config \<Rightarrow> jsnum \<Rightarrow> js_error" where
  "batch_total_error num c t = plain (''Batch total '' @ num_text num t @ '' '' @ X402_ASSET_CODE c @
     '' exceeds AGENT_SPENDING_LIMIT of '' @ AGENT_SPENDING_LIMIT c)"

text \<open>\<open>BatchPreflightError\<close>: the message and how many payments were not looked at.\<close>

definition preflight_error :: "string \<Rightarrow> nat \<Rightarrow> js_error" where
  "preflight_error msg skipped = structured_error ''ValidationError'' msg ValidationError JUndef (JNum (JFin (of_nat skipped)))"

definition payment_problem :: "nat \<Rightarrow> payment_input \<Rightarrow> string option" where
  "payment_problem k i =
     (if pi_asset_code i \<noteq> ''XLM'' \<and> issuer_missing (pi_asset_issuer i)
      then Some (''payment '' @ nat_str k @ '': Asset issuer is required for non-native asset '' @ pi_asset_code i)
      else None)"

text \<open>The loop: the problems found so far and the rest; the first problem ends it under failFast.\<close>

fun preflight :: "bool \<Rightarrow> nat \<Rightarrow> string list \<Rightarrow> payment_input list \<Rightarrow> js_error + string list" where
  "preflight fast k problems [] = Inr problems"
| "preflight fast k problems (i # rest) =
     (case payment_problem k i of
        None \<Rightarrow> preflight fast (k + 1) problems rest
      | Some m \<Rightarrow> if fast then Inl (preflight_error (hd (problems @ [m])) (length rest))
                  else preflight fast (k + 1) (problems @ [m]) rest)"

definition batch_op :: "('w, 'x) platform_scheme \<Rightarrow> payment_input \<Rightarrow> js_error + operation" where
  "batch_op p i =
     bind_result (resolve_asset p (pi_asset_code i) (pi_asset_issuer i)) (\<lambda>ast.
       check_op p (OpPayment (pi_destination i) ast (pi_amount i)))"

definition batch_execute ::
    "('w, 'x) platform_scheme \<Rightarrow> agent_config \<Rightarrow> string \<Rightarrow> jsval \<Rightarrow> ('w, 'y) sys_scheme \<Rightarrow>
     ('w, 'y) sys_scheme \<times> (js_error + submit_result)" where
  "batch_execute p c self v s =
     andThen (s, or_zod (batch_schema p v)) (\<lambda>s b.
       let ps = ba_payments b; t = batch_total ps in
       if js_less (parse_float (AGENT_SPENDING_LIMIT c)) t then (s, Inl (batch_total_error (print_num p) c t))
       else andThen (s, preflight (ba_fail_fast b) 0 [] ps) (\<lambda>s problems.
         if problems \<noteq> [] then (s, Inl (preflight_error (join_with ''; '' problems) 0))
         else andThen (load_account p c self False s) (\<lambda>s a.
              andThen (s, map_result (batch_op p) ps) (\<lambda>s ops.
                let (s1, tx) = build_tx p base_fee ops None soroban_tx_timeout a s
                in submit_and_parse p c (Envelope (sign_tx self tx)) s1))))"

definition batch_data :: "submit_result \<Rightarrow> jsval" where
  "batch_data r = JObj (result_fields r @ [(''skipped'', JNum (JFin 0))])"

section \<open>MultiSigPaymentTool\<close>

record multisig_input =
  ms_destination :: string
  ms_amount :: string
  ms_asset_code :: string
  ms_asset_issuer :: "string option"
  ms_memo :: "string option"
  ms_signers :: "string list"
  ms_min_signatures :: int
  ms_signatures :: "string list option"

definition multisig_schema :: "('w, 'x) platform_scheme \<Rightarrow> jsval \<Rightarrow> multisig_input option" where
  "multisig_schema p v = do {
     _ \<leftarrow> z_obj v;
     dest \<leftarrow> z_check (\<lambda>t. length t = 56) (z_str (field v ''destination''));
     amt \<leftarrow> z_check amount_ok (z_str (field v ''amount''));
     code \<leftarrow> z_def ''XLM'' z_str (field v ''assetCode'');
     issuer \<leftarrow> z_opt z_str (field v ''assetIssuer'');
     mem \<leftarrow> z_opt (\<lambda>w. z_check (\<lambda>t. utf8_length t \<le> 28) (z_str w)) (field v ''memo'');
     signers \<leftarrow> z_arr (z_account p) (field v ''additionalSigners'');
     need \<leftarrow> z_check (\<lambda>n. 1 \<le> n) (z_int (field v ''minSignatures''));
     sigs \<leftarrow> z_opt (z_arr z_str) (field v ''signatures'');
     z_check (\<lambda>i. ms_min_signatures i \<le> int (length (ms_signers i)) + 1)
       (Some \<lparr>ms_destination = dest, ms_amount = amt, ms_asset_code = code, ms_asset_issuer = issuer,
          ms_memo = mem, ms_signers = signers, ms_min_signatures = need, ms_signatures = sigs\<rparr>)
   }"

text \<open>The decorated signatures, in order; the first that does not decode ends the call.\<close>

definition read_signature :: "('w, 'x) tools_platform_scheme \<Rightarrow> string \<Rightarrow> js_error + signature" where
  "read_signature p x = (case decode_signature p x of
     Inl e \<Rightarrow> Inl (plain (''Invalid signature XDR: '' @ err_message e)) | Inr d \<Rightarrow> Inr (Decorated d))"

definition multisig_execute ::
    "('w, 'x) tools_platform_scheme \<Rightarrow> agent_config \<Rightarrow> string \<Rightarrow> jsval \<Rightarrow> ('w, 'y) sys_scheme \<Rightarrow>
     ('w, 'y) sys_scheme \<times> (js_error + jsval)" where
  "multisig_execute p c self v s =
     (case multisig_schema p v of
        None \<Rightarrow> (s, Inl (validation_error [] JUndef))
      | Some i \<Rightarrow>
          andThen (s, asset_of p issuer_required_error (ms_asset_code i) (ms_asset_issuer i)) (\<lambda>s ast.
          andThen (load_account p c self False s) (\<lambda>s a.
          andThen (s, check_op p (OpPayment (ms_destination i) ast (ms_amount i))) (\<lambda>s op.
            let m = (case ms_memo i of Some t \<Rightarrow> if t = [] then None else Some (MemoText t) | None \<Rightarrow> None);
                (s1, tx) = build_tx p base_fee [op] m 30 a s
            in case ms_signatures i of
                 Some sigs \<Rightarrow>
                   if ms_min_signatures i \<le> int (length sigs) then
                     andThen (s1, map_result (read_signature p) sigs) (\<lambda>s extra.
                       map_data (\<lambda>r. JObj (result_fields r))
                         (submit_and_parse p c (Envelope (tx\<lparr>tx_signatures := [SignedBy self] @ extra\<rparr>)) s))
                   else (s1, Inr (JObj [(''unsignedXDR'', JStr (tx_base64 p (Envelope tx)))]))
               | None \<Rightarrow> (s1, Inr (JObj [(''unsignedXDR'', JStr (tx_base64 p (Envelope tx)))]))))))"

section \<open>FeeBumpTool\<close>

record fee_bump_input =
  fb_inner_xdr :: string
  fb_fee_account :: "string option"
  fb_multiplier :: int

definition fee_bump_schema :: "jsval \<Rightarrow> fee_bump_input option" where
  "fee_bump_schema v = do {
     _ \<leftarrow> z_obj v;
     inner \<leftarrow> z_check (\<lambda>t. 1 \<le> length t) (z_str (field v ''innerTxXdr''));
     acc \<leftarrow> z_opt (\<lambda>w. z_check (\<lambda>t. length t = 56) (z_str w)) (field v ''feeAccount'');
     factor \<leftarrow> z_check (\<lambda>n. 2 \<le> n) (z_def 2 z_int (field v ''baseFeeMultiplier''));
     Some \<lparr>fb_inner_xdr = inner, fb_fee_account = acc, fb_multiplier = factor\<rparr>
   }"

definition ceil_div :: "int \<Rightarrow> int \<Rightarrow> int" where
  "ceil_div a b = - ((- a) div b)"

text \<open>The fee handed to the SDK, from the inner fee, its number of operations and the multiplier.
  The numbers stay far below \<open>2 ^ 53\<close>, so the doubles of the code are exact.\<close>

definition fee_bump_fee :: "int \<Rightarrow> nat \<Rightarrow> int \<Rightarrow> int" where
  "fee_bump_fee inner_fee n factor =
     (let cnt = (if n = 0 then 1 else int n);
          per_op = ceil_div inner_fee cnt;
          new_per_op = max (per_op * factor) 100
      in (cnt + 1) * new_per_op)"

definition other_network_error :: "string \<Rightarrow> js_error" where
  "other_network_error passphrase = plain (''Inner transaction was signed for a different network passphrase. Ensure the inner XDR originates from the same network as the agent ('' @ passphrase @ '').'')"

definition fee_bump_execute ::
    "('w, 'x) tools_platform_scheme \<Rightarrow> agent_config \<Rightarrow> string \<Rightarrow> string \<Rightarrow> jsval \<Rightarrow> ('w, 'y) sys_scheme \<Rightarrow>
     ('w, 'y) sys_scheme \<times> (js_error + submit_result)" where
  "fee_bump_execute p c self passphrase v s =
     andThen (s, or_zod (fee_bump_schema v)) (\<lambda>s i.
     case validate_xdr (JStr (fb_inner_xdr i)) of
       Inl e \<Rightarrow> (s, Inl (validation_error (err_message e) (err_value e)))
     | Inr x \<Rightarrow>
         (case decode_tx p (fb_inner_xdr i) of
            Inl e \<Rightarrow> (s, Inl (validation_error ''Invalid inner transaction XDR: unable to deserialize'' (err_value e)))
          | Inr (FeeBumpEnvelope a f t sg) \<Rightarrow>
              (s, Inl (plain ''Inner transaction must not itself be a fee-bump transaction''))
          | Inr (Envelope inner) \<Rightarrow>
              if tx_signatures inner \<noteq> [] \<and> source_signature p inner = Some False
              then (s, Inl (other_network_error passphrase))
              else (let fee = (case parse_int (tx_fee inner) of
                                 Some f \<Rightarrow> int_str (fee_bump_fee f (length (tx_ops inner)) (fb_multiplier i))
                               | None \<Rightarrow> ''NaN'');
                        acc = (case fb_fee_account i of Some k \<Rightarrow> k | None \<Rightarrow> self)
                    in case fee_bump_fault p acc fee inner of
                         Some e \<Rightarrow> (s, Inl e)
                       | None \<Rightarrow> submit_and_parse p c (FeeBumpEnvelope acc fee inner [SignedBy self]) s)))"

section \<open>Batches\<close>

text \<open>A payment's amount as a spending record, to add batches up as the window is.\<close>

definition batch_record :: "payment_input \<Rightarrow> spending_record" where
  "batch_record i = \<lparr>amount = parse_float (pi_amount i), timestamp = 0\<rparr>"

lemma batch_total_sum: "batch_total ps = sum_amounts (map batch_record ps)"
  by (simp add: batch_total_def sum_amounts_def batch_record_def foldl_map)

lemma amount_ok_number: "amount_ok a \<Longrightarrow> (\<exists>x. parse_float a = JFin x \<and> 0 < x) \<or> parse_float a = JInf True"
  by (cases "parse_float a") (auto simp: amount_ok_def)

lemma infinite_total:
  "\<forall>i \<in> set ps. amount_ok (pi_amount i) \<Longrightarrow>
     foldl (\<lambda>sum i. js_add sum (parse_float (pi_amount i))) (JInf True) ps = JInf True"
proof (induction ps)
  case (Cons i ps)
  then show ?case using amount_ok_number [of "pi_amount i"] by auto
qed simp

lemma finite_amounts:
  assumes "\<forall>i \<in> set ps. amount_ok (pi_amount i)" "0 \<le> a"
    and "\<not> js_less (JFin L) (foldl (\<lambda>sum i. js_add sum (parse_float (pi_amount i))) (JFin a) ps)"
  shows "payment_amounts (map batch_record ps)"
  using assms
proof (induction ps arbitrary: a)
  case (Cons i ps)
  from Cons.prems(1) have ok: "amount_ok (pi_amount i)" "\<forall>i \<in> set ps. amount_ok (pi_amount i)" by auto
  let ?fold = "\<lambda>x. foldl (\<lambda>sum i. js_add sum (parse_float (pi_amount i))) x ps"
  from amount_ok_number [OF ok(1)] consider (fin) x where "parse_float (pi_amount i) = JFin x" "0 < x"
    | (inf) "parse_float (pi_amount i) = JInf True" by blast
  then show ?case
  proof cases
    case inf
    with Cons.prems(3) infinite_total [OF ok(2)] show ?thesis by simp
  next
    case fin
    have "0 \<le> a + x" using Cons.prems(2) fin(2) by linarith
    then have "js_leq (to_double 0) (to_double (a + x))" using to_double_mono [of 0] by simp
    then have "js_leq (JFin 0) (to_double (a + x))" using to_double_int [of 0] by simp
    then consider (f) y where "to_double (a + x) = JFin y" "0 \<le> y" | (i) "to_double (a + x) = JInf True"
      by (cases "to_double (a + x)") (auto simp: js_leq_def)
    then show ?thesis
    proof cases
      case f
      with Cons.IH [OF ok(2) f(2)] Cons.prems(3) fin show ?thesis
        by (simp add: payment_amounts_def batch_record_def)
    next
      case i
      with Cons.prems(3) fin infinite_total [OF ok(2)] show ?thesis by simp
    qed
  qed
qed (simp add: payment_amounts_def)

lemma schema_amount_ok: "payment_input_schema p v = Some i \<Longrightarrow> amount_ok (pi_amount i)"
  by (auto simp: payment_input_schema_def Option.bind_eq_Some_conv z_check_Some)

text \<open>The operations of a batch: its payments, one each, in order.\<close>

definition pays :: "('w, 'x) platform_scheme \<Rightarrow> payment_input \<Rightarrow> operation \<Rightarrow> bool" where
  "pays p i op \<longleftrightarrow> (\<exists>ast. resolve_asset p (pi_asset_code i) (pi_asset_issuer i) = Inr ast \<and>
     op = OpPayment (pi_destination i) ast (pi_amount i))"

lemma batch_ops: "map_result (batch_op p) ps = Inr ops \<Longrightarrow> list_all2 (pays p) ps ops"
  by (induction ps arbitrary: ops)
    (auto simp: batch_op_def pays_def check_op_def bind_result_def split: sum.splits option.splits)

definition batch_sends :: "('w, 'x) platform_scheme \<Rightarrow> agent_config \<Rightarrow> string \<Rightarrow> payment_input list \<Rightarrow> envelope list \<Rightarrow> bool" where
  "batch_sends p c self ps es \<longleftrightarrow> es = [] \<or>
     (\<not> js_less (parse_float (AGENT_SPENDING_LIMIT c)) (batch_total ps) \<and>
      (\<exists>ops. list_all2 (pays p) ps ops \<and> one_tx c (ops_tx self ops) es))"

lemma sends_built:
  fixes s :: "('w, 'y) sys_scheme"
  assumes "build_tx p base_fee ops m t a s = (s1, tx)"
  shows "sends (one_tx c (ops_tx self ops)) s (submit_and_parse p c (Envelope (sign_tx self tx)) s1)"
proof -
  obtain s' r where r: "submit_and_parse p c (Envelope (sign_tx self tx)) s1 = (s', r)" by fastforce
  have "ops_tx self ops (sign_tx self tx)" using build_tx_frame [OF assms] by (simp add: ops_tx_def sign_tx_def)
  from submit_and_parse_one [of "ops_tx self ops", OF this r] build_tx_frame(1) [OF assms] r
  show ?thesis by (simp add: sends_def)
qed

lemma batch_trace:
  fixes s :: "('w, 'y) sys_scheme"
  assumes "batch_schema p v = Some b"
  shows "sends (batch_sends p c self (ba_payments b)) s (batch_execute p c self v s)"
proof -
  have n: "batch_sends p c self ps []" for ps by (simp add: batch_sends_def)
  have step: "sends (batch_sends p c self ps) t (case build_tx p base_fee ops None soroban_tx_timeout a t of
      (s1, tx) \<Rightarrow> submit_and_parse p c (Envelope (sign_tx self tx)) s1)"
    if "\<not> js_less (parse_float (AGENT_SPENDING_LIMIT c)) (batch_total ps)" "map_result (batch_op p) ps = Inr ops"
    for ps ops a and t :: "('w, 'y) sys_scheme"
  proof -
    obtain s1 tx where bt: "build_tx p base_fee ops None soroban_tx_timeout a t = (s1, tx)" by fastforce
    from sends_mono [OF sends_built [OF bt, of c self], of "batch_sends p c self ps"] batch_ops [OF that(2)] that(1) bt
    show ?thesis unfolding batch_sends_def by auto
  qed
  show ?thesis
    by (auto simp: batch_execute_def assms Let_def n load_account_submissions
        intro!: sends_andThen sends_pure step split: if_splits)
qed

text \<open>
  C22. A batch pays exactly what it lists and stays within the limit: everything it hands to
  Horizon is one transaction whose operations are the listed payments, one each and in order,
  between 1 and 100 of them, signed by the agent alone; and the amounts add up to at most
  AGENT\_SPENDING\_LIMIT plus one 33,554,432nd of a unit per payment and one more, the bound on
  what adding doubles can lose. A batch with one unusable payment sends nothing.
\<close>

theorem batch_pays_listed_within_limit:
  fixes s :: "('w, 'y) sys_scheme"
  assumes "batch_execute p c self v s = (s', r)"
    and "decimal_units (AGENT_SPENDING_LIMIT c) = Some l" "l + 2 < 2 ^ 29 * 10 ^ 7"
  shows "\<exists>es. submissions s' = submissions s @ es \<and> (es = [] \<or>
    (\<exists>b ops. batch_schema p v = Some b \<and> 1 \<le> length ops \<and> length ops \<le> 100 \<and>
       list_all2 (pays p) (ba_payments b) ops \<and> one_tx c (ops_tx self ops) es \<and>
       sum_list (map (\<lambda>i. exact_amount (batch_record i)) (ba_payments b)) \<le>
         of_nat l / 10 ^ 7 + of_nat (length ops + 1) / 2 ^ 25))"
proof (cases "batch_schema p v")
  case None
  with assms(1) show ?thesis by (simp add: batch_execute_def)
next
  case (Some b)
  let ?ps = "ba_payments b"
  obtain es where es: "submissions s' = submissions s @ es" "batch_sends p c self ?ps es"
    using sendsD [OF batch_trace [OF Some] assms(1)] by blast
  show ?thesis
  proof (cases "es = []")
    case True
    with es(1) show ?thesis by simp
  next
    case False
    with es(2) obtain ops where ops: "\<not> js_less (parse_float (AGENT_SPENDING_LIMIT c)) (batch_total ?ps)"
      "list_all2 (pays p) ?ps ops" "one_tx c (ops_tx self ops) es" by (auto simp: batch_sends_def)
    from Some have len: "1 \<le> length ?ps" "length ?ps \<le> 100"
      and arr: "z_arr (payment_input_schema p) (field v ''payments'') = Some ?ps"
      by (auto simp: batch_schema_def Option.bind_eq_Some_conv z_check_Some)
    have ok: "\<forall>i \<in> set ?ps. amount_ok (pi_amount i)"
      using z_arr_in [OF arr] schema_amount_ok by blast
    have "l + 1 < 2 ^ 29 * 10 ^ 7" using assms(3) by simp
    then obtain L where L: "parse_float (AGENT_SPENDING_LIMIT c) = JFin L" "0 \<le> L" "\<bar>L - of_nat l / 10 ^ 7\<bar> \<le> 1 / 2 ^ 25"
      using to_double_units [of l] decimal_units_parse [OF assms(2)] by metis
    have "of_nat (l + 2) < (of_nat (2 ^ 29 * 10 ^ 7) :: rat)" using assms(3) by (simp only: of_nat_less_iff)
    then have "(of_nat l :: rat) / 10 ^ 7 + 2 / 10 ^ 7 < 2 ^ 29" by simp
    moreover have "(1::rat) / 2 ^ 25 < 2 / 10 ^ 7" by simp
    ultimately have L2: "L < 2 ^ 29" "L \<le> of_nat l / 10 ^ 7 + 1 / 2 ^ 25" using L(3) unfolding abs_le_iff by linarith+
    have "payment_amounts (map batch_record ?ps)"
      using finite_amounts [OF ok, of 0 L] ops(1) L(1) by (simp add: batch_total_def)
    from sum_amounts_near [OF this L2(1)] ops(1) L(1)
    have "sum_list (map (\<lambda>i. exact_amount (batch_record i)) ?ps) \<le> L + of_nat (length ?ps) / 2 ^ 25"
      by (simp add: batch_total_sum comp_def)
    with L2(2) have "sum_list (map (\<lambda>i. exact_amount (batch_record i)) ?ps) \<le>
        of_nat l / 10 ^ 7 + of_nat (length ?ps + 1) / 2 ^ 25" by (simp add: add_divide_distrib)
    with es(1) ops Some len list_all2_lengthD [OF ops(2)] show ?thesis by auto
  qed
qed

lemma tools_toy_payment: "payment_input_schema tools_toy sample_payment =
    Some \<lparr>pi_destination = payee, pi_amount = ''5'', pi_asset_code = ''XLM'', pi_asset_issuer = None,
      pi_memo_type = ''text'', pi_memo = None\<rparr>"
  by (simp add: payment_input_schema_def sample_payment_def zod_defs field_def obj_get_def amount_ok_5 memo_fits_def payee_def)

definition sample_batch :: jsval where
  "sample_batch = JObj [(''payments'', JArr [sample_payment, sample_payment])]"

lemma sample_batch_schema: "batch_schema tools_toy sample_batch =
    Some \<lparr>ba_payments = replicate 2 \<lparr>pi_destination = payee, pi_amount = ''5'', pi_asset_code = ''XLM'', pi_asset_issuer = None,
      pi_memo_type = ''text'', pi_memo = None\<rparr>, ba_fail_fast = False\<rparr>"
  by (simp add: batch_schema_def sample_batch_def z_arr_def z_obj_def z_def_def z_check_def field_def obj_get_def
      tools_toy_payment numeral_2_eq_2)

lemma start_idle: "\<not> active (backoff (initial_sys (0::int)))" "account_cache (initial_sys (0::int)) = (\<lambda>k. None)"
  "submissions (initial_sys (0::int)) = []"
  by (simp_all add: initial_sys_def initial_backoff_def)

lemma sample_batch_runs:
  "\<exists>s' r tx. batch_execute tools_toy sample_agent_config sample_key sample_batch (initial_sys 0) = (s', r) \<and>
     submissions s' = [Envelope tx]"
proof -
  have "to_double (5::rat) = JFin 5" "to_double (10::rat) = JFin 10"
    using to_double_numeral [of "Num.num.One"] to_double_int [of 5] to_double_int [of 10] by simp_all
  then have t: "batch_total (replicate 2 \<lparr>pi_destination = payee, pi_amount = ''5'', pi_asset_code = ''XLM'', pi_asset_issuer = None,
      pi_memo_type = ''text'', pi_memo = None\<rparr>) = JFin 10"
    by (simp add: batch_total_def parse_float_5 numeral_2_eq_2)
  show ?thesis
    by (auto simp: batch_execute_def or_zod_def sample_batch_schema t [unfolded numeral_2_eq_2 replicate.simps] Let_def parse_float_100 payment_problem_def
        good_load [OF tools_toy_good] batch_op_def resolve_asset_def check_op_def bind_result_def build_tx_def
        good_submit_and_parse [OF tools_toy_good] start_idle numeral_2_eq_2)
qed

theorem batch_pays_listed_within_limit_witness:
  "\<exists>s' r tx b. batch_execute tools_toy sample_agent_config sample_key sample_batch (initial_sys 0) = (s', r) \<and>
     submissions s' = [Envelope tx] \<and> batch_schema tools_toy sample_batch = Some b \<and>
     sum_list (map (\<lambda>i. exact_amount (batch_record i)) (ba_payments b)) \<le> 100 + 3 / 2 ^ 25"
proof -
  obtain s' r tx where e: "batch_execute tools_toy sample_agent_config sample_key sample_batch (initial_sys 0) = (s', r)"
    and t: "submissions s' = [Envelope tx]" using sample_batch_runs by blast
  have l: "decimal_units (AGENT_SPENDING_LIMIT sample_agent_config) = Some 1000000000"
    by (simp add: decimal_units_def is_digit_def ccode_def digits_val_def digit_val_def decimal_tail_ok_def)
  from batch_pays_listed_within_limit [OF e l] t obtain b ops where
    b: "batch_schema tools_toy sample_batch = Some b" "list_all2 (pays tools_toy) (ba_payments b) ops"
      "sum_list (map (\<lambda>i. exact_amount (batch_record i)) (ba_payments b)) \<le> of_nat 1000000000 / 10 ^ 7 + of_nat (length ops + 1) / 2 ^ 25"
    by (auto simp: start_idle)
  from b(1) have "length (ba_payments b) = 2" by (auto simp: sample_batch_schema)
  with list_all2_lengthD [OF b(2)] b(3) have "sum_list (map (\<lambda>i. exact_amount (batch_record i)) (ba_payments b)) \<le> 100 + 3 / 2 ^ 25"
    by simp
  with e t b(1) show ?thesis by blast
qed

section \<open>Multi-signature payments\<close>

lemma read_signature_Decorated: "read_signature p x = Inr y \<Longrightarrow> \<exists>d. y = Decorated d"
  by (auto simp: read_signature_def split: sum.splits)

definition multisig_tx :: "string \<Rightarrow> multisig_input \<Rightarrow> string list \<Rightarrow> asset \<Rightarrow> transaction \<Rightarrow> bool" where
  "multisig_tx self i sigs ast tx \<longleftrightarrow> tx_ops tx = [OpPayment (ms_destination i) ast (ms_amount i)] \<and>
     (\<exists>ds. tx_signatures tx = SignedBy self # map Decorated ds \<and> length ds = length sigs)"

definition multisig_sends :: "agent_config \<Rightarrow> string \<Rightarrow> multisig_input \<Rightarrow> envelope list \<Rightarrow> bool" where
  "multisig_sends c self i es \<longleftrightarrow> es = [] \<or> (\<exists>sigs ast. ms_signatures i = Some sigs \<and>
     ms_min_signatures i \<le> int (length sigs) \<and> one_tx c (multisig_tx self i sigs ast) es)"

text \<open>
  C25. A multi-signature payment is only submitted with the signatures it asked for: what
  reaches Horizon is the one payment, signed by the agent and by at least minSignatures
  signatures that were handed in, all of which decoded.
\<close>

theorem multisig_submits_only_signed:
  fixes s :: "('w, 'y) sys_scheme"
  assumes "multisig_execute p c self v s = (s', r)"
  shows "\<exists>es. submissions s' = submissions s @ es \<and> (es = [] \<or>
    (\<exists>i sigs ast. multisig_schema p v = Some i \<and> ms_signatures i = Some sigs \<and> ms_min_signatures i \<le> int (length sigs) \<and>
       one_tx c (multisig_tx self i sigs ast) es))"
proof (cases "multisig_schema p v")
  case None
  with assms show ?thesis by (simp add: multisig_execute_def)
next
  case (Some i)
  let ?Q = "multisig_sends c self i"
  have read: "\<exists>ds. extra = map Decorated ds \<and> length ds = length sigs" if "map_result (read_signature p) sigs = Inr extra" for sigs extra
    using that
  proof (induction sigs arbitrary: extra)
    case (Cons x sigs)
    then obtain d e where "extra = Decorated d # e" "map_result (read_signature p) sigs = Inr e"
      by (auto split: sum.splits dest!: read_signature_Decorated)
    with Cons.IH [of e] show ?case by (metis length_Cons list.map(2))
  qed simp
  have step: "sends ?Q t (submit_and_parse p c (Envelope (tx\<lparr>tx_signatures := SignedBy self # extra\<rparr>)) t)"
    if "tx_ops tx = [OpPayment (ms_destination i) ast (ms_amount i)]" "map_result (read_signature p) sigs = Inr extra"
      "ms_signatures i = Some sigs" "ms_min_signatures i \<le> int (length sigs)"
    for ast tx extra sigs and t :: "('w, 'y) sys_scheme"
  proof -
    let ?tx = "tx\<lparr>tx_signatures := SignedBy self # extra\<rparr>"
    obtain s' r where r: "submit_and_parse p c (Envelope ?tx) t = (s', r)" by fastforce
    have "multisig_tx self i sigs ast ?tx" using that(1) read [OF that(2)] by (auto simp: multisig_tx_def)
    from submit_and_parse_one [of "multisig_tx self i sigs ast", OF this r] r that(3,4) show ?thesis
      unfolding sends_def multisig_sends_def by auto
  qed
  have n: "?Q []" by (simp add: multisig_sends_def)
  have cont: "sends ?Q t (case build_tx p base_fee [op] m 30 a t of (s1, tx) \<Rightarrow>
      case ms_signatures i of
        Some sigs \<Rightarrow> if ms_min_signatures i \<le> int (length sigs)
          then andThen (s1, map_result (read_signature p) sigs) (\<lambda>s extra. map_data (\<lambda>r. JObj (result_fields r))
                 (submit_and_parse p c (Envelope (tx\<lparr>tx_signatures := [SignedBy self] @ extra\<rparr>)) s))
          else (s1, Inr (JObj [(''unsignedXDR'', JStr (tx_base64 p (Envelope tx)))]))
      | None \<Rightarrow> (s1, Inr (JObj [(''unsignedXDR'', JStr (tx_base64 p (Envelope tx)))])))"
    if "op = OpPayment (ms_destination i) ast (ms_amount i)" for op ast m a and t :: "('w, 'y) sys_scheme"
  proof -
    obtain s1 tx where b: "build_tx p base_fee [op] m 30 a t = (s1, tx)" by fastforce
    note f = build_tx_frame [OF b]
    have o: "tx_ops tx = [OpPayment (ms_destination i) ast (ms_amount i)]" using f(2) that by simp
    show ?thesis unfolding b prod.case
      by (rule sends_frame [OF f(1)])
        (auto simp: n o split: option.split intro!: sends_andThen sends_pure sends_map_data step)
  qed
  have "sends ?Q s (multisig_execute p c self v s)"
    unfolding multisig_execute_def Some option.case
    by (intro sends_andThen n) (auto simp: load_account_submissions check_op_def simp del: Let_def split: option.splits intro!: cont)
  from sendsD [OF this assms] Some show ?thesis by (auto simp: multisig_sends_def)
qed

definition sample_multisig :: jsval where
  "sample_multisig = JObj [(''destination'', JStr payee), (''amount'', JStr ''5''), (''additionalSigners'', JArr []),
     (''minSignatures'', JNum (JFin 1)), (''signatures'', JArr [JStr ''c2ln''])]"

lemma sample_multisig_schema: "multisig_schema tools_toy sample_multisig =
    Some \<lparr>ms_destination = payee, ms_amount = ''5'', ms_asset_code = ''XLM'', ms_asset_issuer = None, ms_memo = None,
      ms_signers = [], ms_min_signatures = 1, ms_signatures = Some [''c2ln'']\<rparr>"
  by (simp add: multisig_schema_def sample_multisig_def zod_defs field_def obj_get_def amount_ok_5 payee_def)

lemma sample_multisig_runs:
  "\<exists>s' r tx. multisig_execute tools_toy sample_agent_config sample_key sample_multisig (initial_sys 0) = (s', r) \<and>
     submissions s' = [Envelope tx]"
  by (auto simp: multisig_execute_def sample_multisig_schema asset_of_def check_op_def build_tx_def read_signature_def
      good_load [OF tools_toy_good] good_submit_and_parse [OF tools_toy_good] start_idle map_data_def)

theorem multisig_submits_only_signed_witness:
  "\<exists>s' r tx ds. multisig_execute tools_toy sample_agent_config sample_key sample_multisig (initial_sys 0) = (s', r) \<and>
     submissions s' = [Envelope tx] \<and> tx_signatures tx = SignedBy sample_key # map Decorated ds \<and> length ds = 1"
proof -
  obtain s' r tx where e: "multisig_execute tools_toy sample_agent_config sample_key sample_multisig (initial_sys 0) = (s', r)"
    and t: "submissions s' = [Envelope tx]" using sample_multisig_runs by blast
  from multisig_submits_only_signed [OF e] t obtain ast where
    "one_tx sample_agent_config (multisig_tx sample_key \<lparr>ms_destination = payee, ms_amount = ''5'', ms_asset_code = ''XLM'',
      ms_asset_issuer = None, ms_memo = None, ms_signers = [], ms_min_signatures = 1, ms_signatures = Some [''c2ln'']\<rparr> [''c2ln''] ast)
      [Envelope tx]" by (auto simp: start_idle sample_multisig_schema)
  from one_txD [OF this, of "Envelope tx"] have "\<exists>ds. tx_signatures tx = SignedBy sample_key # map Decorated ds \<and> length ds = 1"
    by (auto simp: multisig_tx_def)
  with e t show ?thesis by blast
qed

section \<open>Fee bumps\<close>

lemma ceil_div_bound: "0 < b \<Longrightarrow> a \<le> ceil_div a b * b"
  unfolding ceil_div_def by (smt (verit) minus_mult_minus mult_minus_left pos_mod_sign mult_div_mod_eq mult.commute)

lemma fee_bump_fee_bounds:
  assumes "0 \<le> f" "2 \<le> m"
  shows "f * m \<le> fee_bump_fee f n m" "f < fee_bump_fee f n m" "100 * (int n + 1) \<le> fee_bump_fee f n m"
proof -
  define cnt where "cnt = (if n = 0 then 1 else int n)"
  define per where "per = ceil_div f cnt"
  define new where "new = max (per * m) 100"
  have c: "1 \<le> cnt" "int n \<le> cnt" by (auto simp: cnt_def)
  have fee: "fee_bump_fee f n m = (cnt + 1) * new" by (simp add: fee_bump_fee_def cnt_def per_def new_def Let_def)
  have f: "f \<le> per * cnt" using ceil_div_bound [of cnt f] c by (simp add: per_def)
  have new: "per * m \<le> new" "100 \<le> new" by (simp_all add: new_def)
  have "f * m \<le> per * cnt * m" using f assms(2) by (intro mult_right_mono) auto
  also have "\<dots> = cnt * (per * m)" by simp
  also have "\<dots> \<le> cnt * new" using new c by (intro mult_left_mono) auto
  finally have fm: "f * m \<le> cnt * new" .
  moreover have "(cnt + 1) * new = cnt * new + new" by (simp add: algebra_simps)
  ultimately show "f * m \<le> fee_bump_fee f n m" using fee new by linarith
  have "f \<le> f * m" using mult_left_mono [of 1 m f] assms by simp
  with fm fee new \<open>(cnt + 1) * new = cnt * new + new\<close> show "f < fee_bump_fee f n m" by linarith
  have "100 * (int n + 1) \<le> new * (cnt + 1)" using new c by (intro mult_mono) auto
  with fee show "100 * (int n + 1) \<le> fee_bump_fee f n m" by (simp add: mult.commute)
qed

text \<open>
  A fee bump wraps the inner transaction it was given, unchanged, after checking that it is
  not itself a fee bump and that the source's signature, where there is one, verifies under
  the agent's network; and its fee is at least the multiplier (two or more) times the inner fee,
  strictly above the inner fee, and at least the base fee for every operation and the bump.
\<close>

theorem fee_bump_wraps_and_outbids:
  fixes s :: "('w, 'y) sys_scheme"
  assumes "fee_bump_execute p c self passphrase v s = (s', r)"
  shows "\<exists>es. submissions s' = submissions s @ es \<and> (\<forall>env \<in> set es. \<exists>i inner acc fee.
    fee_bump_schema v = Some i \<and> env = FeeBumpEnvelope acc fee inner [SignedBy self] \<and>
    decode_tx p (fb_inner_xdr i) = Inr (Envelope inner) \<and>
    (tx_signatures inner \<noteq> [] \<longrightarrow> source_signature p inner \<noteq> Some False) \<and>
    (\<forall>f. parse_int (tx_fee inner) = Some f \<and> 0 \<le> f \<longrightarrow> (\<exists>b. fee = int_str b \<and>
       f * fb_multiplier i \<le> b \<and> f < b \<and> 100 * (int (length (tx_ops inner)) + 1) \<le> b)))"
proof -
  consider (quiet) "submissions s' = submissions s"
    | (sent) i inner acc fee where "fee_bump_schema v = Some i" "decode_tx p (fb_inner_xdr i) = Inr (Envelope inner)"
        "tx_signatures inner \<noteq> [] \<longrightarrow> source_signature p inner \<noteq> Some False"
        "fee = (case parse_int (tx_fee inner) of Some f \<Rightarrow> int_str (fee_bump_fee f (length (tx_ops inner)) (fb_multiplier i)) | None \<Rightarrow> ''NaN'')"
        "submit_and_parse p c (FeeBumpEnvelope acc fee inner [SignedBy self]) s = (s', r)"
    using assms
    by (auto simp: fee_bump_execute_def andThen_const or_zod_def Let_def split: sum.splits option.splits envelope.splits if_splits)
  then show ?thesis
  proof cases
    case quiet
    then show ?thesis by (intro exI [of _ "[]"]) simp
  next
    case sent
    obtain k where "submissions s' = submissions s @ replicate k (FeeBumpEnvelope acc fee inner [SignedBy self])"
      using submit_and_parse_submissions [of c p "FeeBumpEnvelope acc fee inner [SignedBy self]" s] sent(5) by auto
    moreover have "2 \<le> fb_multiplier i"
      using sent(1) by (auto simp: fee_bump_schema_def Option.bind_eq_Some_conv z_check_Some)
    ultimately show ?thesis using sent(1-4) fee_bump_fee_bounds
      by (intro exI [of _ "replicate k (FeeBumpEnvelope acc fee inner [SignedBy self])"]) auto
  qed
qed

definition sample_bump :: jsval where
  "sample_bump = JObj [(''innerTxXdr'', JStr ''AAAA'')]"

lemma sample_bump_schema: "fee_bump_schema sample_bump = Some \<lparr>fb_inner_xdr = ''AAAA'', fb_fee_account = None, fb_multiplier = 2\<rparr>"
  by (simp add: fee_bump_schema_def sample_bump_def zod_defs field_def obj_get_def)

lemma parse_int_200: "parse_int ''200'' = Some 200"
  by code_simp

lemma sample_bump_runs:
  "\<exists>s' r env. fee_bump_execute tools_toy sample_agent_config sample_key ''test'' sample_bump (initial_sys 0) = (s', r) \<and>
     submissions s' = [env]"
  by (auto simp: fee_bump_execute_def or_zod_def sample_bump_schema valid_AAAA Let_def
      good_submit_and_parse [OF tools_toy_good] start_idle)

theorem fee_bump_wraps_and_outbids_witness:
  "\<exists>s' r acc b inner. fee_bump_execute tools_toy sample_agent_config sample_key ''test'' sample_bump (initial_sys 0) = (s', r) \<and>
     submissions s' = [FeeBumpEnvelope acc (int_str b) inner [SignedBy sample_key]] \<and> 400 \<le> b"
proof -
  obtain s' r env where e: "fee_bump_execute tools_toy sample_agent_config sample_key ''test'' sample_bump (initial_sys 0) = (s', r)"
    and t: "submissions s' = [env]" using sample_bump_runs by blast
  from fee_bump_wraps_and_outbids [OF e] t obtain inner acc fee where
    env: "env = FeeBumpEnvelope acc fee inner [SignedBy sample_key]" and d: "decode_tx tools_toy ''AAAA'' = Inr (Envelope inner)"
    and f: "\<forall>f. parse_int (tx_fee inner) = Some f \<and> 0 \<le> f \<longrightarrow> (\<exists>b. fee = int_str b \<and>
       f * 2 \<le> b \<and> f < b \<and> 100 * (int (length (tx_ops inner)) + 1) \<le> b)"
    by (auto simp: start_idle sample_bump_schema)
  from d have "parse_int (tx_fee inner) = Some 200" by (auto simp: parse_int_200)
  with f obtain b where "fee = int_str b" "400 \<le> b" by auto
  with e t env show ?thesis by blast
qed

end
