(* ===== verification/AccountLaws.thy ===== *)
theory AccountLaws imports Multi begin

text \<open>
  What the account tools guarantee: a trustline is only removed after its balance was looked up.
\<close>

section \<open>Removing a trustline\<close>

text \<open>An account lookup that took the state from \<open>t\<close> to \<open>t'\<close> and saw no positive balance.\<close>

definition seen_empty :: "('w, 'x) platform_scheme \<Rightarrow> agent_config \<Rightarrow> string \<Rightarrow> string \<Rightarrow> string \<Rightarrow>
    ('w, 'y) sys_scheme \<Rightarrow> ('w, 'y) sys_scheme \<Rightarrow> bool" where
  "seen_empty p c self code issuer t t' \<longleftrightarrow> (\<exists>a. load_account p c (trim self) False t = (t', Inr a) \<and>
     \<not> js_less (JFin 0) (number_of_string (line_balance (Some (trim code)) (trim issuer) a)))"

lemma balance_check_found:
  assumes "balance_check_execute p c v s = (s', Inr b)" "balance_check_schema p v = Some i"
  shows "\<exists>a. load_account p c (bc_public_key i) False s = (s', Inr a) \<and>
    b = line_balance (bc_asset_code i) (bc_asset_issuer i) a"
proof -
  from assms obtain t a where "load_account p c (bc_public_key i) False s = (t, Inr a)"
    "(t, Inr (line_balance (bc_asset_code i) (bc_asset_issuer i) a)) = (s', Inr b :: js_error + string)"
    unfolding balance_check_execute_def or_zod_def by (auto simp: andThen_Inr)
  then show ?thesis by auto
qed

lemma removal_checked:
  assumes "removal_check p c self i s = (s', Inr u)" "tl_action i = ''remove''"
  shows "seen_empty p c self (tl_code i) (tl_issuer i) s s'"
proof -
  let ?v = "JObj [(''publicKey'', JStr self), (''assetCode'', JStr (tl_code i)), (''assetIssuer'', JStr (tl_issuer i))]"
  obtain b where b: "balance_check_execute p c ?v s = (s', Inr b)" "\<not> js_less (JFin 0) (number_of_string b)"
    using assms by (auto simp: removal_check_def andThen_Inr split: if_splits)
  then obtain j where j: "balance_check_schema p ?v = Some j"
    by (cases "balance_check_schema p ?v") (auto simp: balance_check_execute_def or_zod_def)
  then have "bc_public_key j = trim self" "bc_asset_issuer j = trim (tl_issuer i)" "bc_asset_code j = Some (trim (tl_code i))"
    by (auto simp: balance_check_schema_def zod_defs field_def obj_get_def Option.bind_eq_Some_conv split: if_splits)
  with balance_check_found [OF b(1) j] b(2) show ?thesis by (auto simp: seen_empty_def)
qed

text \<open>
  The trustline tool submits only the one trust operation it was asked for; a removal sets
  the limit to 0, and it is only submitted after an account lookup in which the line's balance
  did not read as a positive number.
\<close>

theorem trustline_removed_only_when_empty:
  fixes s :: "('w, 'y) sys_scheme"
  assumes "trustline_execute p c self v s = (s', r)"
  shows "\<exists>es. submissions s' = submissions s @ es \<and> (es = [] \<or>
    (\<exists>i ast. trustline_schema p v = Some i \<and> one_tx c (ops_tx self [OpChangeTrust ast (trust_limit i)]) es \<and>
      (tl_action i = ''remove'' \<longrightarrow> trust_limit i = Some ''0'' \<and>
        (\<exists>t t' :: ('w, 'y) sys_scheme. submissions t = submissions s \<and> seen_empty p c self (tl_code i) (tl_issuer i) t t'))))"
proof (cases "trustline_schema p v")
  case None
  with assms show ?thesis by (simp add: trustline_execute_def or_zod_def)
next
  case (Some i)
  define Q where "Q es \<longleftrightarrow> es = [] \<or> (\<exists>ast. one_tx c (ops_tx self [OpChangeTrust ast (trust_limit i)]) es \<and>
      (tl_action i = ''remove'' \<longrightarrow> (\<exists>t t' :: ('w, 'y) sys_scheme. submissions t = submissions s \<and> seen_empty p c self (tl_code i) (tl_issuer i) t t')))" for es
  have n: "Q []" by (simp add: Q_def)
  have bal: "submissions (fst (balance_check_execute p c w t)) = submissions t" for w and t :: "('w, 'y) sys_scheme"
  proof -
    have "sends (\<lambda>es. es = []) t (balance_check_execute p c w t)"
      unfolding balance_check_execute_def
      by (intro sends_andThen) (auto simp: load_account_submissions intro: sends_pure split: option.split)
    then show ?thesis by (simp add: sends_def)
  qed
  have rem: "submissions (fst (removal_check p c self i t)) = submissions t" for t :: "('w, 'y) sys_scheme"
  proof -
    have "sends (\<lambda>es. es = []) t (removal_check p c self i t)"
      unfolding removal_check_def by (auto simp: bal intro!: sends_andThen sends_pure)
    then show ?thesis by (simp add: sends_def)
  qed
  have last: "sends Q t' (sign_and_submit p c self [OpChangeTrust ast (trust_limit i)] None 30 a t')"
    if "removal_check p c self i t = (t', Inr u)" "submissions t = submissions s" for t t' :: "('w, 'y) sys_scheme" and u ast a
  proof (rule sends_mono [OF sends_sign_and_submit])
    fix es assume "one_tx c (ops_tx self [OpChangeTrust ast (trust_limit i)]) es"
    moreover have "tl_action i = ''remove'' \<longrightarrow> (\<exists>t t' :: ('w, 'y) sys_scheme. submissions t = submissions s \<and> seen_empty p c self (tl_code i) (tl_issuer i) t t')"
      using removal_checked [OF that(1)] that(2) by blast
    ultimately show "Q es" unfolding Q_def by blast
  qed
  have load: "submissions t' = submissions t" if "load_account p c self False t = (t', Inr a)" for t t' :: "('w, 'y) sys_scheme" and a
    using load_account_submissions [of p c self False t] that by simp
  have "sends Q s (trustline_execute p c self v s)"
    by (auto simp: trustline_execute_def Some n rem load load_account_submissions intro!: sends_andThen last)
  from sendsD [OF this assms] Some show ?thesis by (auto simp: Q_def trust_limit_def)
qed


definition sample_removal :: jsval where
  "sample_removal = JObj [(''assetCode'', JStr ''USD''), (''assetIssuer'', JStr payee), (''action'', JStr ''remove'')]"

lemma trim_payee: "trim sample_key = sample_key" "trim payee = payee" "trim ''USD'' = ''USD''"
  by code_simp+

lemma sample_removal_schema: "trustline_schema tools_toy sample_removal =
    Some \<lparr>tl_code = ''USD'', tl_issuer = payee, tl_action = ''remove'', tl_limit = None\<rparr>"
  by (simp add: trustline_schema_def sample_removal_def zod_defs field_def obj_get_def payee_def)

lemma sample_removal_check: "balance_check_schema tools_toy (JObj [(''publicKey'', JStr sample_key), (''assetCode'', JStr ''USD''),
    (''assetIssuer'', JStr payee)]) = Some \<lparr>bc_public_key = sample_key, bc_asset_issuer = payee, bc_asset_code = Some ''USD''\<rparr>"
  by (simp add: balance_check_schema_def zod_defs field_def obj_get_def trim_payee) (simp add: payee_def sample_key_def)


lemma sample_removal_runs:
  "\<exists>s' r tx. trustline_execute tools_toy sample_agent_config sample_key sample_removal (initial_sys 0) = (s', r) \<and>
     submissions s' = [Envelope tx]"
proof -
  let ?s = "initial_sys (0::int)" and ?a = "toy_account\<lparr>oid := 0\<rparr>"
  define t where "t = ?s\<lparr>rpc_calls := rpc_calls ?s + 1, world := world ?s + 5, next_oid := next_oid ?s + 1,
        account_cache := [sample_key \<mapsto> (toy_account\<lparr>oid := next_oid ?s\<rparr>, world ?s + 30005)]\<rparr>"
  have l: "load_account tools_toy sample_agent_config sample_key False ?s = (t, Inr (toy_account\<lparr>oid := next_oid ?s\<rparr>))"
    unfolding t_def by (rule good_load [OF tools_toy_good]) (simp_all add: start_idle)
  have t: "\<not> active (backoff t)" "submissions t = []" by (simp_all add: t_def start_idle)
  have again: "load_account tools_toy sample_agent_config sample_key False t = (t, Inr (toy_account\<lparr>oid := next_oid ?s\<rparr>))"
    by (simp add: load_account_def fresh_account_def t_def now_def initial_sys_def)
  have z: "\<not> js_less (JFin 0) (number_of_string ''0'')" by code_simp
  have b: "removal_check tools_toy sample_agent_config sample_key
      \<lparr>tl_code = ''USD'', tl_issuer = payee, tl_action = ''remove'', tl_limit = None\<rparr> t = (t, Inr ())"
    by (simp add: removal_check_def balance_check_execute_def line_balance_def or_zod_def sample_removal_check again z toy_account_def)
  show ?thesis
    by (auto simp: trustline_execute_def or_zod_def sample_removal_schema l b new_asset_def sign_and_submit_def check_op_def
        build_tx_def good_submit_and_parse [OF tools_toy_good] t)
qed


theorem trustline_removed_only_when_empty_witness:
  "\<exists>s' r tx ast. trustline_execute tools_toy sample_agent_config sample_key sample_removal (initial_sys 0) = (s', r) \<and>
     submissions s' = [Envelope tx] \<and> ops_tx sample_key [OpChangeTrust ast (Some ''0'')] tx"
proof -
  obtain s' r tx where e: "trustline_execute tools_toy sample_agent_config sample_key sample_removal (initial_sys 0) = (s', r)"
    and t: "submissions s' = [Envelope tx]" using sample_removal_runs by blast
  from trustline_removed_only_when_empty [OF e] t obtain ast where
    "one_tx sample_agent_config (ops_tx sample_key [OpChangeTrust ast (Some ''0'')]) [Envelope tx]"
    by (auto simp: start_idle sample_removal_schema)
  from one_txD [OF this, of "Envelope tx"] e t show ?thesis by auto
qed

end
