(* ===== verification/Soroban.thy ===== *)
theory Soroban imports AccountLaws "HOL-Library.Signed_Division" begin

text \<open>
  backend/tools/SorobanInvokeTool.ts, SorobanQueryTool.ts and SorobanDeployTool.ts. Contract
  values (\<open>xdr.ScVal\<close>) are opaque: the platform says which values are such instances, and what
  \<open>scValToNative\<close> makes of those in a diagnostic event is part of \<open>diagnostic_event\<close>.
\<close>

section \<open>Amounts moved by a simulated call\<close>

text \<open>BigInt division truncates towards zero.\<close>

definition sac_raw_to_decimal :: "int \<Rightarrow> string" where
  "sac_raw_to_decimal raw = int_str (raw sdiv 10 ^ 7) @ ''.'' @ pad_left 7 (int_str (raw smod 10 ^ 7))"

definition native_amount :: "jsval option \<Rightarrow> int" where
  "native_amount v = (case v of
     Some (JBig n) \<Rightarrow> n
   | Some (JNum (JFin x)) \<Rightarrow> if x = of_int \<lfloor>x\<rfloor> then \<lfloor>x\<rfloor> else 0
   | _ \<Rightarrow> 0)"

text \<open>What one event takes from the agent: its data, when the topics are a transfer-like name and
  the agent.\<close>

definition sac_debit :: "string \<Rightarrow> diagnostic_event \<Rightarrow> int" where
  "sac_debit agent e =
     (if \<not> de_in_successful_call e then 0
      else case de_body e of
             Some (Some (JStr name) # Some from # topics, dat) \<Rightarrow>
               if name \<in> {''transfer'', ''transfer_from'', ''burn''} \<and> from = JStr agent then native_amount dat else 0
           | _ \<Rightarrow> 0)"

definition extract_sac_transfer_total :: "diagnostic_event list \<Rightarrow> string \<Rightarrow> int" where
  "extract_sac_transfer_total es agent = foldl (\<lambda>total e. total + sac_debit agent e) 0 es"

section \<open>SorobanInvokeTool\<close>

record invoke_input =
  iv_contract :: string
  iv_method :: string
  iv_args :: "jsval list"
  iv_simulate_only :: bool

record send_reply =
  sent_status :: string
  sent_hash :: string
  sent_error :: "string option"

record tx_reply =
  got_status :: string
  got_result_xdr :: "string option"

record 'w contract_platform = "'w tools_platform" +
  valid_contract :: "string \<Rightarrow> bool"
  is_scval :: "jsval \<Rightarrow> bool"
  has_time_bounds :: "transaction \<Rightarrow> bool"
  send_transaction :: "transaction \<Rightarrow> 'w \<Rightarrow> 'w \<times> (js_error + send_reply)"
  get_transaction :: "string \<Rightarrow> 'w \<Rightarrow> 'w \<times> (js_error + tx_reply)"
  read_file :: "string \<Rightarrow> 'w \<Rightarrow> 'w \<times> nat list option"
  upload_contract_wasm :: "(nat list \<Rightarrow> 'w \<Rightarrow> 'w \<times> (js_error + jsval)) option"
  create_contract_from_wasm :: "(string \<Rightarrow> 'w \<Rightarrow> 'w \<times> (js_error + jsval)) option"
  as_buffer :: "jsval \<Rightarrow> nat list option"
  js_string :: "jsval \<Rightarrow> string"

datatype invoke_result = InvokeHash string | InvokeSimulation transaction

definition is_soroban_simulation_result :: "invoke_result \<Rightarrow> bool" where
  "is_soroban_simulation_result r = (case r of InvokeSimulation tx \<Rightarrow> True | InvokeHash h \<Rightarrow> False)"

definition query_schema :: "('w, 'x) contract_platform_scheme \<Rightarrow> jsval \<Rightarrow> (string \<times> string \<times> jsval list) option" where
  "query_schema p v = do {
     _ \<leftarrow> z_obj v;
     cid \<leftarrow> z_check (\<lambda>t. length t = 56) (z_str (field v ''contractId''));
     meth \<leftarrow> z_check (\<lambda>t. 1 \<le> length t) (z_str (field v ''method''));
     args \<leftarrow> z_def [] (z_arr (\<lambda>w. z_check (is_scval p) (Some w))) (field v ''args'');
     Some (cid, meth, args)
   }"

definition invoke_schema :: "('w, 'x) contract_platform_scheme \<Rightarrow> jsval \<Rightarrow> invoke_input option" where
  "invoke_schema p v = do {
     (cid, meth, args) \<leftarrow> query_schema p v;
     dry \<leftarrow> z_def False z_bool (field v ''simulateOnly'');
     Some \<lparr>iv_contract = cid, iv_method = meth, iv_args = args, iv_simulate_only = dry\<rparr>
   }"

text \<open>A contract id the SDK rejects becomes a manage-data operation.\<close>

definition contract_call :: "('w, 'x) contract_platform_scheme \<Rightarrow> string \<Rightarrow> string \<Rightarrow> string \<Rightarrow> jsval list \<Rightarrow> operation" where
  "contract_call p shim cid meth args =
     (if valid_contract p cid then OpInvokeContract cid meth args else OpManageData (shim @ meth) (Some ''mock''))"

definition invoke_fee_check :: "agent_config \<Rightarrow> string \<Rightarrow> js_error + unit" where
  "invoke_fee_check c fee =
     (if fee = [] then Inr ()
      else case parse_int fee of
             None \<Rightarrow> Inl (plain (''Invalid Soroban fee: '' @ fee))
           | Some f \<Rightarrow> if MAX_SOROBAN_FEE_STROOPS c < f
               then Inl (plain (''Soroban fee '' @ fee @ '' exceeds MAX_SOROBAN_FEE_STROOPS '' @ int_str (MAX_SOROBAN_FEE_STROOPS c)))
               else Inr ())"

definition sac_limit_error :: "agent_config \<Rightarrow> string \<Rightarrow> js_error" where
  "sac_limit_error c a = plain (''Contract invocation transfers '' @ a @ '' '' @ X402_ASSET_CODE c @
     '' exceeds AGENT_SPENDING_LIMIT of '' @ AGENT_SPENDING_LIMIT c)"

definition sac_cap_error :: "agent_config \<Rightarrow> string \<Rightarrow> js_error" where
  "sac_cap_error c a = plain (''Contract invocation transfers '' @ a @ '' '' @ X402_ASSET_CODE c @
     '' exceeds mainnet spending cap of 10000'')"

definition sac_guard ::
    "(rat \<Rightarrow> string) \<Rightarrow> agent_config \<Rightarrow> int \<Rightarrow> bool \<Rightarrow> int \<Rightarrow> tracker \<Rightarrow> tracker \<times> (js_error + unit)" where
  "sac_guard num c tot rec tm t =
     (if tot \<le> 0 then (t, Inr ())
      else let a = sac_raw_to_decimal tot; parsed = parse_float a; limit = parse_float (AGENT_SPENDING_LIMIT c) in
        if \<not> is_nan parsed \<and> \<not> is_nan limit \<and> js_less limit parsed then (t, Inl (sac_limit_error c a))
        else if \<not> is_nan parsed \<and> STELLAR_NETWORK c = Mainnet \<and> js_less mainnet_spending_cap parsed
          then (t, Inl (sac_cap_error c a))
        else if rec then record_payment num (AGENT_SPENDING_LIMIT c) tm a t
        else (t, Inr ()))"

definition assert_sac_transfers ::
    "('w, 'x) platform_scheme \<Rightarrow> agent_config \<Rightarrow> string \<Rightarrow> diagnostic_event list \<Rightarrow> bool \<Rightarrow> ('w, 'y) agent_sys_scheme \<Rightarrow>
     ('w, 'y) agent_sys_scheme \<times> (js_error + unit)" where
  "assert_sac_transfers p c self es rec s =
     (let (t, r) = sac_guard (print_num p) c (extract_sac_transfer_total es self) rec (now p s) (spending s)
      in (s\<lparr>spending := t\<rparr>, r))"

text \<open>The polling loop, with the attempts that are left. (The message's dash is written \<open>-\<close>.)\<close>

fun poll_for_confirmation ::
    "('w, 'x) contract_platform_scheme \<Rightarrow> agent_config \<Rightarrow> string \<Rightarrow> nat \<Rightarrow> ('w, 'y) sys_scheme \<Rightarrow>
     ('w, 'y) sys_scheme \<times> (js_error + string)" where
  "poll_for_confirmation p c h 0 s =
     (s, Inl (plain (''Soroban transaction not confirmed within polling window: '' @ h)))"
| "poll_for_confirmation p c h (Suc n) s =
     andThen (outside (get_transaction p h) (s\<lparr>world := sleep_ms p (of_int (RETRY_DELAY_MS c * 2)) (world s)\<rparr>)) (\<lambda>s st.
       if got_status st = ''SUCCESS'' then (s, Inr h)
       else if got_status st = ''FAILED'' then
         (s, Inl (plain (''Soroban transaction failed on-chain: '' @ h @ '' - '' @
            (case got_result_xdr st of Some x \<Rightarrow> x | None \<Rightarrow> ''no XDR''))))
       else poll_for_confirmation p c h n s)"

definition broadcast ::
    "('w, 'x) contract_platform_scheme \<Rightarrow> agent_config \<Rightarrow> transaction \<Rightarrow> ('w, 'y) sys_scheme \<Rightarrow>
     ('w, 'y) sys_scheme \<times> (js_error + string)" where
  "broadcast p c tx s =
     andThen (outside (send_transaction p tx) (s\<lparr>submissions := submissions s @ [Envelope tx]\<rparr>)) (\<lambda>s r.
       if sent_status r = ''ERROR'' then
         (s, Inl (plain (''Soroban submit failed: '' @ (case sent_error r of Some x \<Rightarrow> x | None \<Rightarrow> ''undefined''))))
       else poll_for_confirmation p c (sent_hash r) 10 s)"

definition soroban_invoke_execute ::
    "('w, 'x) contract_platform_scheme \<Rightarrow> agent_config \<Rightarrow> string \<Rightarrow> jsval \<Rightarrow> ('w, 'y) agent_sys_scheme \<Rightarrow>
     ('w, 'y) agent_sys_scheme \<times> (js_error + invoke_result)" where
  "soroban_invoke_execute p c self v s =
     andThen (s, or_zod (invoke_schema p v)) (\<lambda>s i.
     andThen (load_account p c self False s) (\<lambda>s a.
     andThen (s, check_op p (contract_call p ''invoke:'' (iv_contract i) (iv_method i) (iv_args i))) (\<lambda>s op.
       let (s1, tx) = build_tx p ''0'' [op] None soroban_tx_timeout a s in
     andThen (prepare_soroban_tx_with_events p c tx s1) (\<lambda>s pr.
     andThen (s, invoke_fee_check c (tx_fee (prepared_tx pr))) (\<lambda>s u.
     andThen (assert_sac_transfers p c self (prepared_events pr) (\<not> iv_simulate_only i) s) (\<lambda>s u.
       if iv_simulate_only i then (s, Inr (InvokeSimulation (prepared_tx pr)))
       else if \<not> has_time_bounds p (prepared_tx pr)
         then (s, Inl (plain ''Broadcast aborted: transaction has no time bounds (setTimeout(0)). Use a positive timeout to prevent indefinite replay.''))
       else (let signed = sign_tx self (prepared_tx pr) in
         if tx_signatures signed = [] then (s, Inl (plain ''Transaction signing produced no signatures''))
         else (case broadcast p c signed s of (s', r) \<Rightarrow> (s', map_sum id InvokeHash r)))))))))"

section \<open>SorobanQueryTool\<close>

definition soroban_query ::
    "('w, 'x) contract_platform_scheme \<Rightarrow> agent_config \<Rightarrow> string \<Rightarrow> jsval \<Rightarrow> ('w, 'y) sys_scheme \<Rightarrow>
     ('w, 'y) sys_scheme \<times> (js_error + transaction)" where
  "soroban_query p c self v s =
     andThen (s, or_zod (query_schema p v)) (\<lambda>s (cid, meth, args).
     andThen (load_account p c self False s) (\<lambda>s a.
     andThen (s, check_op p (contract_call p ''query:'' cid meth args)) (\<lambda>s op.
       let (s1, tx) = build_tx p base_fee [op] None 30 a s in prepare_soroban_tx p c tx s1)))"


section \<open>SorobanDeployTool\<close>

record deploy_input =
  dp_action :: string
  dp_wasm :: jsval
  dp_wasm_buffer :: jsval
  dp_wasm_hash :: "string option"

text \<open>A Buffer or a string, or absent (\<open>JUndef\<close>).\<close>

definition z_wasm :: "('w, 'x) contract_platform_scheme \<Rightarrow> jsval \<Rightarrow> jsval option" where
  "z_wasm p v = (if v = JUndef \<or> as_buffer p v \<noteq> None \<or> z_str v \<noteq> None then Some v else None)"

definition deploy_schema :: "('w, 'x) contract_platform_scheme \<Rightarrow> jsval \<Rightarrow> deploy_input option" where
  "deploy_schema p v = do {
     _ \<leftarrow> z_obj v;
     act \<leftarrow> z_enum [''upload'', ''instantiate'', ''deploy''] (field v ''action'');
     w \<leftarrow> z_wasm p (field v ''wasm'');
     b \<leftarrow> z_wasm p (field v ''wasmBuffer'');
     h \<leftarrow> z_opt z_str (field v ''wasmHash'');
     Some \<lparr>dp_action = act, dp_wasm = w, dp_wasm_buffer = b, dp_wasm_hash = h\<rparr>
   }"

text \<open>\<open>Buffer.from(s, 'utf8')\<close> of a string of 8-bit characters.\<close>

definition utf8_encode :: "string \<Rightarrow> nat list" where
  "utf8_encode t = concat (map (\<lambda>ch. let n = ccode ch in if n < 128 then [n] else [192 + n div 64, 128 + n mod 64]) t)"

text \<open>The bytes of a WASM string: a file's, else hex, else base64, else the text itself.\<close>

definition decode_wasm :: "string \<Rightarrow> nat list" where
  "decode_wasm t =
     (if (\<forall>ch \<in> set t. is_hex_char ch) \<and> even (length t) then hex_bytes t
      else if base64_bytes t \<noteq> [] then base64_bytes t else utf8_encode t)"

definition resolve_wasm_buffer ::
    "('w, 'x) contract_platform_scheme \<Rightarrow> deploy_input \<Rightarrow> ('w, 'y) sys_scheme \<Rightarrow>
     ('w, 'y) sys_scheme \<times> (js_error + nat list)" where
  "resolve_wasm_buffer p i s =
     (let raw = (if nullish (dp_wasm_buffer i) then dp_wasm i else dp_wasm_buffer i);
          bad = (\<lambda>msg. (s, Inl (validation_error (msg @ '' for action '' @ CHR 0x27 # dp_action i @ [CHR 0x27]) JUndef)))
      in if \<not> truthy raw then bad ''WASM bytecode is required''
         else (case as_buffer p raw of
             Some bs \<Rightarrow> if bs = [] then bad ''WASM buffer cannot be empty'' else (s, Inr bs)
           | None \<Rightarrow> (case raw of
               JStr u \<Rightarrow>
                 if trim u = [] then bad ''WASM string cannot be empty''
                 else (case outside (read_file p (trim u)) s of
                     (s', Some bs) \<Rightarrow> (s', Inr bs)
                   | (s', None) \<Rightarrow> (s', Inr (decode_wasm (trim u))))
             | _ \<Rightarrow> bad ''Invalid WASM input type'')))"

text \<open>The id in a reply: the reply itself when it is a string, else the first of its fields that
  is there, else the reply as text.\<close>

definition reply_id :: "('w, 'x) contract_platform_scheme \<Rightarrow> string list \<Rightarrow> jsval \<Rightarrow> jsval" where
  "reply_id p names r =
     (case r of
        JStr t \<Rightarrow> r
      | _ \<Rightarrow> (case find (\<lambda>n. \<not> nullish (field r n)) names of
                Some n \<Rightarrow> field r n
              | None \<Rightarrow> JStr (if nullish r then [] else js_string p r)))"

definition deploy_upload ::
    "('w, 'x) contract_platform_scheme \<Rightarrow> nat list \<Rightarrow> ('w, 'y) sys_scheme \<Rightarrow> ('w, 'y) sys_scheme \<times> (js_error + jsval)" where
  "deploy_upload p bs s =
     (case upload_contract_wasm p of
        None \<Rightarrow> (s, Inl (plain ''sorobanServer does not implement uploadContractWasm''))
      | Some f \<Rightarrow> andThen (outside (f bs) s) (\<lambda>s r.
          let h = reply_id p [''wasmHash'', ''hash''] r in
          (s, if \<not> truthy h then Inl (plain ''sorobanServer.uploadContractWasm did not return a valid WASM hash'') else Inr h)))"

definition deploy_instantiate ::
    "('w, 'x) contract_platform_scheme \<Rightarrow> jsval \<Rightarrow> ('w, 'y) sys_scheme \<Rightarrow> ('w, 'y) sys_scheme \<times> (js_error + jsval)" where
  "deploy_instantiate p h s =
     (case h of
        JStr t \<Rightarrow>
          if trim t = [] then (s, Inl (validation_error ''wasmHash is required for instantiate action'' JUndef))
          else (case create_contract_from_wasm p of
                  None \<Rightarrow> (s, Inl (plain ''sorobanServer does not implement createContractFromWasm''))
                | Some f \<Rightarrow> andThen (outside (f t) s) (\<lambda>s r.
                    let k = reply_id p [''contractId'', ''id'', ''address''] r in
                    (s, if \<not> truthy k then Inl (plain ''sorobanServer.createContractFromWasm did not return a valid contract ID'')
                        else Inr k)))
      | _ \<Rightarrow> (s, Inl (validation_error ''wasmHash is required for instantiate action'' JUndef)))"

definition soroban_deploy_execute ::
    "('w, 'x) contract_platform_scheme \<Rightarrow> jsval \<Rightarrow> ('w, 'y) sys_scheme \<Rightarrow> ('w, 'y) sys_scheme \<times> (js_error + jsval)" where
  "soroban_deploy_execute p v s =
     andThen (s, or_zod (deploy_schema p v)) (\<lambda>s i.
       if dp_action i = ''upload'' then
         andThen (resolve_wasm_buffer p i s) (\<lambda>s bs.
         andThen (deploy_upload p bs s) (\<lambda>s h. (s, Inr (JObj [(''action'', JStr ''upload''), (''wasmHash'', h)]))))
       else if dp_action i = ''instantiate'' then
         (case dp_wasm_hash i of
            Some h \<Rightarrow> if h = [] then (s, Inl (validation_error ''wasmHash is required for instantiate action'' JUndef))
              else andThen (deploy_instantiate p (JStr h) s) (\<lambda>s k.
                (s, Inr (JObj [(''action'', JStr ''instantiate''), (''contractId'', k), (''wasmHash'', JStr h)])))
          | None \<Rightarrow> (s, Inl (validation_error ''wasmHash is required for instantiate action'' JUndef)))
       else
         andThen (resolve_wasm_buffer p i s) (\<lambda>s bs.
         andThen (deploy_upload p bs s) (\<lambda>s h.
         andThen (deploy_instantiate p h s) (\<lambda>s k.
           (s, Inr (JObj [(''action'', JStr ''deploy''), (''wasmHash'', h), (''contractId'', k)]))))))"

end
