(* ===== verification/SorobanLaws.thy ===== *)
theory SorobanLaws imports Soroban begin

text \<open>
  What the contract tools guarantee of amounts: raw SAC integers and the decimals they are written as.
\<close>

section \<open>Amounts\<close>

lemma digits_val_pad: "digits_val (pad_left n t) = digits_val t"
  by (simp add: pad_left_def digits_val_append digits_val_zeros)

lemma pad_left_digits: "ch \<in> set (pad_left k (nat_str n)) \<Longrightarrow> is_digit ch"
  by (auto simp: pad_left_def is_digit_def ccode_def dest: nat_str_digits)

lemma nat_str_length: "n < 10 ^ k \<Longrightarrow> 0 < k \<Longrightarrow> length (nat_str n) \<le> k"
proof (induction k arbitrary: n)
  case (Suc k)
  show ?case
  proof (cases "n < 10")
    case True
    then show ?thesis by (subst nat_str.simps) simp
  next
    case False
    with Suc.prems have "n div 10 < 10 ^ k" "0 < k" by (auto simp: less_mult_imp_div_less intro: Nat.gr0I)
    with Suc.IH [of "n div 10"] False show ?thesis by (subst nat_str.simps) simp
  qed
qed simp

lemma sac_fixed:
  assumes "0 \<le> raw"
  shows "sac_raw_to_decimal raw = fixed_digits 7 (nat raw)"
proof -
  have "raw sdiv 10 ^ 7 = raw div 10 ^ 7" "raw smod 10 ^ 7 = raw mod 10 ^ 7"
    using assms by (cases "raw = 0"; simp add: signed_divide_int_def signed_modulo_int_def)+
  moreover have "(raw div 10 ^ 7 < 0) = False" "(raw mod 10 ^ 7 < 0) = False"
    using assms pos_mod_sign [of "10 ^ 7" raw] by (simp_all add: pos_imp_zdiv_neg_iff)
  ultimately show ?thesis using assms
    by (simp add: sac_raw_to_decimal_def fixed_digits_def int_str_def nat_div_distrib nat_mod_distrib)
qed

lemma fixed_units: "decimal_units (fixed_digits 7 n) = Some n"
proof -
  let ?w = "nat_str (n div 10 ^ 7)" and ?f = "pad_left 7 (nat_str (n mod 10 ^ 7))"
  have d: "\<forall>ch \<in> set ?w. is_digit ch" "\<not> is_digit (CHR ''.'')" by (auto dest: nat_str_digits simp: is_digit_def ccode_def)
  have t: "takeWhile is_digit (?w @ CHR ''.'' # ?f) = ?w" "dropWhile is_digit (?w @ CHR ''.'' # ?f) = CHR ''.'' # ?f"
    using d by (simp_all add: takeWhile_append dropWhile_append)
  have "length (nat_str (n mod 10 ^ 7)) \<le> 7" by (rule nat_str_length) simp_all
  then have l: "length ?f = 7" by (simp add: pad_left_def)
  have tail: "decimal_tail_ok (CHR ''.'' # ?f)" using l pad_left_digits by (auto simp: decimal_tail_ok_def)
  have s: "fixed_digits 7 n = ?w @ CHR ''.'' # ?f" by (simp add: fixed_digits_def)
  have "n div 10 ^ 7 * 10 ^ 7 + n mod 10 ^ 7 = n" by simp
  then show ?thesis unfolding s decimal_units_def t Let_def using tail l
    by (simp add: digits_val_pad del: div_mult_mod_eq)
qed

text \<open>
  The decimal text of an amount in SAC base units denotes exactly that amount: reading it
  back in units of 0.0000001, the way the spending limit is read, gives the same number.
\<close>

theorem sac_decimal_roundtrip:
  assumes "0 \<le> raw"
  shows "decimal_units (sac_raw_to_decimal raw) = Some (nat raw)"
  by (simp add: sac_fixed assms fixed_units)

theorem sac_decimal_roundtrip_witness:
  "decimal_units (sac_raw_to_decimal 12345678901) = Some 12345678901"
  using sac_decimal_roundtrip [of 12345678901] by simp

end
