(* ===== verification/Reserves.thy ===== *)
theory Reserves imports SorobanLaws begin

text \<open>
  backend/tools/LiquidityPoolTool.ts, SponsoredAccountTool.ts, ClaimableBalanceTool.ts and
  SetOptionsTool.ts.
\<close>

record 'w reserve_platform = "'w contract_platform" +
  horizon_pool :: "string \<Rightarrow> 'w \<Rightarrow> 'w \<times> (js_error + jsval)"
  horizon_claimable :: "string \<Rightarrow> 'w \<Rightarrow> 'w \<times> (js_error + jsval)"
  public_of_secret :: "string \<Rightarrow> js_error + string"
  decorate_signature :: "string \<Rightarrow> nat list \<Rightarrow> js_error + string"

section \<open>LiquidityPoolTool\<close>

datatype pool_input =
    PoolDeposit string string string string string
  | PoolWithdraw string string string string
  | PoolInfo string

text \<open>\<open>/^\d+(\.\d{1,7})?$/\<close>.\<close>

definition min_amount_ok :: "string \<Rightarrow> bool" where
  "min_amount_ok t \<longleftrightarrow> takeWhile is_digit t \<noteq> [] \<and> decimal_tail_ok (dropWhile is_digit t)"

definition pool_schema :: "jsval \<Rightarrow> pool_input option" where
  "pool_schema v =
     (if field v ''action'' = JStr ''deposit'' then do {
        k \<leftarrow> z_check (\<lambda>t. 1 \<le> length t) (z_str (field v ''liquidityPoolId''));
        a \<leftarrow> z_check amount_regex (z_str (field v ''maxAmountA''));
        b \<leftarrow> z_check amount_regex (z_str (field v ''maxAmountB''));
        lo \<leftarrow> z_check price_ok (z_str (field v ''minPrice''));
        hi \<leftarrow> z_check price_ok (z_str (field v ''maxPrice''));
        Some (PoolDeposit k a b lo hi) }
      else if field v ''action'' = JStr ''withdraw'' then do {
        k \<leftarrow> z_check (\<lambda>t. 1 \<le> length t) (z_str (field v ''liquidityPoolId''));
        amt \<leftarrow> z_check amount_regex (z_str (field v ''amount''));
        a \<leftarrow> z_check min_amount_ok (z_str (field v ''minAmountA''));
        b \<leftarrow> z_check min_amount_ok (z_str (field v ''minAmountB''));
        Some (PoolWithdraw k amt a b) }
      else if field v ''action'' = JStr ''info'' then
        map_option PoolInfo (z_check (\<lambda>t. 1 \<le> length t) (z_str (field v ''liquidityPoolId'')))
      else None)"

definition pool_info :: "jsval \<Rightarrow> js_error + jsval" where
  "pool_info res =
     (case field res ''reserves'' of
        JArr rs \<Rightarrow> Inr (JObj [(''poolInfo'', JObj
          [(''id'', field res ''id''), (''pagingToken'', field res ''paging_token''), (''feeBP'', field res ''fee_bp''),
           (''type'', field res ''type''), (''totalShares'', field res ''total_shares''),
           (''totalTrustlines'', field res ''total_trustlines''),
           (''reserves'', JArr (map (\<lambda>r. JObj [(''asset'', field r ''asset''), (''amount'', field r ''amount'')]) rs))])])
      | _ \<Rightarrow> Inl (TypeErr ''Cannot read properties (reading 'map')''))"

text \<open>The submission of this tool is not parsed: hash and ledger are whatever the reply holds.\<close>

definition pool_submit ::
    "('w, 'x) platform_scheme \<Rightarrow> agent_config \<Rightarrow> string \<Rightarrow> operation \<Rightarrow> ('w, 'y) sys_scheme \<Rightarrow>
     ('w, 'y) sys_scheme \<times> (js_error + jsval)" where
  "pool_submit p c self op s =
     andThen (load_account p c self False s) (\<lambda>s a.
     andThen (s, check_op p op) (\<lambda>s op'.
       let (s1, tx) = build_tx p base_fee [op'] None soroban_tx_timeout a s in
       andThen (submit_transaction p c (Envelope (sign_tx self tx)) s1) (\<lambda>s w.
         (s, Inr (JObj [(''txHash'', field w ''hash''), (''ledger'', field w ''ledger'')])))))"

definition liquidity_pool_execute ::
    "('w, 'x) reserve_platform_scheme \<Rightarrow> agent_config \<Rightarrow> string \<Rightarrow> jsval \<Rightarrow> ('w, 'y) sys_scheme \<Rightarrow>
     ('w, 'y) sys_scheme \<times> (js_error + jsval)" where
  "liquidity_pool_execute p c self v s =
     andThen (s, or_zod (pool_schema v)) (\<lambda>s i.
       case i of
         PoolInfo k \<Rightarrow> andThen (outside (horizon_pool p k) s) (\<lambda>s res. (s, pool_info res))
       | PoolDeposit k a b lo hi \<Rightarrow> pool_submit p c self (OpLiquidityPoolDeposit k a b lo hi) s
       | PoolWithdraw k amt a b \<Rightarrow> pool_submit p c self (OpLiquidityPoolWithdraw k amt a b) s)"

section \<open>SponsoredAccountTool\<close>

record sponsored_input =
  sp_public_key :: string
  sp_starting_balance :: string
  sp_signature :: "string option"
  sp_secret :: "string option"

definition sponsored_schema :: "('w, 'x) platform_scheme \<Rightarrow> jsval \<Rightarrow> sponsored_input option" where
  "sponsored_schema p v = do {
     _ \<leftarrow> z_obj v;
     k \<leftarrow> z_account p (field v ''newAccountPublicKey'');
     b \<leftarrow> z_def ''0'' z_str (field v ''startingBalance'');
     sg \<leftarrow> z_opt z_str (field v ''newAccountSignature'');
     sec \<leftarrow> z_opt z_str (field v ''newAccountSecret'');
     Some \<lparr>sp_public_key = k, sp_starting_balance = b, sp_signature = sg, sp_secret = sec\<rparr>
   }"

definition given :: "string option \<Rightarrow> string option" where
  "given x = (case x of Some t \<Rightarrow> if t = [] then None else Some t | None \<Rightarrow> None)"

text \<open>The co-signature: by the secret, else the decorated signature, else raw signature bytes.\<close>

definition co_signature :: "('w, 'x) reserve_platform_scheme \<Rightarrow> sponsored_input \<Rightarrow> js_error + signature list" where
  "co_signature p i =
     (case given (sp_secret i) of
        Some k \<Rightarrow> map_sum id (\<lambda>pub. [SignedBy pub]) (public_of_secret p k)
      | None \<Rightarrow> (case given (sp_signature i) of
          None \<Rightarrow> Inr []
        | Some g \<Rightarrow> (case decode_signature p g of
            Inr d \<Rightarrow> Inr [Decorated d]
          | Inl e \<Rightarrow> (case decorate_signature p (sp_public_key i) (base64_bytes g) of
              Inr d \<Rightarrow> Inr [Decorated d]
            | Inl e \<Rightarrow> Inl (plain (''Invalid newAccountSignature: '' @ err_message e))))))"

definition sponsored_execute ::
    "('w, 'x) reserve_platform_scheme \<Rightarrow> agent_config \<Rightarrow> string \<Rightarrow> jsval \<Rightarrow> ('w, 'y) sys_scheme \<Rightarrow>
     ('w, 'y) sys_scheme \<times> (js_error + jsval)" where
  "sponsored_execute p c self v s =
     andThen (s, or_zod (sponsored_schema p v)) (\<lambda>s i.
     andThen (load_account p c self False s) (\<lambda>s a.
     andThen (s, map_result (check_op p) [OpBeginSponsoring (sp_public_key i),
         OpCreateAccount (sp_public_key i) (sp_starting_balance i), OpEndSponsoring (sp_public_key i)]) (\<lambda>s ops.
       let (s1, tx) = build_tx p base_fee ops None 30 a s in
     andThen (s1, co_signature p i) (\<lambda>s extra.
       map_data (\<lambda>r. JObj (result_fields r @ [(''newAccountPublicKey'', JStr (sp_public_key i)),
           (''startingBalance'', JStr (sp_starting_balance i))]))
         (submit_and_parse p c (Envelope (tx\<lparr>tx_signatures := SignedBy self # extra\<rparr>)) s)))))"

section \<open>ClaimableBalanceTool\<close>

datatype claimable_input =
    ClaimableCreate string "string option" string "(string \<times> int option) list"
  | ClaimableClaim string

text \<open>A claimant with the time before which it may claim, if any.\<close>

definition z_predicate :: "jsval \<Rightarrow> int option option" where
  "z_predicate v =
     (if v = JUndef \<or> field v ''type'' = JStr ''unconditional'' then Some None
      else if field v ''type'' = JStr ''beforeAbsoluteTime''
        then map_option Some (z_check (\<lambda>n. 0 < n) (z_int (field v ''timestamp'')))
      else None)"

definition z_claimant :: "('w, 'x) platform_scheme \<Rightarrow> jsval \<Rightarrow> (string \<times> int option) option" where
  "z_claimant p v = do {
     d \<leftarrow> z_account p (field v ''destination'');
     q \<leftarrow> z_predicate (field v ''predicate'');
     Some (d, q) }"

definition claimable_schema :: "('w, 'x) platform_scheme \<Rightarrow> jsval \<Rightarrow> claimable_input option" where
  "claimable_schema p v =
     (if field v ''action'' = JStr ''create'' then do {
        code \<leftarrow> z_check (\<lambda>t. 1 \<le> length t \<and> length t \<le> 12) (z_str (field v ''assetCode''));
        issuer \<leftarrow> z_opt (z_account p) (field v ''assetIssuer'');
        amt \<leftarrow> z_check (\<lambda>t. 1 \<le> length t) (z_str (field v ''amount''));
        cs \<leftarrow> z_check (\<lambda>xs. 1 \<le> length xs) (z_arr (z_claimant p) (field v ''claimants''));
        Some (ClaimableCreate code issuer amt cs) }
      else if field v ''action'' = JStr ''claim'' then
        map_option ClaimableClaim (z_check (\<lambda>t. 1 \<le> length t) (z_str (field v ''balanceId'')))
      else None)"

definition verify_claimant ::
    "('w, 'x) reserve_platform_scheme \<Rightarrow> string \<Rightarrow> string \<Rightarrow> ('w, 'y) sys_scheme \<Rightarrow>
     ('w, 'y) sys_scheme \<times> (js_error + unit)" where
  "verify_claimant p self bal s =
     andThen (outside (horizon_claimable p self) s) (\<lambda>s page.
       (s, if (\<exists>r \<in> set (case field page ''records'' of JArr rs \<Rightarrow> rs | _ \<Rightarrow> []). field r ''id'' = JStr bal)
           then Inr () else Inl (plain (''Agent is not a claimant for balance '' @ bal))))"

definition claimable_execute ::
    "('w, 'x) reserve_platform_scheme \<Rightarrow> agent_config \<Rightarrow> string \<Rightarrow> jsval \<Rightarrow> ('w, 'y) sys_scheme \<Rightarrow>
     ('w, 'y) sys_scheme \<times> (js_error + submit_result)" where
  "claimable_execute p c self v s =
     andThen (s, or_zod (claimable_schema p v)) (\<lambda>s i.
     andThen (load_account p c self False s) (\<lambda>s a.
       case i of
         ClaimableCreate code issuer amt cs \<Rightarrow>
           andThen (s, if code = ''XLM'' \<and> issuer_missing issuer then Inr Native else new_asset p code issuer) (\<lambda>s ast.
             sign_and_submit p c self [OpCreateClaimableBalance ast amt cs] None 30 a s)
       | ClaimableClaim bal \<Rightarrow>
           andThen (verify_claimant p self bal s) (\<lambda>s u.
             sign_and_submit p c self [OpClaimClaimableBalance bal] None 30 a s)))"

section \<open>SetOptionsTool\<close>

definition z_byte :: "jsval \<Rightarrow> int option" where
  "z_byte v = z_check (\<lambda>n. 0 \<le> n \<and> n \<le> 255) (z_int v)"

text \<open>The fields that are there, in the order of the operation.\<close>

definition option_field :: "jsval \<Rightarrow> (jsval \<Rightarrow> 'a option) \<Rightarrow> string \<Rightarrow> (string \<times> jsval) list option" where
  "option_field v z k = (if field v k = JUndef then Some []
     else (case z (field v k) of None \<Rightarrow> None | Some x \<Rightarrow> Some [(k, field v k)]))"

definition set_options_schema :: "jsval \<Rightarrow> (string \<times> jsval) list option" where
  "set_options_schema v = do {
     _ \<leftarrow> z_obj v;
     d \<leftarrow> option_field v (\<lambda>w. z_check (\<lambda>t. length t \<le> 32) (z_str w)) ''homeDomain'';
     m \<leftarrow> option_field v z_byte ''masterWeight'';
     lo \<leftarrow> option_field v z_byte ''lowThreshold'';
     med \<leftarrow> option_field v z_byte ''medThreshold'';
     hi \<leftarrow> option_field v z_byte ''highThreshold'';
     f \<leftarrow> option_field v z_int ''setFlags'';
     g \<leftarrow> option_field v z_int ''clearFlags'';
     Some (d @ m @ lo @ med @ hi @ f @ g)
   }"

definition set_options_execute ::
    "('w, 'x) platform_scheme \<Rightarrow> agent_config \<Rightarrow> string \<Rightarrow> jsval \<Rightarrow> ('w, 'y) sys_scheme \<Rightarrow>
     ('w, 'y) sys_scheme \<times> (js_error + submit_result)" where
  "set_options_execute p c self v s =
     andThen (s, or_zod (set_options_schema v)) (\<lambda>s opts.
       submit_ops p c self False [OpSetOptions opts] None 30 s)"

end
