(* ===== verification/Services.thy ===== *)
theory Services imports Reserves TtlCache begin

text \<open>
  The tools that only ask: backend/tools/AccountHistoryTool.ts, StellarTomlTool.ts,
  AnchorQuoteTool.ts, LedgerInfoTool.ts, OfferBookTool.ts, FriendBotTool.ts, NetworkStatusTool.ts,
  StellarIdentityTool.ts and SorobanEventIndexerTool.ts.
\<close>

text \<open>A \<open>fetch\<close> reply: whether it is ok, its status, its text (None when reading it fails) and its
  JSON body.\<close>

record fetch_reply =
  rp_ok :: bool
  rp_status :: int
  rp_text :: "string option"
  rp_json :: "js_error + jsval"

record 'w service_platform = "'w reserve_platform" +
  horizon_payments :: "string \<Rightarrow> int \<Rightarrow> string option \<Rightarrow> 'w \<Rightarrow> 'w \<times> (js_error + jsval list)"
  http_get :: "string \<Rightarrow> (string \<times> string) list \<Rightarrow> (string \<times> string) list \<Rightarrow> 'w \<Rightarrow> 'w \<times> (js_error + jsval)"
  toml_parse :: "jsval \<Rightarrow> js_error + jsval"
  latest_ledger :: "'w \<Rightarrow> 'w \<times> (js_error + jsval)"
  orderbook :: "asset \<Rightarrow> asset \<Rightarrow> int option \<Rightarrow> 'w \<Rightarrow> 'w \<times> (js_error + jsval)"
  fetch_url :: "string \<Rightarrow> string option \<Rightarrow> 'w \<Rightarrow> 'w \<times> (js_error + fetch_reply)"
  http_probe :: "string \<Rightarrow> 'w \<Rightarrow> 'w \<times> (js_error + int \<times> string)"
  soroban_health :: "'w \<Rightarrow> 'w \<times> (js_error + jsval)"
  decode_challenge :: "string \<Rightarrow> string \<Rightarrow> js_error + transaction"
  get_events :: "jsval \<Rightarrow> 'w \<Rightarrow> 'w \<times> (js_error + jsval)"
  tx_value :: "transaction \<Rightarrow> jsval"

text \<open>\<open>tx_value\<close> is the SDK's transaction object as a value.\<close>

text \<open>An unknown value in a template literal.\<close>

definition template_text :: "('w, 'x) contract_platform_scheme \<Rightarrow> jsval \<Rightarrow> string" where
  "template_text p v = (case v of JStr t \<Rightarrow> t | JUndef \<Rightarrow> ''undefined'' | JNull \<Rightarrow> ''null'' | _ \<Rightarrow> js_string p v)"

definition coalesce_field :: "jsval \<Rightarrow> string \<Rightarrow> jsval \<Rightarrow> jsval" where
  "coalesce_field v k d = (if nullish (field v k) then d else field v k)"

section \<open>AccountHistoryTool\<close>

record history_input =
  ah_public_key :: "string option"
  ah_limit :: int
  ah_cursor :: "string option"
  ah_asset_code :: "string option"

definition history_schema :: "jsval \<Rightarrow> history_input option" where
  "history_schema v = do {
     _ \<leftarrow> z_obj v;
     pk \<leftarrow> z_opt (\<lambda>w. z_check (\<lambda>t. length t = 56) (z_str w)) (field v ''publicKey'');
     lmt \<leftarrow> z_def 10 (\<lambda>w. z_check (\<lambda>n. 1 \<le> n \<and> n \<le> 200) (z_int w)) (field v ''limit'');
     cur \<leftarrow> z_opt z_str (field v ''cursor'');
     code \<leftarrow> z_opt z_str (field v ''assetCode'');
     Some \<lparr>ah_public_key = pk, ah_limit = lmt, ah_cursor = cur, ah_asset_code = code\<rparr>
   }"

definition format_asset :: "('w, 'x) contract_platform_scheme \<Rightarrow> jsval \<Rightarrow> jsval \<Rightarrow> jsval \<Rightarrow> string" where
  "format_asset p ty code issuer =
     (if ty = JStr ''native'' then ''XLM'' else template_text p code @ '':'' @ template_text p issuer)"

definition matches_asset_code :: "string \<Rightarrow> string \<Rightarrow> bool" where
  "matches_asset_code ast code = (if code = ''XLM'' then ast = ''XLM'' else starts_with ast (code @ '':''))"

record payment_record =
  pr_fields :: "(string \<times> jsval) list"
  pr_asset :: string

definition to_payment_record :: "('w, 'x) contract_platform_scheme \<Rightarrow> jsval \<Rightarrow> payment_record option" where
  "to_payment_record p r =
     (if field r ''type'' \<noteq> JStr ''payment'' then None
      else let ast = format_asset p (field r ''asset_type'') (field r ''asset_code'') (field r ''asset_issuer'') in
        Some \<lparr>pr_fields = [(''id'', field r ''id''), (''type'', field r ''type''), (''from'', coalesce_field r ''from'' (JStr [])),
           (''to'', coalesce_field r ''to'' (JStr [])), (''amount'', coalesce_field r ''amount'' (JStr ''0'')),
           (''asset'', JStr ast), (''createdAt'', field r ''created_at''), (''pagingToken'', field r ''paging_token'')],
          pr_asset = ast\<rparr>)"

definition next_cursor :: "int \<Rightarrow> jsval list \<Rightarrow> jsval" where
  "next_cursor lmt rs =
     (if rs \<noteq> [] \<and> int (length rs) = lmt then coalesce_field (last rs) ''paging_token'' JNull else JNull)"

definition account_history_fetch ::
    "('w, 'x) service_platform_scheme \<Rightarrow> agent_config \<Rightarrow> jsval \<Rightarrow> ('w, 'y) sys_scheme \<Rightarrow>
     ('w, 'y) sys_scheme \<times> (js_error + jsval)" where
  "account_history_fetch p c v s =
     andThen (s, or_zod (history_schema v)) (\<lambda>s i.
       let pk = (case ah_public_key i of Some k \<Rightarrow> k | None \<Rightarrow> AGENT_PUBLIC_KEY c) in
     andThen (outside (horizon_payments p pk (ah_limit i) (given (ah_cursor i))) s) (\<lambda>s rs.
       let recs = List.map_filter (to_payment_record p) rs;
           kept = (case given (ah_asset_code i) of
                     Some code \<Rightarrow> filter (\<lambda>r. matches_asset_code (pr_asset r) code) recs | None \<Rightarrow> recs)
       in (s, Inr (JObj [(''records'', JArr (map (\<lambda>r. JObj (pr_fields r)) kept)), (''nextCursor'', next_cursor (ah_limit i) rs)]))))"

section \<open>StellarTomlTool\<close>

definition toml_find :: "int \<Rightarrow> string \<Rightarrow> (string \<Rightarrow> (jsval \<times> int) option) \<Rightarrow> jsval option" where
  "toml_find t d cache = (case cache d of Some (v, e) \<Rightarrow> if t < e then Some v else None | None \<Rightarrow> None)"

definition toml_put :: "int \<Rightarrow> int \<Rightarrow> string \<Rightarrow> jsval \<Rightarrow> (string \<Rightarrow> (jsval \<times> int) option) \<Rightarrow>
    (string \<Rightarrow> (jsval \<times> int) option)" where
  "toml_put ttl t d v cache = cache(d \<mapsto> (v, t + ttl))"

definition toml_fields :: "jsval \<Rightarrow> jsval" where
  "toml_fields v = JObj (obj_spread
     (map (\<lambda>k. (k, field v k)) [''ACCOUNTS'', ''CURRENCIES'', ''DOCUMENTATION'', ''PRINCIPALS''])
     (case v of JObj kvs \<Rightarrow> kvs | _ \<Rightarrow> []))"

definition fetch_toml ::
    "('w, 'x) service_platform_scheme \<Rightarrow> int \<Rightarrow> jsval \<Rightarrow> ('w, 'y) agent_sys_scheme \<Rightarrow>
     ('w, 'y) agent_sys_scheme \<times> (js_error + jsval)" where
  "fetch_toml p ttl v s =
     andThen (s, or_zod (do { _ \<leftarrow> z_obj v; z_check (\<lambda>t. 1 \<le> length t) (z_str (field v ''domain'')) })) (\<lambda>s d.
       let d' = trim (to_lower d); t = now p s in
       case toml_find t d' (toml_cache s) of
         Some w \<Rightarrow> (s, Inr w)
       | None \<Rightarrow>
           andThen (outside (http_get p (''https://'' @ d' @ ''/.well-known/stellar.toml'') [] []) s) (\<lambda>s body.
           andThen (s, toml_parse p body) (\<lambda>s parsed.
             (s\<lparr>toml_cache := toml_put ttl t d' (toml_fields parsed) (toml_cache s)\<rparr>, Inr (toml_fields parsed)))))"

definition clear_toml_cache :: "('w, 'y) agent_sys_scheme \<Rightarrow> ('w, 'y) agent_sys_scheme" where
  "clear_toml_cache s = s\<lparr>toml_cache := (\<lambda>d. None)\<rparr>"

interpretation toml: ttl_cache toml_find "toml_put ttl" "\<lambda>d. None" ttl
  by unfold_locales (auto simp: toml_find_def toml_put_def)

section \<open>AnchorQuoteTool\<close>

record quote_input =
  aq_url :: string
  aq_sell_asset :: string
  aq_buy_asset :: string
  aq_sell_amount :: "string option"
  aq_buy_amount :: "string option"
  aq_context :: "string option"
  aq_jwt :: "string option"

definition quote_schema :: "jsval \<Rightarrow> quote_input option" where
  "quote_schema v = do {
     _ \<leftarrow> z_obj v;
     u \<leftarrow> z_check (\<lambda>t. 1 \<le> length t) (z_str (field v ''anchorQuoteUrl''));
     sa \<leftarrow> z_check (\<lambda>t. 1 \<le> length t) (z_str (field v ''sellAsset''));
     ba \<leftarrow> z_check (\<lambda>t. 1 \<le> length t) (z_str (field v ''buyAsset''));
     x \<leftarrow> z_opt z_str (field v ''sellAmount'');
     y \<leftarrow> z_opt z_str (field v ''buyAmount'');
     ctx \<leftarrow> z_opt (z_enum [''sep6'', ''sep31'']) (field v ''context'');
     jwt \<leftarrow> z_opt z_str (field v ''jwtToken'');
     z_check (\<lambda>i. aq_sell_amount i \<noteq> None \<or> aq_buy_amount i \<noteq> None)
       (Some \<lparr>aq_url = u, aq_sell_asset = sa, aq_buy_asset = ba, aq_sell_amount = x, aq_buy_amount = y,
          aq_context = ctx, aq_jwt = jwt\<rparr>)
   }"

definition quote_url :: "string \<Rightarrow> string" where
  "quote_url u = (let b = rev (dropWhile (\<lambda>ch. ch = CHR ''/'') (rev u)) in
     if ends_with b ''/price'' then b else b @ ''/price'')"

definition opt_param :: "string \<Rightarrow> string option \<Rightarrow> (string \<times> string) list" where
  "opt_param k x = (case x of None \<Rightarrow> [] | Some t \<Rightarrow> [(k, t)])"

definition quote_params :: "quote_input \<Rightarrow> (string \<times> string) list" where
  "quote_params i = [(''sell_asset'', aq_sell_asset i), (''buy_asset'', aq_buy_asset i)] @
     opt_param ''sell_amount'' (aq_sell_amount i) @ opt_param ''buy_amount'' (aq_buy_amount i) @
     opt_param ''context'' (aq_context i)"

definition quote_headers :: "quote_input \<Rightarrow> (string \<times> string) list" where
  "quote_headers i = (''Accept'', ''application/json'') #
     (case given (aq_jwt i) of Some j \<Rightarrow> [(''Authorization'', ''Bearer '' @ j)] | None \<Rightarrow> [])"

text \<open>Objects are stripped to the fields of their schema, except the quote itself.\<close>

definition keep_fields :: "string list \<Rightarrow> jsval \<Rightarrow> (string \<times> jsval) list" where
  "keep_fields ks v = map (\<lambda>k. (k, field v k)) (filter (\<lambda>k. field v k \<noteq> JUndef) ks)"

definition quote_detail :: "jsval \<Rightarrow> jsval option" where
  "quote_detail v = do {
     _ \<leftarrow> z_obj v; _ \<leftarrow> z_str (field v ''name''); _ \<leftarrow> z_opt z_str (field v ''description''); _ \<leftarrow> z_str (field v ''amount'');
     Some (JObj (keep_fields [''name'', ''description'', ''amount''] v)) }"

definition quote_fee :: "jsval \<Rightarrow> jsval option" where
  "quote_fee v = do {
     _ \<leftarrow> z_obj v; _ \<leftarrow> z_opt z_str (field v ''total''); _ \<leftarrow> z_opt z_str (field v ''asset'');
     ds \<leftarrow> z_opt (z_arr quote_detail) (field v ''details'');
     Some (JObj (keep_fields [''total'', ''asset''] v @ (case ds of None \<Rightarrow> [] | Some xs \<Rightarrow> [(''details'', JArr xs)]))) }"

definition quote_response :: "jsval \<Rightarrow> jsval option" where
  "quote_response v = do {
     _ \<leftarrow> z_obj v; _ \<leftarrow> z_str (field v ''price'');
     _ \<leftarrow> all_some (map (\<lambda>k. z_opt z_str (field v k)) [''total_price'', ''expires_at'', ''sell_amount'', ''buy_amount'']);
     fee \<leftarrow> z_opt quote_fee (field v ''fee'');
     Some (JObj (keep_fields [''price'', ''total_price'', ''expires_at'', ''sell_amount'', ''buy_amount''] v @
       (case fee of None \<Rightarrow> [] | Some f \<Rightarrow> [(''fee'', f)]) @
       filter (\<lambda>(k, w). k \<notin> set [''price'', ''total_price'', ''expires_at'', ''sell_amount'', ''buy_amount'', ''fee''])
         (case v of JObj kvs \<Rightarrow> kvs | _ \<Rightarrow> []))) }"

definition fetch_quote ::
    "('w, 'x) service_platform_scheme \<Rightarrow> jsval \<Rightarrow> ('w, 'y) sys_scheme \<Rightarrow> ('w, 'y) sys_scheme \<times> (js_error + jsval)" where
  "fetch_quote p v s =
     andThen (s, or_zod (quote_schema v)) (\<lambda>s i.
     andThen (outside (http_get p (quote_url (aq_url i)) (quote_params i) (quote_headers i)) s) (\<lambda>s body.
       (s, or_zod (quote_response body))))"

section \<open>LedgerInfoTool\<close>

record 'w ledger_sys = "'w sys" +
  ledger_cache :: "(jsval \<times> int) option"

text \<open>The lifetime of a snapshot: six seconds.\<close>

definition ledger_ttl :: int where
  "ledger_ttl = 6000"

definition ledger_find :: "int \<Rightarrow> unit \<Rightarrow> (jsval \<times> int) option \<Rightarrow> jsval option" where
  "ledger_find t u cache = (case cache of Some (v, e) \<Rightarrow> if t < e then Some v else None | None \<Rightarrow> None)"

definition ledger_put :: "int \<Rightarrow> unit \<Rightarrow> jsval \<Rightarrow> (jsval \<times> int) option \<Rightarrow> (jsval \<times> int) option" where
  "ledger_put t u v cache = Some (v, t + ledger_ttl)"

definition number_of :: "jsval \<Rightarrow> jsnum" where
  "number_of v = (case v of JNum n \<Rightarrow> n | JStr t \<Rightarrow> number_of_string t | JBig n \<Rightarrow> to_double (of_int n)
     | JNull \<Rightarrow> JFin 0 | JBool b \<Rightarrow> JFin (if b then 1 else 0) | _ \<Rightarrow> JNaN)"

definition ledger_info_execute ::
    "('w, 'x) service_platform_scheme \<Rightarrow> agent_config \<Rightarrow> jsval \<Rightarrow> ('w, 'y) ledger_sys_scheme \<Rightarrow>
     ('w, 'y) ledger_sys_scheme \<times> (js_error + jsval)" where
  "ledger_info_execute p c v s =
     andThen (s, or_zod (if nullish v then Some False
         else do { _ \<leftarrow> z_obj v; z_def False z_bool (field v ''forceRefresh'') })) (\<lambda>s force.
       let t = now p s in
       case (if force then None else ledger_find t () (ledger_cache s)) of
         Some d \<Rightarrow> (s, Inr d)
       | None \<Rightarrow>
           andThen (guarded p (with_retry p (MAX_RETRIES c) (RETRY_DELAY_MS c) default_is_retryable max_retry_delay_ms
               (outside (latest_ledger p))) s) (\<lambda>s r.
             let d = JObj [(''sequence'', JNum (number_of (field r ''sequence''))),
               (''protocolVersion'', JNum (number_of (field r ''protocolVersion'')))]
             in (s\<lparr>ledger_cache := ledger_put t () d (ledger_cache s)\<rparr>, Inr d)))"

interpretation ledger: ttl_cache ledger_find ledger_put None ledger_ttl
  by unfold_locales (auto simp: ledger_find_def ledger_put_def)

section \<open>OfferBookTool\<close>

text \<open>An asset as an object (an SDK asset also reads as one) or as a string.\<close>

datatype book_asset = BookObject asset_input | BookText string

definition z_book_asset :: "jsval \<Rightarrow> book_asset option" where
  "z_book_asset v = (case asset_schema v of
     Some a \<Rightarrow> Some (BookObject a) | None \<Rightarrow> map_option BookText (z_str v))"

definition book_resolve_asset ::
    "('w, 'x) platform_scheme \<Rightarrow> agent_config \<Rightarrow> book_asset \<Rightarrow> js_error + asset" where
  "book_resolve_asset p c a =
     (case a of
        BookText t \<Rightarrow>
          if to_upper t = ''XLM'' \<or> to_lower t = ''native'' then Inr Native
          else if CHR '':'' \<in> set t then
            (case split_on (CHR '':'') t of
               code # issuer # rest \<Rightarrow> new_asset p code (Some issuer) | _ \<Rightarrow> Inr Native)
          else new_asset p t (Some (X402_ASSET_ISSUER c))
      | BookObject a \<Rightarrow>
          if to_upper (ai_code a) = ''XLM'' \<or> issuer_missing (ai_issuer a) then Inr Native
          else new_asset p (ai_code a) (ai_issuer a))"

definition levels :: "jsval \<Rightarrow> jsval list" where
  "levels v = (case v of JArr xs \<Rightarrow> xs | _ \<Rightarrow> [])"

definition level_price :: "jsval \<Rightarrow> jsnum" where
  "level_price v = (case field v ''price'' of JStr t \<Rightarrow> parse_float t | _ \<Rightarrow> JNaN)"

definition book_spread :: "(rat \<Rightarrow> string) \<Rightarrow> jsval list \<Rightarrow> jsval list \<Rightarrow> string" where
  "book_spread num bids asks =
     (case (bids, asks) of
        (b # bs, a # xs) \<Rightarrow> num_to_fixed num 7 (js_sub (level_price a) (level_price b))
      | _ \<Rightarrow> ''0'')"

definition offer_book_execute ::
    "('w, 'x) service_platform_scheme \<Rightarrow> agent_config \<Rightarrow> jsval \<Rightarrow> ('w, 'y) sys_scheme \<Rightarrow>
     ('w, 'y) sys_scheme \<times> (js_error + jsval)" where
  "offer_book_execute p c v s =
     andThen (s, or_zod (do {
         _ \<leftarrow> z_obj v;
         a \<leftarrow> z_book_asset (field v ''sellingAsset'');
         b \<leftarrow> z_book_asset (field v ''buyingAsset'');
         l \<leftarrow> z_opt (\<lambda>w. z_check (\<lambda>n. 0 < n \<and> n \<le> 200) (z_int w)) (field v ''limit'');
         Some (a, b, l) })) (\<lambda>s (a, b, l).
     andThen (s, book_resolve_asset p c a) (\<lambda>s selling.
     andThen (s, book_resolve_asset p c b) (\<lambda>s buying.
     andThen (guarded p (with_retry p (MAX_RETRIES c) (RETRY_DELAY_MS c) default_is_retryable max_retry_delay_ms
         (outside (orderbook p selling buying l))) s) (\<lambda>s r.
       let bids = levels (field r ''bids''); asks = levels (field r ''asks'') in
       (s, Inr (JObj [(''bids'', JArr bids), (''asks'', JArr asks), (''spread'', JStr (book_spread (print_num p) bids asks))]))))))"

section \<open>FriendBotTool\<close>

text \<open>\<open>encodeURIComponent\<close>.\<close>

definition uri_safe :: "char \<Rightarrow> bool" where
  "uri_safe ch \<longleftrightarrow> (let n = ccode ch in (65 \<le> n \<and> n \<le> 90) \<or> (97 \<le> n \<and> n \<le> 122) \<or> (48 \<le> n \<and> n \<le> 57) \<or>
     ch \<in> {CHR ''-'', CHR ''_'', CHR ''.'', CHR ''!'', CHR ''~'', CHR ''*'', CHR 0x27, CHR ''('', CHR '')''})"

definition encode_uri_component :: "string \<Rightarrow> string" where
  "encode_uri_component t = concat (map (\<lambda>ch. if uri_safe ch then [ch]
     else concat (map (\<lambda>b. CHR ''%'' # to_upper (bytes_hex [b])) (utf8_encode [ch]))) t)"

definition friendbot_url :: "network \<Rightarrow> string \<Rightarrow> string" where
  "friendbot_url net pk = (if net = Futurenet then ''https://friendbot-futurenet.stellar.org''
     else ''https://friendbot.stellar.org'') @ ''?addr='' @ encode_uri_component pk"

definition friendbot_execute ::
    "('w, 'x) service_platform_scheme \<Rightarrow> agent_config \<Rightarrow> jsval \<Rightarrow> ('w, 'y) sys_scheme \<Rightarrow>
     ('w, 'y) sys_scheme \<times> (js_error + jsval)" where
  "friendbot_execute p c v s =
     andThen (s, or_zod (do { _ \<leftarrow> z_obj v;
         z_check (\<lambda>t. length t = 56 \<and> starts_with t ''G'') (z_str (field v ''publicKey'')) })) (\<lambda>s pk.
       if STELLAR_NETWORK c = Mainnet then (s, Inl (config_error ''Friendbot funding is not available on mainnet''))
       else andThen (outside (fetch_url p (friendbot_url (STELLAR_NETWORK c) pk) None) s) (\<lambda>s r.
         if \<not> rp_ok r then (s, Inl (plain (''Friendbot request failed with status '' @ int_str (rp_status r) @ '': '' @
             (case rp_text r of Some t \<Rightarrow> t | None \<Rightarrow> []))))
         else andThen (s, rp_json r) (\<lambda>s j.
           if nullish j then (s, Inl (TypeErr ''Cannot read properties (reading 'hash')''))
           else let h = coalesce_field j ''hash'' (field j ''txHash'') in
             (s, Inr (JObj ((''funded'', JBool True) # (if truthy h then [(''txHash'', h)] else [])))))))"

section \<open>NetworkStatusTool\<close>

definition health_of :: "bool \<Rightarrow> int \<Rightarrow> string \<Rightarrow> string \<Rightarrow> jsval" where
  "health_of ok ms k text = JObj [(''healthy'', JBool ok), (''latencyMs'', JNum (JFin (of_int ms))), (k, JStr text)]"

definition horizon_check ::
    "('w, 'x) service_platform_scheme \<Rightarrow> agent_config \<Rightarrow> ('w, 'y) sys_scheme \<Rightarrow> ('w, 'y) sys_scheme \<times> jsval" where
  "horizon_check p c s =
     (case outside (http_probe p (HORIZON_URL c)) s of
        (s', Inr (st, txt)) \<Rightarrow>
          (let ok = 200 \<le> st \<and> st < 400 in
           (s', health_of ok (now p s' - now p s) ''status''
             (if txt = [] then (if ok then ''healthy'' else ''unhealthy'') else txt)))
      | (s', Inl e) \<Rightarrow> (s', health_of False (now p s' - now p s) ''error'' (err_message e)))"

definition soroban_check ::
    "('w, 'x) service_platform_scheme \<Rightarrow> ('w, 'y) sys_scheme \<Rightarrow> ('w, 'y) sys_scheme \<times> jsval" where
  "soroban_check p s =
     (case outside (soroban_health p) s of
        (s', Inr r) \<Rightarrow>
          (let st = (case field r ''status'' of JStr t \<Rightarrow> t | _ \<Rightarrow> ''healthy'') in
           (s', health_of (st = ''healthy'' \<or> st = ''pass'') (now p s' - now p s) ''status'' st))
      | (s', Inl e) \<Rightarrow> (s', health_of False (now p s' - now p s) ''error'' (err_message e)))"

definition network_status_execute ::
    "('w, 'x) service_platform_scheme \<Rightarrow> agent_config \<Rightarrow> ('w, 'y) sys_scheme \<Rightarrow> ('w, 'y) sys_scheme \<times> jsval" where
  "network_status_execute p c s =
     (let (s1, h) = horizon_check p c s; (s2, g) = soroban_check p s1 in
      (s2, JObj [(''horizon'', h), (''soroban'', g), (''network'', JStr (network_name (STELLAR_NETWORK c)))]))"

section \<open>StellarIdentityTool\<close>

text \<open>\<open>handed_out\<close> is a trace: the signed transactions that were posted, and where.\<close>

record 'w identity_sys = "'w sys" +
  handed_out :: "(string \<times> transaction) list"

definition strip_slash :: "string \<Rightarrow> string" where
  "strip_slash u = (if ends_with u ''/'' then butlast u else u)"

definition auth_body :: "string \<Rightarrow> string" where
  "auth_body xdr = ''{'' @ json_string ''transaction'' @ '':'' @ json_string xdr @ ''}''"

definition non_empty :: "jsval \<Rightarrow> string option" where
  "non_empty v = z_check (\<lambda>t. 1 \<le> length t) (z_str v)"

definition get_challenge ::
    "('w, 'x) service_platform_scheme \<Rightarrow> string \<Rightarrow> string \<Rightarrow> ('w, 'y) identity_sys_scheme \<Rightarrow>
     ('w, 'y) identity_sys_scheme \<times> (js_error + string \<times> string)" where
  "get_challenge p url pk s =
     andThen (outside (fetch_url p (strip_slash url @ ''/auth?account='' @ encode_uri_component pk) None) s) (\<lambda>s r.
       if \<not> rp_ok r then (s, Inl (plain (''SEP-0010 challenge request failed: HTTP '' @ int_str (rp_status r))))
       else andThen (s, rp_json r) (\<lambda>s j.
         (s, or_zod (do { t \<leftarrow> non_empty (field j ''transaction''); n \<leftarrow> non_empty (field j ''network_passphrase''); Some (t, n) }))))"

definition identity_execute ::
    "('w, 'x) service_platform_scheme \<Rightarrow> string \<Rightarrow> jsval \<Rightarrow> ('w, 'y) identity_sys_scheme \<Rightarrow>
     ('w, 'y) identity_sys_scheme \<times> (js_error + string)" where
  "identity_execute p self v s =
     andThen (s, or_zod (do { _ \<leftarrow> z_obj v; u \<leftarrow> z_check (url_ok p) (z_str (field v ''anchorUrl''));
         k \<leftarrow> z_opt (z_account p) (field v ''publicKey''); Some (u, k) })) (\<lambda>s (u, k).
       let base = strip_slash u in
     andThen (get_challenge p base (case k of Some pk \<Rightarrow> pk | None \<Rightarrow> self) s) (\<lambda>s (xdr, net).
     andThen (s, decode_challenge p xdr net) (\<lambda>s tx.
       let signed = sign_tx self tx in
     andThen (outside (fetch_url p (base @ ''/auth'') (Some (auth_body (tx_base64 p (Envelope signed)))))
         (s\<lparr>handed_out := handed_out s @ [(base @ ''/auth'', signed)]\<rparr>)) (\<lambda>s r.
       if \<not> rp_ok r then (s, Inl (plain (''SEP-0010 auth submission failed: HTTP '' @ int_str (rp_status r))))
       else andThen (s, rp_json r) (\<lambda>s j. (s, or_zod (non_empty (field j ''token''))))))))"

section \<open>SorobanEventIndexerTool\<close>

definition event_range_schema :: "jsval \<Rightarrow> (string \<times> int \<times> int \<times> string list list option) option" where
  "event_range_schema v = do {
     _ \<leftarrow> z_obj v;
     k \<leftarrow> z_check (\<lambda>t. length t = 56 \<and> starts_with t ''C'' \<and> (\<forall>ch \<in> set (tl t). is_base32 ch)) (z_str (field v ''contractId''));
     a \<leftarrow> z_check (\<lambda>n. 0 < n) (z_int (field v ''fromLedger''));
     b \<leftarrow> z_check (\<lambda>n. 0 < n) (z_int (field v ''toLedger''));
     ts \<leftarrow> z_opt (z_arr (z_arr z_str)) (field v ''topics'');
     Some (k, a, b, ts)
   }"

definition event_request :: "string \<Rightarrow> int \<Rightarrow> int \<Rightarrow> string list list option \<Rightarrow> jsval" where
  "event_request k a b ts = JObj [(''startLedger'', JNum (JFin (of_int a))), (''endLedger'', JNum (JFin (of_int b))),
     (''filters'', JArr [JObj ([(''type'', JStr ''contract''), (''contractIds'', JArr [JStr k])] @
       (case ts of None \<Rightarrow> [] | Some xs \<Rightarrow> [(''topics'', JArr (map (\<lambda>x. JArr (map JStr x)) xs))]))])]"

definition event_indexer_query ::
    "('w, 'x) service_platform_scheme \<Rightarrow> jsval \<Rightarrow> ('w, 'y) sys_scheme \<Rightarrow> ('w, 'y) sys_scheme \<times> (js_error + jsval)" where
  "event_indexer_query p v s =
     andThen (s, or_zod (event_range_schema v)) (\<lambda>s (k, a, b, ts).
       if b < a then (s, Inl (plain ''fromLedger must be less than or equal to toLedger''))
       else andThen (outside (get_events p (event_request k a b ts)) s) (\<lambda>s r.
         (s, Inr (JObj [(''events'', field r ''events''),
            (''latestLedger'', coalesce_field r ''latestLedger'' (JNum (JFin (of_int b))))]))))"

end
