(* ===== verification/ToolFrame.thy ===== *)
theory ToolFrame imports Services begin

text \<open>
  What the tools leave alone: every tool but the payment tool's callers and the contract
  invocation works on the process state and the outside world only, so the agent's own state
  (window, nonces, audit log, queue) is the same before and after.
\<close>

section \<open>Tool state\<close>

text \<open>
  A preorder that also holds across any change of the outside world holds across every tool that
  works on the process state alone. \<open>goes s m\<close>: the call \<open>m\<close>, started in \<open>s\<close>, ends in a related
  state.
\<close>

locale tool_preorder = sys_preorder p R for p :: "('w, 'x) platform_scheme" and R :: "('w, 'y) sys_scheme \<Rightarrow> ('w, 'y) sys_scheme \<Rightarrow> bool" +
  assumes world_step: "R s (s\<lparr>world := w\<rparr>)"
begin

definition goes :: "('w, 'y) sys_scheme \<Rightarrow> ('w, 'y) sys_scheme \<times> 'a \<Rightarrow> bool" where
  "goes s m \<longleftrightarrow> R s (fst m)"

lemma goes_pure: "goes s (s, r)"
  by (simp add: goes_def refl)

lemma goes_steps: "steps f \<Longrightarrow> goes s (f s)"
  by (simp add: goes_def stepsR)

lemma goes_trans: "R s t \<Longrightarrow> goes t m \<Longrightarrow> goes s m"
  unfolding goes_def by (rule trans)

lemma goes_andThen:
  assumes "goes s m" "\<And>t x. goes t (f t x)"
  shows "goes s (andThen m f)"
proof -
  obtain t r where m: "m = (t, r)" by fastforce
  with assms(1) have "R s t" by (simp add: goes_def)
  from goes_trans [OF this assms(2)] \<open>R s t\<close> m show ?thesis by (cases r) (simp_all add: goes_def)
qed

lemma goes_map_data: "goes s m \<Longrightarrow> goes s (map_data f m)"
  by (auto simp: goes_def map_data_def split: prod.split sum.split)

lemma goes_outside: "goes s (outside f s)"
  by (auto simp: goes_def outside_def world_step split: prod.split)

lemma goes_build:
  assumes "\<And>t tx. goes t (g t tx)"
  shows "goes s (case build_tx p fee ops m d a s of (t, tx) \<Rightarrow> g t tx)"
proof -
  obtain t tx where b: "build_tx p fee ops m d a s = (t, tx)" by fastforce
  from goes_trans [OF build_tx_step [OF b] assms] b show ?thesis by simp
qed

lemma outside_steps: "steps (outside f)"
  unfolding steps_def by (auto intro: goes_outside [unfolded goes_def])

lemmas goes_rpc = goes_steps [OF load_account_steps] goes_steps [OF submit_and_parse_steps]
  goes_steps [OF submit_transaction_steps]

end

interpretation keeps: tool_preorder p same_tool_state
  by unfold_locales (simp add: same_tool_state_def)


lemmas keep_intros = keeps.goes_pure keeps.goes_andThen keeps.goes_map_data keeps.goes_outside keeps.goes_build keeps.goes_rpc

lemma keep_if: "keeps.goes s x \<Longrightarrow> keeps.goes s y \<Longrightarrow> keeps.goes s (if b then x else y)"
  by simp

lemma sign_keeps: "timing_ok p c \<Longrightarrow> keeps.goes s (sign_and_submit p c self ops m t a s)"
  by (auto simp: sign_and_submit_def intro!: keep_intros split: sum.split)

lemma submit_ops_keeps: "timing_ok p c \<Longrightarrow> keeps.goes s (submit_ops p c self f ops m t s)"
  by (auto simp: submit_ops_def intro!: keep_intros sign_keeps)

lemma balance_check_keeps: "timing_ok p c \<Longrightarrow> keeps.goes s (balance_check_execute p c v s)"
  by (auto simp: balance_check_execute_def intro!: keep_intros)

lemma trustline_keeps: "timing_ok p c \<Longrightarrow> keeps.goes s (trustline_execute p c self v s)"
  by (auto simp: trustline_execute_def removal_check_def intro!: keep_intros sign_keeps balance_check_keeps)

lemma account_info_keeps: "timing_ok p c \<Longrightarrow> keeps.goes s (account_info_fetch p c s)"
  by (auto simp: account_info_fetch_def intro!: keep_intros)

lemma data_entry_keeps: "timing_ok p c \<Longrightarrow> keeps.goes s (data_entry_execute p c self v s)"
  by (auto simp: data_entry_execute_def data_entry_get_def Let_def intro!: keep_intros submit_ops_keeps split: data_entry_input.split)

lemma inflation_keeps: "timing_ok p c \<Longrightarrow> keeps.goes s (inflation_execute p c self v s)"
  by (auto simp: inflation_execute_def inflation_get_def inflation_set_def Let_def intro!: keep_intros submit_ops_keeps split: sum.split)

lemma sequence_keeps: "timing_ok p c \<Longrightarrow> keeps.goes s (sequence_execute p c self v s)"
  by (auto simp: sequence_execute_def sequence_get_def sequence_bump_def Let_def intro!: keep_intros submit_ops_keeps split: sum.split)

lemma path_payment_keeps: "timing_ok p c \<Longrightarrow> keeps.goes s (path_payment_execute p c self v s)"
  by (auto simp: path_payment_execute_def resolve_path_def Let_def
      intro!: keep_intros keeps.goes_steps [OF own.submit_with_reload_steps] own.build_payment_steps split: list.split)

lemma swap_keeps: "timing_ok p c \<Longrightarrow> keeps.goes s (swap_execute p c self v s)"
  by (auto simp: swap_execute_def Let_def intro!: keep_intros path_payment_keeps split: list.split)

lemma dex_offer_keeps: "timing_ok p c \<Longrightarrow> keeps.goes s (dex_offer_execute p c self v s)"
proof -
  assume t: "timing_ok p c"
  have v: "keeps.goes s (verify_offer_exists p k s)" for k s
    using keeps.goes_outside [of s "horizon_offer p k"]
    by (auto simp: verify_offer_exists_def keeps.goes_def split: prod.split sum.split)
  show ?thesis using t by (auto simp: dex_offer_execute_def Let_def intro!: keep_intros v)
qed

lemma batch_keeps: "timing_ok p c \<Longrightarrow> keeps.goes s (batch_execute p c self v s)"
  by (auto simp: batch_execute_def Let_def intro!: keep_intros)

lemma multisig_keeps: "timing_ok p c \<Longrightarrow> keeps.goes s (multisig_execute p c self v s)"
  by (auto simp: multisig_execute_def Let_def intro!: keep_intros split: option.split)

lemma fee_bump_keeps: "timing_ok p c \<Longrightarrow> keeps.goes s (fee_bump_execute p c self net v s)"
  by (auto simp: fee_bump_execute_def Let_def intro!: keep_intros split: option.split sum.split envelope.split)

lemma pool_keeps: "timing_ok p c \<Longrightarrow> keeps.goes s (liquidity_pool_execute p c self v s)"
  by (auto simp: liquidity_pool_execute_def pool_submit_def Let_def intro!: keep_intros split: pool_input.split)

lemma sponsored_keeps: "timing_ok p c \<Longrightarrow> keeps.goes s (sponsored_execute p c self v s)"
  by (auto simp: sponsored_execute_def Let_def intro!: keep_intros)

lemma history_keeps: "keeps.goes s (account_history_fetch p c v s)"
  by (auto simp: account_history_fetch_def Let_def intro!: keep_intros)

lemma quote_keeps: "keeps.goes s (fetch_quote p v s)"
  by (auto simp: fetch_quote_def intro!: keep_intros)

lemma simulate_keeps: "timing_ok p c \<Longrightarrow> keeps.goes s (simulate_soroban_tx p c tx s)"
  unfolding simulate_soroban_tx_def
  by (intro keeps.goes_steps own.guarded_steps own.with_timeout_steps own.with_retry_steps keeps.outside_steps)
    (auto simp: timing_ok_def max_retry_delay_ms_def)

lemma prepare_keeps: "timing_ok p c \<Longrightarrow> keeps.goes s (prepare_soroban_tx_with_events p c tx s)"
  by (auto simp: prepare_soroban_tx_with_events_def Let_def intro!: keep_intros simulate_keeps split: simulation.split sum.split)

lemma query_keeps: "timing_ok p c \<Longrightarrow> keeps.goes s (soroban_query p c self v s)"
  by (auto simp: soroban_query_def prepare_soroban_tx_def Let_def intro!: keep_intros prepare_keeps)

lemma deploy_keeps: "keeps.goes s (soroban_deploy_execute p v s)"
proof -
  have u: "keeps.goes s (deploy_upload p bs s)" for bs s
    by (auto simp: deploy_upload_def Let_def intro!: keep_intros split: option.split)
  have i: "keeps.goes s (deploy_instantiate p h s)" for h s
    by (auto simp: deploy_instantiate_def Let_def intro!: keep_intros split: option.split jsval.split)
  have w: "keeps.goes s (resolve_wasm_buffer p i s)" for i s
  proof -
    have r: "keeps.goes s (case outside (read_file p k) s of
        (s', Some bs) \<Rightarrow> (s', Inr bs) | (s', None) \<Rightarrow> (s', Inr (decode_wasm k)))" for k
      using keeps.goes_outside [of s "read_file p k"] by (auto simp: keeps.goes_def split: prod.split option.split)
    show ?thesis unfolding resolve_wasm_buffer_def Let_def
      by (simp add: keeps.goes_pure r split: option.split jsval.split)
  qed
  show ?thesis by (auto simp: soroban_deploy_execute_def intro!: keep_intros u i w split: option.split)
qed

end
