(* ===== verification/Dispatch.thy ===== *)
theory Dispatch imports ToolFrame begin

text \<open>
  The agent with all its tools: the table the constructor builds, what the spending window sees
  of each kind of task, and what contract invocations may spend.
\<close>

section \<open>The agent's tools\<close>

definition invoke_data :: "('w, 'x) service_platform_scheme \<Rightarrow> invoke_result \<Rightarrow> jsval" where
  "invoke_data p r = (case r of InvokeHash h \<Rightarrow> JObj [(''txHash'', JStr h)]
     | InvokeSimulation tx \<Rightarrow> JObj [(''simulationResult'', tx_value p tx)])"

definition payment_result :: "submit_result \<Rightarrow> jsval" where
  "payment_result r = JObj (result_fields r)"

text \<open>The tools the constructor makes, all with the agent's key.\<close>

definition agent_tools ::
    "('w, 'x) service_platform_scheme \<Rightarrow> agent_config \<Rightarrow> string \<Rightarrow> string \<Rightarrow> ('w, 'y) agent_sys_scheme tool_table" where
  "agent_tools p c self net =
     \<lparr>payment_tool = payment_execute p c self,
      soroban_tool = (\<lambda>v s. map_data (invoke_data p) (soroban_invoke_execute p c self v s)),
      soroban_query_tool = (\<lambda>v s. map_data (\<lambda>tx. JObj [(''simulationResult'', tx_value p tx)]) (soroban_query p c self v s)),
      x402_tool = x402_respond p c self,
      account_info_tool = account_info_fetch p c,
      trustline_tool = (\<lambda>v s. map_data payment_result (trustline_execute p c self v s)),
      multisig_tool = multisig_execute p c self,
      batch_payment_tool = (\<lambda>v s. map_data batch_data (batch_execute p c self v s)),
      balance_check_tool = (\<lambda>v s. map_data JStr (balance_check_execute p c v s)),
      path_payment_tool = (\<lambda>v s. map_data payment_result (path_payment_execute p c self v s)),
      fee_bump_tool = (\<lambda>v s. map_data payment_result (fee_bump_execute p c self net v s)),
      dex_offer_tool = dex_offer_execute p c self,
      swap_tool = (\<lambda>v s. map_data payment_result (swap_execute p c self v s)),
      account_history_tool = account_history_fetch p c,
      soroban_deploy_tool = soroban_deploy_execute p,
      liquidity_pool_tool = liquidity_pool_execute p c self,
      stellar_toml_tool = fetch_toml p (TOML_CACHE_TTL_MS c),
      data_entry_tool = data_entry_execute p c self,
      sequence_number_tool = sequence_execute p c self,
      sponsored_account_tool = sponsored_execute p c self,
      anchor_quote_tool = fetch_quote p,
      inflation_tool = inflation_execute p c self\<rparr>"

text \<open>The spending window survives a call.\<close>

definition same_window :: "('w, 'y) agent_sys_scheme \<Rightarrow> ('w, 'y) agent_sys_scheme \<times> 'a \<Rightarrow> bool" where
  "same_window s m \<longleftrightarrow> spending (fst m) = spending s"

lemma same_state_spending: "same_tool_state s s' \<Longrightarrow> spending s' = spending s"
  for s :: "('w, 'y) agent_sys_scheme"
  by (cases s; cases s') (simp add: same_tool_state_def)

lemma keeps_window: "keeps.goes s m \<Longrightarrow> same_window s m"
  unfolding keeps.goes_def same_window_def by (rule same_state_spending)

lemma map_data_window: "same_window s m \<Longrightarrow> same_window s (map_data f m)"
  by (auto simp: same_window_def map_data_def split: prod.split sum.split)

lemma outside_spending [simp]: "spending (fst (outside f s)) = spending s"
  by (auto simp: outside_def split: prod.split)

lemma toml_window: "same_window s (fetch_toml p ttl v s)"
proof -
  have "same_window s (andThen (outside f s) (\<lambda>t b. andThen (t, q b) (\<lambda>t x. (t\<lparr>toml_cache := g x t\<rparr>, Inr (h x)))))" for f q g h
    by (cases "outside f s"; cases "snd (outside f s)"; cases "q (projr (snd (outside f s)))")
      (use outside_spending [of f s] in \<open>auto simp: same_window_def\<close>)
  then show ?thesis
    by (cases "z_check (\<lambda>t. 1 \<le> length t) (z_str (field v ''domain''))"; cases "z_obj v")
      (auto simp: fetch_toml_def or_zod_def Let_def same_window_def split: option.split)
qed

section \<open>What the window counts\<close>

text \<open>
  C28. The cumulative spending window counts only three kinds of task. Whatever any other task
  does - and batches, path payments, swaps, multi-signature payments, offers, pool deposits and
  sponsored accounts all move funds - the window is the same before and after it, so none of
  them is held back by, or counted towards, the cumulative limit.
\<close>

theorem window_counts_only_guarded_tasks:
  fixes s :: "('w, 'y) agent_sys_scheme"
  assumes "timing_ok p c" "dispatch p c (agent_tools p c self net) task s = (s', r)"
    and "t_type task \<notin> {''stellar_payment'', ''x402_respond'', ''soroban_invoke''}"
  shows "spending s' = spending s"
proof -
  let ?tt = "agent_tools p c self net :: ('w, 'y) agent_sys_scheme tool_table"
  note keeps = trustline_keeps balance_check_keeps path_payment_keeps fee_bump_keeps swap_keeps batch_keeps
    multisig_keeps dex_offer_keeps history_keeps deploy_keeps pool_keeps data_entry_keeps sequence_keeps
    sponsored_keeps quote_keeps inflation_keeps account_info_keeps query_keeps
  have tool: "same_window s (f (t_payload task) s)" if "(t_type task, f) \<in> set (plain_tools ?tt)" for f
    using that assms(1,3)
    by (auto simp: plain_tools_def agent_tools_def intro: toml_window keeps_window keeps.goes_map_data keeps)
  show ?thesis
  proof (cases "map_of (plain_tools ?tt) (t_type task)")
    case None
    with assms show ?thesis by (simp add: dispatch_def)
  next
    case (Some f)
    with assms have "f (t_payload task) s = (s', r)" by (simp add: dispatch_def)
    with tool [OF map_of_SomeD [OF Some]] show ?thesis by (simp add: same_window_def)
  qed
qed

section \<open>Contract invocations\<close>

lemma sac_units: "0 \<le> raw \<Longrightarrow> decimal_units (sac_raw_to_decimal raw) = Some (nat raw)"
  by (simp add: sac_fixed fixed_units)

lemma sac_guard_assert:
  assumes "0 < tot"
  shows "fst (sac_guard num c tot True tm t) = fst (assert_within_spending_limit num c tm (JStr (sac_raw_to_decimal tot)) t)"
    and "(\<exists>e. snd (sac_guard num c tot True tm t) = Inl e) \<longleftrightarrow>
      (\<exists>e. snd (assert_within_spending_limit num c tm (JStr (sac_raw_to_decimal tot)) t) = Inl e)"
  using assms by (auto simp: sac_guard_def assert_within_spending_limit_def Let_def is_nan_def split: jsnum.splits)

text \<open>
  C27. The guard of a contract invocation is the payment guard: on the amount a simulation takes
  from the agent, it accepts exactly what assertWithinSpendingLimit accepts for a payment of that
  amount, and leaves the same window behind. An amount of zero, and a dry run, change nothing.
\<close>

theorem sac_guard_is_payment_guard:
  "(0 < tot \<longrightarrow>
      fst (sac_guard num c tot True tm t) = fst (assert_within_spending_limit num c tm (JStr (sac_raw_to_decimal tot)) t) \<and>
      ((\<exists>e. snd (sac_guard num c tot True tm t) = Inl e) \<longleftrightarrow>
       (\<exists>e. snd (assert_within_spending_limit num c tm (JStr (sac_raw_to_decimal tot)) t) = Inl e))) \<and>
   (tot \<le> 0 \<or> \<not> rec \<longrightarrow> fst (sac_guard num c tot rec tm t) = t)"
  using sac_guard_assert [of tot num c tm t] by (auto simp: sac_guard_def Let_def)

text \<open>What a call sends, and the window it leaves.\<close>

definition leads :: "(envelope list \<Rightarrow> tracker \<Rightarrow> bool) \<Rightarrow> ('w, 'y) agent_sys_scheme \<Rightarrow>
    ('w, 'y) agent_sys_scheme \<times> 'a \<Rightarrow> bool" where
  "leads Q s m \<longleftrightarrow> (\<exists>es. submissions (fst m) = submissions s @ es \<and> Q es (spending (fst m)))"

lemma leads_pure: "(\<And>w. Q [] w) \<Longrightarrow> leads Q s (s, r)"
  by (simp add: leads_def)

lemma leads_andThen:
  assumes "submissions (fst m) = submissions s" "\<And>w. Q [] w" "\<And>t x. m = (t, Inr x) \<Longrightarrow> leads Q t (f t x)"
  shows "leads Q s (andThen m f)"
proof -
  obtain t r where m: "m = (t, r)" by fastforce
  show ?thesis
  proof (cases r)
    case (Inl e)
    with m assms(1,2) show ?thesis by (simp add: leads_def)
  next
    case (Inr x)
    with m assms(1) assms(3) [of t x] show ?thesis by (simp add: leads_def)
  qed
qed

lemma simulate_submissions [simp]: "submissions (fst (simulate_soroban_tx p c tx s)) = submissions s"
proof -
  have "submits (nat (MAX_RETRIES c) * 0) env (simulate_soroban_tx p c tx)" for env
    unfolding simulate_soroban_tx_def [abs_def]
    by (intro submits_guarded submits_with_timeout submits_with_retry submits_outside)
  from submits_at [OF this] show ?thesis by simp
qed

lemma prepare_submissions [simp]: "submissions (fst (prepare_soroban_tx_with_events p c tx s)) = submissions s"
proof -
  have "sends (\<lambda>es. es = []) s (prepare_soroban_tx_with_events p c tx s)"
    by (auto simp: prepare_soroban_tx_with_events_def Let_def intro!: sends_andThen sends_pure split: simulation.split sum.split)
  then show ?thesis by (simp add: sends_def)
qed

lemma sac_submissions [simp]: "submissions (fst (assert_sac_transfers p c self es rec s)) = submissions s"
  by (simp add: assert_sac_transfers_def Let_def split: prod.split)

lemma poll_frame: "submissions (fst (poll_for_confirmation p c h n s)) = submissions s \<and>
    sys.more (fst (poll_for_confirmation p c h n s)) = sys.more s"
proof (induction n arbitrary: s)
  case (Suc n)
  let ?s = "s\<lparr>world := sleep_ms p (of_int (RETRY_DELAY_MS c * 2)) (world s)\<rparr>"
  obtain t r where t: "outside (get_transaction p h) ?s = (t, r)" by fastforce
  then have f: "submissions t = submissions s" "sys.more t = sys.more s" by (auto simp: outside_def split: prod.splits)
  show ?case
  proof (cases r)
    case (Inl e)
    with f t show ?thesis by simp
  next
    case (Inr st)
    with f t Suc.IH [of t] show ?thesis by simp
  qed
qed simp

lemma broadcast_frame:
  "submissions (fst (broadcast p c tx s)) = submissions s @ [Envelope tx] \<and> sys.more (fst (broadcast p c tx s)) = sys.more s"
proof -
  let ?s = "s\<lparr>submissions := submissions s @ [Envelope tx]\<rparr>"
  obtain t r where t: "outside (send_transaction p tx) ?s = (t, r)" by fastforce
  then have f: "submissions t = submissions s @ [Envelope tx]" "sys.more t = sys.more s"
    by (auto simp: outside_def split: prod.splits)
  show ?thesis using f t poll_frame [of p c "sent_hash (projr r)" 10 t]
    by (cases r) (auto simp: broadcast_def)
qed

text \<open>What a broadcast has passed: simulated, within the fee cap and the spending limits, with time
  bounds, signed by the agent; and the window the guard left.\<close>

definition invoke_passed ::
    "('w, 'x) contract_platform_scheme \<Rightarrow> agent_config \<Rightarrow> string \<Rightarrow> ('w, 'y) agent_sys_scheme \<Rightarrow> envelope list \<Rightarrow> tracker \<Rightarrow> bool" where
  "invoke_passed p c self s0 es w \<longleftrightarrow> (\<exists>(t0 :: ('w, 'y) agent_sys_scheme) tx0 t1 pr tr tm.
     prepare_soroban_tx_with_events p c tx0 t0 = (t1, Inr pr) \<and>
     es = [Envelope (sign_tx self (prepared_tx pr))] \<and> has_time_bounds p (prepared_tx pr) \<and>
     (\<forall>f. tx_fee (prepared_tx pr) \<noteq> [] \<and> parse_int (tx_fee (prepared_tx pr)) = Some f \<longrightarrow> f \<le> MAX_SOROBAN_FEE_STROOPS c) \<and>
     sac_guard (print_num p) c (extract_sac_transfer_total (prepared_events pr) self) True tm tr = (w, Inr ()))"

lemma invoke_broadcast_leads:
  fixes s s0 t0 :: "('w, 'y) agent_sys_scheme"
  assumes "prepare_soroban_tx_with_events p c tx0 t0 = (t1, Inr pr)"
    and "invoke_fee_check c (tx_fee (prepared_tx pr)) = Inr u" "has_time_bounds p (prepared_tx pr)"
    and "assert_sac_transfers p c self (prepared_events pr) True s = (s1, Inr u')"
  shows "leads (\<lambda>es w. es = [] \<or> invoke_passed p c self s0 es w) s1
    (case broadcast p c (sign_tx self (prepared_tx pr)) s1 of (s', r) \<Rightarrow> (s', map_sum id InvokeHash r))"
proof -
  let ?tx = "sign_tx self (prepared_tx pr)"
  obtain s2 q where b: "broadcast p c ?tx s1 = (s2, q)" by fastforce
  from broadcast_frame [of p c ?tx s1] b have f: "submissions s2 = submissions s1 @ [Envelope ?tx]" "same_tool_state s1 s2"
    by (simp_all add: same_tool_state_def)
  from same_state_spending [OF f(2)] have w: "spending s2 = spending s1" .
  from assms(4) have g: "sac_guard (print_num p) c (extract_sac_transfer_total (prepared_events pr) self) True (now p s) (spending s) =
      (spending s1, Inr ())" by (auto simp: assert_sac_transfers_def Let_def split: prod.splits)
  have "\<forall>f. tx_fee (prepared_tx pr) \<noteq> [] \<and> parse_int (tx_fee (prepared_tx pr)) = Some f \<longrightarrow> f \<le> MAX_SOROBAN_FEE_STROOPS c"
    using assms(2) by (auto simp: invoke_fee_check_def split: if_splits)
  with assms(1,3) g have "invoke_passed p c self s0 [Envelope ?tx] (spending s2)"
    unfolding invoke_passed_def w
    by (intro exI [of _ t0] exI [of _ tx0] exI [of _ t1] exI [of _ pr] exI [of _ "spending s"] exI [of _ "now p s"]) simp
  with b f(1) show ?thesis by (cases q) (auto simp: leads_def)
qed

lemma invoke_leads:
  fixes s :: "('w, 'y) agent_sys_scheme"
  shows "leads (\<lambda>es w. es = [] \<or> (\<exists>i. invoke_schema p v = Some i \<and> \<not> iv_simulate_only i) \<and> invoke_passed p c self s es w) s
    (soroban_invoke_execute p c self v s)" (is "leads ?Q s _")
proof (cases "invoke_schema p v")
  case None
  then show ?thesis by (simp add: soroban_invoke_execute_def leads_def)
next
  case (Some i)
  have n: "?Q [] w" for w by simp
  have up: "leads ?Q t m" if "leads (\<lambda>es w. es = [] \<or> invoke_passed p c self s es w) t m" "\<not> iv_simulate_only i"
    for t :: "('w, 'y) agent_sys_scheme" and m :: "('w, 'y) agent_sys_scheme \<times> (js_error + invoke_result)"
    using that Some unfolding leads_def by auto
  have ld: "submissions (fst (load_account p c self False t)) = submissions t" for t :: "('w, 'y) agent_sys_scheme"
    by (rule load_account_submissions)
  show ?thesis
    unfolding soroban_invoke_execute_def Let_def
    by (intro leads_andThen n)
      (auto simp: Some ld build_tx_def prepare_submissions intro!: leads_andThen leads_pure up invoke_broadcast_leads)
qed

lemma window_andThen:
  "same_window s m \<Longrightarrow> (\<And>t x. m = (t, Inr x) \<Longrightarrow> same_window t (f t x)) \<Longrightarrow> same_window s (andThen m f)"
  by (cases m; cases "snd m") (auto simp: same_window_def)

lemma dry_run_window:
  fixes s :: "('w, 'y) agent_sys_scheme"
  assumes "timing_ok p c" "invoke_schema p v = Some i" "iv_simulate_only i"
  shows "same_window s (soroban_invoke_execute p c self v s)"
proof -
  have p: "same_window t (t', r)" if "spending t' = spending t" for t t' :: "('w, 'y) agent_sys_scheme" and r :: "js_error + 'z"
    using that by (simp add: same_window_def)
  have g: "same_window t (assert_sac_transfers p c self es False t)" for t :: "('w, 'y) agent_sys_scheme" and es
    by (auto simp: assert_sac_transfers_def sac_guard_def Let_def same_window_def)
  have b: "same_window t (prepare_soroban_tx_with_events p c tx (t\<lparr>account_cache := m\<rparr>))" for t :: "('w, 'y) agent_sys_scheme" and tx m
    using keeps_window [OF prepare_keeps [OF assms(1)], of "t\<lparr>account_cache := m\<rparr>" tx] by (simp add: same_window_def)
  show ?thesis
    unfolding soroban_invoke_execute_def Let_def
    by (auto simp: assms build_tx_def intro!: window_andThen g b keeps_window [OF keeps.goes_rpc(1)] keeps_window [OF keeps.goes_pure])
qed

text \<open>
  C26. A contract invocation that is broadcast stays within every limit. It broadcasts at most one
  transaction: the simulated one, signed by the agent, with time bounds and a fee of at most
  MAX\_SOROBAN\_FEE\_STROOPS; what the simulation's transfers take from the agent is, exactly, at
  most AGENT\_SPENDING\_LIMIT and on mainnet at most 10,000; and a positive amount went through
  the payment guard, which left the window the call leaves. A dry run sends nothing and leaves
  the window as it was.
\<close>

theorem invoke_broadcasts_within_limits:
  fixes s :: "('w, 'y) agent_sys_scheme"
  assumes "timing_ok p c" "soroban_invoke_execute p c self v s = (s', r)"
    and "decimal_units (AGENT_SPENDING_LIMIT c) = Some l" "l + 2 < 2 ^ 29 * 10 ^ 7"
  shows "\<exists>es. submissions s' = submissions s @ es \<and>
    (\<forall>i. invoke_schema p v = Some i \<and> iv_simulate_only i \<longrightarrow> es = [] \<and> spending s' = spending s) \<and>
    (es = [] \<or> (\<exists>(t0 :: ('w, 'y) agent_sys_scheme) tx0 t1 pr tr tm.
       prepare_soroban_tx_with_events p c tx0 t0 = (t1, Inr pr) \<and>
       es = [Envelope (sign_tx self (prepared_tx pr))] \<and> has_time_bounds p (prepared_tx pr) \<and>
       (\<forall>f. tx_fee (prepared_tx pr) \<noteq> [] \<and> parse_int (tx_fee (prepared_tx pr)) = Some f \<longrightarrow> f \<le> MAX_SOROBAN_FEE_STROOPS c) \<and>
       extract_sac_transfer_total (prepared_events pr) self \<le> int l \<and>
       (STELLAR_NETWORK c = Mainnet \<longrightarrow> extract_sac_transfer_total (prepared_events pr) self \<le> 10000 * 10 ^ 7) \<and>
       (0 < extract_sac_transfer_total (prepared_events pr) self \<longrightarrow>
          assert_within_spending_limit (print_num p) c tm
            (JStr (sac_raw_to_decimal (extract_sac_transfer_total (prepared_events pr) self))) tr = (spending s', Inr ()))))"
proof -
  from invoke_leads [of p v c self s] assms(2) obtain es where
    es: "submissions s' = submissions s @ es" and
    q: "es = [] \<or> (\<exists>i. invoke_schema p v = Some i \<and> \<not> iv_simulate_only i) \<and> invoke_passed p c self s es (spending s')"
    by (auto simp: leads_def)
  have dry: "\<forall>i. invoke_schema p v = Some i \<and> iv_simulate_only i \<longrightarrow> es = [] \<and> spending s' = spending s"
    using q dry_run_window [OF assms(1), of v _ s self] assms(2) by (auto simp: same_window_def)
  show ?thesis
  proof (cases "es = []")
    case True
    with es dry show ?thesis by auto
  next
    case False
    with q have "invoke_passed p c self s es (spending s')" by blast
    then obtain t0 :: "('w, 'y) agent_sys_scheme" and tx0 t1 pr tr tm where
      a: "prepare_soroban_tx_with_events p c tx0 t0 = (t1, Inr pr)"
         "es = [Envelope (sign_tx self (prepared_tx pr))]" "has_time_bounds p (prepared_tx pr)"
         "\<forall>f. tx_fee (prepared_tx pr) \<noteq> [] \<and> parse_int (tx_fee (prepared_tx pr)) = Some f \<longrightarrow> f \<le> MAX_SOROBAN_FEE_STROOPS c"
      and g: "sac_guard (print_num p) c (extract_sac_transfer_total (prepared_events pr) self) True tm tr = (spending s', Inr ())"
      unfolding invoke_passed_def by blast
    let ?t = "extract_sac_transfer_total (prepared_events pr) self"
    have b: "?t \<le> int l \<and> (STELLAR_NETWORK c = Mainnet \<longrightarrow> ?t \<le> 10000 * 10 ^ 7) \<and>
      (0 < ?t \<longrightarrow> assert_within_spending_limit (print_num p) c tm (JStr (sac_raw_to_decimal ?t)) tr = (spending s', Inr ()))"
    proof (cases "0 < ?t")
      case True
      obtain w q where w: "assert_within_spending_limit (print_num p) c tm (JStr (sac_raw_to_decimal ?t)) tr = (w, q)" by fastforce
      with sac_guard_assert [OF True, of "print_num p" c tm tr] g have "w = spending s'" "q = Inr ()"
        by (auto split: sum.splits) (cases q; auto)+
      moreover from this w have "nat ?t \<le> l \<and> (STELLAR_NETWORK c = Mainnet \<longrightarrow> nat ?t \<le> 10000 * 10 ^ 7)"
        using guard_units [OF sac_units assms(3,4)] True by auto
      ultimately show ?thesis using w True by auto
    qed auto
    from es dry a b show ?thesis by blast
  qed
qed

section \<open>A platform to evaluate on\<close>

text \<open>A contract call that moves 5 units from the agent, accepted and confirmed at once.\<close>

definition toy_transfer :: diagnostic_event where
  "toy_transfer = \<lparr>de_in_successful_call = True, de_body = Some ([Some (JStr ''transfer''), Some (JStr sample_key),
     Some (JStr payee)], Some (JBig 50000000))\<rparr>"

definition contract_toy :: "int contract_platform" where
  "contract_toy = (tools_platform.extend tools_toy
     (contract_platform.fields (\<lambda>k. True) (\<lambda>v. True) (\<lambda>tx. True)
       (\<lambda>tx w. (w + 5, Inr \<lparr>sent_status = ''PENDING'', sent_hash = ''h2'', sent_error = None\<rparr>))
       (\<lambda>h w. (w + 5, Inr \<lparr>got_status = ''SUCCESS'', got_result_xdr = None\<rparr>))
       (\<lambda>k w. (w, None)) None None (\<lambda>v. None) (\<lambda>v. [])))
     \<lparr>simulate_transaction := \<lambda>tx w. (w + 5, Inr (SimulationSuccess [[SourceCredentials]] [toy_transfer] JNull))\<rparr>"

lemmas contract_toy_defs = contract_toy_def tools_toy_def tools_platform.defs hook_platform.defs hook_toy_def
  agent_platform.defs agent_toy_def x402_platform.defs x402_toy_def sim_platform_def soroban.defs good_platform_def
  toy_platform_def platform.defs contract_platform.defs

lemma contract_toy_good: "good_like contract_toy"
  by (simp add: good_like_def contract_toy_defs)

lemma contract_toy_simps [simp]:
  "clock contract_toy w = w" "valid_contract contract_toy k" "has_time_bounds contract_toy tx" "op_fault contract_toy op = None"
  "simulate_transaction contract_toy tx w = (w + 5, Inr (SimulationSuccess [[SourceCredentials]] [toy_transfer] JNull))"
  "assemble_transaction contract_toy tx sim = tx"
  by (simp_all add: contract_toy_defs)

lemma contract_toy_timing: "timing_ok contract_toy sample_agent_config"
  by (auto simp: timing_ok_def random_ok_def) (simp_all add: contract_toy_defs)

lemma toy_transfer_total: "extract_sac_transfer_total [toy_transfer] sample_key = 50000000"
  by (simp add: extract_sac_transfer_total_def sac_debit_def toy_transfer_def native_amount_def)

lemma toy_sac_amount: "parse_float (sac_raw_to_decimal 50000000) = JFin 5"
  using decimal_units_parse [OF sac_units [of 50000000]] by (simp add: to_double_numeral)

lemma toy_sac_guard:
  "\<exists>t. sac_guard num sample_agent_config 50000000 True tm (fresh_tracker\<lparr>store := db\<rparr>) = (t, Inr ())"
  by (simp add: sac_guard_def guard_eval toy_sac_amount parse_float_100)

theorem sac_guard_is_payment_guard_witness:
  "(\<exists>t. sac_guard (\<lambda>r. []) sample_agent_config 50000000 True 0 fresh_tracker = (t, Inr ()) \<and>
     fst (assert_within_spending_limit (\<lambda>r. []) sample_agent_config 0 (JStr (sac_raw_to_decimal 50000000)) fresh_tracker) = t) \<and>
   fst (sac_guard (\<lambda>r. []) sample_agent_config 50000000 False 0 fresh_tracker) = fresh_tracker"
proof -
  obtain t where "sac_guard (\<lambda>r. []) sample_agent_config 50000000 True 0 fresh_tracker = (t, Inr ())"
    by (simp add: sac_guard_def guard_eval toy_sac_amount parse_float_100)
  with sac_guard_is_payment_guard [of 50000000 "\<lambda>r. []" sample_agent_config 0 fresh_tracker True]
    sac_guard_is_payment_guard [of 50000000 "\<lambda>r. []" sample_agent_config 0 fresh_tracker False]
  show ?thesis by simp
qed

definition toy_invoke :: "bool \<Rightarrow> jsval" where
  "toy_invoke dry = JObj [(''contractId'', JStr payee), (''method'', JStr ''pay''), (''simulateOnly'', JBool dry)]"

lemma toy_invoke_schema: "invoke_schema contract_toy (toy_invoke dry) =
    Some \<lparr>iv_contract = payee, iv_method = ''pay'', iv_args = [], iv_simulate_only = dry\<rparr>"
  by (simp add: invoke_schema_def query_schema_def toy_invoke_def zod_defs field_def obj_get_def payee_def)

lemma toy_simulates:
  fixes s :: "(int, 'y) sys_scheme"
  assumes "\<not> active (backoff s)"
  shows "prepare_soroban_tx_with_events contract_toy sample_agent_config tx s =
    (s\<lparr>rpc_calls := rpc_calls s + 1, world := world s + 5\<rparr>, Inr \<lparr>prepared_tx = tx, prepared_events = [toy_transfer]\<rparr>)"
  using assms
  by (simp add: prepare_soroban_tx_with_events_def simulate_soroban_tx_def guarded_idle with_timeout_def with_retry_def
      attempt_def is_throttled_def outside_def now_def numeral_eq_Suc validate_soroban_auth_def check_auth_entry_def
      bind_result_def)


lemma toy_invoke_runs:
  "\<exists>s' r env. soroban_invoke_execute contract_toy sample_agent_config sample_key (toy_invoke False) (agent_start empty_db) = (s', r) \<and>
     submissions s' = [env]"
proof -
  let ?p = contract_toy and ?c = sample_agent_config and ?s = "agent_start empty_db"
  obtain s1 tx where b: "build_tx ?p ''0'' [OpInvokeContract payee ''pay'' []] None soroban_tx_timeout (toy_account\<lparr>oid := next_oid ?s\<rparr>)
      (?s\<lparr>rpc_calls := rpc_calls ?s + 1, world := world ?s + 5, next_oid := next_oid ?s + 1,
        account_cache := [sample_key \<mapsto> (toy_account\<lparr>oid := next_oid ?s\<rparr>, world ?s + 30005)]\<rparr>) = (s1, tx)" by fastforce
  then have i: "\<not> active (backoff s1)" "submissions s1 = []" "spending s1 = fresh_tracker\<lparr>store := empty_db\<rparr>" "tx_fee tx = ''0''"
    by (auto simp: build_tx_def)
  define s2 where "s2 = s1\<lparr>rpc_calls := rpc_calls s1 + 1, world := world s1 + 5\<rparr>"
  have sp: "spending s2 = fresh_tracker\<lparr>store := empty_db\<rparr>" by (simp add: s2_def i(3))
  obtain t where "sac_guard (print_num ?p) ?c 50000000 True (now ?p s2) (spending s2) = (t, Inr ())"
    unfolding sp using toy_sac_guard [of "print_num ?p" "now ?p s2" empty_db] by blast
  then have g: "assert_sac_transfers ?p ?c sample_key [toy_transfer] True s2 = (s2\<lparr>spending := t\<rparr>, Inr ())"
    by (simp add: assert_sac_transfers_def toy_transfer_total)
  have fee: "invoke_fee_check ?c ''0'' = Inr ()" by (simp add: invoke_fee_check_def) code_simp
  obtain s3 q where br: "broadcast ?p ?c (sign_tx sample_key tx) (s2\<lparr>spending := t\<rparr>) = (s3, q)" by fastforce
  with broadcast_frame [of ?p ?c "sign_tx sample_key tx" "s2\<lparr>spending := t\<rparr>"] i(2)
  have "submissions s3 = [Envelope (sign_tx sample_key tx)]" by (simp add: s2_def)
  moreover have "tx_signatures (sign_tx sample_key tx) \<noteq> []" by (simp add: sign_tx_def)
  ultimately show ?thesis
    using br g b i toy_simulates [OF i(1), of tx, folded s2_def]
    by (simp add: soroban_invoke_execute_def or_zod_def toy_invoke_schema good_load [OF contract_toy_good] check_op_def contract_call_def fee)
qed

theorem invoke_broadcasts_within_limits_witness:
  "\<exists>s' r env. soroban_invoke_execute contract_toy sample_agent_config sample_key (toy_invoke False) (agent_start empty_db) = (s', r) \<and>
     submissions s' = [env] \<and>
     (\<exists>(t0 :: int agent_sys) tx0 t1 pr. prepare_soroban_tx_with_events contract_toy sample_agent_config tx0 t0 = (t1, Inr pr) \<and>
       env = Envelope (sign_tx sample_key (prepared_tx pr)) \<and>
       extract_sac_transfer_total (prepared_events pr) sample_key \<le> 1000000000)"
proof -
  obtain s' r env where
    e: "soroban_invoke_execute contract_toy sample_agent_config sample_key (toy_invoke False) (agent_start empty_db) = (s', r)"
    and t: "submissions s' = [env]" using toy_invoke_runs by blast
  have l: "decimal_units (AGENT_SPENDING_LIMIT sample_agent_config) = Some 1000000000"
    by (simp add: decimal_units_def is_digit_def ccode_def digits_val_def digit_val_def decimal_tail_ok_def)
  have z: "submissions (agent_start empty_db) = []"
    by (simp add: agent_start_def x402_start_def sys.defs x402_sys.defs initial_sys_def)
  have lim: "1000000000 + 2 < (2::nat) ^ 29 * 10 ^ 7" by simp
  from invoke_broadcasts_within_limits [OF contract_toy_timing e l lim] t
  have "\<exists>(t0 :: int agent_sys) tx0 t1 pr. prepare_soroban_tx_with_events contract_toy sample_agent_config tx0 t0 = (t1, Inr pr) \<and>
       env = Envelope (sign_tx sample_key (prepared_tx pr)) \<and>
       extract_sac_transfer_total (prepared_events pr) sample_key \<le> 1000000000"
    unfolding z by (elim exE conjE) (fastforce)
  with e t show ?thesis by blast
qed

definition service_toy :: "int service_platform" where
  "service_toy = reserve_platform.extend
     (contract_platform.extend contract_toy
       (reserve_platform.fields (\<lambda>k w. (w, Inr JNull)) (\<lambda>k w. (w, Inr JNull)) (\<lambda>k. Inr k) (\<lambda>k b. Inr [])))
     (service_platform.fields (\<lambda>k n c w. (w, Inr [])) (\<lambda>u h q w. (w, Inr JNull)) (\<lambda>v. Inr v) (\<lambda>w. (w, Inr JNull))
       (\<lambda>a b n w. (w, Inr JNull)) (\<lambda>u b w. (w, Inl (plain []))) (\<lambda>u w. (w, Inr (200, ''OK''))) (\<lambda>w. (w, Inr JNull))
       (\<lambda>x n. Inl (plain [])) (\<lambda>v w. (w, Inr JNull)) (\<lambda>tx. JNull))"

lemmas service_toy_defs = service_toy_def reserve_platform.defs service_platform.defs contract_toy_defs

lemma service_toy_timing: "timing_ok service_toy sample_agent_config"
  by (auto simp: timing_ok_def random_ok_def) (simp_all add: service_toy_defs)

lemma service_toy_good: "good_like service_toy"
  by (simp add: good_like_def service_toy_defs)

lemma service_toy_simps [simp]:
  "op_fault service_toy op = None" "clock service_toy w = w" "asset_fault service_toy k i = None"
  "valid_ed25519 service_toy k = (length k = 56 \<and> starts_with k ''G'')"
  by (simp_all add: service_toy_defs)

lemma sample_batch_service: "batch_schema service_toy sample_batch =
    Some \<lparr>ba_payments = replicate 2 \<lparr>pi_destination = payee, pi_amount = ''5'', pi_asset_code = ''XLM'', pi_asset_issuer = None,
      pi_memo_type = ''text'', pi_memo = None\<rparr>, ba_fail_fast = False\<rparr>"
  by (simp add: batch_schema_def sample_batch_def z_arr_def z_obj_def z_def_def z_check_def field_def obj_get_def
      payment_input_schema_def sample_payment_def amount_ok_5 memo_fits_def payee_def zod_defs numeral_2_eq_2)

definition sample_batch_task :: agent_task where
  "sample_batch_task = \<lparr>t_type = ''batch_payment'', t_payload = sample_batch, t_correlation = None\<rparr>"

theorem window_counts_only_guarded_tasks_witness:
  "\<exists>s' r tx. dispatch service_toy sample_agent_config (agent_tools service_toy sample_agent_config sample_key ''test'')
       sample_batch_task (agent_start empty_db) = (s', r) \<and>
     submissions s' = [Envelope tx] \<and> spending s' = spending (agent_start empty_db)"
proof -
  let ?m = "dispatch service_toy sample_agent_config (agent_tools service_toy sample_agent_config sample_key ''test'')
       sample_batch_task (agent_start empty_db)"
  have "to_double (5::rat) = JFin 5" "to_double (10::rat) = JFin 10"
    using to_double_numeral [of "Num.num.One"] to_double_int [of 5] to_double_int [of 10] by simp_all
  then have t: "batch_total (replicate 2 \<lparr>pi_destination = payee, pi_amount = ''5'', pi_asset_code = ''XLM'', pi_asset_issuer = None,
      pi_memo_type = ''text'', pi_memo = None\<rparr>) = JFin 10"
    by (simp add: batch_total_def parse_float_5 numeral_2_eq_2)
  have st: "\<not> active (backoff (agent_start empty_db))" "account_cache (agent_start empty_db) = (\<lambda>k. None)"
    "submissions (agent_start empty_db) = []"
    by (simp_all add: agent_start_def x402_start_def sys.defs x402_sys.defs initial_sys_def initial_backoff_def)
  have "\<exists>tx. submissions (fst ?m) = [Envelope tx]"
    by (auto simp: dispatch_def sample_batch_task_def plain_tools_def agent_tools_def map_data_def
        batch_execute_def or_zod_def sample_batch_service t [unfolded numeral_2_eq_2 replicate.simps] Let_def parse_float_100 payment_problem_def
        good_load [OF service_toy_good] batch_op_def resolve_asset_def check_op_def bind_result_def build_tx_def
        good_submit_and_parse [OF service_toy_good] st numeral_2_eq_2)
  moreover obtain s' r where m: "?m = (s', r)" by fastforce
  moreover from window_counts_only_guarded_tasks [OF service_toy_timing m] have "spending s' = spending (agent_start empty_db)"
    by (simp add: sample_batch_task_def)
  ultimately show ?thesis by auto
qed

end
