(* ===== verification/Builder.thy ===== *)
theory Builder imports Dispatch begin

text \<open>
  The multi-operation transaction builder (backend/tools/TransactionBuilderTool.ts): tasks become
  operations, the operations one transaction, which is signed and submitted or only returned.
\<close>

section \<open>Input\<close>

text \<open>
  What the SDK contributes: recognising its own Asset and Memo objects, assets from values that are
  not strings, the names of its operation makers, memos by kind, and the time bounds it refuses.
\<close>

record 'w builder_platform = "'w service_platform" +
  as_asset :: "jsval \<Rightarrow> asset option"
  as_memo :: "jsval \<Rightarrow> memo option"
  asset_of_values :: "jsval \<Rightarrow> jsval \<Rightarrow> js_error + asset"
  sdk_operation :: "string \<Rightarrow> bool"
  sdk_memo :: "string \<Rightarrow> string \<Rightarrow> js_error + memo"
  bounds_fault :: "jsnum \<Rightarrow> jsnum \<Rightarrow> js_error option"
  timeout_fault :: "jsnum \<Rightarrow> js_error option"

datatype builder_memo = MemoPlain string | MemoTyped string jsval | MemoGiven memo

datatype builder_time = TimeoutSeconds jsnum | Bounds "jsval option" "jsval option"

record builder_input =
  bi_operations :: "jsval list"
  bi_memo :: "builder_memo option"
  bi_time :: "builder_time option"
  bi_simulate_only :: bool
  bi_base_fee :: "jsnum option"

definition z_str_or_num :: "jsval \<Rightarrow> jsval option" where
  "z_str_or_num v = (if z_str v \<noteq> None \<or> z_num v \<noteq> None then Some v else None)"

definition z_builder_memo :: "('w, 'x) builder_platform_scheme \<Rightarrow> jsval \<Rightarrow> builder_memo option" where
  "z_builder_memo p v =
     (case v of
        JStr t \<Rightarrow> Some (MemoPlain t)
      | _ \<Rightarrow>
          (case do { _ \<leftarrow> z_obj v;
                     ty \<leftarrow> z_opt (z_enum [''text'', ''id'', ''hash'', ''return'']) (field v ''type'');
                     x \<leftarrow> z_str_or_num (field v ''value'');
                     Some (MemoTyped (case ty of Some t \<Rightarrow> t | None \<Rightarrow> ''text'') x) } of
             Some m \<Rightarrow> Some m
           | None \<Rightarrow> map_option MemoGiven (as_memo p v)))"

definition z_builder_time :: "jsval \<Rightarrow> builder_time option" where
  "z_builder_time v =
     (case z_num v of
        Some n \<Rightarrow> Some (TimeoutSeconds n)
      | None \<Rightarrow> do { _ \<leftarrow> z_obj v;
                    a \<leftarrow> z_opt z_str_or_num (field v ''minTime'');
                    b \<leftarrow> z_opt z_str_or_num (field v ''maxTime'');
                    Some (Bounds a b) })"

definition builder_schema :: "('w, 'x) builder_platform_scheme \<Rightarrow> jsval \<Rightarrow> builder_input option" where
  "builder_schema p v = do {
     _ \<leftarrow> z_obj v;
     ops \<leftarrow> z_check (\<lambda>xs. xs \<noteq> []) (z_arr z_any (field v ''operations''));
     m \<leftarrow> z_opt (z_builder_memo p) (field v ''memo'');
     t \<leftarrow> z_opt z_builder_time (field v ''timeBounds'');
     sim \<leftarrow> z_def False z_bool (field v ''simulateOnly'');
     f \<leftarrow> z_opt z_num (field v ''baseFee'');
     Some \<lparr>bi_operations = ops, bi_memo = m, bi_time = t, bi_simulate_only = sim, bi_base_fee = f\<rparr>
   }"

section \<open>Operations\<close>

definition parse_asset :: "('w, 'x) builder_platform_scheme \<Rightarrow> jsval \<Rightarrow> js_error + asset" where
  "parse_asset p v =
     (if falsy v then Inr Native
      else case as_asset p v of
          Some a \<Rightarrow> Inr a
        | None \<Rightarrow>
            (case v of
               JStr t \<Rightarrow>
                 (if t = ''XLM'' \<or> t = ''native'' then Inr Native
                  else case split_on (CHR '':'') t of
                      [code, issuer] \<Rightarrow> if code \<noteq> [] \<and> issuer \<noteq> [] then new_asset p code (Some issuer) else Inr Native
                    | _ \<Rightarrow> Inr Native)
             | _ \<Rightarrow>
                 (let code = coalesce_field v ''code'' (field v ''assetCode'');
                      issuer = coalesce_field v ''issuer'' (field v ''assetIssuer'')
                  in if falsy code \<or> code = JStr ''XLM'' \<or> falsy issuer then Inr Native
                     else case (code, issuer) of
                         (JStr c, JStr i) \<Rightarrow> new_asset p c (Some i)
                       | _ \<Rightarrow> asset_of_values p code issuer)))"

definition task_payload :: "jsval \<Rightarrow> jsval" where
  "task_payload task = (let v = coalesce_field task ''payload'' task in if falsy v then JObj [] else v)"

definition op_source :: "('w, 'x) contract_platform_scheme \<Rightarrow> jsval \<Rightarrow> operation \<Rightarrow> operation" where
  "op_source p v op = (if falsy (field v ''source'') then op else OpFrom (template_text p (field v ''source'')) op)"

definition coded_asset :: "('w, 'x) builder_platform_scheme \<Rightarrow> bool \<Rightarrow> jsval \<Rightarrow> js_error + asset" where
  "coded_asset p xlm_too v =
     (if \<not> falsy (field v ''assetCode'') \<and> (xlm_too \<or> field v ''assetCode'' \<noteq> JStr ''XLM'') \<and> \<not> falsy (field v ''assetIssuer'')
      then new_asset p (template_text p (field v ''assetCode'')) (Some (template_text p (field v ''assetIssuer'')))
      else parse_asset p (field v ''asset''))"

definition path_assets :: "('w, 'x) builder_platform_scheme \<Rightarrow> jsval \<Rightarrow> js_error + asset list" where
  "path_assets p v = (case field v ''path'' of JArr xs \<Rightarrow> map_result (parse_asset p) xs | _ \<Rightarrow> Inr [])"

text \<open>A path payment's asset: given whole, or as a code and an issuer.\<close>

definition side_asset :: "('w, 'x) builder_platform_scheme \<Rightarrow> jsval \<Rightarrow> string \<Rightarrow> js_error + asset" where
  "side_asset p v side =
     parse_asset p (coalesce_field v (side @ ''Asset'')
       (JObj [(''code'', field v (side @ ''AssetCode'')), (''issuer'', field v (side @ ''AssetIssuer''))]))"

definition made_operation :: "('w, 'x) builder_platform_scheme \<Rightarrow> string \<Rightarrow> jsval \<Rightarrow> js_error + operation" where
  "made_operation p ty v =
     (let txt = (\<lambda>k. template_text p (field v k)); sourced = (\<lambda>op. Inr (op_source p v op)) in
      if ty = ''stellar_payment'' \<or> ty = ''payment'' then
        bind_result (coded_asset p False v) (\<lambda>a. sourced (OpPayment (txt ''destination'') a (txt ''amount'')))
      else if ty = ''change_trust'' then
        bind_result (coded_asset p True v) (\<lambda>a.
          sourced (OpChangeTrust a (if field v ''action'' = JStr ''remove'' then Some ''0''
            else if field v ''limit'' \<noteq> JUndef then Some (txt ''limit'') else None)))
      else if ty = ''dex_offer'' then
        bind_result (parse_asset p (field v ''selling'')) (\<lambda>sell. bind_result (parse_asset p (field v ''buying'')) (\<lambda>buy.
          sourced (OpManageSellOffer sell buy (if field v ''action'' = JStr ''delete'' then ''0'' else txt ''amount'') (txt ''price'')
            (if field v ''offerId'' \<noteq> JUndef then txt ''offerId'' else ''0''))))
      else if ty = ''path_payment'' \<or> ty = ''path_payment_strict_receive'' then
        bind_result (side_asset p v ''send'') (\<lambda>sa. bind_result (side_asset p v ''dest'') (\<lambda>da. bind_result (path_assets p v) (\<lambda>pa.
          sourced (OpPathPaymentStrictReceive sa (txt ''sendMax'') (txt ''destination'') da (txt ''destAmount'') pa))))
      else if ty = ''path_payment_strict_send'' then
        bind_result (parse_asset p (field v ''sendAsset'')) (\<lambda>sa. bind_result (parse_asset p (field v ''destAsset'')) (\<lambda>da.
          bind_result (path_assets p v) (\<lambda>pa.
            sourced (OpPathPaymentStrictSend sa (txt ''sendAmount'') (txt ''destination'') da (txt ''destMin'') pa))))
      else if ty = ''create_account'' then sourced (OpCreateAccount (txt ''destination'') (txt ''startingBalance''))
      else if ty = ''account_merge'' then sourced (OpAccountMerge (txt ''destination''))
      else if ty = ''manage_data'' then
        sourced (case field v ''value'' of JStr t \<Rightarrow> OpManageData (txt ''name'') (Some t) | JNull \<Rightarrow> OpManageData (txt ''name'') None
          | w \<Rightarrow> OpCustom ''manageData'' (JObj [(''name'', JStr (txt ''name'')), (''value'', w)]))
      else if ty = ''set_options'' then Inr (OpSetOptions (case v of JObj kvs \<Rightarrow> kvs | _ \<Rightarrow> []))
      else if ty = ''soroban_invoke'' then
        (if valid_contract p (txt ''contractId'')
         then Inr (OpInvokeContract (txt ''contractId'') (txt ''method'') (case field v ''args'' of JArr xs \<Rightarrow> xs | _ \<Rightarrow> []))
         else Inl (plain (''Invalid contract ID: '' @ txt ''contractId'')))
      else (case field v ''type'' of
          JStr t \<Rightarrow> if sdk_operation p t then Inr (OpCustom t v)
            else Inl (plain (''Unsupported task type for multi-op transaction builder: '' @ ty))
        | _ \<Rightarrow> Inl (plain (''Unsupported task type for multi-op transaction builder: '' @ ty))))"

definition task_to_operation :: "('w, 'x) builder_platform_scheme \<Rightarrow> jsval \<Rightarrow> js_error + operation" where
  "task_to_operation p task =
     (if nullish task then Inl (TypeErr ''Cannot read properties of an absent task'')
      else bind_result (made_operation p (template_text p (coalesce_field task ''type'' (JStr []))) (task_payload task)) (check_op p))"

section \<open>The transaction\<close>

definition builder_add_memo :: "('w, 'x) builder_platform_scheme \<Rightarrow> builder_memo option \<Rightarrow> js_error + memo option" where
  "builder_add_memo p m =
     (case m of
        None \<Rightarrow> Inr None
      | Some (MemoPlain t) \<Rightarrow> if t = [] then Inr None else map_sum id Some (sdk_memo p ''text'' t)
      | Some (MemoGiven x) \<Rightarrow> Inr (Some x)
      | Some (MemoTyped ty x) \<Rightarrow> map_sum id Some (sdk_memo p ty (template_text p x)))"

definition builder_fee :: "('w, 'x) platform_scheme \<Rightarrow> builder_input \<Rightarrow> string" where
  "builder_fee p i =
     num_text (print_num p) (js_mul (case bi_base_fee i of Some f \<Rightarrow> f | None \<Rightarrow> JFin 100)
       (JFin (of_int (max 1 (int (length (bi_operations i)))))))"

definition time_number :: "jsval option \<Rightarrow> jsnum" where
  "time_number x = (case x of Some v \<Rightarrow> number_of v | None \<Rightarrow> JFin 0)"

definition whole_seconds :: "jsnum \<Rightarrow> int" where
  "whole_seconds n = (case n of JFin r \<Rightarrow> \<lfloor>r\<rfloor> | _ \<Rightarrow> 0)"

text \<open>The builder with its time bounds: given ones are taken as they are, else a timeout from now.\<close>

definition builder_build ::
    "('w, 'x) builder_platform_scheme \<Rightarrow> builder_input \<Rightarrow> operation list \<Rightarrow> account \<Rightarrow> ('w, 'y) sys_scheme \<Rightarrow>
     ('w, 'y) sys_scheme \<times> (js_error + transaction)" where
  "builder_build p i ops a s =
     andThen (s, case bi_time i of Some (Bounds x y) \<Rightarrow> (case bounds_fault p (time_number x) (time_number y) of Some e \<Rightarrow> Inl e | None \<Rightarrow> Inr ())
        | _ \<Rightarrow> Inr ()) (\<lambda>s u.
     andThen (s, builder_add_memo p (bi_memo i)) (\<lambda>s m.
     andThen (s, case bi_time i of Some (TimeoutSeconds n) \<Rightarrow> (case timeout_fault p n of Some e \<Rightarrow> Inl e | None \<Rightarrow> Inr ()) | _ \<Rightarrow> Inr ()) (\<lambda>s u.
       let (s', tx) = build_tx p (builder_fee p i) ops m
             (case bi_time i of Some (TimeoutSeconds n) \<Rightarrow> whole_seconds n | _ \<Rightarrow> 30) a s
       in (s', Inr (case bi_time i of
             Some (Bounds x y) \<Rightarrow> tx\<lparr>tx_min_time := whole_seconds (time_number x), tx_max_time := whole_seconds (time_number y)\<rparr>
           | _ \<Rightarrow> tx)))))"

definition builder_execute ::
    "('w, 'x) builder_platform_scheme \<Rightarrow> agent_config \<Rightarrow> string \<Rightarrow> jsval \<Rightarrow> ('w, 'y) sys_scheme \<Rightarrow>
     ('w, 'y) sys_scheme \<times> (js_error + jsval)" where
  "builder_execute p c self v s =
     andThen (s, or_zod (builder_schema p v)) (\<lambda>s i.
     andThen (s, map_result (task_to_operation p) (bi_operations i)) (\<lambda>s ops.
     andThen (load_account p c self False s) (\<lambda>s a.
     andThen (builder_build p i ops a s) (\<lambda>s tx.
       let common = [(''xdr'', JStr (tx_base64 p (Envelope tx))), (''operationsCount'', JNum (JFin (of_nat (length ops))))] in
       if bi_simulate_only i then (s, Inr (JObj common))
       else andThen (submit_transaction p c (Envelope (sign_tx self tx)) s) (\<lambda>s r.
         (s, Inr (JObj ([(''txHash'', field r ''hash''), (''ledger'', field r ''ledger'')] @ common))))))))"

section \<open>Properties\<close>

text \<open>The transaction of the tasks: their operations, signed by the agent alone, with the fee given to the builder.\<close>

definition tasks_tx :: "('w, 'x) builder_platform_scheme \<Rightarrow> string \<Rightarrow> builder_input \<Rightarrow> transaction \<Rightarrow> bool" where
  "tasks_tx p self i tx \<longleftrightarrow>
     list_all2 (\<lambda>task op. task_to_operation p task = Inr op) (bi_operations i) (tx_ops tx) \<and>
     tx_signatures tx = [SignedBy self] \<and> tx_fee tx = builder_fee p i"

lemma map_result_all2: "map_result f xs = Inr ys \<Longrightarrow> list_all2 (\<lambda>x y. f x = Inr y) xs ys"
  by (auto simp: list_all2_conv_all_nth map_result_length map_result_nth)

lemma builder_build_frame:
  fixes s :: "('w, 'y) sys_scheme"
  shows "submissions (fst (builder_build p i ops a s)) = submissions s"
    and "builder_build p i ops a s = (t, Inr tx) \<Longrightarrow> tx_ops tx = ops \<and> tx_signatures tx = [] \<and> tx_fee tx = builder_fee p i"
proof -
  have *: "builder_build p i ops a s = (t, r) \<Longrightarrow> submissions t = submissions s \<and>
      (\<forall>tx. r = Inr tx \<longrightarrow> tx_ops tx = ops \<and> tx_signatures tx = [] \<and> tx_fee tx = builder_fee p i)" for t r
    by (auto simp: builder_build_def andThen_def build_tx_def Let_def split: sum.splits option.splits builder_time.splits)
  show "submissions (fst (builder_build p i ops a s)) = submissions s"
    by (cases "builder_build p i ops a s") (simp add: *)
  show "builder_build p i ops a s = (t, Inr tx) \<Longrightarrow> tx_ops tx = ops \<and> tx_signatures tx = [] \<and> tx_fee tx = builder_fee p i"
    using * by blast
qed

lemma sends_submit_transaction:
  fixes s :: "('w, 'y) sys_scheme"
  assumes "P tx"
  shows "sends (one_tx c P) s (submit_transaction p c (Envelope tx) s)"
  using submit_transaction_submissions [of c p "Envelope tx" s] assms unfolding sends_def one_tx_def by metis

text \<open>
  C39. A multi-operation transaction is its tasks. Whatever the input and the network do, all that is
  submitted is one transaction, in at most MAX\_RETRIES tries, whose operations are those of the
  tasks, one for each and in their order, with the agent's signature only; a task that is not an
  operation, or simulateOnly, submits nothing.
\<close>

theorem builder_submits_tasks_in_order:
  fixes s :: "('w, 'y) sys_scheme"
  assumes "builder_execute p c self v s = (s', r)"
  shows "\<exists>es. submissions s' = submissions s @ es \<and>
    (es = [] \<or> (\<exists>i. builder_schema p v = Some i \<and> \<not> bi_simulate_only i \<and> one_tx c (tasks_tx p self i) es))"
proof -
  define Q where "Q = (\<lambda>es. es = [] \<or> (\<exists>i. builder_schema p v = Some i \<and> \<not> bi_simulate_only i \<and> one_tx c (tasks_tx p self i) es))"
  have nil: "Q []" by (simp add: Q_def)
  have pure: "submissions (fst (t, x :: js_error + 'z)) = submissions t" for t :: "('w, 'y) sys_scheme" and x by simp
  have last: "sends Q t (andThen (submit_transaction p c (Envelope (sign_tx self tx)) t) (\<lambda>s r. (s, Inr (g r))))"
    if "builder_schema p v = Some i" "\<not> bi_simulate_only i" "map_result (task_to_operation p) (bi_operations i) = Inr ops"
      "builder_build p i ops a t0 = (t, Inr tx)" for t t0 :: "('w, 'y) sys_scheme" and tx i ops a and g :: "jsval \<Rightarrow> jsval"
  proof -
    have "tasks_tx p self i (sign_tx self tx)"
      using builder_build_frame(2) [OF that(4)] map_result_all2 [OF that(3)] by (simp add: tasks_tx_def sign_tx_def)
    from sends_submit_transaction [where P = "tasks_tx p self i", OF this, of c t p]
    have "sends Q t (submit_transaction p c (Envelope (sign_tx self tx)) t)"
      by (rule sends_mono) (auto simp: Q_def that)
    then show ?thesis
      by (cases "submit_transaction p c (Envelope (sign_tx self tx)) t"; cases "snd (submit_transaction p c (Envelope (sign_tx self tx)) t)")
        (auto simp: sends_def)
  qed
  have "sends Q s (builder_execute p c self v s)"
    unfolding builder_execute_def Let_def
    by (intro sends_andThen nil pure load_account_submissions builder_build_frame(1))
      (auto simp: or_zod_Inr nil intro!: sends_pure last)
  from sendsD [OF this assms] show ?thesis unfolding Q_def .
qed

text \<open>
  A payment whose asset has no issuer becomes a payment in XLM. A task that names an asset code
  but no issuer and no asset object - and any asset text that is not a code and an issuer around one
  colon - is built without an error, in the native asset and for the same amount.
\<close>

theorem asset_without_issuer_is_native:
  "(falsy (field v ''assetIssuer'') \<and> falsy (field v ''asset'') \<longrightarrow>
      made_operation p ''stellar_payment'' v = Inr (op_source p v
        (OpPayment (template_text p (field v ''destination'')) Native (template_text p (field v ''amount''))))) \<and>
   (CHR '':'' \<notin> set t \<longrightarrow> as_asset p (JStr t) = None \<longrightarrow> parse_asset p (JStr t) = Inr Native)"
  by (auto simp: made_operation_def coded_asset_def parse_asset_def split_on_sep_free)

definition builder_toy :: "int builder_platform" where
  "builder_toy = service_platform.extend service_toy
     (builder_platform.fields (\<lambda>v. None) (\<lambda>v. None) (\<lambda>a b. Inl (plain [])) (\<lambda>t. False) (\<lambda>k t. Inr (MemoText t))
       (\<lambda>a b. None) (\<lambda>n. None))"

lemmas builder_toy_defs = builder_toy_def builder_platform.defs service_toy_defs

lemma builder_toy_good: "good_like builder_toy"
  by (simp add: good_like_def builder_toy_defs)

lemma builder_toy_simps [simp]: "as_asset builder_toy v = None" "op_fault builder_toy op = None" "clock builder_toy w = w"
  "tx_base64 builder_toy e = ''AAAA''"
  by (simp_all add: builder_toy_defs)

theorem asset_without_issuer_is_native_witness:
  "made_operation builder_toy ''stellar_payment'' (JObj [(''destination'', JStr payee), (''amount'', JStr ''100''), (''assetCode'', JStr ''USDC'')]) =
     Inr (OpPayment payee Native ''100'') \<and> parse_asset builder_toy (JStr ''USDC'') = Inr Native"
proof -
  let ?v = "JObj [(''destination'', JStr payee), (''amount'', JStr ''100''), (''assetCode'', JStr ''USDC'')]"
  have f: "falsy (field ?v ''assetIssuer'')" "falsy (field ?v ''asset'')" by (simp_all add: falsy_def field_def obj_get_def)
  have s: "op_source builder_toy ?v op = op" for op by (simp add: op_source_def falsy_def field_def obj_get_def)
  have t: "template_text builder_toy (field ?v ''destination'') = payee" "template_text builder_toy (field ?v ''amount'') = ''100''"
    by (simp_all add: template_text_def field_def obj_get_def)
  from asset_without_issuer_is_native [of ?v builder_toy "''USDC''"] f have
    "made_operation builder_toy ''stellar_payment'' ?v = Inr (op_source builder_toy ?v
       (OpPayment (template_text builder_toy (field ?v ''destination'')) Native (template_text builder_toy (field ?v ''amount''))))"
    "parse_asset builder_toy (JStr ''USDC'') = Inr Native" by auto
  then show ?thesis unfolding s t by blast
qed

text \<open>Two tasks, submitted at once.\<close>

definition sample_tasks :: jsval where
  "sample_tasks = JObj [(''operations'', JArr [
     JObj [(''type'', JStr ''create_account''), (''payload'', JObj [(''destination'', JStr payee), (''startingBalance'', JStr ''2'')])],
     JObj [(''type'', JStr ''account_merge''), (''payload'', JObj [(''destination'', JStr payee)])]])]"

definition sample_input :: builder_input where
  "sample_input = \<lparr>bi_operations = [
     JObj [(''type'', JStr ''create_account''), (''payload'', JObj [(''destination'', JStr payee), (''startingBalance'', JStr ''2'')])],
     JObj [(''type'', JStr ''account_merge''), (''payload'', JObj [(''destination'', JStr payee)])]],
     bi_memo = None, bi_time = None, bi_simulate_only = False, bi_base_fee = None\<rparr>"

lemma sample_tasks_schema: "builder_schema builder_toy sample_tasks = Some sample_input"
  by (simp add: builder_schema_def sample_tasks_def sample_input_def zod_defs field_def obj_get_def)

lemma made_create_account: "made_operation p ''create_account'' v =
    Inr (op_source p v (OpCreateAccount (template_text p (field v ''destination'')) (template_text p (field v ''startingBalance''))))"
  by (simp add: made_operation_def)

lemma made_account_merge: "made_operation p ''account_merge'' v =
    Inr (op_source p v (OpAccountMerge (template_text p (field v ''destination''))))"
  by (simp add: made_operation_def)

lemma sample_task_operation:
  assumes "made_operation builder_toy ty v = Inr op" "\<not> falsy v"
  shows "task_to_operation builder_toy (JObj [(''type'', JStr ty), (''payload'', v)]) = Inr op"
proof -
  have "\<not> nullish v" using assms(2) by (cases v) (auto simp: falsy_def nullish_def)
  with assms show ?thesis
    by (simp add: task_to_operation_def task_payload_def coalesce_field_def field_def obj_get_def template_text_def check_op_def
        bind_result_def nullish_def [of "JStr ty"] nullish_def [of "JObj kvs" for kvs])
qed

lemma sample_operations:
  "map_result (task_to_operation builder_toy) (bi_operations sample_input) = Inr [OpCreateAccount payee ''2'', OpAccountMerge payee]"
proof -
  let ?a = "JObj [(''destination'', JStr payee), (''startingBalance'', JStr ''2'')]"
  let ?b = "JObj [(''destination'', JStr payee)]"
  have "made_operation builder_toy ''create_account'' ?a = Inr (OpCreateAccount payee ''2'')"
    "made_operation builder_toy ''account_merge'' ?b = Inr (OpAccountMerge payee)"
    by (simp_all add: made_create_account made_account_merge op_source_def falsy_def field_def obj_get_def template_text_def)
  note a = this
  have "task_to_operation builder_toy (JObj [(''type'', JStr ''create_account''), (''payload'', ?a)]) = Inr (OpCreateAccount payee ''2'')"
    "task_to_operation builder_toy (JObj [(''type'', JStr ''account_merge''), (''payload'', ?b)]) = Inr (OpAccountMerge payee)"
    by (rule sample_task_operation [OF a(1)], simp add: falsy_def, rule sample_task_operation [OF a(2)], simp add: falsy_def)
  then show ?thesis by (simp add: sample_input_def bind_result_def)
qed

lemma sample_builds: "\<exists>t tx. builder_build builder_toy sample_input ops a s = (t, Inr tx) \<and>
    backoff t = backoff s \<and> submissions t = submissions s"
  by (simp add: builder_build_def builder_add_memo_def sample_input_def build_tx_def Let_def)

lemma sample_tasks_run:
  "\<exists>s' r tx. builder_execute builder_toy sample_agent_config sample_key sample_tasks (initial_sys 0) = (s', r) \<and>
     submissions s' = [Envelope tx]"
proof -
  let ?ops = "[OpCreateAccount payee ''2'', OpAccountMerge payee]"
  obtain s1 a where l: "load_account builder_toy sample_agent_config sample_key False (initial_sys 0) = (s1, Inr a)"
    and s1: "backoff s1 = backoff (initial_sys (0::int))" "submissions s1 = []"
    by (simp add: good_load [OF builder_toy_good] start_idle)
  obtain t tx where b: "builder_build builder_toy sample_input ?ops a s1 = (t, Inr tx)"
    and t: "backoff t = backoff (initial_sys (0::int))" "submissions t = []" using sample_builds s1 by metis
  have i: "\<not> active (backoff t)" using t(1) start_idle(1) by simp
  have "\<not> bi_simulate_only sample_input" by (simp add: sample_input_def)
  then show ?thesis
    by (simp add: builder_execute_def sample_tasks_schema sample_operations l b good_submit [OF builder_toy_good i] t(2) Let_def)
qed

theorem builder_submits_tasks_in_order_witness:
  "\<exists>s' r tx i. builder_execute builder_toy sample_agent_config sample_key sample_tasks (initial_sys 0) = (s', r) \<and>
     submissions s' = [Envelope tx] \<and> builder_schema builder_toy sample_tasks = Some i \<and> tasks_tx builder_toy sample_key i tx"
proof -
  obtain s' r tx where e: "builder_execute builder_toy sample_agent_config sample_key sample_tasks (initial_sys 0) = (s', r)"
    and t: "submissions s' = [Envelope tx]" using sample_tasks_run by blast
  from builder_submits_tasks_in_order [OF e] t obtain i where
    "builder_schema builder_toy sample_tasks = Some i" "one_tx sample_agent_config (tasks_tx builder_toy sample_key i) [Envelope tx]"
    by (auto simp: start_idle)
  with one_txD [OF this(2)] e t show ?thesis by auto
qed

end
