(* ===== verification/Watcher.thy ===== *)
theory Watcher imports Config "HOL-Library.AList" begin

text \<open>
  The storage watcher (backend/tools/ContractStorageWatcherTool.ts): it polls getLedgerEntries,
  compares the values with the ones it remembers and emits the differences. The answers of the RPC
  server are inputs of the steps; the listeners of its events are a parameter with a state of their
  own, and may throw or stop the watcher.
\<close>

section \<open>Keys\<close>

datatype durability = Persistent | Temporary

datatype sc_val = ScValXdr string | ScSymbol string

datatype ledger_key = RawLedgerKey string | ContractDataKey string sc_val durability

datatype watched_key = WatchLedgerKey ledger_key | WatchScVal sc_val | WatchText string | WatchOther string

text \<open>The SDK's decoders: an address that does not parse, XDR texts, the XDR of a ledger key.\<close>

record storage_sdk =
  address_fault :: "string \<Rightarrow> js_error option"
  ledger_key_of :: "string \<Rightarrow> ledger_key option"
  sc_val_of :: "string \<Rightarrow> sc_val option"
  key_base64 :: "ledger_key \<Rightarrow> string"

definition normalize_ledger_key :: "storage_sdk \<Rightarrow> string \<Rightarrow> durability \<Rightarrow> watched_key \<Rightarrow> js_error + ledger_key" where
  "normalize_ledger_key sdk contract d key =
     (case key of
        WatchLedgerKey k \<Rightarrow> Inr k
      | _ \<Rightarrow>
          (case address_fault sdk contract of
             Some e \<Rightarrow> Inl e
           | None \<Rightarrow>
               (case key of
                  WatchScVal v \<Rightarrow> Inr (ContractDataKey contract v d)
                | WatchText t \<Rightarrow>
                    (case ledger_key_of sdk t of
                       Some k \<Rightarrow> Inr k
                     | None \<Rightarrow>
                         (case sc_val_of sdk t of
                            Some v \<Rightarrow> Inr (ContractDataKey contract v d)
                          | None \<Rightarrow> Inr (ContractDataKey contract (ScSymbol t) d)))
                | WatchOther t \<Rightarrow> Inl (plain (''Unsupported key format: '' @ t))
                | WatchLedgerKey k \<Rightarrow> Inr k)))"

section \<open>State\<close>

text \<open>A key or value in a reply: base64 text, an XDR object by its base64 text, anything else by its text.\<close>

datatype reply_xdr = ReplyText string | ReplyObject string | ReplyOther string

record reply_entry =
  en_key :: reply_xdr
  en_val :: reply_xdr

fun reply_text :: "reply_xdr \<Rightarrow> string" where
  "reply_text (ReplyText t) = t"
| "reply_text (ReplyObject t) = t"
| "reply_text (ReplyOther t) = t"

datatype change_key = KnownKey ledger_key | ReplyKey reply_xdr

record storage_change =
  ch_key :: change_key
  ch_xdr :: string
  ch_old :: "string option"
  ch_new :: "string option"
  ch_ledger :: jsval

datatype watch_event = Change storage_change | Polled nat | WatchError js_error | WatchDone nat

record watch_options =
  wo_contract :: string
  wo_keys :: "watched_key list"
  wo_interval :: int
  wo_max_polls :: "int option"
  wo_durability :: durability
  wo_initial :: "(string \<times> string) list option"

text \<open>
  \<open>wa_cache\<close> is the Map of remembered values in insertion order, \<open>wa_events\<close> everything emitted,
  \<open>wa_unhandled\<close> the rejections of poll() nobody awaits.
\<close>

record 'u watcher =
  wa_keys :: "(string \<times> ledger_key) list"
  wa_polls :: nat
  wa_stopped :: bool
  wa_initialized :: bool
  wa_timer :: "int option"
  wa_polling :: bool
  wa_cache :: "(string \<times> string) list"
  wa_events :: "watch_event list"
  wa_unhandled :: "js_error list"
  wa_user :: 'u

type_synonym 'u hear = "watch_event \<Rightarrow> 'u \<Rightarrow> 'u \<times> bool \<times> js_error option"

section \<open>Operations\<close>

definition watch_interval :: "agent_config \<Rightarrow> int option \<Rightarrow> int" where
  "watch_interval c t =
     (case t of Some d \<Rightarrow> d | None \<Rightarrow> (case CONTRACT_EVENT_POLL_MS c of Some d \<Rightarrow> d | None \<Rightarrow> 5000))"

definition watch_stop :: "'u watcher \<Rightarrow> 'u watcher" where
  "watch_stop w = w\<lparr>wa_stopped := True, wa_timer := None\<rparr>"

definition is_watching :: "'u watcher \<Rightarrow> bool" where
  "is_watching w \<longleftrightarrow> \<not> wa_stopped w"

definition schedule_next :: "int \<Rightarrow> 'u watcher \<Rightarrow> 'u watcher" where
  "schedule_next d w = (if wa_stopped w then w else w\<lparr>wa_timer := Some d\<rparr>)"

definition watch_start :: "storage_sdk \<Rightarrow> watch_options \<Rightarrow> 'u \<Rightarrow> js_error + 'u watcher" where
  "watch_start sdk wo u =
     bind_result (map_result (normalize_ledger_key sdk (wo_contract wo) (wo_durability wo)) (wo_keys wo)) (\<lambda>ks.
       Inr (schedule_next 0
         \<lparr>wa_keys = fold (\<lambda>k. AList.update (key_base64 sdk k) k) ks [], wa_polls = 0, wa_stopped = False,
          wa_initialized = (wo_initial wo \<noteq> None), wa_timer = None, wa_polling = False,
          wa_cache = (case wo_initial wo of Some kvs \<Rightarrow> fold (\<lambda>(k, v). AList.update k v) kvs [] | None \<Rightarrow> []),
          wa_events = [], wa_unhandled = [], wa_user = u\<rparr>))"

definition emit_watch :: "'u hear \<Rightarrow> watch_event \<Rightarrow> 'u watcher \<Rightarrow> 'u watcher \<times> js_error option" where
  "emit_watch h ev w =
     (let (u, halt, x) = h ev (wa_user w);
          w1 = w\<lparr>wa_user := u, wa_events := wa_events w @ [ev]\<rparr>
      in (if halt then watch_stop w1 else w1, x))"

definition current_values :: "reply_entry list \<Rightarrow> (string \<times> reply_entry) list" where
  "current_values es = fold (\<lambda>e. AList.update (reply_text (en_key e)) e) es []"

definition key_of_change :: "'u watcher \<Rightarrow> string \<Rightarrow> change_key \<Rightarrow> change_key" where
  "key_of_change w t other = (case map_of (wa_keys w) t of Some k \<Rightarrow> KnownKey k | None \<Rightarrow> other)"

text \<open>The values of the first poll are the baseline.\<close>

definition set_baseline :: "(string \<times> reply_entry) list \<Rightarrow> 'u watcher \<Rightarrow> 'u watcher" where
  "set_baseline cur w =
     w\<lparr>wa_cache := fold (\<lambda>(k, e). AList.update k (reply_text (en_val e))) cur (wa_cache w), wa_initialized := True\<rparr>"

fun report_changed :: "'u hear \<Rightarrow> jsval \<Rightarrow> (string \<times> reply_entry) list \<Rightarrow> 'u watcher \<Rightarrow> 'u watcher \<times> js_error option" where
  "report_changed h lg [] w = (w, None)"
| "report_changed h lg ((k, e) # cur) w =
     (let prev = map_of (wa_cache w) k; v = reply_text (en_val e) in
      if prev \<noteq> Some v then
        (case emit_watch h (Change \<lparr>ch_key = key_of_change w k (ReplyKey (en_key e)), ch_xdr = k, ch_old = prev,
              ch_new = Some v, ch_ledger = lg\<rparr>) (w\<lparr>wa_cache := AList.update k v (wa_cache w)\<rparr>) of
           (w', Some x) \<Rightarrow> (w', Some x)
         | (w', None) \<Rightarrow> report_changed h lg cur w')
      else report_changed h lg cur w)"

fun report_deleted :: "storage_sdk \<Rightarrow> string \<Rightarrow> 'u hear \<Rightarrow> jsval \<Rightarrow> (string \<times> reply_entry) list \<Rightarrow> (string \<times> string) list \<Rightarrow>
    'u watcher \<Rightarrow> 'u watcher \<times> js_error option" where
  "report_deleted sdk contract h lg cur [] w = (w, None)"
| "report_deleted sdk contract h lg cur ((k, v) # old) w =
     (if map_of cur k = None then
        (case (case map_of (wa_keys w) k of Some key \<Rightarrow> Inr key
               | None \<Rightarrow> normalize_ledger_key sdk contract Persistent (WatchText k)) of
           Inl x \<Rightarrow> (w, Some x)
         | Inr key \<Rightarrow>
             (case emit_watch h (Change \<lparr>ch_key = KnownKey key, ch_xdr = k, ch_old = Some v, ch_new = None, ch_ledger = lg\<rparr>)
                 (w\<lparr>wa_cache := AList.delete k (wa_cache w)\<rparr>) of
                (w', Some x) \<Rightarrow> (w', Some x)
              | (w', None) \<Rightarrow> report_deleted sdk contract h lg cur old w'))
      else report_deleted sdk contract h lg cur old w)"

text \<open>The body of the try: an error is what it throws.\<close>

definition compare_entries :: "storage_sdk \<Rightarrow> watch_options \<Rightarrow> 'u hear \<Rightarrow> reply_entry list \<Rightarrow> jsval \<Rightarrow> 'u watcher \<Rightarrow>
    'u watcher \<times> js_error option" where
  "compare_entries sdk wo h es lg w =
     (let cur = current_values es in
      if wa_initialized w then
        (case report_changed h lg cur w of
           (w1, Some x) \<Rightarrow> (w1, Some x)
         | (w1, None) \<Rightarrow> report_deleted sdk (wo_contract wo) h lg cur (wa_cache w1) w1)
      else (set_baseline cur w, None))"

definition finish_poll :: "watch_options \<Rightarrow> 'u hear \<Rightarrow> 'u watcher \<Rightarrow> 'u watcher" where
  "finish_poll wo h w =
     (case wo_max_polls wo of
        Some m \<Rightarrow>
          (if m \<le> int (wa_polls w) then
             (case emit_watch h (WatchDone (wa_polls w)) (watch_stop w) of
                (w', Some x) \<Rightarrow> w'\<lparr>wa_unhandled := wa_unhandled w' @ [x]\<rparr>
              | (w', None) \<Rightarrow> w')
           else schedule_next (wo_interval wo) w)
      | None \<Rightarrow> schedule_next (wo_interval wo) w)"

definition poll_error :: "watch_options \<Rightarrow> 'u hear \<Rightarrow> js_error \<Rightarrow> 'u watcher \<Rightarrow> 'u watcher" where
  "poll_error wo h e w =
     (case emit_watch h (WatchError e) w of
        (w', Some x) \<Rightarrow> w'\<lparr>wa_unhandled := wa_unhandled w' @ [x]\<rparr>
      | (w', None) \<Rightarrow> finish_poll wo h w')"

definition start_poll :: "'u watcher \<Rightarrow> 'u watcher" where
  "start_poll w = (if wa_stopped w then w else w\<lparr>wa_polls := wa_polls w + 1, wa_polling := True\<rparr>)"

definition entries_arrived :: "storage_sdk \<Rightarrow> watch_options \<Rightarrow> 'u hear \<Rightarrow> js_error + reply_entry list \<times> jsval \<Rightarrow>
    'u watcher \<Rightarrow> 'u watcher" where
  "entries_arrived sdk wo h r w =
     (let w0 = w\<lparr>wa_polling := False\<rparr> in
      case r of
        Inl e \<Rightarrow> poll_error wo h e w0
      | Inr (es, lg) \<Rightarrow>
          (case compare_entries sdk wo h es lg w0 of
             (w1, Some x) \<Rightarrow> poll_error wo h x w1
           | (w1, None) \<Rightarrow>
               (case emit_watch h (Polled (wa_polls w1)) w1 of
                  (w2, Some x) \<Rightarrow> poll_error wo h x w2
                | (w2, None) \<Rightarrow> finish_poll wo h w2)))"

section \<open>Steps\<close>

inductive watch_step :: "storage_sdk \<Rightarrow> watch_options \<Rightarrow> 'u hear \<Rightarrow> 'u watcher \<Rightarrow> 'u watcher \<Rightarrow> bool"
  for sdk wo h where
  timer: "watch_step sdk wo h w (start_poll (w\<lparr>wa_timer := None\<rparr>))" if "wa_timer w \<noteq> None"
| reply: "watch_step sdk wo h w (entries_arrived sdk wo h r w)" if "wa_polling w"
| stopped: "watch_step sdk wo h w (watch_stop w)"

inductive_cases watch_stepE: "watch_step sdk wo h w w'"

section \<open>Frames\<close>

lemma emit_frame:
  assumes "emit_watch h ev w = (w', x)"
  shows "wa_keys w' = wa_keys w" "wa_polls w' = wa_polls w" "wa_initialized w' = wa_initialized w"
    "wa_polling w' = wa_polling w" "wa_cache w' = wa_cache w" "wa_events w' = wa_events w @ [ev]"
    "wa_timer w = None \<Longrightarrow> wa_timer w' = None" "wa_stopped w \<Longrightarrow> wa_stopped w'"
    "wa_unhandled w' = wa_unhandled w" "x = snd (snd (h ev (wa_user w)))"
  using assms by (auto simp: emit_watch_def watch_stop_def Let_def split: prod.splits if_splits)

lemma emit_fields:
  "emit_watch h ev w = (w', x) \<Longrightarrow> wa_cache w' = wa_cache w \<and> wa_keys w' = wa_keys w \<and>
   wa_initialized w' = wa_initialized w \<and> wa_polls w' = wa_polls w \<and> wa_polling w' = wa_polling w"
  by (simp add: emit_frame)

lemma finish_frame [simp]:
  "wa_cache (finish_poll wo h w) = wa_cache w" "wa_keys (finish_poll wo h w) = wa_keys w"
  "wa_initialized (finish_poll wo h w) = wa_initialized w" "wa_polls (finish_poll wo h w) = wa_polls w"
  "wa_polling (finish_poll wo h w) = wa_polling w"
  by (auto simp: finish_poll_def schedule_next_def watch_stop_def split: option.split prod.split dest!: emit_fields)

lemma poll_error_frame [simp]:
  "wa_cache (poll_error wo h e w) = wa_cache w" "wa_keys (poll_error wo h e w) = wa_keys w"
  "wa_initialized (poll_error wo h e w) = wa_initialized w" "wa_polls (poll_error wo h e w) = wa_polls w"
  "wa_polling (poll_error wo h e w) = wa_polling w"
  by (auto simp: poll_error_def split: option.split prod.split dest!: emit_fields)

section \<open>The remembered values are what was announced\<close>

fun replay_event :: "watch_event \<Rightarrow> (string \<Rightarrow> string option) \<Rightarrow> (string \<Rightarrow> string option)" where
  "replay_event (Change c) m = m(ch_xdr c := ch_new c)"
| "replay_event _ m = m"

fun faithful :: "(string \<Rightarrow> string option) \<Rightarrow> watch_event list \<Rightarrow> bool" where
  "faithful m [] = True"
| "faithful m (ev # evs) =
     ((case ev of Change c \<Rightarrow> m (ch_xdr c) = ch_old c \<and> ch_old c \<noteq> ch_new c | _ \<Rightarrow> True) \<and> faithful (replay_event ev m) evs)"

lemma faithful_append: "faithful m (a @ b) \<longleftrightarrow> faithful m a \<and> faithful (fold replay_event a m) b"
  by (induction a arbitrary: m) auto

definition observed :: "'u watcher \<Rightarrow> 'u watcher \<Rightarrow> bool" where
  "observed w w' \<longleftrightarrow> (\<exists>evs. wa_events w' = wa_events w @ evs \<and> faithful (map_of (wa_cache w)) evs \<and>
     map_of (wa_cache w') = fold replay_event evs (map_of (wa_cache w)))"

lemma observed_same: "wa_events w' = wa_events w \<Longrightarrow> wa_cache w' = wa_cache w \<Longrightarrow> observed w w'"
  by (simp add: observed_def)

lemma observed_trans: "observed a b \<Longrightarrow> observed b c \<Longrightarrow> observed a c"
  unfolding observed_def
proof (elim exE conjE)
  fix e1 e2
  assume "wa_events b = wa_events a @ e1" "faithful (map_of (wa_cache a)) e1" "map_of (wa_cache b) = fold replay_event e1 (map_of (wa_cache a))"
    "wa_events c = wa_events b @ e2" "faithful (map_of (wa_cache b)) e2" "map_of (wa_cache c) = fold replay_event e2 (map_of (wa_cache b))"
  then show "\<exists>evs. wa_events c = wa_events a @ evs \<and> faithful (map_of (wa_cache a)) evs \<and>
      map_of (wa_cache c) = fold replay_event evs (map_of (wa_cache a))"
    by (intro exI [of _ "e1 @ e2"]) (simp add: faithful_append)
qed

lemma observed_emit:
  assumes "emit_watch h ev w = (w', x)" "\<And>c. ev \<noteq> Change c"
  shows "observed w w'"
  using emit_frame(5,6) [OF assms(1)] assms(2) by (cases ev) (auto simp: observed_def)

lemma observed_change:
  assumes "emit_watch h (Change c) (w\<lparr>wa_cache := m\<rparr>) = (w', x)"
    and "map_of m = (map_of (wa_cache w))(ch_xdr c := ch_new c)" "map_of (wa_cache w) (ch_xdr c) = ch_old c" "ch_old c \<noteq> ch_new c"
  shows "observed w w'"
  using emit_frame(5,6) [OF assms(1)] assms(2-4) by (auto simp: observed_def)

lemma observed_changed: "report_changed h lg cur w = (w', x) \<Longrightarrow> observed w w'"
proof (induction cur arbitrary: w)
  case (Cons p cur)
  obtain k e where p: "p = (k, e)" by fastforce
  show ?case
  proof (cases "map_of (wa_cache w) k = Some (reply_text (en_val e))")
    case True
    with Cons.prems p have "report_changed h lg cur w = (w', x)" by simp
    then show ?thesis by (rule Cons.IH)
  next
    case False
    let ?c = "\<lparr>ch_key = key_of_change w k (ReplyKey (en_key e)), ch_xdr = k, ch_old = map_of (wa_cache w) k,
      ch_new = Some (reply_text (en_val e)), ch_ledger = lg\<rparr>"
    obtain w1 y where e: "emit_watch h (Change ?c) (w\<lparr>wa_cache := AList.update k (reply_text (en_val e)) (wa_cache w)\<rparr>) = (w1, y)"
      by fastforce
    have o: "observed w w1"
      by (rule observed_change [OF e]) (use False in \<open>auto simp: update_conv'\<close>)
    show ?thesis
    proof (cases y)
      case None
      with Cons.prems p False e have "report_changed h lg cur w1 = (w', x)" by (simp add: Let_def)
      from Cons.IH [OF this] show ?thesis by (rule observed_trans [OF o])
    next
      case (Some z)
      with Cons.prems p False e have "w' = w1" by (simp add: Let_def)
      with o show ?thesis by simp
    qed
  qed
qed (simp add: observed_same)

lemma observed_deleted:
  "report_deleted sdk contract h lg cur old w = (w', x) \<Longrightarrow> distinct (map fst old) \<Longrightarrow>
   \<forall>(k, v) \<in> set old. map_of (wa_cache w) k = Some v \<Longrightarrow> observed w w'"
proof (induction old arbitrary: w)
  case (Cons p old)
  obtain k v where p: "p = (k, v)" by fastforce
  show ?case
  proof (cases "map_of cur k")
    case (Some _)
    with Cons.prems p have "report_deleted sdk contract h lg cur old w = (w', x)" by simp
    from Cons.IH [OF this] Cons.prems show ?thesis by simp
  next
    case None
    define key where "key = (case map_of (wa_keys w) k of Some key \<Rightarrow> Inr key
        | None \<Rightarrow> normalize_ledger_key sdk contract Persistent (WatchText k))"
    show ?thesis
    proof (cases key)
      case (Inl z)
      with Cons.prems(1) p None have "w' = w" by (simp add: key_def [symmetric])
      then show ?thesis by (simp add: observed_same)
    next
      case (Inr kk)
      let ?c = "\<lparr>ch_key = KnownKey kk, ch_xdr = k, ch_old = Some v, ch_new = None, ch_ledger = lg\<rparr>"
      obtain w1 y where e: "emit_watch h (Change ?c) (w\<lparr>wa_cache := AList.delete k (wa_cache w)\<rparr>) = (w1, y)" by fastforce
      have o: "observed w w1"
        by (rule observed_change [OF e]) (use Cons.prems p in \<open>auto simp: delete_conv'\<close>)
      show ?thesis
      proof (cases y)
        case None
        with Cons.prems(1) p Inr e \<open>map_of cur k = None\<close> have "report_deleted sdk contract h lg cur old w1 = (w', x)"
          by (simp add: key_def [symmetric])
        moreover have "\<forall>(k', v') \<in> set old. map_of (wa_cache w1) k' = Some v'"
          using Cons.prems(2,3) p emit_frame(5) [OF e] by (force simp: delete_conv')
        ultimately show ?thesis using Cons.IH Cons.prems(2) observed_trans [OF o] by simp
      next
        case (Some z)
        with Cons.prems(1) p Inr e None have "w' = w1" by (simp add: key_def [symmetric])
        with o show ?thesis by simp
      qed
    qed
  qed
qed (simp add: observed_same)

definition cache_ok :: "'u watcher \<Rightarrow> bool" where
  "cache_ok w \<longleftrightarrow> distinct (map fst (wa_cache w))"

lemma cache_ok_changed: "report_changed h lg cur w = (w', x) \<Longrightarrow> cache_ok w \<Longrightarrow>
   cache_ok w' \<and> wa_initialized w' = wa_initialized w \<and> wa_keys w' = wa_keys w"
proof (induction cur arbitrary: w)
  case (Cons p cur)
  then show ?case
    by (cases p) (fastforce simp: cache_ok_def Let_def distinct_update dest!: emit_fields split: prod.splits option.splits if_splits)
qed simp

lemma cache_ok_deleted: "report_deleted sdk contract h lg cur old w = (w', x) \<Longrightarrow> cache_ok w \<Longrightarrow>
   cache_ok w' \<and> wa_initialized w' = wa_initialized w \<and> wa_keys w' = wa_keys w"
proof (induction old arbitrary: w)
  case (Cons p old)
  then show ?case
    by (cases p) (fastforce simp: cache_ok_def distinct_delete dest!: emit_fields split: prod.splits option.splits sum.splits if_splits)
qed simp

lemma compare_observed:
  assumes "compare_entries sdk wo h es lg w = (w', x)" "cache_ok w" "wa_initialized w"
  shows "observed w w' \<and> cache_ok w' \<and> wa_initialized w'"
proof -
  obtain w1 y where c: "report_changed h lg (current_values es) w = (w1, y)" by fastforce
  have o: "observed w w1" "cache_ok w1" "wa_initialized w1"
    using observed_changed [OF c] cache_ok_changed [OF c] assms(2,3) by auto
  show ?thesis
  proof (cases y)
    case None
    with assms c have d: "report_deleted sdk (wo_contract wo) h lg (current_values es) (wa_cache w1) w1 = (w', x)"
      by (simp add: compare_entries_def)
    have "observed w1 w'"
      using o(2) by (intro observed_deleted [OF d]) (auto simp: cache_ok_def)
    with cache_ok_deleted [OF d o(2)] o observed_trans [OF o(1)] show ?thesis by simp
  next
    case (Some z)
    with assms c o show ?thesis by (simp add: compare_entries_def)
  qed
qed

lemma finish_observed: "observed w (finish_poll wo h w)"
proof -
  have "observed w w'" if "emit_watch h (WatchDone n) (watch_stop w) = (w', x)" for n w' x
    using observed_emit [OF that] by (simp add: observed_def watch_stop_def)
  then show ?thesis
    by (auto simp: finish_poll_def schedule_next_def observed_same split: option.split prod.split)
      (fastforce simp: observed_def)
qed

lemma poll_error_observed: "observed w (poll_error wo h e w)"
proof -
  obtain w' x where e: "emit_watch h (WatchError e) w = (w', x)" by fastforce
  from observed_emit [OF e] have o: "observed w w'" by simp
  then show ?thesis
  proof (cases x)
    case None
    with e o finish_observed [of w' wo h] show ?thesis by (auto simp: poll_error_def intro: observed_trans)
  next
    case (Some z)
    with e o show ?thesis by (simp add: poll_error_def observed_def)
  qed
qed

lemma arrived_observed:
  assumes "cache_ok w" "wa_initialized w"
  shows "observed w (entries_arrived sdk wo h r w) \<and> cache_ok (entries_arrived sdk wo h r w) \<and>
    wa_initialized (entries_arrived sdk wo h r w)"
proof -
  let ?w0 = "w\<lparr>wa_polling := False\<rparr>"
  have z: "observed w ?w0" "cache_ok ?w0" "wa_initialized ?w0" using assms by (simp_all add: observed_same cache_ok_def)
  show ?thesis
  proof (cases r)
    case (Inl e)
    with z observed_trans [OF z(1) poll_error_observed] show ?thesis by (simp add: entries_arrived_def cache_ok_def)
  next
    case (Inr q)
    obtain es lg where q: "q = (es, lg)" by fastforce
    obtain w1 x where c: "compare_entries sdk wo h es lg ?w0 = (w1, x)" by fastforce
    from compare_observed [OF c z(2,3)] have o1: "observed w w1" "cache_ok w1" "wa_initialized w1"
      using observed_trans [OF z(1)] by auto
    obtain w2 y where e: "emit_watch h (Polled (wa_polls w1)) w1 = (w2, y)" by fastforce
    have o2: "observed w w2" "cache_ok w2" "wa_initialized w2"
      using observed_trans [OF o1(1) observed_emit [OF e]] emit_frame(3,5) [OF e] o1(2,3) by (simp_all add: cache_ok_def)
    show ?thesis
    proof (cases x)
      case (Some a)
      with Inr q c o1 observed_trans [OF o1(1) poll_error_observed] show ?thesis by (simp add: entries_arrived_def cache_ok_def)
    next
      case None
      with Inr q c e o2 observed_trans [OF o2(1) poll_error_observed] observed_trans [OF o2(1) finish_observed]
      show ?thesis by (cases y) (simp_all add: entries_arrived_def cache_ok_def)
    qed
  qed
qed

lemma watch_step_observed:
  "watch_step sdk wo h w w' \<Longrightarrow> cache_ok w \<and> wa_initialized w \<Longrightarrow> observed w w' \<and> cache_ok w' \<and> wa_initialized w'"
proof (induction rule: watch_step.induct)
  case (reply w r)
  then show ?case by (intro arrived_observed) auto
qed (auto simp: start_poll_def watch_stop_def observed_same cache_ok_def)

text \<open>
  C30. What a watcher remembers is what it announced. Once it has its baseline, and whatever the
  replies, stops, timers and throwing listeners of the run: the 'change' events it emits form a
  faithful history - each names the value the key had after the events before it, and another one -
  and replaying them from the values it knew gives the values it knows.
\<close>

theorem watcher_history_is_faithful:
  assumes "(watch_step sdk wo h)\<^sup>*\<^sup>* w w'" "wa_initialized w" "distinct (map fst (wa_cache w))"
  shows "\<exists>evs. wa_events w' = wa_events w @ evs \<and> faithful (map_of (wa_cache w)) evs \<and>
    map_of (wa_cache w') = fold replay_event evs (map_of (wa_cache w))"
proof -
  from assms(1) have "observed w w' \<and> cache_ok w' \<and> wa_initialized w'"
  proof (induction rule: rtranclp_induct)
    case base
    with assms(2,3) show ?case by (simp add: observed_same cache_ok_def)
  next
    case (step y z)
    with watch_step_observed show ?case by (blast intro: observed_trans)
  qed
  then show ?thesis by (simp add: observed_def)
qed

section \<open>What one poll announces\<close>

definition entry_value :: "(string \<times> reply_entry) list \<Rightarrow> string \<Rightarrow> string option" where
  "entry_value cur k = map_option (\<lambda>e. reply_text (en_val e)) (map_of cur k)"

text \<open>The specification: the new and changed keys in the order of the reply, then the vanished ones.\<close>

definition changed_spec :: "'u watcher \<Rightarrow> jsval \<Rightarrow> (string \<times> reply_entry) list \<Rightarrow> storage_change list" where
  "changed_spec w lg cur =
     map (\<lambda>(k, e). \<lparr>ch_key = key_of_change w k (ReplyKey (en_key e)), ch_xdr = k, ch_old = map_of (wa_cache w) k,
         ch_new = Some (reply_text (en_val e)), ch_ledger = lg\<rparr>)
       (filter (\<lambda>(k, e). map_of (wa_cache w) k \<noteq> Some (reply_text (en_val e))) cur)"

definition vanished_spec :: "storage_sdk \<Rightarrow> string \<Rightarrow> 'u watcher \<Rightarrow> jsval \<Rightarrow> (string \<times> reply_entry) list \<Rightarrow>
    (string \<times> string) list \<Rightarrow> storage_change list" where
  "vanished_spec sdk contract w lg cur old =
     map (\<lambda>(k, v). \<lparr>ch_key = key_of_change w k (KnownKey (projr (normalize_ledger_key sdk contract Persistent (WatchText k)))),
         ch_xdr = k, ch_old = Some v, ch_new = None, ch_ledger = lg\<rparr>)
       (filter (\<lambda>(k, v). map_of cur k = None) old)"

lemma changed_spec_cong:
  assumes "wa_keys w' = wa_keys w" "\<forall>k \<in> fst ` set cur. map_of (wa_cache w') k = map_of (wa_cache w) k"
  shows "changed_spec w' lg cur = changed_spec w lg cur"
  using assms by (auto simp: changed_spec_def key_of_change_def intro!: map_cong filter_cong) force+

lemma vanished_spec_cong: "wa_keys w' = wa_keys w \<Longrightarrow> vanished_spec sdk contract w' lg cur old = vanished_spec sdk contract w lg cur old"
  by (simp add: vanished_spec_def key_of_change_def)

lemma changed_exact:
  "\<forall>ev u. snd (snd (h ev u)) = None \<Longrightarrow> distinct (map fst cur) \<Longrightarrow> report_changed h lg cur w = (w', x) \<Longrightarrow>
   x = None \<and> wa_events w' = wa_events w @ map Change (changed_spec w lg cur) \<and> wa_polls w' = wa_polls w \<and>
   wa_keys w' = wa_keys w \<and> wa_cache w' = fold (\<lambda>(k, e). AList.update k (reply_text (en_val e)))
     (filter (\<lambda>(k, e). map_of (wa_cache w) k \<noteq> Some (reply_text (en_val e))) cur) (wa_cache w)"
proof (induction cur arbitrary: w)
  case (Cons p cur)
  obtain k e where p: "p = (k, e)" by fastforce
  let ?v = "reply_text (en_val e)"
  show ?case
  proof (cases "map_of (wa_cache w) k = Some ?v")
    case True
    with Cons.prems p have "report_changed h lg cur w = (w', x)" by simp
    from Cons.IH [OF Cons.prems(1) _ this] Cons.prems(2) True p show ?thesis by (simp add: changed_spec_def)
  next
    case False
    let ?c = "\<lparr>ch_key = key_of_change w k (ReplyKey (en_key e)), ch_xdr = k, ch_old = map_of (wa_cache w) k,
      ch_new = Some ?v, ch_ledger = lg\<rparr>"
    obtain w1 y where e: "emit_watch h (Change ?c) (w\<lparr>wa_cache := AList.update k ?v (wa_cache w)\<rparr>) = (w1, y)"
      by fastforce
    note f = emit_frame [OF e]
    have y: "y = None" using f(10) Cons.prems(1) by simp
    with Cons.prems(3) p False e have r: "report_changed h lg cur w1 = (w', x)" by (simp add: Let_def)
    have k: "k \<notin> fst ` set cur" using Cons.prems(2) p by auto
    have same: "\<forall>k' \<in> fst ` set cur. map_of (wa_cache w1) k' = map_of (wa_cache w) k'"
      using k f(5) by (auto simp: update_conv')
    have "filter (\<lambda>(k, e). map_of (wa_cache w1) k \<noteq> Some (reply_text (en_val e))) cur =
        filter (\<lambda>(k, e). map_of (wa_cache w) k \<noteq> Some (reply_text (en_val e))) cur"
      using same by (intro filter_cong) force+
    with Cons.IH [OF Cons.prems(1) _ r] Cons.prems(2) p False f changed_spec_cong [OF _ same, of lg]
    show ?thesis by (simp add: changed_spec_def)
  qed
qed (simp add: changed_spec_def)

lemma vanished_exact:
  "\<forall>ev u. snd (snd (h ev u)) = None \<Longrightarrow> address_fault sdk contract = None \<Longrightarrow>
   report_deleted sdk contract h lg cur old w = (w', x) \<Longrightarrow>
   x = None \<and> wa_events w' = wa_events w @ map Change (vanished_spec sdk contract w lg cur old) \<and> wa_polls w' = wa_polls w \<and>
   map_of (wa_cache w') = (\<lambda>k. if k \<in> fst ` set old \<and> map_of cur k = None then None else map_of (wa_cache w) k)"
proof (induction old arbitrary: w)
  case (Cons p old)
  obtain k v where p: "p = (k, v)" by fastforce
  show ?case
  proof (cases "map_of cur k")
    case (Some _)
    with Cons.prems p have "report_deleted sdk contract h lg cur old w = (w', x)" by simp
    from Cons.IH [OF Cons.prems(1,2) this] Some p show ?thesis by (auto simp: vanished_spec_def fun_eq_iff)
  next
    case None
    obtain kk where kk: "normalize_ledger_key sdk contract Persistent (WatchText k) = Inr kk"
      using Cons.prems(2) by (cases "ledger_key_of sdk k"; cases "sc_val_of sdk k") (auto simp: normalize_ledger_key_def)
    define key where "key = (case map_of (wa_keys w) k of Some key \<Rightarrow> key | None \<Rightarrow> kk)"
    let ?c = "\<lparr>ch_key = KnownKey key, ch_xdr = k, ch_old = Some v, ch_new = None, ch_ledger = lg\<rparr>"
    obtain w1 y where e: "emit_watch h (Change ?c) (w\<lparr>wa_cache := AList.delete k (wa_cache w)\<rparr>) = (w1, y)" by fastforce
    note f = emit_frame [OF e]
    have y: "y = None" using f(10) Cons.prems(1) by simp
    with Cons.prems(3) p None e kk have r: "report_deleted sdk contract h lg cur old w1 = (w', x)"
      by (cases "map_of (wa_keys w) k") (simp_all add: key_def)
    from Cons.IH [OF Cons.prems(1,2) r] f None p kk
    show ?thesis
      by (auto simp: vanished_spec_cong [of w1 w] vanished_spec_def key_of_change_def key_def delete_conv' fun_eq_iff split: option.split)
  qed
qed (simp add: vanished_spec_def)

lemma map_of_filter_distinct:
  "distinct (map fst ps) \<Longrightarrow>
   map_of (filter P ps) k = (case map_of ps k of Some e \<Rightarrow> if P (k, e) then Some e else None | None \<Rightarrow> None)"
proof (induction ps)
  case (Cons p ps)
  obtain k' e where p: "p = (k', e)" by fastforce
  show ?case
  proof (cases "k' = k")
    case True
    with Cons.prems p have "k \<notin> fst ` set (filter P ps)" by auto
    then have "map_of (filter P ps) k = None" by (simp add: map_of_eq_None_iff)
    with True p show ?thesis by simp
  next
    case False
    with Cons p show ?thesis by simp
  qed
qed simp

lemma fold_update_map:
  "distinct (map fst cur) \<Longrightarrow>
   map_of (fold (\<lambda>(k, e). AList.update k (g e)) (filter (\<lambda>(k, e). map_of m k \<noteq> Some (g e)) cur) m) k =
     (case map_of cur k of Some e \<Rightarrow> Some (g e) | None \<Rightarrow> map_of m k)"
proof -
  have *: "distinct (map fst ps) \<Longrightarrow> map_of (fold (\<lambda>(k, e). AList.update k (g e)) ps m) k =
      (case map_of ps k of Some e \<Rightarrow> Some (g e) | None \<Rightarrow> map_of m k)" for ps m
    by (induction ps arbitrary: m) (auto simp: update_conv' split: option.splits dest!: map_of_SomeD, force+)
  assume d: "distinct (map fst cur)"
  then have d': "distinct (map fst (filter (\<lambda>(k, e). map_of m k \<noteq> Some (g e)) cur))"
    by (simp add: distinct_map_filter)
  have "map_of (filter (\<lambda>(k, e). map_of m k \<noteq> Some (g e)) cur) k =
      (case map_of cur k of Some e \<Rightarrow> if map_of m k \<noteq> Some (g e) then Some e else None | None \<Rightarrow> None)"
    using map_of_filter_distinct [OF d, of "\<lambda>(k, e). map_of m k \<noteq> Some (g e)" k] by (simp split: option.split)
  then show ?thesis by (auto simp: * [OF d'] split: option.split)
qed

lemma filter_update_present:
  "P k = False \<Longrightarrow> filter (\<lambda>(k, v). P k) (AList.update k v m) = filter (\<lambda>(k, v). P k) m"
  by (induction m) auto

lemma filter_fold_present:
  "\<forall>(k, e) \<in> set ps. P k = False \<Longrightarrow>
   filter (\<lambda>(k, v). P k) (fold (\<lambda>(k, e). AList.update k (g e)) ps m) = filter (\<lambda>(k, v). P k) m"
  by (induction ps arbitrary: m) (auto simp: filter_update_present)

lemma current_values_distinct: "distinct (map fst (current_values es))"
proof -
  have "distinct (map fst m) \<Longrightarrow> distinct (map fst (fold (\<lambda>e. AList.update (reply_text (en_key e)) e) es m))" for m
    by (induction es arbitrary: m) (auto simp: distinct_update)
  then show ?thesis by (simp add: current_values_def)
qed

lemma compare_exact:
  assumes "\<forall>ev u. snd (snd (h ev u)) = None" "address_fault sdk (wo_contract wo) = None" "wa_initialized w"
    and "compare_entries sdk wo h es lg w = (w', x)"
  shows "x = None \<and> wa_polls w' = wa_polls w \<and> map_of (wa_cache w') = entry_value (current_values es) \<and>
    wa_events w' = wa_events w @ map Change (changed_spec w lg (current_values es) @
      vanished_spec sdk (wo_contract wo) w lg (current_values es) (wa_cache w))"
proof -
  let ?cur = "current_values es"
  obtain w1 y where c: "report_changed h lg ?cur w = (w1, y)" by fastforce
  note e1 = changed_exact [OF assms(1) current_values_distinct c]
  with assms(3,4) c have d: "report_deleted sdk (wo_contract wo) h lg ?cur (wa_cache w1) w1 = (w', x)"
    by (simp add: compare_entries_def Let_def)
  note e2 = vanished_exact [OF assms(1,2) d]
  let ?ch = "filter (\<lambda>(k, e). map_of (wa_cache w) k \<noteq> Some (reply_text (en_val e))) ?cur"
  have "filter (\<lambda>(k, v). map_of ?cur k = None) (wa_cache w1) = filter (\<lambda>(k, v). map_of ?cur k = None) (wa_cache w)"
    using e1 filter_fold_present [where ps = ?ch and P = "\<lambda>k. map_of ?cur k = None" and g = "\<lambda>e. reply_text (en_val e)" and m = "wa_cache w"] current_values_distinct
    by (auto dest: weak_map_of_SomeI)
  then have v: "vanished_spec sdk (wo_contract wo) w1 lg ?cur (wa_cache w1) = vanished_spec sdk (wo_contract wo) w lg ?cur (wa_cache w)"
    using e1 by (simp add: vanished_spec_cong [of w1 w]) (simp add: vanished_spec_def)
  have "map_of (wa_cache w1) k = (case map_of ?cur k of Some e \<Rightarrow> Some (reply_text (en_val e)) | None \<Rightarrow> map_of (wa_cache w) k)" for k
    using e1 fold_update_map [OF current_values_distinct [of es], where m = "wa_cache w" and g = "\<lambda>e. reply_text (en_val e)" and k = k] by simp
  note new = this
  have "map_of (wa_cache w') k = entry_value ?cur k" for k
  proof (cases "map_of ?cur k")
    case None
    then have v: "entry_value ?cur k = None" by (simp add: entry_value_def)
    have "k \<notin> fst ` set (wa_cache w1) \<Longrightarrow> map_of (wa_cache w1) k = None" by (simp add: map_of_eq_None_iff)
    with e2 None have "map_of (wa_cache w') k = None" by (cases "k \<in> fst ` set (wa_cache w1)") simp_all
    with v show ?thesis by simp
  next
    case (Some e)
    with new [of k] e2 show ?thesis by (simp add: entry_value_def)
  qed
  then have "map_of (wa_cache w') = entry_value ?cur" by (rule ext)
  with e1 e2 v show ?thesis by simp
qed

text \<open>
  C31. A poll announces exactly the difference. When the listeners do not throw, a reply's poll
  emits one 'change' for each key whose value is new or other than the remembered one, in the order
  of the reply, then one for each remembered key the reply no longer has, then 'poll' - and 'done',
  after the last poll; and it remembers the values of the reply. The differences are those of the
  specification, which compares the old values with the new ones key by key.
\<close>

theorem watcher_announces_difference:
  assumes "\<forall>ev u. snd (snd (h ev u)) = None" "address_fault sdk (wo_contract wo) = None" "wa_initialized w"
  shows "\<exists>fin. wa_events (entries_arrived sdk wo h (Inr (es, lg)) w) =
       wa_events w @ map Change (changed_spec w lg (current_values es) @
         vanished_spec sdk (wo_contract wo) w lg (current_values es) (wa_cache w)) @ [Polled (wa_polls w)] @ fin \<and>
     (fin = [] \<or> fin = [WatchDone (wa_polls w)]) \<and>
     map_of (wa_cache (entries_arrived sdk wo h (Inr (es, lg)) w)) = entry_value (current_values es)"
proof -
  let ?w0 = "w\<lparr>wa_polling := False\<rparr>"
  obtain w1 x where c: "compare_entries sdk wo h es lg ?w0 = (w1, x)" by fastforce
  have i: "wa_initialized ?w0" using assms(3) by simp
  note e1 = compare_exact [OF assms(1,2) i c]
  obtain w2 y where e: "emit_watch h (Polled (wa_polls w1)) w1 = (w2, y)" by fastforce
  note f = emit_frame [OF e]
  have y: "y = None" using f(10) assms(1) by simp
  have r: "entries_arrived sdk wo h (Inr (es, lg)) w = finish_poll wo h w2"
    using c e1 e y by (simp add: entries_arrived_def)
  have "\<exists>fin. wa_events (finish_poll wo h w2) = wa_events w2 @ fin \<and> (fin = [] \<or> fin = [WatchDone (wa_polls w2)])"
  proof -
    obtain w3 z where d: "emit_watch h (WatchDone (wa_polls w2)) (watch_stop w2) = (w3, z)" by fastforce
    have "wa_events w3 = wa_events w2 @ [WatchDone (wa_polls w2)]" using emit_frame(6) [OF d] by (simp add: watch_stop_def)
    with d show ?thesis by (auto simp: finish_poll_def schedule_next_def split: option.split)
  qed
  then obtain fin where d: "wa_events (finish_poll wo h w2) = wa_events w2 @ fin" "fin = [] \<or> fin = [WatchDone (wa_polls w2)]"
    by blast
  have s: "changed_spec ?w0 lg cur = changed_spec w lg cur" "vanished_spec sdk c ?w0 lg cur old = vanished_spec sdk c w lg cur old" for c cur old
    by (rule changed_spec_cong; simp) (rule vanished_spec_cong; simp)
  have p: "wa_polls w1 = wa_polls w" using e1 by simp
  have "wa_events (finish_poll wo h w2) = wa_events w @ map Change (changed_spec w lg (current_values es) @
         vanished_spec sdk (wo_contract wo) w lg (current_values es) (wa_cache w)) @ [Polled (wa_polls w)] @ fin"
    using e1 unfolding d(1) f(6) s by simp
  moreover have "map_of (wa_cache (finish_poll wo h w2)) = entry_value (current_values es)" using e1 f(5) by simp
  moreover have "fin = [] \<or> fin = [WatchDone (wa_polls w)]" using d(2) f(2) p by simp
  ultimately show ?thesis unfolding r by blast
qed

section \<open>How long a watcher polls\<close>

abbreviation dones :: "watch_event list \<Rightarrow> nat" where
  "dones evs \<equiv> length (filter (\<lambda>ev. \<exists>n. ev = WatchDone n) evs)"

definition poll_inv :: "int \<Rightarrow> 'u watcher \<Rightarrow> bool" where
  "poll_inv m w \<longleftrightarrow>
     (wa_polling w \<longrightarrow> wa_timer w = None \<and> dones (wa_events w) = 0 \<and> 0 < wa_polls w) \<and>
     (wa_timer w \<noteq> None \<longrightarrow> \<not> wa_stopped w \<and> dones (wa_events w) = 0 \<and> (wa_polls w = 0 \<or> int (wa_polls w) < m)) \<and>
     (\<not> wa_stopped w \<longrightarrow> wa_timer w \<noteq> None \<or> wa_polling w \<or> wa_unhandled w \<noteq> []) \<and>
     wa_polls w \<le> nat (max 1 m) \<and> dones (wa_events w) \<le> 1"

text \<open>A poll whose reply has arrived.\<close>

definition poll_over :: "int \<Rightarrow> 'u watcher \<Rightarrow> bool" where
  "poll_over m w \<longleftrightarrow> \<not> wa_polling w \<and> wa_timer w = None \<and> dones (wa_events w) = 0 \<and> 0 < wa_polls w \<and> wa_polls w \<le> nat (max 1 m)"

lemma poll_over_emit:
  assumes "emit_watch h ev w = (w', x)" "poll_over m w" "\<And>n. ev \<noteq> WatchDone n"
  shows "poll_over m w'"
  using emit_frame [OF assms(1)] assms(2,3) by (simp add: poll_over_def)

lemma poll_over_change:
  "emit_watch h (Change c) (w\<lparr>wa_cache := q\<rparr>) = (w', x) \<Longrightarrow> poll_over m w \<Longrightarrow> poll_over m w'"
  by (erule poll_over_emit) (simp_all add: poll_over_def)

lemma poll_over_changed: "report_changed h lg cur w = (w', x) \<Longrightarrow> poll_over m w \<Longrightarrow> poll_over m w'"
proof (induction cur arbitrary: w)
  case (Cons p cur)
  then show ?case
    by (cases p) (fastforce simp: Let_def dest: poll_over_change split: prod.splits option.splits if_splits)
qed simp

lemma poll_over_deleted: "report_deleted sdk contract h lg cur old w = (w', x) \<Longrightarrow> poll_over m w \<Longrightarrow> poll_over m w'"
proof (induction old arbitrary: w)
  case (Cons p old)
  then show ?case
    by (cases p) (fastforce dest: poll_over_change split: prod.splits option.splits sum.splits if_splits)
qed simp

lemma poll_over_compare: "compare_entries sdk wo h es lg w = (w', x) \<Longrightarrow> poll_over m w \<Longrightarrow> poll_over m w'"
  by (auto simp: compare_entries_def Let_def poll_over_def [of m "set_baseline cur w" for cur] set_baseline_def
      dest: poll_over_changed poll_over_deleted split: prod.splits option.splits if_splits)
    (simp_all add: poll_over_def)

lemma poll_inv_finish:
  assumes "wo_max_polls wo = Some m" "poll_over m w"
  shows "poll_inv m (finish_poll wo h w)"
proof (cases "m \<le> int (wa_polls w)")
  case True
  obtain w' x where d: "emit_watch h (WatchDone (wa_polls w)) (watch_stop w) = (w', x)" by fastforce
  from emit_frame [OF d] assms(2) have "wa_stopped w' \<and> wa_timer w' = None \<and> \<not> wa_polling w' \<and> dones (wa_events w') = 1 \<and> wa_polls w' = wa_polls w"
    by (simp add: watch_stop_def poll_over_def)
  with True d assms show ?thesis by (cases x) (auto simp: finish_poll_def poll_inv_def poll_over_def)
next
  case False
  with assms show ?thesis by (auto simp: finish_poll_def poll_inv_def poll_over_def schedule_next_def)
qed

lemma poll_inv_error:
  assumes "wo_max_polls wo = Some m" "poll_over m w"
  shows "poll_inv m (poll_error wo h e w)"
proof -
  obtain w' x where d: "emit_watch h (WatchError e) w = (w', x)" by fastforce
  have "poll_over m w'" by (rule poll_over_emit [OF d assms(2)]) simp
  show ?thesis
  proof (cases x)
    case None
    with d poll_inv_finish [OF assms(1) \<open>poll_over m w'\<close>] show ?thesis by (simp add: poll_error_def)
  next
    case (Some y)
    with d \<open>poll_over m w'\<close> show ?thesis by (auto simp: poll_error_def poll_inv_def poll_over_def)
  qed
qed

lemma poll_inv_arrived:
  assumes "wo_max_polls wo = Some m" "poll_inv m w" "wa_polling w"
  shows "poll_inv m (entries_arrived sdk wo h r w)"
proof -
  let ?w0 = "w\<lparr>wa_polling := False\<rparr>"
  have z: "poll_over m ?w0" using assms(2,3) by (auto simp: poll_inv_def poll_over_def)
  show ?thesis
  proof (cases r)
    case (Inl e)
    with poll_inv_error [OF assms(1) z] show ?thesis by (simp add: entries_arrived_def)
  next
    case (Inr q)
    obtain es lg where q: "q = (es, lg)" by fastforce
    obtain w1 x where c: "compare_entries sdk wo h es lg ?w0 = (w1, x)" by fastforce
    have z1: "poll_over m w1" by (rule poll_over_compare [OF c z])
    obtain w2 y where e: "emit_watch h (Polled (wa_polls w1)) w1 = (w2, y)" by fastforce
    have z2: "poll_over m w2" by (rule poll_over_emit [OF e z1]) simp
    show ?thesis
      using Inr q c e poll_inv_error [OF assms(1) z1] poll_inv_error [OF assms(1) z2] poll_inv_finish [OF assms(1) z2]
      by (cases x; cases y) (simp_all add: entries_arrived_def)
  qed
qed

lemma poll_inv_step: "watch_step sdk wo h w w' \<Longrightarrow> wo_max_polls wo = Some m \<Longrightarrow> poll_inv m w \<Longrightarrow> poll_inv m w'"
proof (induction rule: watch_step.induct)
  case (timer w)
  then show ?case by (auto simp: poll_inv_def start_poll_def)
next
  case (reply w r)
  then show ?case by (intro poll_inv_arrived) auto
next
  case (stopped w)
  then show ?case by (auto simp: poll_inv_def watch_stop_def)
qed

text \<open>
  C32. A watcher with maxPolls stops after it. However timers, replies, stops and listeners
  interleave it polls at most max(1, maxPolls) times, announces 'done' at most once, and once it has
  polled that often and its reply has arrived, nothing is pending. Until then a watcher that is not
  stopped has a timer or a reply to wait for, unless a listener's exception escaped from poll().
\<close>

theorem watcher_polls_bounded:
  assumes "watch_start sdk wo u = Inr w0" "wo_max_polls wo = Some m" "(watch_step sdk wo h)\<^sup>*\<^sup>* w0 w"
  shows "wa_polls w \<le> nat (max 1 m) \<and> dones (wa_events w) \<le> 1 \<and>
    (nat (max 1 m) \<le> wa_polls w \<and> \<not> wa_polling w \<longrightarrow> wa_timer w = None) \<and>
    (is_watching w \<longrightarrow> wa_timer w \<noteq> None \<or> wa_polling w \<or> wa_unhandled w \<noteq> [])"
proof -
  have "poll_inv m w0"
    using assms(1) by (auto simp: watch_start_def bind_result_Inr_iff schedule_next_def poll_inv_def)
  with assms(3) have "poll_inv m w"
    by (induction rule: rtranclp_induct) (auto intro: poll_inv_step [OF _ assms(2)])
  then show ?thesis by (auto simp: poll_inv_def is_watching_def)
qed

text \<open>
  An error nobody listens for ends the watcher while it says it is watching. When emitting
  'error' throws - which an EventEmitter does for an 'error' without a listener - poll() rejects
  before it schedules the next poll: nothing is ever polled or emitted again, and isWatching()
  stays true.
\<close>

theorem unheard_error_ends_watcher:
  assumes "wa_timer w = None" "\<not> wa_stopped w" "h (WatchError e) (wa_user w) = (u, False, Some x)"
    and "w' = entries_arrived sdk wo h (Inl e) w"
  shows "is_watching w' \<and> wa_unhandled w' = wa_unhandled w @ [x] \<and>
    (\<forall>w''. (watch_step sdk wo h)\<^sup>*\<^sup>* w' w'' \<longrightarrow> wa_polls w'' = wa_polls w \<and> wa_events w'' = wa_events w @ [WatchError e])"
proof -
  have w': "w' = w\<lparr>wa_polling := False, wa_user := u, wa_events := wa_events w @ [WatchError e], wa_unhandled := wa_unhandled w @ [x]\<rparr>"
    using assms(3,4) by (simp add: entries_arrived_def poll_error_def emit_watch_def)
  have "wa_polls w'' = wa_polls w \<and> wa_events w'' = wa_events w @ [WatchError e] \<and> wa_timer w'' = None \<and> \<not> wa_polling w''"
    if "(watch_step sdk wo h)\<^sup>*\<^sup>* w' w''" for w''
    using that
  proof (induction rule: rtranclp_induct)
    case base
    show ?case using assms(1) by (simp add: w')
  next
    case (step y z)
    from step.hyps(2) step.IH show ?case by (auto elim: watch_stepE simp: watch_stop_def)
  qed
  with assms(2) show ?thesis by (auto simp: is_watching_def w')
qed

section \<open>A watcher to evaluate on\<close>

text \<open>One known key with its value, a reply in which it is gone and another has appeared.\<close>

definition toy_storage :: storage_sdk where
  "toy_storage = \<lparr>address_fault = (\<lambda>a. None), ledger_key_of = (\<lambda>t. Some (RawLedgerKey t)), sc_val_of = (\<lambda>t. None),
     key_base64 = (\<lambda>k. case k of RawLedgerKey t \<Rightarrow> t | ContractDataKey c v d \<Rightarrow> c)\<rparr>"

definition toy_watch :: watch_options where
  "toy_watch = \<lparr>wo_contract = ''C'', wo_keys = [WatchText ''k1''], wo_interval = 5000, wo_max_polls = Some 1,
     wo_durability = Persistent, wo_initial = Some [(''k1'', ''old'')]\<rparr>"

definition toy_watcher :: "unit watcher" where
  "toy_watcher = \<lparr>wa_keys = [(''k1'', RawLedgerKey ''k1'')], wa_polls = 0, wa_stopped = False, wa_initialized = True,
     wa_timer = Some 0, wa_polling = False, wa_cache = [(''k1'', ''old'')], wa_events = [], wa_unhandled = [], wa_user = ()\<rparr>"

definition toy_entry :: reply_entry where
  "toy_entry = \<lparr>en_key = ReplyText ''k2'', en_val = ReplyText ''new''\<rparr>"

definition quiet_hear :: "unit hear" where
  "quiet_hear ev u = (u, False, None)"

lemma toy_watch_starts: "watch_start toy_storage toy_watch () = Inr toy_watcher"
  by (simp add: watch_start_def toy_watch_def toy_storage_def toy_watcher_def normalize_ledger_key_def schedule_next_def)

definition toy_polled :: "unit watcher" where
  "toy_polled = entries_arrived toy_storage toy_watch quiet_hear (Inr ([toy_entry], JNull)) (start_poll (toy_watcher\<lparr>wa_timer := None\<rparr>))"

lemma toy_watch_run: "(watch_step toy_storage toy_watch quiet_hear)\<^sup>*\<^sup>* toy_watcher toy_polled"
proof -
  have "watch_step toy_storage toy_watch quiet_hear toy_watcher (start_poll (toy_watcher\<lparr>wa_timer := None\<rparr>))"
    by (rule watch_step.timer) (simp add: toy_watcher_def)
  moreover have "watch_step toy_storage toy_watch quiet_hear (start_poll (toy_watcher\<lparr>wa_timer := None\<rparr>)) toy_polled"
    unfolding toy_polled_def by (rule watch_step.reply) (simp add: start_poll_def toy_watcher_def)
  ultimately show ?thesis by (blast intro: rtranclp.rtrancl_into_rtrancl)
qed

lemma toy_values: "current_values [toy_entry] = [(''k2'', toy_entry)]"
  "en_key toy_entry = ReplyText ''k2''" "en_val toy_entry = ReplyText ''new''"
  by (simp_all add: current_values_def toy_entry_def)

theorem watcher_announces_difference_witness:
  "\<exists>fin. wa_events toy_polled =
     [Change \<lparr>ch_key = ReplyKey (ReplyText ''k2''), ch_xdr = ''k2'', ch_old = None, ch_new = Some ''new'', ch_ledger = JNull\<rparr>,
      Change \<lparr>ch_key = KnownKey (RawLedgerKey ''k1''), ch_xdr = ''k1'', ch_old = Some ''old'', ch_new = None, ch_ledger = JNull\<rparr>,
      Polled 1] @ fin \<and> map_of (wa_cache toy_polled) = [''k2'' \<mapsto> ''new'']"
proof -
  let ?w = "start_poll (toy_watcher\<lparr>wa_timer := None\<rparr>)"
  have q: "\<forall>ev u. snd (snd (quiet_hear ev u)) = None" by (simp add: quiet_hear_def)
  have a: "address_fault toy_storage (wo_contract toy_watch) = None" by (simp add: toy_storage_def)
  have i: "wa_initialized ?w" by (simp add: start_poll_def toy_watcher_def)
  from watcher_announces_difference [OF q a i, of "[toy_entry]" JNull] show ?thesis
    unfolding toy_polled_def [symmetric]
    by (auto simp: toy_values changed_spec_def vanished_spec_def key_of_change_def start_poll_def toy_watcher_def
        entry_value_def fun_eq_iff)
qed

theorem watcher_history_is_faithful_witness:
  "\<exists>evs. wa_events toy_polled = evs \<and> faithful [''k1'' \<mapsto> ''old''] evs \<and>
     map_of (wa_cache toy_polled) = fold replay_event evs [''k1'' \<mapsto> ''old'']"
  using watcher_history_is_faithful [OF toy_watch_run] by (simp add: toy_watcher_def)

theorem watcher_polls_bounded_witness:
  "watch_start toy_storage toy_watch () = Inr toy_watcher \<and> wa_polls toy_polled \<le> 1 \<and> dones (wa_events toy_polled) \<le> 1"
  using watcher_polls_bounded [OF toy_watch_starts _ toy_watch_run, of 1] by (simp add: toy_watch_starts) (simp add: toy_watch_def)

definition deaf_hear :: "unit hear" where
  "deaf_hear ev u = (u, False, (case ev of WatchError e \<Rightarrow> Some e | _ \<Rightarrow> None))"

theorem unheard_error_ends_watcher_witness:
  "\<exists>w'. w' = entries_arrived toy_storage toy_watch deaf_hear (Inl (plain ''down'')) (start_poll (toy_watcher\<lparr>wa_timer := None\<rparr>)) \<and>
     is_watching w' \<and> wa_unhandled w' = [plain ''down'']"
proof -
  let ?w = "start_poll (toy_watcher\<lparr>wa_timer := None\<rparr>)"
  have w: "wa_timer ?w = None" "\<not> wa_stopped ?w" by (simp_all add: start_poll_def toy_watcher_def)
  have h: "deaf_hear (WatchError (plain ''down'')) (wa_user ?w) = ((), False, Some (plain ''down''))"
    by (simp add: deaf_hear_def)
  from unheard_error_ends_watcher [where h = deaf_hear, OF w h refl, of toy_storage toy_watch] show ?thesis
    by (simp add: start_poll_def toy_watcher_def)
qed

end
