(* ===== verification/Storage.thy ===== *)
theory Storage imports Services Watcher begin

text \<open>
  The storage reader (backend/tools/SorobanStorageTool.ts): the entries of a contract's storage as
  plain JSON values.
\<close>

section \<open>Native values\<close>

text \<open>What scValToNative returns: primitives, big integers, bytes, lists, maps and plain objects.\<close>

datatype native =
    NatUndef
  | NatNull
  | NatBool bool
  | NatNum jsnum
  | NatBig int
  | NatStr string
  | NatBytes "nat list"
  | NatList "native list"
  | NatMap "(native \<times> native) list"
  | NatRecord "(string \<times> native) list"

definition set_all :: "(string \<times> jsval) list \<Rightarrow> jsval" where
  "set_all kvs = JObj (foldl (\<lambda>o' (k, v). obj_set o' k v) [] kvs)"

text \<open>\<open>str\<close> is the String() of a value that is not a string itself.\<close>

fun to_json_serializable :: "(jsval \<Rightarrow> string) \<Rightarrow> native \<Rightarrow> jsval" where
  "to_json_serializable str NatUndef = JUndef"
| "to_json_serializable str NatNull = JNull"
| "to_json_serializable str (NatBig n) = JStr (int_str n)"
| "to_json_serializable str (NatBytes bs) = JStr (bytes_hex bs)"
| "to_json_serializable str (NatList vs) = JArr (map (to_json_serializable str) vs)"
| "to_json_serializable str (NatMap kvs) =
     set_all (map (\<lambda>(k, v). (case to_json_serializable str k of JStr t \<Rightarrow> t | w \<Rightarrow> str w, to_json_serializable str v)) kvs)"
| "to_json_serializable str (NatRecord kvs) = set_all (map (\<lambda>(k, v). (k, to_json_serializable str v)) kvs)"
| "to_json_serializable str (NatBool b) = JBool b"
| "to_json_serializable str (NatNum n) = JNum n"
| "to_json_serializable str (NatStr t) = JStr t"

section \<open>SorobanStorageTool\<close>

text \<open>
  A returned entry as its value's text or object and the two ledger numbers; \<open>storage_data\<close> decodes
  the key and the value of one, \<open>native_to_scval\<close> is nativeToScVal, \<open>as_scval\<close> recognises an ScVal.
\<close>

record storage_entry =
  se_val :: reply_xdr
  se_modified :: jsval
  se_live_until :: jsval

record 'w storage_platform = "'w service_platform" +
  storage_address_fault :: "string \<Rightarrow> js_error option"
  as_scval :: "jsval \<Rightarrow> sc_val option"
  native_to_scval :: "jsval \<Rightarrow> js_error + sc_val"
  get_ledger_entries :: "ledger_key list \<Rightarrow> 'w \<Rightarrow> 'w \<times> (js_error + storage_entry list \<times> jsval)"
  storage_data :: "reply_xdr \<Rightarrow> js_error + native \<times> native"
  contract_instance_key :: sc_val

datatype storage_durability = StoragePersistent | StorageTemporary | StorageInstance

definition storage_schema :: "jsval \<Rightarrow> (string \<times> jsval list \<times> storage_durability) option" where
  "storage_schema v = do {
     _ \<leftarrow> z_obj v;
     k \<leftarrow> z_check (\<lambda>t. length t = 56) (z_str (field v ''contractId''));
     ks \<leftarrow> z_check (\<lambda>xs. xs \<noteq> []) (z_arr z_any (field v ''keys''));
     d \<leftarrow> z_def ''persistent'' (z_enum [''persistent'', ''temporary'', ''instance'']) (field v ''durability'');
     Some (k, ks, if d = ''temporary'' then StorageTemporary else if d = ''instance'' then StorageInstance else StoragePersistent)
   }"

definition storage_key :: "('w, 'x) storage_platform_scheme \<Rightarrow> string \<Rightarrow> storage_durability \<Rightarrow> jsval \<Rightarrow> js_error + ledger_key" where
  "storage_key p contract d key =
     bind_result
       (if d = StorageInstance then Inr (contract_instance_key p)
        else case as_scval p key of Some v \<Rightarrow> Inr v | None \<Rightarrow> native_to_scval p key)
       (\<lambda>v. Inr (ContractDataKey contract v (if d = StorageTemporary then Temporary else Persistent)))"

definition storage_entry_value :: "('w, 'x) storage_platform_scheme \<Rightarrow> storage_entry \<Rightarrow> js_error + jsval" where
  "storage_entry_value p e =
     (case se_val e of
        ReplyOther t \<Rightarrow> Inl (plain ''Unable to parse LedgerEntryData from RPC response'')
      | v \<Rightarrow> bind_result (storage_data p v) (\<lambda>(k, x).
          Inr (JObj [(''key'', to_json_serializable (template_text p) k), (''value'', to_json_serializable (template_text p) x),
            (''lastModifiedLedgerSeq'', se_modified e), (''liveUntilLedgerSeq'', se_live_until e)])))"

definition storage_execute ::
    "('w, 'x) storage_platform_scheme \<Rightarrow> agent_config \<Rightarrow> jsval \<Rightarrow> ('w, 'y) sys_scheme \<Rightarrow> ('w, 'y) sys_scheme \<times> (js_error + jsval)" where
  "storage_execute p c v s =
     andThen (s, or_zod (storage_schema v)) (\<lambda>s (contract, keys, d).
     andThen (s, case storage_address_fault p contract of Some e \<Rightarrow> Inl e | None \<Rightarrow> Inr ()) (\<lambda>s u.
     andThen (s, map_result (storage_key p contract d) keys) (\<lambda>s ks.
     andThen (guarded p (with_retry p (MAX_RETRIES c) (RETRY_DELAY_MS c) default_is_retryable max_retry_delay_ms
         (outside (get_ledger_entries p ks))) s) (\<lambda>s (es, lg).
     andThen (s, map_result (storage_entry_value p) es) (\<lambda>s vs.
       (s, Inr (JObj [(''entries'', JArr vs), (''latestLedger'', lg)])))))))"

section \<open>What it returns can be printed\<close>

definition printable :: "jsval \<Rightarrow> bool" where
  "printable v \<longleftrightarrow> (\<forall>num. json_value num v \<noteq> Inl ())"

lemma printable_list: "(\<forall>v \<in> set vs. printable v) \<Longrightarrow> json_items num vs \<noteq> Inl ()"
  by (induction vs) (auto simp: printable_def split: sum.splits)

lemma printable_entries: "(\<forall>(k, v) \<in> set kvs. printable v) \<Longrightarrow> json_entries num kvs \<noteq> Inl ()"
  by (induction kvs) (auto simp: printable_def split: sum.splits)

lemma printable_set_all:
  assumes "\<forall>(k, v) \<in> set kvs. printable v"
  shows "printable (set_all kvs)"
proof -
  have "\<forall>(k, v) \<in> set (foldl (\<lambda>o' (k, v). obj_set o' k v) acc kvs). printable v"
    if "\<forall>(k, v) \<in> set acc. printable v" "\<forall>(k, v) \<in> set kvs. printable v" for acc kvs
    using that
  proof (induction kvs arbitrary: acc)
    case (Cons p kvs)
    obtain k v where p: "p = (k, v)" by fastforce
    have "\<forall>(k', v') \<in> set (obj_set acc k v). printable v'"
      using Cons.prems p by (auto dest!: set_obj_set)
    with Cons.IH [of "obj_set acc k v"] Cons.prems(2) p show ?case by auto
  qed simp
  from this [of "[]" kvs] assms show ?thesis
    unfolding set_all_def using printable_entries by (fastforce simp: printable_def split: sum.split)
qed

lemma serializable_printable: "printable (to_json_serializable str v)"
proof (induction str v rule: to_json_serializable.induct)
  case (5 str vs)
  then have "json_items num (map (to_json_serializable str) vs) \<noteq> Inl ()" for num by (intro printable_list) auto
  then show ?case by (fastforce simp: printable_def split: sum.split)
next
  case (6 str kvs)
  then show ?case by (auto intro!: printable_set_all)
next
  case (7 str kvs)
  then show ?case by (auto intro!: printable_set_all)
qed (simp_all add: printable_def)

text \<open>
  What the storage tool returns of a contract's data is always JSON. JSON.stringify raises on a
  big integer; the converted key or value of an entry, however deeply big integers, bytes, lists and
  maps nest in it, has a JSON text or is undefined; and a list keeps its length.
\<close>

theorem stored_values_serialize:
  "(\<exists>t. json_value num (to_json_serializable str v) = Inr t) \<and>
   (\<forall>vs. v = NatList vs \<longrightarrow> (\<exists>ws. to_json_serializable str v = JArr ws \<and> length ws = length vs))"
proof
  show "\<exists>t. json_value num (to_json_serializable str v) = Inr t"
    using serializable_printable [of str v] by (cases "json_value num (to_json_serializable str v)") (auto simp: printable_def)
qed auto

theorem stored_values_serialize_witness:
  "to_json_serializable (\<lambda>v. []) (NatList [NatBig 5, NatBytes [255]]) = JArr [JStr ''5'', JStr ''ff''] \<and>
   (\<exists>ws. to_json_serializable (\<lambda>v. []) (NatList [NatBig 5, NatBytes [255]]) = JArr ws \<and> length ws = 2)"
proof -
  have "nat_str 5 = ''5''" "char_of (102 :: nat) = CHR ''f''" by code_simp+
  then show ?thesis
    using stored_values_serialize [of "\<lambda>r. []" "\<lambda>v. []" "NatList [NatBig 5, NatBytes [255]]"]
    by (simp add: int_str_def bytes_hex_def hex_digit_char_def)
qed

end
