(* ===== verification/Lifecycle.thy ===== *)
theory Lifecycle imports Accounts begin

text \<open>
  What an agent holds on to and lets go of (backend/agent.ts: constructor, startListening,
  stopListening, startContractListener, stopContractListener, destroy) and the balance stream
  (backend/tools/BalanceStreamTool.ts): subscriptions at Horizon, contract listeners, event handlers.
\<close>

section \<open>A slot for one subscription\<close>

text \<open>
  The contract the three kinds of subscription share: the owner remembers at most one, acquiring
  leaves it with one, releasing with none, and what is open is exactly what is remembered.
\<close>

locale subscription =
  fixes acquire :: "'s \<Rightarrow> 's" and release :: "'s \<Rightarrow> 's"
    and held :: "'s \<Rightarrow> nat option" and opened :: "'s \<Rightarrow> nat list"
  assumes acquire_held: "held (acquire s) \<noteq> None"
    and acquire_opened: "opened s = (case held s of None \<Rightarrow> [] | Some i \<Rightarrow> [i]) \<Longrightarrow>
      opened (acquire s) = (case held (acquire s) of None \<Rightarrow> [] | Some i \<Rightarrow> [i])"
    and release_held: "held (release s) = None"
    and release_opened: "opened s = (case held s of None \<Rightarrow> [] | Some i \<Rightarrow> [i]) \<Longrightarrow> opened (release s) = []"
begin

definition in_step :: "'s \<Rightarrow> bool" where
  "in_step s \<longleftrightarrow> opened s = (case held s of None \<Rightarrow> [] | Some i \<Rightarrow> [i])"

lemma in_step_acquire: "in_step s \<Longrightarrow> in_step (acquire s)"
  unfolding in_step_def by (rule acquire_opened)

lemma in_step_release: "in_step s \<Longrightarrow> in_step (release s)"
  by (simp add: in_step_def release_held release_opened)

lemma one_open: "in_step s \<Longrightarrow> length (opened s) \<le> 1"
  by (simp add: in_step_def split: option.split)

lemma acquired_open: "in_step s \<Longrightarrow> \<exists>i. held (acquire s) = Some i \<and> opened (acquire s) = [i]"
  using in_step_acquire [of s] acquire_held [of s] by (auto simp: in_step_def)

lemma released_closed: "in_step s \<Longrightarrow> opened (release s) = [] \<and> held (release s) = None"
  using release_opened [of s] release_held by (simp add: in_step_def)

end

section \<open>The agent's subscriptions and handlers\<close>

text \<open>
  \<open>lf_open\<close> are the payment streams Horizon still serves, \<open>lf_live\<close> the contract listeners that
  have not been stopped, \<open>lf_handlers\<close> the handlers registered with the emitter, by event.
\<close>

record lifecycle =
  lf_stream :: "nat option"
  lf_open :: "nat list"
  lf_listener :: "nat option"
  lf_live :: "nat list"
  lf_handlers :: "(string \<times> string) list"
  lf_bound :: "(string \<times> string) list"
  lf_next :: nat

definition agent_created :: lifecycle where
  "agent_created =
     (let hs = [(''error'', ''onError''), (''task:complete'', ''onTaskComplete''), (''task:failed'', ''onTaskFailed'')]
      in \<lparr>lf_stream = None, lf_open = [], lf_listener = None, lf_live = [], lf_handlers = hs, lf_bound = hs, lf_next = 0\<rparr>)"

text \<open>What onError logs of the message of an error.\<close>

definition on_error_text :: "string \<Rightarrow> string" where
  "on_error_text m = redact_all m"

definition start_listening :: "lifecycle \<Rightarrow> lifecycle" where
  "start_listening l =
     (if lf_stream l \<noteq> None then l
      else l\<lparr>lf_stream := Some (lf_next l), lf_open := lf_open l @ [lf_next l], lf_next := lf_next l + 1\<rparr>)"

definition stop_listening :: "lifecycle \<Rightarrow> lifecycle" where
  "stop_listening l =
     (case lf_stream l of
        Some i \<Rightarrow> l\<lparr>lf_open := filter (\<lambda>j. j \<noteq> i) (lf_open l), lf_stream := None\<rparr>
      | None \<Rightarrow> l)"

text \<open>The stream's onerror.\<close>

definition stream_failed :: "lifecycle \<Rightarrow> lifecycle" where
  "stream_failed l = stop_listening l"

definition stop_live :: "nat option \<Rightarrow> lifecycle \<Rightarrow> lifecycle" where
  "stop_live x l = (case x of Some i \<Rightarrow> l\<lparr>lf_live := filter (\<lambda>j. j \<noteq> i) (lf_live l)\<rparr> | None \<Rightarrow> l)"

definition start_contract_listener :: "lifecycle \<Rightarrow> lifecycle" where
  "start_contract_listener l =
     (let l1 = stop_live (lf_listener l) l
      in l1\<lparr>lf_listener := Some (lf_next l1), lf_live := lf_live l1 @ [lf_next l1], lf_next := lf_next l1 + 1\<rparr>)"

definition stop_contract_listener :: "lifecycle \<Rightarrow> lifecycle" where
  "stop_contract_listener l = (stop_live (lf_listener l) l)\<lparr>lf_listener := None\<rparr>"

definition add_handler :: "string \<Rightarrow> string \<Rightarrow> lifecycle \<Rightarrow> lifecycle" where
  "add_handler ev h l = l\<lparr>lf_handlers := lf_handlers l @ [(ev, h)]\<rparr>"

definition destroy :: "lifecycle \<Rightarrow> lifecycle" where
  "destroy l =
     (let l1 = stop_contract_listener (stop_listening l);
          l2 = l1\<lparr>lf_handlers := filter (\<lambda>h. h \<notin> set (lf_bound l1)) (lf_handlers l1)\<rparr>
      in l2\<lparr>lf_bound := [], lf_handlers := []\<rparr>)"

interpretation streams: subscription start_listening stop_listening lf_stream lf_open
  by unfold_locales (auto simp: start_listening_def stop_listening_def split: option.splits)

interpretation listeners: subscription start_contract_listener stop_contract_listener lf_listener lf_live
  by unfold_locales (auto simp: start_contract_listener_def stop_contract_listener_def stop_live_def Let_def split: option.splits)

section \<open>Steps\<close>

text \<open>A contract listener that gives up stops itself; the agent still remembers its stop function.\<close>

inductive life_step :: "lifecycle \<Rightarrow> lifecycle \<Rightarrow> bool" where
  "life_step l (start_listening l)"
| "life_step l (stop_listening l)"
| "life_step l (stream_failed l)"
| "life_step l (start_contract_listener l)"
| "life_step l (stop_contract_listener l)"
| "life_step l (l\<lparr>lf_live := filter (\<lambda>j. j \<noteq> i) (lf_live l)\<rparr>)"
| "life_step l (add_handler ev h l)"
| "life_step l (destroy l)"

inductive_cases life_stepE: "life_step l l'"

definition life_inv :: "lifecycle \<Rightarrow> bool" where
  "life_inv l \<longleftrightarrow> streams.in_step l \<and> (lf_live l = [] \<or> (\<exists>i. lf_listener l = Some i \<and> lf_live l = [i]))"

lemma life_inv_stop_listener: "life_inv l \<Longrightarrow> life_inv (stop_contract_listener l) \<and> lf_live (stop_contract_listener l) = []"
  by (auto simp: life_inv_def stop_contract_listener_def stop_live_def streams.in_step_def split: option.splits)

lemma life_inv_stop: "life_inv l \<Longrightarrow> life_inv (stop_listening l)"
  using streams.in_step_release [of l]
  by (auto simp: life_inv_def stop_listening_def split: option.splits)

lemma life_inv_step: "life_step l l' \<Longrightarrow> life_inv l \<Longrightarrow> life_inv l'"
proof (induction rule: life_step.induct)
  case (1 l)
  then show ?case
    using streams.in_step_acquire [of l] by (auto simp: life_inv_def start_listening_def)
next
  case (4 l)
  then show ?case
    by (auto simp: life_inv_def start_contract_listener_def stop_live_def streams.in_step_def Let_def split: option.splits)
next
  case (6 l i)
  then show ?case
    by (cases "lf_live l = []"; cases "lf_listener l = Some i") (auto simp: life_inv_def streams.in_step_def)
next
  case (8 l)
  then have "life_inv (stop_contract_listener (stop_listening l))"
    using life_inv_stop life_inv_stop_listener by blast
  then show ?case by (auto simp: destroy_def life_inv_def streams.in_step_def Let_def)
next
  case (7 l ev h)
  then show ?case by (simp add: add_handler_def life_inv_def streams.in_step_def)
qed (simp_all add: life_inv_stop life_inv_stop_listener stream_failed_def)

text \<open>
  C33. An agent never leaks a subscription. In whatever order it starts and stops listening, its
  streams fail, its listeners give up and handlers are added: at most one payment stream and one
  contract listener are open, the stream exactly when it remembers one; and destroy closes both and
  leaves no handler registered.
\<close>

theorem agent_leaks_no_subscription:
  assumes "life_step\<^sup>*\<^sup>* agent_created l"
  shows "lf_open l = (case lf_stream l of None \<Rightarrow> [] | Some i \<Rightarrow> [i]) \<and> length (lf_live l) \<le> 1 \<and>
    lf_open (destroy l) = [] \<and> lf_live (destroy l) = [] \<and> lf_handlers (destroy l) = [] \<and> lf_bound (destroy l) = []"
proof -
  have inv: "life_inv l"
    using assms
  proof (induction rule: rtranclp_induct)
    case base
    show ?case by (simp add: life_inv_def agent_created_def streams.in_step_def Let_def)
  next
    case (step y z)
    then show ?case by (blast intro: life_inv_step)
  qed
  have d: "lf_open (destroy l) = lf_open (stop_listening l)" "lf_live (destroy l) = lf_live (stop_contract_listener (stop_listening l))"
    by (auto simp: destroy_def stop_contract_listener_def stop_live_def Let_def split: option.split)
  have "streams.in_step l" using inv by (simp add: life_inv_def)
  from streams.released_closed [OF this] life_inv_stop_listener [OF life_inv_stop [OF inv]] inv d show ?thesis
    by (auto simp: life_inv_def streams.in_step_def destroy_def Let_def)
qed

theorem agent_leaks_no_subscription_witness:
  "life_step\<^sup>*\<^sup>* agent_created (start_contract_listener (start_listening agent_created)) \<and>
   lf_open (start_contract_listener (start_listening agent_created)) = [0] \<and>
   lf_live (start_contract_listener (start_listening agent_created)) = [1] \<and>
   lf_open (destroy (start_contract_listener (start_listening agent_created))) = []"
proof -
  let ?l = "start_contract_listener (start_listening agent_created)"
  have r: "life_step\<^sup>*\<^sup>* agent_created ?l"
    by (rule rtranclp.rtrancl_into_rtrancl [OF r_into_rtranclp [of life_step, OF life_step.intros(1)] life_step.intros(4)])
  have "lf_open ?l = [0]" "lf_live ?l = [1]"
    by (simp_all add: agent_created_def start_listening_def start_contract_listener_def stop_live_def Let_def)
  with r agent_leaks_no_subscription [OF r] show ?thesis by simp
qed

section \<open>The messages of the payment stream\<close>

datatype stream_outcome = NotAChallenge | Forwarded challenge | Dropped | ThrewOut

text \<open>
  onmessage, with the caller's callback as \<open>on_challenge\<close>, which may throw. A memo that is present but not a string has no startsWith: that error leaves onmessage.
\<close>

definition on_payment_message ::
    "('w, 'x) tools_platform_scheme \<Rightarrow> agent_config \<Rightarrow> (challenge \<Rightarrow> js_error + unit) \<Rightarrow>
     jsval \<Rightarrow> stream_outcome" where
  "on_payment_message p c on_challenge payment =
     (case (if nullish (field payment ''memo'') then JStr [] else field payment ''memo'') of
        JStr memo \<Rightarrow>
          (if \<not> starts_with memo ''x402:'' then NotAChallenge
           else (case parse_json (utf8_text p (base64_bytes (drop 5 memo))) of
                   None \<Rightarrow> Dropped
                 | Some raw \<Rightarrow>
                     (case x402_challenge_schema p c raw of
                        None \<Rightarrow> Dropped
                      | Some ch \<Rightarrow> (case on_challenge ch of Inl e \<Rightarrow> Dropped | Inr u \<Rightarrow> Forwarded ch))))
      | _ \<Rightarrow> ThrewOut)"

section \<open>BalanceStreamTool\<close>

record balance_event =
  be_asset :: jsval
  be_amount :: jsval
  be_direction :: string

record balance_stream =
  bs_close :: "nat option"
  bs_open :: "nat list"
  bs_next :: nat
  bs_emitted :: "balance_event list"

definition effect_event :: "jsval \<Rightarrow> balance_event option" where
  "effect_event v =
     (let code = (if field v ''asset_type'' = JStr ''native'' \<or> falsy (field v ''asset_code'') then JStr ''XLM'' else field v ''asset_code'');
          ev = (\<lambda>d. Some \<lparr>be_asset = code, be_amount = field v ''amount'', be_direction = d\<rparr>)
      in if field v ''type'' = JStr ''account_credited'' then ev ''credit''
         else if field v ''type'' = JStr ''account_debited'' then ev ''debit'' else None)"

definition balance_stop :: "balance_stream \<Rightarrow> balance_stream" where
  "balance_stop b =
     (case bs_close b of Some i \<Rightarrow> b\<lparr>bs_open := filter (\<lambda>j. j \<noteq> i) (bs_open b), bs_close := None\<rparr> | None \<Rightarrow> b)"

definition balance_subscribe :: "balance_stream \<Rightarrow> balance_stream" where
  "balance_subscribe b =
     (let b1 = (if bs_close b \<noteq> None then balance_stop b else b)
      in b1\<lparr>bs_close := Some (bs_next b1), bs_open := bs_open b1 @ [bs_next b1], bs_next := bs_next b1 + 1\<rparr>)"

definition balance_message :: "jsval \<Rightarrow> balance_stream \<Rightarrow> balance_stream" where
  "balance_message v b = (case effect_event v of Some e \<Rightarrow> b\<lparr>bs_emitted := bs_emitted b @ [e]\<rparr> | None \<Rightarrow> b)"

interpretation balances: subscription balance_subscribe balance_stop bs_close bs_open
  by unfold_locales (auto simp: balance_subscribe_def balance_stop_def Let_def split: option.splits)

text \<open>A stream that has been subscribed has one connection; stopping it leaves none.\<close>

lemma balance_subscription:
  assumes "balances.in_step b"
  shows "length (bs_open (balance_subscribe b)) = 1" "bs_open (balance_stop b) = []"
  using balances.acquired_open [OF assms] balances.released_closed [OF assms] by auto

end
