(* ===== verification/Listener.thy ===== *)
theory Listener imports Config begin

text \<open>
  The contract event listener (backend/tools/ContractEventListener.ts): one poll of getEvents at
  a time, a cursor, a back-off after errors, and the caller that may stop it while a reply is
  awaited. The replies of the RPC server are inputs of the steps; the caller's callback is a
  parameter, with a state of its own.
\<close>

section \<open>State\<close>

record contract_event =
  ce_topics :: "string list"
  ce_token :: "string option"

record events_reply =
  er_events :: "contract_event list"
  er_cursor :: "string option"

datatype events_from = FromCursor string | FromLedger jsval

datatype listen_phase = ListenIdle | AwaitLedger | AwaitEvents events_from

text \<open>
  \<open>li_start\<close> is the settled startLedgerPromise, \<open>li_timer\<close> the delay of the pending timer,
  \<open>li_errors\<close> the 'error' events emitted, \<open>li_delivered\<close> the events handed to the callback,
  \<open>li_user\<close> the callback's own state.
\<close>

record 'u listener =
  li_cursor :: "string option"
  li_start :: "(js_error + jsval) option"
  li_attempts :: nat
  li_stopped :: bool
  li_timer :: "int option"
  li_phase :: listen_phase
  li_errors :: "js_error list"
  li_delivered :: "contract_event list"
  li_user :: 'u

datatype listen_options = NoOptions | MaxOnly int | Options "int option" "int option"

record listen_config =
  lc_types :: "string list"
  lc_max :: int
  lc_interval :: int

definition listen_max :: "listen_options \<Rightarrow> int" where
  "listen_max opts = (case opts of MaxOnly n \<Rightarrow> n | Options (Some n) _ \<Rightarrow> n | _ \<Rightarrow> 5)"

definition listen_interval :: "agent_config \<Rightarrow> listen_options \<Rightarrow> int" where
  "listen_interval c opts =
     (let own = (case opts of Options _ (Some t) \<Rightarrow> t | _ \<Rightarrow> 0);
          configured = (case CONTRACT_EVENT_POLL_MS c of Some d \<Rightarrow> d | None \<Rightarrow> 0)
      in if own \<noteq> 0 then own else if configured \<noteq> 0 then configured else RETRY_DELAY_MS c * 2)"

text \<open>What the callback does with an event: its new state, whether it stops the listener, what it throws.\<close>

type_synonym 'u on_event = "contract_event \<Rightarrow> 'u \<Rightarrow> 'u \<times> bool \<times> js_error option"

section \<open>Operations\<close>

definition listen_stop :: "'u listener \<Rightarrow> 'u listener" where
  "listen_stop l = l\<lparr>li_stopped := True, li_timer := None\<rparr>"

definition listen_delay :: "listen_config \<Rightarrow> nat \<Rightarrow> int" where
  "listen_delay k n = min (lc_interval k * 2 ^ (n - 1)) 30000"

definition poll_failed :: "listen_config \<Rightarrow> js_error \<Rightarrow> 'u listener \<Rightarrow> 'u listener" where
  "poll_failed k e l =
     (let n = li_attempts l + 1; l1 = l\<lparr>li_attempts := n, li_phase := ListenIdle\<rparr> in
      if lc_max k \<le> int n then (listen_stop l1)\<lparr>li_errors := li_errors l1 @ [e]\<rparr>
      else if li_stopped l1 then l1
      else l1\<lparr>li_timer := Some (listen_delay k n)\<rparr>)"

definition listen_matches :: "string list \<Rightarrow> contract_event \<Rightarrow> bool" where
  "listen_matches types e \<longleftrightarrow> types = [] \<or> (\<exists>t \<in> set (ce_topics e). t \<in> set types)"

fun deliver_events :: "listen_config \<Rightarrow> 'u on_event \<Rightarrow> contract_event list \<Rightarrow> 'u listener \<Rightarrow> 'u listener \<times> js_error option" where
  "deliver_events k h [] l = (l, None)"
| "deliver_events k h (e # es) l =
     (if listen_matches (lc_types k) e then
        (let (u, halt, err) = h e (li_user l);
             l1 = l\<lparr>li_user := u, li_delivered := li_delivered l @ [e]\<rparr>;
             l2 = (if halt then listen_stop l1 else l1)
         in case err of Some x \<Rightarrow> (l2, Some x) | None \<Rightarrow> deliver_events k h es l2)
      else deliver_events k h es l)"

definition next_position :: "events_reply \<Rightarrow> string option \<Rightarrow> string option" where
  "next_position r cur =
     (if er_events r \<noteq> [] then ce_token (last (er_events r))
      else case er_cursor r of Some t \<Rightarrow> if t \<noteq> [] then Some t else cur | None \<Rightarrow> cur)"

definition events_arrived :: "listen_config \<Rightarrow> 'u on_event \<Rightarrow> js_error + events_reply \<Rightarrow> 'u listener \<Rightarrow> 'u listener" where
  "events_arrived k h r l =
     (case r of
        Inl e \<Rightarrow> poll_failed k e l
      | Inr rep \<Rightarrow>
          (case deliver_events k h (er_events rep) (l\<lparr>li_attempts := 0\<rparr>) of
             (l1, Some e) \<Rightarrow> poll_failed k e l1
           | (l1, None) \<Rightarrow>
               (let l2 = l1\<lparr>li_cursor := next_position rep (li_cursor l1), li_phase := ListenIdle\<rparr>
                in if li_stopped l2 then l2 else l2\<lparr>li_timer := Some (lc_interval k)\<rparr>)))"

definition truthy_cursor :: "string option \<Rightarrow> string option" where
  "truthy_cursor x = (case x of Some t \<Rightarrow> if t = [] then None else Some t | None \<Rightarrow> None)"

definition with_start_ledger :: "listen_config \<Rightarrow> js_error + jsval \<Rightarrow> 'u listener \<Rightarrow> 'u listener" where
  "with_start_ledger k r l =
     (case r of Inl e \<Rightarrow> poll_failed k e l | Inr n \<Rightarrow> l\<lparr>li_phase := AwaitEvents (FromLedger n)\<rparr>)"

definition poll_begin :: "listen_config \<Rightarrow> 'u listener \<Rightarrow> 'u listener" where
  "poll_begin k l =
     (if li_stopped l then l
      else case truthy_cursor (li_cursor l) of
          Some t \<Rightarrow> l\<lparr>li_phase := AwaitEvents (FromCursor t)\<rparr>
        | None \<Rightarrow>
            (case li_start l of
               None \<Rightarrow> l\<lparr>li_phase := AwaitLedger\<rparr>
             | Some r \<Rightarrow> with_start_ledger k r l))"

definition ledger_arrived :: "listen_config \<Rightarrow> js_error + jsval \<Rightarrow> 'u listener \<Rightarrow> 'u listener" where
  "ledger_arrived k r l = with_start_ledger k r (l\<lparr>li_start := Some r\<rparr>)"

definition fresh_listener :: "'u \<Rightarrow> 'u listener" where
  "fresh_listener u = \<lparr>li_cursor = None, li_start = None, li_attempts = 0, li_stopped = False, li_timer = None,
     li_phase = ListenIdle, li_errors = [], li_delivered = [], li_user = u\<rparr>"

definition listen :: "listen_config \<Rightarrow> 'u \<Rightarrow> 'u listener" where
  "listen k u = poll_begin k (fresh_listener u)"

section \<open>Steps\<close>

text \<open>
  The steps of a listener: its timer fires, a reply arrives, the caller stops it. \<open>ans q r\<close> says
  which replies the server may give to a request; \<open>\<lambda>q r. True\<close> puts no trust in it.
\<close>

datatype listen_label = TimerFires | LedgerReply "js_error + jsval" | EventsReply "js_error + events_reply" | CallerStops

inductive listen_step :: "listen_config \<Rightarrow> 'u on_event \<Rightarrow> (events_from \<Rightarrow> js_error + events_reply \<Rightarrow> bool) \<Rightarrow>
    'u listener \<Rightarrow> listen_label \<Rightarrow> 'u listener \<Rightarrow> bool"
  for k h ans where
  fires: "listen_step k h ans l TimerFires (poll_begin k (l\<lparr>li_timer := None\<rparr>))" if "li_timer l \<noteq> None"
| ledger: "listen_step k h ans l (LedgerReply r) (ledger_arrived k r l)" if "li_phase l = AwaitLedger"
| events: "listen_step k h ans l (EventsReply r) (events_arrived k h r l)" if "li_phase l = AwaitEvents q" "ans q r"
| stops: "listen_step k h ans l CallerStops (listen_stop l)"

inductive_cases listen_stepE: "listen_step k h ans l a l'"

inductive_simps listen_step_fires: "listen_step k h ans l TimerFires l'"
inductive_simps listen_step_events: "listen_step k h ans l (EventsReply r) l'"

inductive listen_run :: "listen_config \<Rightarrow> 'u on_event \<Rightarrow> (events_from \<Rightarrow> js_error + events_reply \<Rightarrow> bool) \<Rightarrow>
    'u listener \<Rightarrow> listen_label list \<Rightarrow> 'u listener \<Rightarrow> bool"
  for k h ans where
  run_nil: "listen_run k h ans l [] l"
| run_snoc: "listen_run k h ans l (as @ [a]) l''" if "listen_run k h ans l as l'" "listen_step k h ans l' a l''"

section \<open>A listener that is not stopped always goes on\<close>

lemma deliver_Cons:
  assumes "deliver_events k h (e # es) l = (l', err)" "h e (li_user l) = (u, halt, x)" "listen_matches (lc_types k) e"
  defines "l2 \<equiv> (if halt then listen_stop else id) (l\<lparr>li_user := u, li_delivered := li_delivered l @ [e]\<rparr>)"
  shows "(x = None \<longrightarrow> deliver_events k h es l2 = (l', err)) \<and> (x \<noteq> None \<longrightarrow> l' = l2 \<and> err = x)"
  using assms by (cases halt; cases x) auto

lemma deliver_frame_all:
  "deliver_events k h es l = (l', err) \<Longrightarrow>
   li_cursor l' = li_cursor l \<and> li_start l' = li_start l \<and> li_attempts l' = li_attempts l \<and> li_phase l' = li_phase l \<and>
   li_errors l' = li_errors l \<and> (li_timer l = None \<longrightarrow> li_timer l' = None)"
proof (induction es arbitrary: l)
  case (Cons e es)
  show ?case
  proof (cases "listen_matches (lc_types k) e")
    case True
    obtain u halt x where h: "h e (li_user l) = (u, halt, x)" by (metis prod.collapse)
    let ?l2 = "(if halt then listen_stop else id) (l\<lparr>li_user := u, li_delivered := li_delivered l @ [e]\<rparr>)"
    from deliver_Cons [OF Cons.prems h True] have "deliver_events k h es ?l2 = (l', err) \<or> l' = ?l2" by blast
    then show ?thesis using Cons.IH [of ?l2] by (auto simp: listen_stop_def)
  next
    case False
    with Cons.prems have "deliver_events k h es l = (l', err)" by simp
    then show ?thesis by (rule Cons.IH)
  qed
qed simp

definition listen_inv :: "listen_config \<Rightarrow> 'u listener \<Rightarrow> bool" where
  "listen_inv k l \<longleftrightarrow>
     (li_timer l \<noteq> None \<longrightarrow> li_phase l = ListenIdle \<and> \<not> li_stopped l) \<and>
     (\<not> li_stopped l \<longrightarrow> (li_timer l \<noteq> None \<or> li_phase l \<noteq> ListenIdle) \<and> int (li_attempts l) < max 1 (lc_max k)) \<and>
     (li_errors l \<noteq> [] \<longrightarrow> li_stopped l \<and> li_phase l = ListenIdle \<and> length (li_errors l) = 1) \<and>
     (\<forall>d. li_timer l = Some d \<longrightarrow> d = (if li_attempts l = 0 then lc_interval k else listen_delay k (li_attempts l)))"

text \<open>A poll in progress: no timer, no error yet.\<close>

definition polling :: "listen_config \<Rightarrow> 'u listener \<Rightarrow> bool" where
  "polling k l \<longleftrightarrow> li_timer l = None \<and> li_errors l = [] \<and> (\<not> li_stopped l \<longrightarrow> int (li_attempts l) < max 1 (lc_max k))"

lemma listen_inv_polling: "listen_inv k l \<Longrightarrow> li_phase l \<noteq> ListenIdle \<Longrightarrow> polling k l"
  by (auto simp: listen_inv_def polling_def)

lemma listen_inv_failed: "polling k l \<Longrightarrow> listen_inv k (poll_failed k e l)"
  by (auto simp: poll_failed_def listen_inv_def polling_def listen_stop_def Let_def)

lemma polling_simps [simp]:
  "polling k (l\<lparr>li_start := r\<rparr>) = polling k l" "polling k (l\<lparr>li_phase := q\<rparr>) = polling k l"
  by (simp_all add: polling_def)

lemma listen_inv_awaits: "polling k l \<Longrightarrow> q \<noteq> ListenIdle \<Longrightarrow> listen_inv k (l\<lparr>li_phase := q\<rparr>)"
  by (simp add: polling_def listen_inv_def)

lemma listen_inv_start: "polling k l \<Longrightarrow> listen_inv k (with_start_ledger k r l)"
  by (cases r) (simp_all add: with_start_ledger_def listen_inv_failed listen_inv_awaits)

lemma listen_inv_ledger: "polling k l \<Longrightarrow> listen_inv k (ledger_arrived k r l)"
  by (simp add: ledger_arrived_def listen_inv_start)

lemma listen_inv_begin: "polling k l \<Longrightarrow> li_phase l = ListenIdle \<Longrightarrow> listen_inv k (poll_begin k l)"
proof (cases "li_stopped l")
  case True
  then show "polling k l \<Longrightarrow> li_phase l = ListenIdle \<Longrightarrow> ?thesis" by (simp add: poll_begin_def polling_def listen_inv_def)
next
  case False
  then show "polling k l \<Longrightarrow> li_phase l = ListenIdle \<Longrightarrow> ?thesis"
    by (simp add: poll_begin_def listen_inv_start listen_inv_awaits split: option.split)
qed

lemma listen_inv_events:
  assumes "polling k l"
  shows "listen_inv k (events_arrived k h r l)"
proof (cases r)
  case (Inl e)
  with assms show ?thesis by (simp add: events_arrived_def listen_inv_failed)
next
  case (Inr rep)
  obtain l1 err where d: "deliver_events k h (er_events rep) (l\<lparr>li_attempts := 0\<rparr>) = (l1, err)" by fastforce
  have f: "li_timer l1 = None" "li_errors l1 = []" "li_attempts l1 = 0"
    using deliver_frame_all [OF d] assms unfolding polling_def by auto
  show ?thesis
  proof (cases err)
    case None
    with Inr d f show ?thesis by (auto simp: events_arrived_def listen_inv_def Let_def)
  next
    case (Some e)
    with Inr d f show ?thesis by (auto simp: events_arrived_def polling_def intro!: listen_inv_failed)
  qed
qed

lemma listen_inv_step: "listen_step k h ans l a l' \<Longrightarrow> listen_inv k l \<Longrightarrow> listen_inv k l'"
proof (induction rule: listen_step.induct)
  case (fires l)
  then show ?case by (intro listen_inv_begin) (auto simp: listen_inv_def polling_def)
next
  case (ledger l r)
  then show ?case by (intro listen_inv_ledger listen_inv_polling) auto
next
  case (events l q r)
  then show ?case by (intro listen_inv_events listen_inv_polling) auto
next
  case (stops l)
  then show ?case by (auto simp: listen_inv_def listen_stop_def)
qed

lemma listen_inv_listen: "listen_inv k (listen k u)"
  by (simp add: listen_def poll_begin_def fresh_listener_def truthy_cursor_def listen_inv_def)

lemma listen_inv_run: "listen_run k h ans l as l' \<Longrightarrow> listen_inv k l \<Longrightarrow> listen_inv k l'"
  by (induction rule: listen_run.induct) (auto dest: listen_inv_step)

text \<open>
  A listener goes on until it is stopped or gives up. However its timer, the server's replies
  and the caller's stop interleave, and whatever the callback does: while it is not stopped it has
  either a timer or a reply to wait for, and fewer consecutive failures than maxReconnectAttempts;
  a pending timer's pause is the poll interval after a success and the capped back-off after a
  failure; and it surfaces at most one error, after which it is stopped, with nothing pending.
\<close>

theorem listener_keeps_polling:
  assumes "listen_run k h ans (listen k u) as l"
  shows "(\<not> li_stopped l \<longrightarrow> (li_timer l \<noteq> None \<or> li_phase l \<noteq> ListenIdle) \<and> int (li_attempts l) < max 1 (lc_max k)) \<and>
    (\<forall>d. li_timer l = Some d \<longrightarrow> li_phase l = ListenIdle \<and> \<not> li_stopped l \<and>
       (if li_attempts l = 0 then d = lc_interval k else d \<le> 30000 \<and> d \<le> lc_interval k * 2 ^ (li_attempts l - 1))) \<and>
    (li_errors l \<noteq> [] \<longrightarrow> length (li_errors l) = 1 \<and> li_stopped l \<and> li_timer l = None \<and> li_phase l = ListenIdle)"
  using listen_inv_run [OF assms listen_inv_listen]
  by (auto simp: listen_inv_def listen_delay_def split: if_splits)

section \<open>What is delivered\<close>

text \<open>
  What the documentation of getEvents promises: the events of a contract form one sequence, a
  request asks for those from a position, the answer is a contiguous piece from there, each
  event's paging token is the position after it, and the cursor of an empty answer skips nothing.
\<close>

definition honest_server :: "contract_event list \<Rightarrow> (events_from \<Rightarrow> nat) \<Rightarrow> (events_from \<Rightarrow> js_error + events_reply \<Rightarrow> bool) \<Rightarrow> bool" where
  "honest_server hist pos ans \<longleftrightarrow>
     (\<forall>i < length hist. \<exists>t. ce_token (hist ! i) = Some t \<and> t \<noteq> [] \<and> pos (FromCursor t) = i + 1) \<and>
     (\<forall>q rep. ans q (Inr rep) \<longrightarrow>
        (\<exists>j. pos q \<le> j \<and> j \<le> max (pos q) (length hist) \<and> er_events rep = take (j - pos q) (drop (pos q) hist)) \<and>
        (er_events rep = [] \<longrightarrow> (\<forall>t. er_cursor rep = Some t \<and> t \<noteq> [] \<longrightarrow> pos (FromCursor t) = pos q)))"

text \<open>The specification: every matching event of the sequence, once and in order.\<close>

inductive delivery_step :: "string list \<Rightarrow> contract_event list \<Rightarrow> nat \<times> contract_event list \<Rightarrow> nat \<times> contract_event list \<Rightarrow> bool"
  for types hist where
  advance: "m \<le> j \<Longrightarrow> delivery_step types hist (m, d) (j, d @ filter (listen_matches types) (take (j - m) (drop m hist)))"

lemma delivery_steps_log:
  "(delivery_step types hist)\<^sup>*\<^sup>* (m, []) (j, d) \<Longrightarrow>
   m \<le> j \<and> d = filter (listen_matches types) (take (j - m) (drop m hist))"
proof (induction rule: rtranclp_induct2)
  case refl
  then show ?case by simp
next
  case (step i d j d')
  then have s: "i \<le> j" "d' = d @ filter (listen_matches types) (take (j - i) (drop i hist))"
    by (auto elim: delivery_step.cases)
  have "take (j - m) (drop m hist) = take (i - m) (drop m hist) @ take (j - i) (drop i hist)"
    using step.IH s(1) take_add [of "i - m" "j - i" "drop m hist"] by (simp add: add.commute)
  with step.IH s show ?case by simp
qed

lemma deliver_all:
  "\<forall>e u. snd (snd (h e u)) = None \<Longrightarrow> deliver_events k h es l = (l', err) \<Longrightarrow>
   err = None \<and> li_delivered l' = li_delivered l @ filter (listen_matches (lc_types k)) es"
proof (induction es arbitrary: l)
  case (Cons e es)
  obtain u halt where h: "h e (li_user l) = (u, halt, None)"
    by (metis prod.collapse Cons.prems(1))
  let ?l2 = "(if halt then listen_stop else id) (l\<lparr>li_user := u, li_delivered := li_delivered l @ [e]\<rparr>)"
  show ?case
  proof (cases "listen_matches (lc_types k) e")
    case True
    with deliver_Cons [OF Cons.prems(2) h True] have "deliver_events k h es ?l2 = (l', err)" by simp
    from Cons.IH [OF Cons.prems(1) this] True show ?thesis by (simp add: listen_stop_def split: if_splits)
  next
    case False
    with Cons.prems(2) have "deliver_events k h es l = (l', err)" by simp
    from Cons.IH [OF Cons.prems(1) this] False show ?thesis by simp
  qed
qed simp

text \<open>The position a listener asks from next, and its abstraction.\<close>

definition listen_position :: "(events_from \<Rightarrow> nat) \<Rightarrow> jsval \<Rightarrow> 'u listener \<Rightarrow> nat" where
  "listen_position pos n l = pos (case truthy_cursor (li_cursor l) of Some t \<Rightarrow> FromCursor t | None \<Rightarrow> FromLedger n)"

text \<open>The request a listener waits on is the one its position asks for.\<close>

definition asks_own_position :: "(events_from \<Rightarrow> nat) \<Rightarrow> 'u listener \<Rightarrow> bool" where
  "asks_own_position pos l \<longleftrightarrow>
     (\<forall>q. li_phase l = AwaitEvents q \<longrightarrow>
        (\<forall>t. truthy_cursor (li_cursor l) = Some t \<longrightarrow> q = FromCursor t) \<and>
        (truthy_cursor (li_cursor l) = None \<longrightarrow> (\<exists>n. li_start l = Some (Inr n) \<and> q = FromLedger n))) \<and>
     (li_phase l = AwaitLedger \<longrightarrow> li_start l = None \<and> truthy_cursor (li_cursor l) = None) \<and>
     (li_start l = None \<longrightarrow> truthy_cursor (li_cursor l) = None \<and> li_delivered l = []) \<and>
     (\<forall>e. li_start l = Some (Inl e) \<longrightarrow> truthy_cursor (li_cursor l) = None \<and> li_delivered l = [])"

lemma failed_frame [simp]:
  "li_cursor (poll_failed k e l) = li_cursor l" "li_start (poll_failed k e l) = li_start l"
  "li_delivered (poll_failed k e l) = li_delivered l" "li_phase (poll_failed k e l) = ListenIdle"
  by (simp_all add: poll_failed_def listen_stop_def Let_def)

lemma asks_cong:
  "li_cursor l' = li_cursor l \<Longrightarrow> li_start l' = li_start l \<Longrightarrow> li_phase l' = li_phase l \<Longrightarrow> li_delivered l' = li_delivered l \<Longrightarrow>
   asks_own_position pos l' = asks_own_position pos l"
  by (simp add: asks_own_position_def)

lemma asks_start:
  "li_start l = Some r \<Longrightarrow> truthy_cursor (li_cursor l) = None \<Longrightarrow> (\<forall>e. r = Inl e \<longrightarrow> li_delivered l = []) \<Longrightarrow>
   asks_own_position pos (with_start_ledger k r l)"
  by (cases r) (auto simp: asks_own_position_def with_start_ledger_def)

lemma asks_begin: "asks_own_position pos l \<Longrightarrow> asks_own_position pos (poll_begin k l)"
  unfolding poll_begin_def
proof (simp split: option.split, intro allI impI conjI)
  fix r
  assume "asks_own_position pos l" "truthy_cursor (li_cursor l) = None" "li_start l = Some r"
  then show "asks_own_position pos (with_start_ledger k r l)"
    by (intro asks_start) (auto simp: asks_own_position_def)
qed (auto simp: asks_own_position_def)

lemma asks_stop: "asks_own_position pos l \<Longrightarrow> asks_own_position pos (listen_stop l)"
  by (simp add: listen_stop_def asks_cong [of "l\<lparr>li_stopped := True, li_timer := None\<rparr>" l])

lemma asks_ledger: "asks_own_position pos l \<Longrightarrow> li_phase l = AwaitLedger \<Longrightarrow> asks_own_position pos (ledger_arrived k r l)"
  unfolding ledger_arrived_def by (rule asks_start) (auto simp: asks_own_position_def)

lemma asks_events:
  assumes "asks_own_position pos l" "li_phase l = AwaitEvents q"
  shows "asks_own_position pos (events_arrived k h r l)"
proof -
  obtain n where st: "li_start l = Some (Inr n)"
    using assms by (cases "li_start l"; cases "the (li_start l)") (auto simp: asks_own_position_def)
  obtain l1 err where d: "deliver_events k h (er_events (projr r)) (l\<lparr>li_attempts := 0\<rparr>) = (l1, err)" by fastforce
  have "li_start l1 = Some (Inr n)"
    using deliver_frame_all [OF d] st by simp
  with st d show ?thesis
    by (cases r; cases err) (simp_all add: asks_own_position_def events_arrived_def Let_def)
qed

lemma asks_step: "listen_step k h ans l a l' \<Longrightarrow> asks_own_position pos l \<Longrightarrow> asks_own_position pos l'"
proof (induction rule: listen_step.induct)
  case (fires l)
  then show ?case by (intro asks_begin) (simp add: asks_cong [of "l\<lparr>li_timer := None\<rparr>" l])
qed (simp_all add: asks_ledger asks_events asks_stop)


definition listen_abs :: "(events_from \<Rightarrow> nat) \<Rightarrow> jsval \<Rightarrow> 'u listener \<Rightarrow> nat \<times> contract_event list" where
  "listen_abs pos n l = (listen_position pos n l, li_delivered l)"

lemma listen_abs_cong: "li_cursor l' = li_cursor l \<Longrightarrow> li_delivered l' = li_delivered l \<Longrightarrow> listen_abs pos n l' = listen_abs pos n l"
  by (simp add: listen_abs_def listen_position_def)

lemma start_frame [simp]:
  "li_cursor (with_start_ledger k r l) = li_cursor l" "li_start (with_start_ledger k r l) = li_start l"
  "li_delivered (with_start_ledger k r l) = li_delivered l"
  by (simp_all add: with_start_ledger_def split: sum.split)

lemma begin_frame [simp]:
  "li_cursor (poll_begin k l) = li_cursor l" "li_start (poll_begin k l) = li_start l"
  "li_delivered (poll_begin k l) = li_delivered l"
  by (simp_all add: poll_begin_def split: option.split)

lemma honest_reply:
  assumes "honest_server hist pos ans" "ans q (Inr rep)" "er_events rep \<noteq> []"
  obtains j where "pos q \<le> j" "er_events rep = take (j - pos q) (drop (pos q) hist)"
    "\<exists>t. ce_token (last (er_events rep)) = Some t \<and> t \<noteq> [] \<and> pos (FromCursor t) = j"
proof -
  from assms(1,2) obtain j where j: "pos q \<le> j" "j \<le> max (pos q) (length hist)" "er_events rep = take (j - pos q) (drop (pos q) hist)"
    unfolding honest_server_def by blast
  with assms(3) have l: "pos q < j" "j \<le> length hist" by auto
  with j(3) have "last (er_events rep) = hist ! (j - 1)" by (simp add: last_conv_nth assms(3))
  with assms(1) l have "\<exists>t. ce_token (last (er_events rep)) = Some t \<and> t \<noteq> [] \<and> pos (FromCursor t) = j"
    by (auto simp: honest_server_def dest!: spec [where x = "j - 1"])
  with j that show ?thesis by blast
qed

lemma delivers_events:
  assumes "honest_server hist pos ans" "\<forall>e u. snd (snd (h e u)) = None" "asks_own_position pos l"
    and "li_start l = Some (Inr n)" "li_phase l = AwaitEvents q" "ans q r"
  shows "(delivery_step (lc_types k) hist)\<^sup>*\<^sup>* (listen_abs pos n l) (listen_abs pos n (events_arrived k h r l))"
proof (cases r)
  case (Inl e)
  then show ?thesis by (simp add: events_arrived_def listen_abs_cong [of "poll_failed k e l" l])
next
  case (Inr rep)
  obtain l1 err where d: "deliver_events k h (er_events rep) (l\<lparr>li_attempts := 0\<rparr>) = (l1, err)" by fastforce
  from deliver_all [OF assms(2) d] have d1: "err = None" "li_delivered l1 = li_delivered l @ filter (listen_matches (lc_types k)) (er_events rep)"
    by auto
  have q: "pos q = listen_position pos n l"
    using assms(3-5) by (cases "truthy_cursor (li_cursor l)") (auto simp: asks_own_position_def listen_position_def)
  have c: "li_cursor l1 = li_cursor l" using deliver_frame_all [OF d] by simp
  have e: "listen_abs pos n (events_arrived k h r l) =
      (pos (case truthy_cursor (next_position rep (li_cursor l)) of Some t \<Rightarrow> FromCursor t | None \<Rightarrow> FromLedger n), li_delivered l1)"
    using Inr d d1(1) c by (simp add: events_arrived_def listen_abs_def listen_position_def Let_def)
  show ?thesis
  proof (cases "er_events rep = []")
    case True
    with assms(1,6) Inr have t: "\<forall>t. er_cursor rep = Some t \<and> t \<noteq> [] \<longrightarrow> pos (FromCursor t) = pos q"
      by (auto simp: honest_server_def)
    have "pos (case truthy_cursor (next_position rep (li_cursor l)) of Some t \<Rightarrow> FromCursor t | None \<Rightarrow> FromLedger n) = listen_position pos n l"
      using t q True by (cases "er_cursor rep") (auto simp: next_position_def truthy_cursor_def listen_position_def)
    with e d1(2) True show ?thesis by (simp add: listen_abs_def)
  next
    case False
    from assms(6) Inr have "ans q (Inr rep)" by simp
    from honest_reply [OF assms(1) this False] obtain j t where
      j: "pos q \<le> j" "er_events rep = take (j - pos q) (drop (pos q) hist)"
      and t: "ce_token (last (er_events rep)) = Some t" "t \<noteq> []" "pos (FromCursor t) = j" by blast
    have "pos (case truthy_cursor (next_position rep (li_cursor l)) of Some t \<Rightarrow> FromCursor t | None \<Rightarrow> FromLedger n) = j"
      using t False by (simp add: next_position_def truthy_cursor_def)
    with e d1(2) j q have "delivery_step (lc_types k) hist (listen_abs pos n l) (listen_abs pos n (events_arrived k h r l))"
      by (auto simp: listen_abs_def intro: delivery_step.advance)
    then show ?thesis by blast
  qed
qed

lemma events_start [simp]: "li_start (events_arrived k h r l) = li_start l"
proof -
  obtain l1 err where d: "deliver_events k h (er_events (projr r)) (l\<lparr>li_attempts := 0\<rparr>) = (l1, err)" by fastforce
  with deliver_frame_all [OF d] show ?thesis by (cases r; cases err) (simp_all add: events_arrived_def Let_def)
qed

lemma delivers_step:
  assumes "listen_step k h ans l a l'" "honest_server hist pos ans" "\<forall>e u. snd (snd (h e u)) = None" "asks_own_position pos l"
    and "li_start l = Some (Inr n)"
  shows "li_start l' = Some (Inr n) \<and> (delivery_step (lc_types k) hist)\<^sup>*\<^sup>* (listen_abs pos n l) (listen_abs pos n l')"
  using assms
proof (induction rule: listen_step.induct)
  case (fires l)
  then show ?case by (simp add: listen_abs_cong [of "poll_begin k (l\<lparr>li_timer := None\<rparr>)" l])
next
  case (ledger l r)
  then show ?case by (simp add: asks_own_position_def)
next
  case (events l q r)
  then show ?case using delivers_events [of hist pos ans h l n q r k] by simp
next
  case (stops l)
  then show ?case by (simp add: listen_stop_def listen_abs_cong [of "l\<lparr>li_stopped := True, li_timer := None\<rparr>" l])
qed

lemma asks_listen: "asks_own_position pos (listen k u)"
  by (simp add: listen_def poll_begin_def fresh_listener_def truthy_cursor_def asks_own_position_def)

lemma asks_run: "listen_run k h ans l as l' \<Longrightarrow> asks_own_position pos l \<Longrightarrow> asks_own_position pos l'"
  by (induction rule: listen_run.induct) (auto dest: asks_step)

lemma unstarted_step:
  assumes "listen_step k h ans l a l'" "asks_own_position pos l" "li_start l = None" "li_start l' = Some (Inr n)"
  shows "listen_abs pos n l' = (pos (FromLedger n), [])"
  using assms
proof (induction rule: listen_step.induct)
  case (ledger l r)
  then show ?case by (simp add: ledger_arrived_def listen_abs_def listen_position_def asks_own_position_def)
qed (simp_all add: listen_stop_def asks_own_position_def)

lemma started_same: "listen_step k h ans l a l' \<Longrightarrow> asks_own_position pos l \<Longrightarrow> li_start l = Some r \<Longrightarrow> li_start l' = Some r"
  by (induction rule: listen_step.induct) (simp_all add: asks_own_position_def listen_stop_def)

text \<open>
  C29. The listener refines exactly-once, in-order delivery. Against a server that keeps the
  documented promise of getEvents, with a callback that does not throw, and whatever the timers,
  errors and stops in between: every run is one of the specification that starts at the ledger the
  server named first, so the callback has been handed each matching event between that position and
  the position the listener asks from next, once and in order - and nothing before that ledger is
  known or when asking for it failed.
\<close>

theorem listener_refines_delivery:
  assumes "listen_run k h ans (listen k u) as l"
    and "honest_server hist pos ans" "\<forall>e u. snd (snd (h e u)) = None"
  shows "case li_start l of
      Some (Inr n) \<Rightarrow>
        (delivery_step (lc_types k) hist)\<^sup>*\<^sup>* (pos (FromLedger n), []) (listen_abs pos n l) \<and>
        li_delivered l = filter (listen_matches (lc_types k))
          (take (listen_position pos n l - pos (FromLedger n)) (drop (pos (FromLedger n)) hist))
    | _ \<Rightarrow> li_delivered l = []"
proof -
  have a: "asks_own_position pos l" by (rule asks_run [OF assms(1) asks_listen])
  have r: "\<forall>n. li_start l = Some (Inr n) \<longrightarrow>
      (delivery_step (lc_types k) hist)\<^sup>*\<^sup>* (pos (FromLedger n), []) (listen_abs pos n l)"
    using assms(1)
  proof (induction "listen k u" as l rule: listen_run.induct)
    case run_nil
    then show ?case by (simp add: listen_def fresh_listener_def)
  next
    case (run_snoc as l a l'')
    have asks: "asks_own_position pos l" by (rule asks_run [OF run_snoc.hyps(1) asks_listen])
    show ?case
    proof (intro allI impI)
      fix n assume n: "li_start l'' = Some (Inr n)"
      show "(delivery_step (lc_types k) hist)\<^sup>*\<^sup>* (pos (FromLedger n), []) (listen_abs pos n l'')"
      proof (cases "li_start l")
        case None
        with unstarted_step [OF run_snoc.hyps(3) asks _ n] show ?thesis by simp
      next
        case (Some x)
        with started_same [OF run_snoc.hyps(3) asks] n have s: "li_start l = Some (Inr n)" by simp
        with run_snoc.hyps(2) delivers_step [OF run_snoc.hyps(3) assms(2,3) asks s] show ?thesis by auto
      qed
    qed
  qed
  show ?thesis
  proof (cases "li_start l")
    case None
    with a show ?thesis by (simp add: asks_own_position_def)
  next
    case (Some x)
    show ?thesis
    proof (cases x)
      case (Inl e)
      with Some a show ?thesis by (simp add: asks_own_position_def)
    next
      case (Inr n)
      with Some r have d: "(delivery_step (lc_types k) hist)\<^sup>*\<^sup>* (pos (FromLedger n), []) (listen_abs pos n l)" by simp
      from delivery_steps_log [OF this [unfolded listen_abs_def]] d Some Inr show ?thesis by simp
    qed
  qed
qed

section \<open>Two ways it never recovers\<close>

text \<open>
  C40. A rejected start ledger is never asked for again. The promise of getLatestLedger is kept even
  when it is rejected, so after one failed answer no poll ever requests an event: the listener
  delivers nothing, whatever happens later, until its attempts are used up.
\<close>

theorem rejected_start_never_recovers:
  assumes "listen_run k h ans (listen k u) as l" "LedgerReply (Inl e) \<in> set as"
  shows "li_start l = Some (Inl e) \<and> li_delivered l = [] \<and> (\<forall>q. li_phase l \<noteq> AwaitEvents q) \<and>
    (\<forall>r. EventsReply r \<notin> set as)"
proof -
  have asks: "asks_own_position (\<lambda>q. 0) l'" if "listen_run k h ans (listen k u) as' l'" for as' l'
    by (rule asks_run [OF that asks_listen])
  have "(LedgerReply (Inl e) \<in> set as \<longrightarrow> li_start l = Some (Inl e)) \<and>
      ((\<forall>n. li_start l \<noteq> Some (Inr n)) \<longrightarrow> (\<forall>r. EventsReply r \<notin> set as))"
    using assms(1)
  proof (induction "listen k u" as l rule: listen_run.induct)
    case run_nil
    then show ?case by simp
  next
    case (run_snoc as l a l'')
    have inv: "asks_own_position (\<lambda>q. 0) l" by (rule asks [OF run_snoc.hyps(1)])
    have keep: "\<forall>r. li_start l = Some r \<longrightarrow> li_start l'' = Some r"
      using started_same [OF run_snoc.hyps(3) inv] by blast
    have new: "a = LedgerReply (Inl e) \<longrightarrow> li_start l'' = Some (Inl e)"
      using run_snoc.hyps(3) by (auto elim: listen_stepE simp: ledger_arrived_def)
    have ev: "\<forall>r. a = EventsReply r \<longrightarrow> (\<exists>n. li_start l'' = Some (Inr n))"
    proof (intro allI impI)
      fix r assume "a = EventsReply r"
      with run_snoc.hyps(3) obtain q where "li_phase l = AwaitEvents q" by (auto elim: listen_stepE)
      with inv have "\<exists>n. li_start l = Some (Inr n)"
        by (cases "li_start l"; cases "the (li_start l)") (auto simp: asks_own_position_def)
      with keep show "\<exists>n. li_start l'' = Some (Inr n)" by blast
    qed
    show ?case using run_snoc.hyps(2) keep new ev by (cases "li_start l") auto
  qed
  with assms(2) have s: "li_start l = Some (Inl e)" "\<forall>r. EventsReply r \<notin> set as" by auto
  with asks [OF assms(1)] show ?thesis by (auto simp: asks_own_position_def)
qed

lemma failed_start_run:
  "listen_run k h ans (listen k u) [LedgerReply (Inl e)] (ledger_arrived k (Inl e) (listen k u))"
  using listen_run.run_snoc [OF listen_run.run_nil listen_step.ledger, of "listen k u"]
  by (simp add: listen_def poll_begin_def fresh_listener_def truthy_cursor_def)

definition toy_listen :: listen_config where
  "toy_listen = \<lparr>lc_types = [''paid''], lc_max = 2, lc_interval = 1000\<rparr>"

definition quiet_callback :: "unit on_event" where
  "quiet_callback e u = (u, False, None)"

theorem rejected_start_never_recovers_witness:
  "\<exists>l. listen_run toy_listen quiet_callback (\<lambda>q r. True) (listen toy_listen ()) [LedgerReply (Inl (plain ''timeout'')), TimerFires] l \<and>
     li_stopped l \<and> li_errors l = [plain ''timeout''] \<and> li_delivered l = []"
proof -
  let ?l1 = "ledger_arrived toy_listen (Inl (plain ''timeout'')) (listen toy_listen ())"
  let ?l2 = "poll_begin toy_listen (?l1\<lparr>li_timer := None\<rparr>)"
  have t: "li_timer ?l1 \<noteq> None"
    by (simp add: listen_def poll_begin_def fresh_listener_def truthy_cursor_def ledger_arrived_def with_start_ledger_def
        poll_failed_def toy_listen_def)
  have "listen_run toy_listen quiet_callback (\<lambda>q r. True) (listen toy_listen ()) ([LedgerReply (Inl (plain ''timeout''))] @ [TimerFires]) ?l2"
    by (rule listen_run.run_snoc [OF failed_start_run listen_step.fires [OF t]])
  moreover have "li_stopped ?l2 \<and> li_errors ?l2 = [plain ''timeout'']"
    by (simp add: listen_def poll_begin_def fresh_listener_def truthy_cursor_def ledger_arrived_def with_start_ledger_def
        poll_failed_def toy_listen_def listen_stop_def)
  moreover have "li_delivered ?l2 = []"
    using rejected_start_never_recovers [OF calculation(1), of "plain ''timeout''"] by simp
  ultimately show ?thesis by auto
qed

text \<open>
  A callback that throws is handed the same event for ever. The reply resets the failure count
  before the events are handled, and the failed poll keeps the cursor: when the callback throws on
  an event, the listener counts one failure, asks from the same position again and delivers the
  event again - any number of times, without ever reaching maxReconnectAttempts (unless it is 1).
\<close>

theorem throwing_callback_redelivers_forever:
  assumes "2 \<le> lc_max k" "listen_matches (lc_types k) ev" "\<And>u. h ev u = (u, False, Some x)"
    and "\<And>q. ans q (Inr \<lparr>er_events = [ev], er_cursor = None\<rparr>)"
  shows "\<exists>as l. listen_run k h ans (listen k u) as l \<and> li_delivered l = replicate n ev \<and>
    \<not> li_stopped l \<and> li_errors l = []"
proof -
  let ?rep = "\<lparr>er_events = [ev], er_cursor = None\<rparr>"
  define good where "good = (\<lambda>l :: 'a listener. li_start l = Some (Inr JNull) \<and> li_cursor l = None \<and> \<not> li_stopped l \<and> li_errors l = [] \<and>
    li_phase l = AwaitEvents (FromLedger JNull))"
  have again: "\<exists>as l'. listen_run k h ans (listen k u) as l' \<and> good l' \<and> li_delivered l' = li_delivered l @ [ev]"
    if r: "listen_run k h ans (listen k u) as l" and g: "good l" for as l
  proof -
    let ?l1 = "events_arrived k h (Inr ?rep) l"
    let ?l2 = "poll_begin k (?l1\<lparr>li_timer := None\<rparr>)"
    have 1: "listen_step k h ans l (EventsReply (Inr ?rep)) ?l1"
      using g assms(4) by (intro listen_step.events) (auto simp: good_def)
    have p: "?l1 = l\<lparr>li_user := li_user l, li_delivered := li_delivered l @ [ev], li_attempts := 1,
        li_phase := ListenIdle, li_timer := Some (listen_delay k 1)\<rparr>"
      using assms(1-3) g by (simp add: events_arrived_def poll_failed_def good_def Let_def)
    then have 2: "listen_step k h ans ?l1 TimerFires ?l2"
      by (intro listen_step.fires) simp
    have "good ?l2 \<and> li_delivered ?l2 = li_delivered l @ [ev]"
      using g unfolding p by (simp add: good_def poll_begin_def truthy_cursor_def with_start_ledger_def)
    with listen_run.run_snoc [OF listen_run.run_snoc [OF r 1] 2] show ?thesis by blast
  qed
  have "\<exists>as l. listen_run k h ans (listen k u) as l \<and> good l \<and> li_delivered l = replicate n ev"
  proof (induction n)
    case 0
    have "listen_step k h ans (listen k u) (LedgerReply (Inr JNull)) (ledger_arrived k (Inr JNull) (listen k u))"
      by (rule listen_step.ledger) (simp add: listen_def poll_begin_def fresh_listener_def truthy_cursor_def)
    moreover have "good (ledger_arrived k (Inr JNull) (listen k u)) \<and> li_delivered (ledger_arrived k (Inr JNull) (listen k u)) = []"
      by (simp add: good_def ledger_arrived_def with_start_ledger_def listen_def poll_begin_def fresh_listener_def truthy_cursor_def)
    ultimately show ?case using listen_run.run_snoc [OF listen_run.run_nil] by fastforce
  next
    case (Suc n)
    then obtain as l where "listen_run k h ans (listen k u) as l" "good l" "li_delivered l = replicate n ev" by blast
    with again [OF this(1,2)] show ?case by (metis replicate_append_same replicate_Suc)
  qed
  then show ?thesis unfolding good_def by blast
qed

definition toy_event :: "string \<Rightarrow> string \<Rightarrow> contract_event" where
  "toy_event topic token = \<lparr>ce_topics = [topic], ce_token = Some token\<rparr>"

definition throwing_callback :: "unit on_event" where
  "throwing_callback e u = (u, False, Some (plain ''handler failed''))"

theorem throwing_callback_redelivers_forever_witness:
  "\<exists>as l. listen_run toy_listen throwing_callback (\<lambda>q r. True) (listen toy_listen ()) as l \<and>
     li_delivered l = replicate 1000 (toy_event ''paid'' ''a'') \<and> \<not> li_stopped l"
proof -
  have a: "2 \<le> lc_max toy_listen" "listen_matches (lc_types toy_listen) (toy_event ''paid'' ''a'')"
    by (simp_all add: toy_listen_def listen_matches_def toy_event_def)
  have h: "throwing_callback (toy_event ''paid'' ''a'') u = (u, False, Some (plain ''handler failed''))" for u
    by (simp add: throwing_callback_def)
  from throwing_callback_redelivers_forever [where h = throwing_callback and ans = "\<lambda>q r. True" and n = 1000, OF a h]
  show ?thesis by blast
qed

text \<open>A sequence of two events and a server that answers with all that is left of it.\<close>

definition toy_log :: "contract_event list" where
  "toy_log = [toy_event ''paid'' ''a'', toy_event ''minted'' ''b'']"

definition toy_pos :: "events_from \<Rightarrow> nat" where
  "toy_pos q = (case q of FromLedger n \<Rightarrow> 0 | FromCursor t \<Rightarrow> if t = ''a'' then 1 else if t = ''b'' then 2 else 0)"

definition toy_ans :: "events_from \<Rightarrow> js_error + events_reply \<Rightarrow> bool" where
  "toy_ans q r = (r = Inr \<lparr>er_events = drop (toy_pos q) toy_log, er_cursor = None\<rparr>)"

lemma toy_server_honest: "honest_server toy_log toy_pos toy_ans"
proof -
  have "\<forall>i < length toy_log. \<exists>t. ce_token (toy_log ! i) = Some t \<and> t \<noteq> [] \<and> toy_pos (FromCursor t) = i + 1"
    by (auto simp: toy_log_def toy_event_def toy_pos_def less_Suc_eq)
  moreover have "\<exists>j. toy_pos q \<le> j \<and> j \<le> max (toy_pos q) (length toy_log) \<and>
      drop (toy_pos q) toy_log = take (j - toy_pos q) (drop (toy_pos q) toy_log)" for q
    by (rule exI [of _ "max (toy_pos q) (length toy_log)"]) (auto simp: max_def)
  ultimately show ?thesis by (auto simp: honest_server_def toy_ans_def)
qed

lemma toy_listen_run:
  defines "l1 \<equiv> ledger_arrived toy_listen (Inr (JNum (JFin 7))) (listen toy_listen ())"
  defines "l2 \<equiv> events_arrived toy_listen quiet_callback (Inr \<lparr>er_events = toy_log, er_cursor = None\<rparr>) l1"
  shows "listen_run toy_listen quiet_callback toy_ans (listen toy_listen ())
      ([LedgerReply (Inr (JNum (JFin 7)))] @ [EventsReply (Inr \<lparr>er_events = toy_log, er_cursor = None\<rparr>)]) l2 \<and>
    li_start l2 = Some (Inr (JNum (JFin 7))) \<and> li_cursor l2 = Some ''b'' \<and> li_timer l2 = Some 1000 \<and> \<not> li_stopped l2"
proof -
  have 1: "listen_run toy_listen quiet_callback toy_ans (listen toy_listen ()) [LedgerReply (Inr (JNum (JFin 7)))] l1"
    using listen_run.run_snoc [OF listen_run.run_nil listen_step.ledger, of "listen toy_listen ()"]
    by (simp add: l1_def listen_def poll_begin_def fresh_listener_def truthy_cursor_def)
  have ph: "li_phase l1 = AwaitEvents (FromLedger (JNum (JFin 7)))"
    by (simp add: l1_def ledger_arrived_def with_start_ledger_def)
  have "listen_step toy_listen quiet_callback toy_ans l1 (EventsReply (Inr \<lparr>er_events = toy_log, er_cursor = None\<rparr>)) l2"
    unfolding l2_def by (rule listen_step.events [OF ph]) (simp add: toy_ans_def toy_pos_def)
  from listen_run.run_snoc [OF 1 this] show ?thesis
    by (simp add: l2_def l1_def ledger_arrived_def with_start_ledger_def listen_def poll_begin_def fresh_listener_def truthy_cursor_def
        events_arrived_def toy_log_def toy_event_def quiet_callback_def next_position_def toy_listen_def listen_matches_def Let_def)
qed

theorem listener_refines_delivery_witness:
  "\<exists>as l. listen_run toy_listen quiet_callback toy_ans (listen toy_listen ()) as l \<and>
     li_delivered l = [toy_event ''paid'' ''a''] \<and> listen_position toy_pos (JNum (JFin 7)) l = 2"
proof -
  obtain as l where r: "listen_run toy_listen quiet_callback toy_ans (listen toy_listen ()) as l"
    and l: "li_start l = Some (Inr (JNum (JFin 7)))" "li_cursor l = Some ''b''" using toy_listen_run by blast
  have q: "\<forall>e u. snd (snd (quiet_callback e u)) = None" by (simp add: quiet_callback_def)
  have p: "listen_position toy_pos (JNum (JFin 7)) l = 2" by (simp add: listen_position_def l truthy_cursor_def toy_pos_def)
  from listener_refines_delivery [OF r toy_server_honest q] l(1) p
  have "li_delivered l = filter (listen_matches (lc_types toy_listen)) toy_log"
    by (simp add: toy_pos_def toy_log_def)
  then have "li_delivered l = [toy_event ''paid'' ''a'']"
    by (simp add: toy_log_def toy_listen_def listen_matches_def toy_event_def)
  with r p show ?thesis by blast
qed

theorem listener_keeps_polling_witness:
  "\<exists>as l. listen_run toy_listen quiet_callback toy_ans (listen toy_listen ()) as l \<and> li_timer l = Some 1000 \<and> li_phase l = ListenIdle"
proof -
  obtain as l where r: "listen_run toy_listen quiet_callback toy_ans (listen toy_listen ()) as l"
    and l: "li_timer l = Some 1000" using toy_listen_run by blast
  from listener_keeps_polling [OF r] l have "li_phase l = ListenIdle" by blast
  with r l show ?thesis by blast
qed

end
