(* ===== verification/ErrorHandler.thy ===== *)
theory ErrorHandler imports Errors begin

text \<open>
  backend/middleware/error\_handler.ts: the HTTP response an error is turned into. The text of
  a number in the Retry-After header is the parameter \<open>num\<close>.
\<close>

record error_detail =
  d_field :: string
  d_message :: string
  d_code :: string

record error_response =
  r_status :: nat
  r_type :: string
  r_details :: "error_detail list"
  r_headers :: "(string \<times> string) list option"

definition status_by_error_type :: "error_type \<Rightarrow> nat option" where
  "status_by_error_type t = (case t of
      ValidationError \<Rightarrow> Some 400
    | UnauthorizedError \<Rightarrow> Some 401
    | RateLimitError \<Rightarrow> Some 429
    | NetworkTimeout \<Rightarrow> Some 503
    | _ \<Rightarrow> None)"

definition default_retry_after_seconds :: nat where
  "default_retry_after_seconds = 60"

definition generic_message :: string where
  "generic_message = ''An unexpected error occurred''"

definition map_zod_issues :: "zod_issue list \<Rightarrow> error_detail list" where
  "map_zod_issues is = map (\<lambda>i.
     \<lparr>d_field = (if issue_path i \<noteq> [] then join_with ''.'' (issue_path i) else ''root''),
      d_message = issue_message i, d_code = issue_code i\<rparr>) is"

text \<open>\<open>String(retryAfter)\<close> of the seconds a rate limit error carries.\<close>

definition retry_after_text :: "(rat \<Rightarrow> string) \<Rightarrow> jsval \<Rightarrow> string" where
  "retry_after_text num v =
     (if nullish v then nat_str default_retry_after_seconds
      else case v of JNum n \<Rightarrow> num_text num n
        | JStr s \<Rightarrow> s | _ \<Rightarrow> [])"

definition handle_error :: "(rat \<Rightarrow> string) \<Rightarrow> js_error \<Rightarrow> error_response" where
  "handle_error num err = (case err of
      ZodErr is m \<Rightarrow>
        \<lparr>r_status = 400, r_type = ''ValidationError'', r_details = map_zod_issues is, r_headers = None\<rparr>
    | Structured s \<Rightarrow>
        (let status = (case status_by_error_type (s_type s) of None \<Rightarrow> 500 | Some c \<Rightarrow> c)
         in \<lparr>r_status = status, r_type = s_name s,
             r_details = [\<lparr>d_field = ''root'',
               d_message = (if 500 \<le> status then generic_message else s_message s),
               d_code = error_type_code (s_type s)\<rparr>],
             r_headers = (if s_name s = ''RateLimitError''
               then Some [(''Retry-After'', retry_after_text num (s_extra s))] else None)\<rparr>)
    | _ \<Rightarrow>
        \<lparr>r_status = 500, r_type = ''InternalServerError'',
         r_details = [\<lparr>d_field = ''unknown'', d_message = generic_message, d_code = ''internal_error''\<rparr>],
         r_headers = None\<rparr>)"

lemma handle_error_status_cases:
  "r_status (handle_error num e) \<in> {400, 401, 429, 500, 503}"
  by (auto simp: handle_error_def status_by_error_type_def Let_def
      split: js_error.splits error_type.splits)

text \<open>
  Whatever error reaches the handler, the response has one of the five documented
  statuses, and a response in the 5xx range carries only the generic message: the message,
  stack or cause of an internal fault never reaches the caller.
\<close>

theorem handle_error_never_leaks_5xx:
  "r_status (handle_error num e) \<in> {400, 401, 429, 500, 503} \<and>
   (500 \<le> r_status (handle_error num e) \<longrightarrow>
     (\<forall>d \<in> set (r_details (handle_error num e)). d_message d = generic_message))"
proof
  show "r_status (handle_error num e) \<in> {400, 401, 429, 500, 503}"
    by (rule handle_error_status_cases)
  show "500 \<le> r_status (handle_error num e) \<longrightarrow>
     (\<forall>d \<in> set (r_details (handle_error num e)). d_message d = generic_message)"
    by (auto simp: handle_error_def Let_def split: js_error.splits)
qed

theorem handle_error_never_leaks_5xx_witness:
  "r_status (handle_error (\<lambda>r. []) (config_error ''db password is x'')) = 500 \<and>
   d_message ` set (r_details (handle_error (\<lambda>r. []) (config_error ''db password is x''))) \<subseteq> {generic_message}"
proof -
  have s: "r_status (handle_error (\<lambda>r. []) (config_error ''db password is x'')) = 500"
    by (simp add: handle_error_def config_error_def structured_error_def status_by_error_type_def)
  with handle_error_never_leaks_5xx [of "\<lambda>r. []" "config_error ''db password is x''"]
  show ?thesis by auto
qed

end
