(* ===== verification/Server.thy ===== *)
theory Server imports Agent ErrorHandler begin

text \<open>
  The health-check server (backend/server.ts): the request handler of createHealthServer over the
  audit log and the spending window, and the probes and route handlers the file also holds. The
  secret of the bearer check is read from the environment when the module is loaded.
\<close>

section \<open>Requests and responses\<close>

record http_request =
  rq_method :: string
  rq_url :: string
  rq_authorization :: "string option"

record http_response =
  rs_status :: nat
  rs_headers :: "(string \<times> string) list"
  rs_body :: string

definition json_type :: "string \<times> string" where
  "json_type = (''Content-Type'', ''application/json'')"

text \<open>The text of a body; none of the bodies below holds a BigInt or is undefined.\<close>

definition body_text :: "(rat \<Rightarrow> string) \<Rightarrow> jsval \<Rightarrow> string" where
  "body_text num v = (case json_value num v of Inr (Some t) \<Rightarrow> t | _ \<Rightarrow> ''undefined'')"

definition json_response :: "nat \<Rightarrow> string \<Rightarrow> (string \<times> string) list \<Rightarrow> http_response" where
  "json_response status text extra =
     \<lparr>rs_status = status, rs_headers = [json_type, (''Content-Length'', nat_str (utf8_length text))] @ extra, rs_body = text\<rparr>"

definition short_response :: "nat \<Rightarrow> string \<Rightarrow> http_response" where
  "short_response status text =
     \<lparr>rs_status = status, rs_headers = [json_type], rs_body = body_text (\<lambda>r. []) (JObj [(''error'', JStr text)])\<rparr>"

definition error_value :: "error_response \<Rightarrow> jsval" where
  "error_value e =
     JObj ([(''status'', JNum (JFin (of_nat (r_status e)))), (''type'', JStr (r_type e)),
        (''details'', JArr (map (\<lambda>d. JObj [(''field'', JStr (d_field d)), (''message'', JStr (d_message d)), (''code'', JStr (d_code d))])
           (r_details e)))] @
       (case r_headers e of None \<Rightarrow> [] | Some hs \<Rightarrow> [(''headers'', JObj (map (\<lambda>(k, v). (k, JStr v)) hs))]))"

definition error_reply :: "(rat \<Rightarrow> string) \<Rightarrow> js_error \<Rightarrow> http_response" where
  "error_reply num err =
     (let e = handle_error num err
      in json_response (r_status e) (body_text num (error_value e)) (case r_headers e of None \<Rightarrow> [] | Some hs \<Rightarrow> hs))"

text \<open>A stored result as the endpoints print it.\<close>

definition result_value :: "agent_result \<times> string \<Rightarrow> jsval" where
  "result_value q =
     (case q of (r, t) \<Rightarrow>
        JObj ([(''timestamp'', JStr t), (''taskType'', JStr (task_type r)), (''success'', JBool (success r)), (''data'', result_data r)] @
          (case result_error r of None \<Rightarrow> [] | Some e \<Rightarrow> [(''error'', JStr e)]) @
          (case correlation_id r of None \<Rightarrow> [] | Some i \<Rightarrow> [(''correlationId'', JStr i)])))"

section \<open>The request handler\<close>

definition is_authenticated :: "string option \<Rightarrow> string option \<Rightarrow> bool" where
  "is_authenticated secret auth =
     (case secret of
        None \<Rightarrow> True
      | Some sec \<Rightarrow>
          (if sec = [] then True
           else case auth of
               None \<Rightarrow> False
             | Some a \<Rightarrow>
                 (if a = [] then False
                  else case split_on (CHR '' '') a of
                      scheme # token # _ \<Rightarrow> to_lower scheme = ''bearer'' \<and> token = sec
                    | _ \<Rightarrow> False)))"

definition status_page :: "(rat \<Rightarrow> string) \<Rightarrow> database \<Rightarrow> http_response" where
  "status_page num db =
     (case bind_result (get_results 10 0 db) (\<lambda>rs.
          case json_value num (JObj [(''results'', JArr (map result_value rs))]) of
            Inl u \<Rightarrow> Inl (TypeErr ''Do not know how to serialize a BigInt'')
          | Inr t \<Rightarrow> Inr (case t of Some w \<Rightarrow> w | None \<Rightarrow> ''undefined'')) of
        Inl e \<Rightarrow> error_reply num e
      | Inr text \<Rightarrow> json_response 200 text [])"

definition spending_page :: "(rat \<Rightarrow> string) \<Rightarrow> agent_config \<Rightarrow> jsnum \<Rightarrow> http_response" where
  "spending_page num c tot =
     (let lmt = parse_float (AGENT_SPENDING_LIMIT c)
      in json_response 200 (body_text num (JObj [(''total'', JNum tot), (''limit'', JNum lmt),
           (''windowMs'', JNum (JFin (of_int (SPENDING_WINDOW_MS c)))), (''percentUsed'', JNum (js_mul (js_div tot lmt) (JFin 100)))])) [])"

definition handle_request ::
    "(rat \<Rightarrow> string) \<Rightarrow> agent_config \<Rightarrow> string option \<Rightarrow> int \<Rightarrow> http_request \<Rightarrow> tracker \<Rightarrow> tracker \<times> http_response" where
  "handle_request num c secret t rq tr =
     (if rq_method rq = ''GET'' \<and> rq_url rq = ''/health'' then
        (tr, json_response 200 (body_text num (JObj [(''status'', JStr ''ok''), (''network'', JStr (network_name (STELLAR_NETWORK c))),
            (''publicKey'', JStr (AGENT_PUBLIC_KEY c))])) [])
      else if rq_method rq = ''GET'' \<and> rq_url rq = ''/status'' then (tr, status_page num (store tr))
      else if rq_method rq = ''GET'' \<and> rq_url rq = ''/spending'' then
        (if \<not> is_authenticated secret (rq_authorization rq) then (tr, short_response 401 ''Unauthorized'')
         else let (tr', tot) = tracker_total t tr in (tr', spending_page num c tot))
      else (tr, short_response 404 ''Not Found''))"

section \<open>Probes and the handlers nobody routes to\<close>

datatype component_status = Up | Down

definition probe_timeout_ms :: int where
  "probe_timeout_ms = 3000"

text \<open>A probe as what the service answers and how long it takes.\<close>

definition probe_with_timeout :: "int \<times> (js_error + 'a) \<Rightarrow> js_error + 'a" where
  "probe_with_timeout q = (case q of (d, r) \<Rightarrow> if probe_timeout_ms < d then Inl (plain ''probe timed out'') else r)"

definition check_service :: "int \<times> (js_error + 'a) \<Rightarrow> component_status" where
  "check_service q = (case probe_with_timeout q of Inl e \<Rightarrow> Down | Inr v \<Rightarrow> Up)"

definition check_database :: "int \<times> (js_error + bool) \<Rightarrow> component_status" where
  "check_database q = (case probe_with_timeout q of Inl e \<Rightarrow> Down | Inr b \<Rightarrow> if b then Up else Down)"

fun status_text :: "component_status \<Rightarrow> string" where
  "status_text Up = ''up''"
| "status_text Down = ''down''"

definition handle_health :: "component_status \<Rightarrow> component_status \<Rightarrow> component_status \<Rightarrow> http_response" where
  "handle_health horizon soroban db =
     (let all_up = (horizon = Up \<and> soroban = Up \<and> db = Up)
      in json_response (if all_up then 200 else 503)
           (body_text (\<lambda>r. []) (JObj [(''status'', JStr (if all_up then ''ok'' else ''degraded'')),
              (''components'', JObj [(''horizon'', JStr (status_text horizon)), (''soroban'', JStr (status_text soroban)),
                 (''database'', JStr (status_text db))])])) [])"

definition results_limit :: "string option \<Rightarrow> int" where
  "results_limit q =
     (case q of
        None \<Rightarrow> 100
      | Some t \<Rightarrow> if t = [] then 100
          else max 1 (min 1000 (case parse_int t of Some n \<Rightarrow> if n = 0 then 100 else n | None \<Rightarrow> 100)))"

definition results_offset :: "string option \<Rightarrow> int" where
  "results_offset q =
     (case q of
        None \<Rightarrow> 0
      | Some t \<Rightarrow> if t = [] then 0 else max 0 (case parse_int t of Some n \<Rightarrow> n | None \<Rightarrow> 0))"

definition handle_results ::
    "(rat \<Rightarrow> string) \<Rightarrow> string option \<Rightarrow> string option \<Rightarrow> string option \<Rightarrow> string option \<Rightarrow> database \<Rightarrow> http_response" where
  "handle_results num secret auth lmt off db =
     (if \<not> is_authenticated secret auth then short_response 401 ''Unauthorized''
      else case bind_result (get_results (results_limit lmt) (results_offset off) db) (\<lambda>rs.
          case json_value num (JArr (map result_value rs)) of
            Inl u \<Rightarrow> Inl (TypeErr ''Do not know how to serialize a BigInt'')
          | Inr t \<Rightarrow> Inr (case t of Some w \<Rightarrow> w | None \<Rightarrow> ''undefined'')) of
        Inl e \<Rightarrow> error_reply num e
      | Inr text \<Rightarrow> json_response 200 text [])"

section \<open>Properties\<close>

lemma is_authenticated_iff:
  assumes "sec \<noteq> []"
  shows "is_authenticated (Some sec) auth \<longleftrightarrow>
    (\<exists>a scheme rest. auth = Some a \<and> split_on (CHR '' '') a = scheme # sec # rest \<and> to_lower scheme = ''bearer'')"
proof (cases auth)
  case None
  with assms show ?thesis by (simp add: is_authenticated_def)
next
  case (Some a)
  then show ?thesis using assms by (cases a) (auto simp: is_authenticated_def split: list.splits)
qed

text \<open>
  C38. The spending window is shown only to callers with the secret. With a WEBHOOK\_SECRET set, GET
  /spending answers 200 exactly to a bearer header whose second word is the secret; every other
  caller gets the same 401, which tells nothing and leaves the window as it was. A secret that
  contains a space can never be presented.
\<close>

theorem spending_needs_token:
  assumes "rq_method rq = ''GET''" "rq_url rq = ''/spending''" "sec \<noteq> []"
  shows "(rs_status (snd (handle_request num c (Some sec) t rq tr)) = 200 \<longleftrightarrow>
      (\<exists>a scheme rest. rq_authorization rq = Some a \<and> split_on (CHR '' '') a = scheme # sec # rest \<and> to_lower scheme = ''bearer'')) \<and>
    (rs_status (snd (handle_request num c (Some sec) t rq tr)) \<noteq> 200 \<longrightarrow>
      handle_request num c (Some sec) t rq tr = (tr, short_response 401 ''Unauthorized'')) \<and>
    (CHR '' '' \<in> set sec \<longrightarrow> rs_status (snd (handle_request num c (Some sec) t rq tr)) = 401)"
proof -
  let ?ok = "is_authenticated (Some sec) (rq_authorization rq)"
  have s: "rs_status (snd (handle_request num c (Some sec) t rq tr)) = (if ?ok then 200 else 401)"
    "\<not> ?ok \<Longrightarrow> handle_request num c (Some sec) t rq tr = (tr, short_response 401 ''Unauthorized'')"
    using assms(1,2)
    by (auto simp: handle_request_def spending_page_def json_response_def short_response_def Let_def split: prod.split)
  have "CHR '' '' \<in> set sec \<Longrightarrow> \<not> ?ok"
    unfolding is_authenticated_iff [OF assms(3)]
    by (metis list.set_intros split_on_no_sep)
  with s is_authenticated_iff [OF assms(3)] show ?thesis by auto
qed

definition spending_request :: "string option \<Rightarrow> http_request" where
  "spending_request auth = \<lparr>rq_method = ''GET'', rq_url = ''/spending'', rq_authorization = auth\<rparr>"

theorem spending_needs_token_witness:
  "rs_status (snd (handle_request (\<lambda>r. []) sample_agent_config (Some ''s3cret'') 0 (spending_request (Some ''Bearer s3cret'')) fresh_tracker)) = 200 \<and>
   rs_status (snd (handle_request (\<lambda>r. []) sample_agent_config (Some ''s3cret'') 0 (spending_request (Some ''Bearer guess'')) fresh_tracker)) \<noteq> 200"
proof -
  have 1: "split_on (CHR '' '') ''Bearer s3cret'' = [''Bearer'', ''s3cret'']" "split_on (CHR '' '') ''Bearer guess'' = [''Bearer'', ''guess'']"
    "to_lower ''Bearer'' = ''bearer''" by code_simp+
  have p: "rq_method (spending_request a) = ''GET''" "rq_url (spending_request a) = ''/spending''"
    "rq_authorization (spending_request a) = a" for a
    by (simp_all add: spending_request_def)
  have n: "''s3cret'' \<noteq> []" by simp
  show ?thesis
    using spending_needs_token [OF p(1,2) n, of "\<lambda>r. []" sample_agent_config 0 "Some ''Bearer s3cret''" fresh_tracker]
      spending_needs_token [OF p(1,2) n, of "\<lambda>r. []" sample_agent_config 0 "Some ''Bearer guess''" fresh_tracker] 1
    unfolding p by auto
qed

text \<open>
  A results page is bounded whatever the query says. From any text of the limit and offset
  parameters - none, empty, not a number, negative, huge - the page asked for has a limit between 1
  and 1000 and an offset that is not negative, and at most that many stored results are printed.
\<close>

theorem results_page_bounded:
  "1 \<le> results_limit lmt \<and> results_limit lmt \<le> 1000 \<and> 0 \<le> results_offset off \<and>
   (case get_results (results_limit lmt) (results_offset off) db of
      Inl e \<Rightarrow> True
    | Inr rs \<Rightarrow> int (length rs) \<le> results_limit lmt \<and> length rs \<le> 1000)"
proof -
  have b: "1 \<le> results_limit lmt" "results_limit lmt \<le> 1000" "0 \<le> results_offset off"
    by (auto simp: results_limit_def results_offset_def split: option.split)
  have "int (length rs) \<le> results_limit lmt" if r: "get_results (results_limit lmt) (results_offset off) db = Inr rs" for rs
  proof -
    have "length rs = length (select_page (results_limit lmt) (results_offset off) (rev (sort_key row_id (agent_results db))))"
      using r by (auto simp: get_results_def get_db_def bind_result_Inr_iff dest!: map_result_length split: option.splits)
    also have "\<dots> \<le> nat (results_limit lmt)" using b by (simp add: select_page_def Let_def)
    finally show ?thesis using b by linarith
  qed
  with b show ?thesis by (cases "get_results (results_limit lmt) (results_offset off) db") fastforce+
qed

text \<open>The route handler nobody calls answers 200 exactly when all three components are up.\<close>

lemma handle_health_status:
  "rs_status (handle_health a b d) = (if a = Up \<and> b = Up \<and> d = Up then 200 else 503)"
  by (simp add: handle_health_def json_response_def Let_def)

text \<open>An internal fault of the audit log shows the caller the same response whatever its message.\<close>

lemma status_page_hides_fault:
  "db_fault db = Some (PlainErr m kvs) \<Longrightarrow> db_fault db' = Some (PlainErr m' kvs') \<Longrightarrow> status_page num db = status_page num db'"
  by (simp add: status_page_def get_results_def get_db_def bind_result_def error_reply_def handle_error_def)

end
