(* ===== verification/Shutdown.thy ===== *)
theory Shutdown imports Agent begin

text \<open>
  The process around the agent (backend/index.ts) and its tracing (backend/telemetry.ts): the
  graceful shutdown as a step relation over the agent's slots and queue, with every way it can end.
\<close>

section \<open>Telemetry\<close>

text \<open>The SDK of OpenTelemetry runs or not; a span is its name, its attributes, its end.\<close>

datatype span_status = SpanOk | SpanError string

record span =
  sp_name :: string
  sp_attributes :: "(string \<times> string) list"
  sp_status :: span_status

record telemetry =
  tm_sdk :: bool
  tm_spans :: "span list"

definition init_telemetry :: "agent_config \<Rightarrow> telemetry \<Rightarrow> telemetry" where
  "init_telemetry c t =
     (case OTLP_ENDPOINT c of
        None \<Rightarrow> t
      | Some e \<Rightarrow> if e = [] \<or> tm_sdk t then t else t\<lparr>tm_sdk := True\<rparr>)"

definition shutdown_telemetry :: "telemetry \<Rightarrow> telemetry" where
  "shutdown_telemetry t = (if tm_sdk t then t\<lparr>tm_sdk := False\<rparr> else t)"

text \<open>\<open>text_of\<close> is the message of an Error or the text of anything else thrown.\<close>

definition with_span ::
    "(js_error \<Rightarrow> string) \<Rightarrow> string \<Rightarrow> (string \<times> string) list \<Rightarrow> ('s \<Rightarrow> 's \<times> (js_error + 'a)) \<Rightarrow> 's \<times> telemetry \<Rightarrow>
     ('s \<times> telemetry) \<times> (js_error + 'a)" where
  "with_span text_of name attrs f q =
     (case q of (s, t) \<Rightarrow>
        let (s', r) = f s;
            st = (case r of Inl e \<Rightarrow> SpanError (text_of e) | Inr v \<Rightarrow> SpanOk)
        in ((s', t\<lparr>tm_spans := tm_spans t @ [\<lparr>sp_name = name, sp_attributes = attrs, sp_status = st\<rparr>]\<rparr>), r))"

text \<open>Tracing a call changes neither its effect nor its result.\<close>

lemma with_span_transparent:
  "f s = (s', r) \<Longrightarrow> fst (fst (with_span text_of name attrs f (s, t))) = s' \<and> snd (with_span text_of name attrs f (s, t)) = r"
  by (simp add: with_span_def)

section \<open>The process\<close>

datatype proc_phase = Serving | AwaitingTasks | ClosingServer | ClosingDatabase | StoppingTelemetry | Exited int

record process =
  ps_run :: agent_run
  ps_phase :: proc_phase
  ps_server_open :: bool
  ps_db :: db_manager
  ps_telemetry :: telemetry

definition process_started :: "agent_config \<Rightarrow> process" where
  "process_started c =
     \<lparr>ps_run = idle_run, ps_phase = Serving, ps_server_open = True, ps_db = \<lparr>is_open = True\<rparr>,
      ps_telemetry = init_telemetry c \<lparr>tm_sdk = False, tm_spans = []\<rparr>\<rparr>"

text \<open>SIGTERM or SIGINT: a second signal is ignored.\<close>

definition on_signal :: "process \<Rightarrow> process" where
  "on_signal q =
     (if ps_phase q \<noteq> Serving then q
      else q\<lparr>ps_run := (ps_run q)\<lparr>draining := True\<rparr>, ps_phase := AwaitingTasks\<rparr>)"

definition no_pending_tasks :: "agent_run \<Rightarrow> bool" where
  "no_pending_tasks g \<longleftrightarrow> slots g = 0 \<and> task_queue g = []"

definition is_exited :: "process \<Rightarrow> bool" where
  "is_exited q = (case ps_phase q of Exited n \<Rightarrow> True | _ \<Rightarrow> False)"

text \<open>
  The steps: the agent's own while the process lives, a signal, each stage of the shutdown with its
  failure, and the hard kill, which may strike in any stage.
\<close>

inductive proc_step :: "agent_config \<Rightarrow> process \<Rightarrow> process \<Rightarrow> bool" for c where
  task: "proc_step c q (q\<lparr>ps_run := g\<rparr>)" if "\<not> is_exited q" "run_step c (ps_run q) g"
| signal: "proc_step c q (on_signal q)" if "\<not> is_exited q"
| tasks_done: "proc_step c q (q\<lparr>ps_phase := ClosingServer\<rparr>)" if "ps_phase q = AwaitingTasks" "no_pending_tasks (ps_run q)"
| server_closed: "proc_step c q (q\<lparr>ps_server_open := False, ps_phase := ClosingDatabase\<rparr>)" if "ps_phase q = ClosingServer"
| server_failed: "proc_step c q (q\<lparr>ps_phase := Exited 1\<rparr>)" if "ps_phase q = ClosingServer"
| db_closed: "proc_step c q (q\<lparr>ps_db := close_manager (ps_db q), ps_phase := StoppingTelemetry\<rparr>)" if "ps_phase q = ClosingDatabase"
| telemetry_stopped: "proc_step c q (q\<lparr>ps_telemetry := shutdown_telemetry (ps_telemetry q), ps_phase := Exited 0\<rparr>)"
    if "ps_phase q = StoppingTelemetry"
| telemetry_failed: "proc_step c q (q\<lparr>ps_phase := Exited 1\<rparr>)" if "ps_phase q = StoppingTelemetry" "tm_sdk (ps_telemetry q)"
| hard_kill: "proc_step c q (q\<lparr>ps_phase := Exited 1\<rparr>)" if "ps_phase q \<noteq> Serving" "\<not> is_exited q"

inductive_cases proc_stepE: "proc_step c q q'"

section \<open>What a clean exit means\<close>

text \<open>A draining agent takes no new task.\<close>

lemma draining_step:
  assumes "run_step c g h" "draining g" "no_pending_tasks g" "run_inv c g"
  shows "no_pending_tasks h \<and> draining h"
  using assms
proof (induction rule: run_step.induct)
  case (calling i g task cid)
  then show ?case by (simp add: run_call_def settle_def no_pending_tasks_def Let_def)
next
  case (finishing i g r)
  then show ?case by (simp add: run_inv_def no_pending_tasks_def)
qed (simp add: no_pending_tasks_def)

lemma draining_kept: "run_step c g h \<Longrightarrow> draining g \<Longrightarrow> draining h"
  by (induction rule: run_step.induct) (auto simp: run_defs Let_def split: list.split)

definition proc_inv :: "agent_config \<Rightarrow> process \<Rightarrow> bool" where
  "proc_inv c q \<longleftrightarrow> run_inv c (ps_run q) \<and> (ps_phase q \<notin> {Serving, Exited 1} \<longrightarrow> draining (ps_run q)) \<and>
     (ps_phase q \<in> {ClosingServer, ClosingDatabase, StoppingTelemetry, Exited 0} \<longrightarrow> no_pending_tasks (ps_run q)) \<and>
     (ps_phase q \<in> {ClosingDatabase, StoppingTelemetry, Exited 0} \<longrightarrow> \<not> ps_server_open q) \<and>
     (ps_phase q \<in> {StoppingTelemetry, Exited 0} \<longrightarrow> \<not> is_open (ps_db q)) \<and>
     (ps_phase q = Exited 0 \<longrightarrow> \<not> tm_sdk (ps_telemetry q)) \<and>
     (\<forall>n. ps_phase q = Exited n \<longrightarrow> n \<in> {0, 1})"

lemma proc_inv_step: "proc_step c q q' \<Longrightarrow> proc_inv c q \<Longrightarrow> proc_inv c q'"
proof (induction rule: proc_step.induct)
  case (task q g)
  then have q: "run_inv c (ps_run q)" "run_inv c g" by (simp_all add: proc_inv_def run_step_inv)
  note keep = draining_step [OF task.hyps(2) _ _ q(1)] draining_kept [OF task.hyps(2)]
  from task.prems task.hyps(1) q(2) keep show ?case
    by (cases "ps_phase q") (simp_all add: proc_inv_def is_exited_def)
next
  case (signal q)
  then show ?case by (auto simp: proc_inv_def on_signal_def draining_inv)
qed (auto simp: proc_inv_def close_manager_def shutdown_telemetry_def)

lemma proc_inv_started: "0 \<le> MAX_CONCURRENT_TASKS c \<Longrightarrow> proc_inv c (process_started c)"
  by (simp add: proc_inv_def process_started_def run_inv_def idle_run_def queued_ids_def settled_ids_def)

lemma proc_inv_reach: "(proc_step c)\<^sup>*\<^sup>* (process_started c) q \<Longrightarrow> 0 \<le> MAX_CONCURRENT_TASKS c \<Longrightarrow> proc_inv c q"
proof (induction rule: rtranclp_induct)
  case base
  then show ?case by (rule proc_inv_started)
next
  case (step y z)
  then show ?case by (blast intro: proc_inv_step)
qed

text \<open>From the wait on, a run of the process that finishes its tasks can always get to a clean exit.\<close>

lemma await_to_exit:
  assumes "ps_phase q = AwaitingTasks" "run_inv c (ps_run q)" "1 \<le> MAX_CONCURRENT_TASKS c"
  shows "\<exists>q'. (proc_step c)\<^sup>*\<^sup>* q q' \<and> ps_phase q' = Exited 0"
  using assms(1,2)
proof (induction "length (running (ps_run q)) + length (task_queue (ps_run q))" arbitrary: q rule: less_induct)
  case less
  let ?g = "ps_run q"
  show ?case
  proof (cases "running ?g")
    case Nil
    with less.prems(2) assms(3) have n: "no_pending_tasks ?g" by (auto simp: run_inv_def no_pending_tasks_def)
    let ?q1 = "q\<lparr>ps_phase := ClosingServer\<rparr>"
    let ?q2 = "?q1\<lparr>ps_server_open := False, ps_phase := ClosingDatabase\<rparr>"
    let ?q3 = "?q2\<lparr>ps_db := close_manager (ps_db ?q2), ps_phase := StoppingTelemetry\<rparr>"
    let ?q4 = "?q3\<lparr>ps_telemetry := shutdown_telemetry (ps_telemetry ?q3), ps_phase := Exited 0\<rparr>"
    have "proc_step c q ?q1" by (rule tasks_done [OF less.prems(1) n])
    moreover have "proc_step c ?q1 ?q2" by (rule server_closed) simp
    moreover have "proc_step c ?q2 ?q3" by (rule db_closed) simp
    moreover have "proc_step c ?q3 ?q4" by (rule telemetry_stopped) simp
    ultimately have "(proc_step c)\<^sup>*\<^sup>* q ?q4" by (meson rtranclp.rtrancl_refl rtranclp.rtrancl_into_rtrancl)
    then show ?thesis by (intro exI [of _ ?q4]) simp
  next
    case (Cons i js)
    then have i: "i \<in> set (running ?g)" by simp
    let ?h = "finish_call c i (ok_result [] JUndef []) ?g"
    let ?q1 = "q\<lparr>ps_run := ?h\<rparr>"
    have s: "proc_step c q ?q1"
      using less.prems(1) by (intro task run_step.finishing i) (simp add: is_exited_def)
    note f = finish_call_inv [OF less.prems(2) i, of "ok_result [] JUndef []"]
    have "\<exists>q'. (proc_step c)\<^sup>*\<^sup>* ?q1 q' \<and> ps_phase q' = Exited 0"
      using less.prems(1) f by (intro less.hyps) simp_all
    with s show ?thesis by (meson converse_rtranclp_into_rtranclp)
  qed
qed

text \<open>
  C34. A clean exit loses no task. However signals, calls, completions and failures interleave: the
  process ends with status 0 only when no task runs or waits and every call ever made has been
  settled, the server and the database are closed and tracing has stopped; and from the moment it
  waits for its tasks, such an exit stays reachable - a status 1 comes only from a failing stage or
  the hard kill.
\<close>

theorem clean_exit_loses_no_task:
  assumes "(proc_step c)\<^sup>*\<^sup>* (process_started c) q" "1 \<le> MAX_CONCURRENT_TASKS c"
  shows "(ps_phase q = Exited 0 \<longrightarrow>
      slots (ps_run q) = 0 \<and> task_queue (ps_run q) = [] \<and> set (settled_ids (ps_run q)) = set (called (ps_run q)) \<and>
      \<not> ps_server_open q \<and> \<not> is_open (ps_db q) \<and> \<not> tm_sdk (ps_telemetry q)) \<and>
    (ps_phase q = AwaitingTasks \<longrightarrow> (\<exists>q'. (proc_step c)\<^sup>*\<^sup>* q q' \<and> ps_phase q' = Exited 0)) \<and>
    (\<forall>n. ps_phase q = Exited n \<longrightarrow> n \<in> {0, 1})"
proof -
  have inv: "proc_inv c q" by (rule proc_inv_reach [OF assms(1)]) (use assms(2) in simp)
  then have "set (settled_ids (ps_run q)) = set (called (ps_run q))" if "no_pending_tasks (ps_run q)"
    using that by (auto simp: proc_inv_def run_inv_def no_pending_tasks_def queued_ids_def)
  with inv await_to_exit [of q c] assms(2) show ?thesis by (auto simp: proc_inv_def no_pending_tasks_def)
qed

theorem clean_exit_loses_no_task_witness:
  "\<exists>q q'. (proc_step sample_agent_config)\<^sup>*\<^sup>* (process_started sample_agent_config) q \<and> ps_phase q = AwaitingTasks \<and>
     (proc_step sample_agent_config)\<^sup>*\<^sup>* q q' \<and> ps_phase q' = Exited 0"
proof -
  let ?q = "on_signal (process_started sample_agent_config)"
  have "proc_step sample_agent_config (process_started sample_agent_config) ?q"
    by (rule signal) (simp add: is_exited_def process_started_def)
  then have r: "(proc_step sample_agent_config)\<^sup>*\<^sup>* (process_started sample_agent_config) ?q" by blast
  have "ps_phase ?q = AwaitingTasks" by (simp add: on_signal_def process_started_def)
  with clean_exit_loses_no_task [OF r] r show ?thesis by fastforce
qed

end
