(* ===== verification/Boot.thy ===== *)
theory Boot imports Shutdown begin

text \<open>
  How the process comes up: the module state of backend/config.ts (the synchronous load, the
  promise, the Proxy), the servers backend/rpc_client.ts creates while it is imported, and
  \<open>start\<close> of backend/index.ts, composed in the order the runtime evaluates them.
\<close>

section \<open>The state of the configuration module\<close>

text \<open>\<open>_config\<close> and \<open>_configError\<close>.\<close>

record config_module =
  cm_config :: "agent_config option"
  cm_error :: "string option"

definition both_given :: string where
  "both_given = ''Cannot specify both AGENT_SECRET_KEY and AGENT_SECRET_KEY_ARN.''"

definition not_initialized :: string where
  "not_initialized = ''Configuration has not been initialized yet. Await configPromise first.''"

text \<open>\<open>loadConfigSync\<close>: it may exit the process (\<open>Inl\<close>), throw, or return.\<close>

definition load_config_sync :: "sdk \<Rightarrow> env \<Rightarrow> exit_reason + string + agent_config" where
  "load_config_sync sdk env =
     (if env_set env ''AGENT_SECRET_KEY_ARN''
      then Inr (Inl ''Cannot load configuration synchronously when AGENT_SECRET_KEY_ARN is set.'')
      else (case parse_config_and_derive sdk env of Inl e \<Rightarrow> Inl e | Inr c \<Rightarrow> Inr (Inr c)))"

text \<open>
  Evaluating the module. The promise starts at once: with neither variable given its
  \<open>loadConfig\<close> reaches the exits of \<open>parseConfigAndDerive\<close> before the import is over, and
  what it loads is stored only later, as every continuation of an \<open>await\<close> is.
\<close>

definition config_import :: "sdk \<Rightarrow> env \<Rightarrow> exit_reason + config_module" where
  "config_import sdk env =
     (let key = env_set env ''AGENT_SECRET_KEY''; arn = env_set env ''AGENT_SECRET_KEY_ARN''
      in if key \<and> arn then Inr \<lparr>cm_config = None, cm_error = Some both_given\<rparr>
         else if key then
           (case load_config_sync sdk env of
              Inl e \<Rightarrow> Inl e
            | Inr (Inl e) \<Rightarrow> Inr \<lparr>cm_config = None, cm_error = Some e\<rparr>
            | Inr (Inr c) \<Rightarrow> Inr \<lparr>cm_config = Some c, cm_error = None\<rparr>)
         else if arn then Inr \<lparr>cm_config = None, cm_error = None\<rparr>
         else (case parse_config_and_derive sdk env of
              Inl e \<Rightarrow> Inl e
            | Inr c \<Rightarrow> Inr \<lparr>cm_config = None, cm_error = None\<rparr>))"

text \<open>How \<open>configPromise\<close> settles.\<close>

definition config_promise ::
    "sdk \<Rightarrow> (string \<Rightarrow> string \<Rightarrow> js_error + string option) \<Rightarrow> env \<Rightarrow> config_module \<Rightarrow>
     exit_reason + config_module \<times> (string + agent_config)" where
  "config_promise sdk send env m =
     (case cm_config m of
        Some c \<Rightarrow> Inr (m, Inr c)
      | None \<Rightarrow>
        (case cm_error m of
           Some e \<Rightarrow> Inr (m, Inl e)
         | None \<Rightarrow>
           (case load_config sdk send env of
              Inl e \<Rightarrow> Inl e
            | Inr c \<Rightarrow> Inr (m\<lparr>cm_config := Some c\<rparr>, Inr c))))"

text \<open>A read through the Proxy.\<close>

definition config_get :: "config_module \<Rightarrow> string + agent_config" where
  "config_get m =
     (case cm_error m of
        Some e \<Rightarrow> Inl e
      | None \<Rightarrow> (case cm_config m of None \<Rightarrow> Inl not_initialized | Some c \<Rightarrow> Inr c))"

section \<open>The servers of the RPC client\<close>

record rpc_server =
  sv_url :: string
  sv_allow_http :: bool

definition allow_http :: "network \<Rightarrow> bool" where
  "allow_http n \<longleftrightarrow> n = Testnet \<or> n = Futurenet"

definition create_horizon_server :: "config_module \<Rightarrow> string + rpc_server" where
  "create_horizon_server m =
     bind_result (config_get m) (\<lambda>c. Inr \<lparr>sv_url = HORIZON_URL c, sv_allow_http = allow_http (STELLAR_NETWORK c)\<rparr>)"

definition create_soroban_server :: "config_module \<Rightarrow> string + rpc_server" where
  "create_soroban_server m =
     bind_result (config_get m) (\<lambda>c. Inr \<lparr>sv_url = SOROBAN_RPC_URL c, sv_allow_http = allow_http (STELLAR_NETWORK c)\<rparr>)"

section \<open>Starting the process\<close>

datatype start_failure = ExitOne exit_reason | ImportThrows string | StartRejects string

text \<open>
  The imports of index.ts, then \<open>start\<close>: \<open>config.ts\<close> is evaluated before \<open>rpc_client.ts\<close>,
  which index.ts imports through the agent, and only then is \<open>configPromise\<close> awaited.
\<close>

definition start_process ::
    "sdk \<Rightarrow> (string \<Rightarrow> string \<Rightarrow> js_error + string option) \<Rightarrow> env \<Rightarrow>
     start_failure + config_module \<times> rpc_server \<times> rpc_server \<times> process" where
  "start_process sdk send env =
     (case config_import sdk env of
        Inl e \<Rightarrow> Inl (ExitOne e)
      | Inr m \<Rightarrow>
        (case bind_result (create_horizon_server m) (\<lambda>h. bind_result (create_soroban_server m) (\<lambda>r. Inr (h, r))) of
           Inl e \<Rightarrow> Inl (ImportThrows e)
         | Inr (h, r) \<Rightarrow>
           (case config_promise sdk send env m of
              Inl e \<Rightarrow> Inl (ExitOne e)
            | Inr (m', Inl e) \<Rightarrow> Inl (StartRejects e)
            | Inr (m', Inr c) \<Rightarrow> Inr (m', h, r, process_started c))))"

lemmas boot_defs = config_import_def load_config_sync_def config_promise_def config_get_def
  create_horizon_server_def create_soroban_server_def start_process_def Let_def

section \<open>What the process runs on\<close>

lemma parse_config_tasks:
  assumes "parse_config_and_derive sdk env = Inr c" shows "0 \<le> MAX_CONCURRENT_TASKS c"
proof -
  from assms obtain raw k where "env_schema sdk env = Some raw" "c = build_config raw k"
    unfolding parse_config_and_derive_def by (auto split: option.splits if_split_asm)
  with env_schema_bounds(8) [of sdk env raw] show ?thesis by (simp add: build_config_fields)
qed

text \<open>
  C35. A process that comes up runs on one checked configuration: its environment gave the key
  itself and no ARN, the configuration is the one \<open>parseConfigAndDerive\<close> accepted, every later
  read sees that one, both servers speak to its URLs and allow plain HTTP only off mainnet, and the
  process begins open, idle, and accepting tasks.
\<close>

theorem started_process_is_configured:
  assumes "start_process sdk send env = Inr (m, h, r, q)"
  shows "env_set env ''AGENT_SECRET_KEY'' \<and> \<not> env_set env ''AGENT_SECRET_KEY_ARN'' \<and>
    (\<exists>c. parse_config_and_derive sdk env = Inr c \<and> config_get m = Inr c \<and>
       sv_url h = HORIZON_URL c \<and> sv_url r = SOROBAN_RPC_URL c \<and>
       (sv_allow_http h \<longleftrightarrow> STELLAR_NETWORK c \<noteq> Mainnet) \<and> (sv_allow_http r \<longleftrightarrow> STELLAR_NETWORK c \<noteq> Mainnet) \<and>
       q = process_started c \<and> proc_inv c q)"
proof -
  from assms have e: "env_set env ''AGENT_SECRET_KEY''" "\<not> env_set env ''AGENT_SECRET_KEY_ARN''"
    by (auto simp: boot_defs split: if_splits sum.splits)
  with assms obtain c where c: "parse_config_and_derive sdk env = Inr c" "m = \<lparr>cm_config = Some c, cm_error = None\<rparr>"
      "h = \<lparr>sv_url = HORIZON_URL c, sv_allow_http = allow_http (STELLAR_NETWORK c)\<rparr>"
      "r = \<lparr>sv_url = SOROBAN_RPC_URL c, sv_allow_http = allow_http (STELLAR_NETWORK c)\<rparr>" "q = process_started c"
    by (auto simp: boot_defs split: sum.splits)
  have a: "allow_http n \<longleftrightarrow> n \<noteq> Mainnet" for n by (cases n) (simp_all add: allow_http_def)
  from parse_config_tasks [OF c(1)] proc_inv_started [of c] e c show ?thesis
    by (simp add: a config_get_def)
qed

theorem started_process_is_configured_witness:
  "\<exists>m h r q. start_process sample_sdk (\<lambda>_ _. Inr None) sample_env = Inr (m, h, r, q) \<and> \<not> sv_allow_http h \<and>
     ps_phase q = Serving"
proof -
  obtain c where c: "parse_config_and_derive sample_sdk sample_env = Inr c" "STELLAR_NETWORK c = Mainnet"
    using sample_config by blast
  have "env_set sample_env ''AGENT_SECRET_KEY''" "\<not> env_set sample_env ''AGENT_SECRET_KEY_ARN''"
    by (simp_all add: env_set_def sample_env_def)
  with c obtain m h r where s: "start_process sample_sdk (\<lambda>_ _. Inr None) sample_env = Inr (m, h, r, process_started c)"
    by (simp add: boot_defs)
  from started_process_is_configured [OF s] s c show ?thesis by (auto simp: process_started_def)
qed

text \<open>
  C36. An agent configured with a Secrets Manager ARN never comes up, whatever the secret store
  answers: the configuration is still being fetched - or refused - when the RPC client creates its
  servers, so the import throws before \<open>start\<close> is reached.
\<close>

theorem secret_arn_never_boots:
  assumes "env_set env ''AGENT_SECRET_KEY_ARN''"
  shows "start_process sdk send env =
    Inl (ImportThrows (if env_set env ''AGENT_SECRET_KEY'' then both_given else not_initialized))"
  using assms by (simp add: boot_defs)

text \<open>An environment that \<open>loadConfig\<close> alone accepts: the ARN's secret gives a configuration.\<close>

definition sample_arn_env :: env where
  "sample_arn_env = sample_env(''AGENT_SECRET_KEY'' := None, ''AGENT_SECRET_KEY_ARN'' \<mapsto> ''a'')"

lemma sample_arn_loads: "\<exists>c. load_config sample_sdk (\<lambda>_ _. Inr (Some ''S1'')) sample_arn_env = Inr c"
proof -
  have s: "secret_of_text ''S1'' = ''S1''" by code_simp
  have "\<exists>raw. env_schema sample_sdk (sample_arn_env(''AGENT_SECRET_KEY'' \<mapsto> ''S1'')) = Some raw \<and>
      AGENT_SECRET_KEY raw = ''S1'' \<and> RAW_PUBLIC_KEY raw = None \<and> AGENT_SPENDING_LIMIT raw = ''100''"
    by (simp add: env_schema_def sample_arn_env_def sample_env_def network_of_string_def req_string_def opt_string_def
        default_string_def int_field_def opt_int_field_def sample_key_ok spending_limit_ok_100)
      (simp add: sample_sdk_def)
  moreover have "public_key_of_secret sample_sdk ''S1'' = Some sample_key" by (simp add: sample_sdk_def)
  ultimately have "\<exists>c. parse_config_and_derive sample_sdk (sample_arn_env(''AGENT_SECRET_KEY'' \<mapsto> ''S1'')) = Inr c"
    by (auto simp: parse_config_and_derive_def parse_float_100 mainnet_spending_cap_def)
  moreover have "env_set sample_arn_env ''AGENT_SECRET_KEY_ARN''" "\<not> env_set sample_arn_env ''AGENT_SECRET_KEY''"
    by (simp_all add: env_set_def sample_arn_env_def)
  ultimately show ?thesis by (simp add: load_config_def fetch_secret_from_arn_def s)
qed

theorem secret_arn_never_boots_witness:
  "start_process sample_sdk (\<lambda>_ _. Inr (Some ''S1'')) sample_arn_env = Inl (ImportThrows not_initialized) \<and>
   (\<exists>c. load_config sample_sdk (\<lambda>_ _. Inr (Some ''S1'')) sample_arn_env = Inr c)"
proof -
  have "env_set sample_arn_env ''AGENT_SECRET_KEY_ARN''" "\<not> env_set sample_arn_env ''AGENT_SECRET_KEY''"
    by (simp_all add: env_set_def sample_arn_env_def)
  with secret_arn_never_boots [of sample_arn_env] sample_arn_loads show ?thesis by simp
qed

end
