(* ===== verification/Setup.thy ===== *)
theory Setup imports Boot begin

text \<open>
  The onboarding wizard (scripts/setup.ts): its prompts over the lines a user types, the .env file
  it writes, and what the loader of backend/config.ts makes of that file. The package dotenv,
  which reads the file back, is a parameter.
\<close>

section \<open>Prompts\<close>

text \<open>\<open>ask\<close>: the trimmed answer, or the default when it is empty.\<close>

definition answer_of :: "string option \<Rightarrow> string \<Rightarrow> string" where
  "answer_of d line = (let a = trim line in if a \<noteq> [] then a else case_option [] id d)"

text \<open>\<open>askValidated\<close> over the lines still to come; \<open>None\<close> when they run out while it waits.\<close>

fun ask_validated :: "string option \<Rightarrow> (string \<Rightarrow> string option) \<Rightarrow> string list \<Rightarrow> (string \<times> string list) option" where
  "ask_validated d validate [] = None"
| "ask_validated d validate (l # ls) =
     (let value = answer_of d l
      in case validate value of None \<Rightarrow> Some (value, ls) | Some e \<Rightarrow> ask_validated d validate ls)"

text \<open>A prompt ends exactly when some answer is valid, and then with the first that is.\<close>

lemma ask_validated_ends:
  "(\<exists>r. ask_validated d validate ls = Some r) \<longleftrightarrow> (\<exists>l \<in> set ls. validate (answer_of d l) = None)"
  by (induction ls) (auto simp: Let_def split: option.split)

lemma ask_validated_valid: "ask_validated d validate ls = Some (v, r) \<Longrightarrow> validate v = None"
  by (induction ls) (auto simp: Let_def split: option.split_asm)

section \<open>The checks\<close>

definition is_valid_secret_key :: "sdk \<Rightarrow> string \<Rightarrow> string option" where
  "is_valid_secret_key sdk v =
     (if public_key_of_secret sdk v \<noteq> None then None
      else Some ''Must be a valid Stellar secret key (starts with S, 56 characters).'')"

definition is_valid_public_key :: "sdk \<Rightarrow> string \<Rightarrow> string option" where
  "is_valid_public_key sdk v =
     (if length v \<noteq> 56 \<or> \<not> starts_with v ''G'' then Some ''Must be a 56-character Stellar public key starting with G.''
      else if valid_public_key sdk v then None else Some ''Not a valid Ed25519 Stellar public key.'')"

text \<open>
  \<open>NETWORK_DEFAULTS\<close>: the object's own keys, and the names every object inherits, which
  \<open>in\<close> finds too; the \<open>horizon\<close> and \<open>soroban\<close> of an inherited value are undefined.
\<close>

definition network_defaults :: "(string \<times> string \<times> string) list" where
  "network_defaults =
     [(''testnet'', ''https://horizon-testnet.stellar.org'', ''https://soroban-testnet.stellar.org''),
      (''mainnet'', ''https://horizon.stellar.org'', ''https://mainnet.stellar.validationcloud.io/v1/<API_KEY>''),
      (''futurenet'', ''https://horizon-futurenet.stellar.org'', ''https://rpc-futurenet.stellar.org'')]"

definition inherited_names :: "string list" where
  "inherited_names = [''constructor'', ''__defineGetter__'', ''__defineSetter__'', ''hasOwnProperty'',
     ''__lookupGetter__'', ''__lookupSetter__'', ''isPrototypeOf'', ''propertyIsEnumerable'', ''toString'',
     ''valueOf'', ''__proto__'', ''toLocaleString'']"

definition is_valid_network :: "string \<Rightarrow> string option" where
  "is_valid_network v =
     (if v \<in> set (map fst network_defaults) \<union> set inherited_names then None
      else Some ''Must be one of: testnet | mainnet | futurenet'')"

definition is_valid_url :: "sdk \<Rightarrow> string \<Rightarrow> string option" where
  "is_valid_url sdk v = (if valid_url sdk v then None else Some ''Must be a valid URL.'')"

definition is_positive_decimal :: "string \<Rightarrow> string option" where
  "is_positive_decimal v = (if spending_limit_ok v then None else Some ''Must be a positive decimal (e.g. '100' or '50.0000000').'')"

definition is_valid_asset_code :: "string \<Rightarrow> string option" where
  "is_valid_asset_code v = (if 1 \<le> length v \<and> length v \<le> 12 then None else Some ''Must be 1-12 characters.'')"

definition is_valid_log_level :: "string \<Rightarrow> string option" where
  "is_valid_log_level v =
     (if v \<in> {''debug'', ''info'', ''warn'', ''error''} then None else Some ''Must be one of: debug | info | warn | error'')"

section \<open>The wizard\<close>

text \<open>The file: its assignments in order (the other lines are comments) and its permission bits.\<close>

record env_file =
  ef_entries :: "(string \<times> string) list"
  ef_mode :: nat

datatype setup_end = Waiting | Aborted | Wrote env_file

definition confirm_overwrite :: "string \<Rightarrow> bool" where
  "confirm_overwrite line = (let a = to_lower (trim line) in a = ''y'' \<or> a = ''yes'')"

text \<open>The eight prompts of \<open>main\<close>, in order.\<close>

definition ask_settings :: "sdk \<Rightarrow> string list \<Rightarrow> ((string \<times> string) list) option" where
  "ask_settings sdk l0 = do {
     (network, l1) \<leftarrow> ask_validated (Some ''testnet'') is_valid_network l0;
     (horizon, l2) \<leftarrow> ask_validated (map_option fst (map_of network_defaults network)) (is_valid_url sdk) l1;
     (soroban, l3) \<leftarrow> ask_validated (map_option snd (map_of network_defaults network)) (is_valid_url sdk) l2;
     (secret, l4) \<leftarrow> ask_validated None (is_valid_secret_key sdk) l3;
     (code, l5) \<leftarrow> ask_validated (Some ''USDC'') is_valid_asset_code l4;
     (issuer, l6) \<leftarrow> ask_validated None (is_valid_public_key sdk) l5;
     (cap, l7) \<leftarrow> ask_validated (Some ''100'') is_positive_decimal l6;
     (level, l8) \<leftarrow> ask_validated (Some ''info'') is_valid_log_level l7;
     Some [(''STELLAR_NETWORK'', network), (''HORIZON_URL'', horizon), (''SOROBAN_RPC_URL'', soroban),
       (''AGENT_SECRET_KEY'', secret), (''X402_ASSET_CODE'', code), (''X402_ASSET_ISSUER'', issuer),
       (''AGENT_SPENDING_LIMIT'', cap), (''LOG_LEVEL'', level)]
   }"

text \<open>\<open>writeFileSync\<close> with a mode: the mode is that of a file it creates; an old file keeps its own.\<close>

definition write_file :: "(string \<times> string) list \<Rightarrow> nat \<Rightarrow> env_file option \<Rightarrow> env_file" where
  "write_file entries mode old =
     \<lparr>ef_entries = entries, ef_mode = (case old of None \<Rightarrow> mode | Some f \<Rightarrow> ef_mode f)\<rparr>"

definition run_setup :: "sdk \<Rightarrow> env_file option \<Rightarrow> string list \<Rightarrow> setup_end" where
  "run_setup sdk old ls =
     (let finish = (\<lambda>ls. case ask_settings sdk ls of None \<Rightarrow> Waiting | Some es \<Rightarrow> Wrote (write_file es 384 old))
      in case old of
           None \<Rightarrow> finish ls
         | Some f \<Rightarrow> (case ls of [] \<Rightarrow> Waiting | l # r \<Rightarrow> if confirm_overwrite l then finish r else Aborted))"

section \<open>What the loader makes of the file\<close>

text \<open>
  A value dotenv reads back as written: no comment sign, quote or line break, and no space at
  either end.
\<close>

definition plain_value :: "string \<Rightarrow> bool" where
  "plain_value v \<longleftrightarrow> trim v = v \<and> (\<forall>c \<in> set v. c \<notin> set ''#\"`'' \<and> ccode c \<noteq> 39 \<and> ccode c \<noteq> 10 \<and> ccode c \<noteq> 13)"

definition setting_of :: "env_file \<Rightarrow> string \<Rightarrow> string" where
  "setting_of f k = (case map_of (ef_entries f) k of None \<Rightarrow> [] | Some v \<Rightarrow> v)"

lemma setup_wrote:
  assumes "run_setup sdk old ls = Wrote f"
  obtains network horizon soroban secret code issuer cap level where
    "ef_entries f = [(''STELLAR_NETWORK'', network), (''HORIZON_URL'', horizon), (''SOROBAN_RPC_URL'', soroban),
       (''AGENT_SECRET_KEY'', secret), (''X402_ASSET_CODE'', code), (''X402_ASSET_ISSUER'', issuer),
       (''AGENT_SPENDING_LIMIT'', cap), (''LOG_LEVEL'', level)]"
    "ef_mode f = (case old of None \<Rightarrow> 384 | Some g \<Rightarrow> ef_mode g)"
    "is_valid_network network = None" "is_valid_url sdk horizon = None" "is_valid_url sdk soroban = None"
    "is_valid_secret_key sdk secret = None" "is_valid_asset_code code = None" "is_valid_public_key sdk issuer = None"
    "is_positive_decimal cap = None" "is_valid_log_level level = None"
proof -
  from assms obtain es ls' where es: "ask_settings sdk ls' = Some es" "f = write_file es 384 old"
    by (auto simp: run_setup_def Let_def split: option.split_asm list.split_asm if_splits)
  from es(1) obtain network horizon soroban secret code issuer cap level l0 l1 l2 l3 l4 l5 l6 l7 where
    p: "ask_validated (Some ''testnet'') is_valid_network ls' = Some (network, l0)"
      "ask_validated (map_option fst (map_of network_defaults network)) (is_valid_url sdk) l0 = Some (horizon, l1)"
      "ask_validated (map_option snd (map_of network_defaults network)) (is_valid_url sdk) l1 = Some (soroban, l2)"
      "ask_validated None (is_valid_secret_key sdk) l2 = Some (secret, l3)"
      "ask_validated (Some ''USDC'') is_valid_asset_code l3 = Some (code, l4)"
      "ask_validated None (is_valid_public_key sdk) l4 = Some (issuer, l5)"
      "ask_validated (Some ''100'') is_positive_decimal l5 = Some (cap, l6)"
      "ask_validated (Some ''info'') is_valid_log_level l6 = Some (level, l7)"
    and e: "es = [(''STELLAR_NETWORK'', network), (''HORIZON_URL'', horizon), (''SOROBAN_RPC_URL'', soroban),
       (''AGENT_SECRET_KEY'', secret), (''X402_ASSET_CODE'', code), (''X402_ASSET_ISSUER'', issuer),
       (''AGENT_SPENDING_LIMIT'', cap), (''LOG_LEVEL'', level)]"
    unfolding ask_settings_def by (auto simp: Option.bind_eq_Some_conv)
  note v = p [THEN ask_validated_valid]
  show thesis by (rule that [OF _ _ v]) (simp_all add: es(2) e write_file_def)
qed

lemma valid_public_key_ok: "is_valid_public_key sdk v = None \<longleftrightarrow> public_key_ok sdk v"
  by (auto simp: is_valid_public_key_def public_key_ok_def is_valid_stellar_public_key_def split: if_splits)

lemma valid_log_level: "is_valid_log_level v = None \<longleftrightarrow> log_level_of_string v \<noteq> None"
  by (auto simp: is_valid_log_level_def log_level_of_string_def split: if_splits)

text \<open>The schema accepts a file of valid answers exactly when its network is one of the three.\<close>

lemma schema_of_settings:
  assumes "is_valid_url sdk horizon = None" "is_valid_url sdk soroban = None"
    "is_valid_secret_key sdk secret = None" "is_valid_asset_code code = None" "is_valid_public_key sdk issuer = None"
    "is_positive_decimal cap = None" "is_valid_log_level level = None"
    and env: "env = map_of [(''STELLAR_NETWORK'', network), (''HORIZON_URL'', horizon), (''SOROBAN_RPC_URL'', soroban),
       (''AGENT_SECRET_KEY'', secret), (''X402_ASSET_CODE'', code), (''X402_ASSET_ISSUER'', issuer),
       (''AGENT_SPENDING_LIMIT'', cap), (''LOG_LEVEL'', level)]"
  shows "(case network_of_string network of None \<Rightarrow> env_schema sdk env = None
    | Some n \<Rightarrow> (\<exists>raw. env_schema sdk env = Some raw \<and> STELLAR_NETWORK raw = n \<and> AGENT_SECRET_KEY raw = secret \<and>
        RAW_PUBLIC_KEY raw = None \<and> AGENT_SPENDING_LIMIT raw = cap))"
proof -
  from assms(1-6) have v: "valid_url sdk horizon" "valid_url sdk soroban" "\<exists>k. public_key_of_secret sdk secret = Some k"
      "1 \<le> length code" "length code \<le> 12" "public_key_ok sdk issuer" "spending_limit_ok cap"
    by (auto simp: is_valid_url_def is_valid_secret_key_def is_valid_asset_code_def is_positive_decimal_def
        valid_public_key_ok split: if_splits)
  obtain l where l: "log_level_of_string level = Some l" using assms(7) valid_log_level by auto
  show ?thesis
    using v l by (cases "network_of_string network")
      (auto simp: env env_schema_def req_string_def opt_string_def default_string_def int_field_def opt_int_field_def)
qed

text \<open>
  C37. What the wizard writes, the agent starts on. With dotenv reading plain values back as written,
  the loader accepts the file exactly when its network is one of the three - a name every object
  inherits, like toString, passes the prompt too - and, on mainnet, its spending limit is not above
  10,000, which the prompt does not check; the accepted configuration has the answers given. A new
  file is readable by its owner alone, while an overwritten one keeps the permissions it had.
\<close>

theorem setup_env_loads:
  assumes "run_setup sdk old ls = Wrote f"
    and "\<forall>kv \<in> set (ef_entries f). plain_value (snd kv)"
    and dotenv: "\<forall>es. (\<forall>kv \<in> set es. plain_value (snd kv)) \<longrightarrow> dotenv es = map_of es"
  shows "((\<exists>c. parse_config_and_derive sdk (dotenv (ef_entries f)) = Inr c) \<longleftrightarrow>
      setting_of f ''STELLAR_NETWORK'' \<notin> set inherited_names \<and>
      \<not> (setting_of f ''STELLAR_NETWORK'' = ''mainnet'' \<and>
         js_less mainnet_spending_cap (parse_float (setting_of f ''AGENT_SPENDING_LIMIT'')))) \<and>
    (\<forall>c. parse_config_and_derive sdk (dotenv (ef_entries f)) = Inr c \<longrightarrow>
      public_key_of_secret sdk (setting_of f ''AGENT_SECRET_KEY'') = Some (AGENT_PUBLIC_KEY c) \<and>
      network_of_string (setting_of f ''STELLAR_NETWORK'') = Some (STELLAR_NETWORK c) \<and>
      AGENT_SPENDING_LIMIT c = setting_of f ''AGENT_SPENDING_LIMIT'') \<and>
    ef_mode f = (case old of None \<Rightarrow> 384 | Some g \<Rightarrow> ef_mode g)"
  using assms(1)
proof (rule setup_wrote)
  fix network horizon soroban secret code issuer cap level
  assume es: "ef_entries f = [(''STELLAR_NETWORK'', network), (''HORIZON_URL'', horizon), (''SOROBAN_RPC_URL'', soroban),
       (''AGENT_SECRET_KEY'', secret), (''X402_ASSET_CODE'', code), (''X402_ASSET_ISSUER'', issuer),
       (''AGENT_SPENDING_LIMIT'', cap), (''LOG_LEVEL'', level)]"
    and mode: "ef_mode f = (case old of None \<Rightarrow> 384 | Some g \<Rightarrow> ef_mode g)" and net: "is_valid_network network = None"
    and ok: "is_valid_url sdk horizon = None" "is_valid_url sdk soroban = None" "is_valid_secret_key sdk secret = None"
      "is_valid_asset_code code = None" "is_valid_public_key sdk issuer = None" "is_positive_decimal cap = None"
      "is_valid_log_level level = None"
  from assms(2) dotenv have env: "dotenv (ef_entries f) = map_of (ef_entries f)" by blast
  have s: "setting_of f ''STELLAR_NETWORK'' = network" "setting_of f ''AGENT_SECRET_KEY'' = secret"
      "setting_of f ''AGENT_SPENDING_LIMIT'' = cap"
    by (simp_all add: setting_of_def es)
  have n: "network_of_string network = None \<longleftrightarrow> network \<in> set inherited_names"
    using net by (auto simp: is_valid_network_def network_of_string_def network_defaults_def inherited_names_def split: if_splits)
  have m: "network_of_string network = Some Mainnet \<longleftrightarrow> network = ''mainnet''"
    by (simp add: network_of_string_def)
  obtain k where k: "public_key_of_secret sdk secret = Some k"
    using ok(3) by (auto simp: is_valid_secret_key_def split: if_splits)
  show ?thesis
  proof (cases "network_of_string network")
    case None
    with schema_of_settings [OF ok refl, of network] n mode show ?thesis
      by (simp add: parse_config_and_derive_def s env [unfolded es] es)
  next
    case (Some nw)
    with schema_of_settings [OF ok refl, of network] obtain raw where
      "env_schema sdk (dotenv (ef_entries f)) = Some raw" "STELLAR_NETWORK raw = nw" "AGENT_SECRET_KEY raw = secret"
      "RAW_PUBLIC_KEY raw = None" "AGENT_SPENDING_LIMIT raw = cap"
      by (auto simp: env [unfolded es] es)
    with k m n mode Some show ?thesis
      by (auto simp: parse_config_and_derive_def build_config_fields s)
  qed
qed

text \<open>The wizard answered with the two keys and a toString for a network, and with defaults.\<close>

definition sample_answers :: "string \<Rightarrow> string list" where
  "sample_answers network = [network, ''https://h'', ''https://s'', ''S1'', [], sample_key, [], []]"

lemma trim_sample_key: "trim sample_key = sample_key"
  by (simp add: trim_def trim_left_def sample_key_def is_js_space_def ccode_def)

lemma sample_setup:
  assumes "network \<in> {''testnet'', ''toString''}"
  shows "\<exists>f. run_setup sample_sdk None (sample_answers network) = Wrote f \<and> setting_of f ''STELLAR_NETWORK'' = network \<and>
    ef_mode f = 384 \<and> (\<forall>kv \<in> set (ef_entries f). plain_value (snd kv))"
proof -
  have k: "is_valid_public_key sample_sdk sample_key = None" by (simp add: valid_public_key_ok sample_key_ok)
  have t: "trim network = network" "is_valid_network network = None"
    using assms by (auto simp: trim_def trim_left_def is_js_space_def ccode_def is_valid_network_def network_defaults_def
        inherited_names_def)
  have u: "trim ''https://h'' = ''https://h''" "trim ''https://s'' = ''https://s''" "trim ''S1'' = ''S1''" "trim [] = []"
    "trim ''USDC'' = ''USDC''" "trim ''100'' = ''100''" "trim ''info'' = ''info''"
    by (simp_all add: trim_def trim_left_def is_js_space_def ccode_def)
  have v: "is_valid_url sample_sdk ''https://h'' = None" "is_valid_url sample_sdk ''https://s'' = None"
    "is_valid_secret_key sample_sdk ''S1'' = None" "is_valid_asset_code ''USDC'' = None"
    "is_positive_decimal ''100'' = None" "is_valid_log_level ''info'' = None"
    by (simp_all add: is_valid_url_def is_valid_secret_key_def is_valid_asset_code_def is_positive_decimal_def
        is_valid_log_level_def spending_limit_ok_100) (simp_all add: sample_sdk_def)
  have p: "plain_value network" "plain_value ''https://h''" "plain_value ''https://s''" "plain_value ''S1''"
    "plain_value ''USDC''" "plain_value ''100''" "plain_value ''info''" "plain_value sample_key"
    using assms t u by (auto simp: plain_value_def ccode_def trim_sample_key) (auto simp: sample_key_def ccode_def)
  have n: "network \<noteq> []" "sample_key \<noteq> []" using assms by (auto simp: sample_key_def)
  show ?thesis
    using k t u v p n by (simp add: run_setup_def sample_answers_def ask_settings_def answer_of_def Let_def trim_sample_key
        write_file_def setting_of_def)
qed

theorem setup_env_loads_witness:
  "(\<exists>f c. run_setup sample_sdk None (sample_answers ''testnet'') = Wrote f \<and>
      parse_config_and_derive sample_sdk (map_of (ef_entries f)) = Inr c) \<and>
   (\<exists>f. run_setup sample_sdk None (sample_answers ''toString'') = Wrote f \<and> ef_mode f = 384 \<and>
      (\<nexists>c. parse_config_and_derive sample_sdk (map_of (ef_entries f)) = Inr c))"
proof -
  obtain f where f: "run_setup sample_sdk None (sample_answers ''testnet'') = Wrote f" "setting_of f ''STELLAR_NETWORK'' = ''testnet''"
      "\<forall>kv \<in> set (ef_entries f). plain_value (snd kv)"
    using sample_setup by blast
  obtain g where g: "run_setup sample_sdk None (sample_answers ''toString'') = Wrote g" "setting_of g ''STELLAR_NETWORK'' = ''toString''"
      "ef_mode g = 384" "\<forall>kv \<in> set (ef_entries g). plain_value (snd kv)"
    using sample_setup by blast
  from setup_env_loads [OF f(1,3), of map_of] f(1,2) setup_env_loads [OF g(1,4), of map_of] g(1-3)
  show ?thesis by (auto simp: inherited_names_def)
qed

end
