(* ===== verification/Scripts.thy ===== *)
theory Scripts imports Redaction begin

text \<open>
  Two of the repository's scripts: the CSV reader of scripts/examples/batch\_payment\_csv.ts, over the
  lines of the file, and the secret scanner scripts/find\_secrets.js, over the lines git prints.
\<close>

section \<open>Payments from a CSV file\<close>

record csv_payment =
  cp_destination :: string
  cp_amount :: string
  cp_asset_code :: string

definition required_columns :: "string list" where
  "required_columns = [''destination'', ''amount'', ''assetCode'']"

datatype csv_error = MissingColumns "string list" | MissingFields nat

text \<open>The object of a row: a column the row does not reach is empty, a later column of the same name wins.\<close>

fun csv_row :: "string list \<Rightarrow> string list \<Rightarrow> (string \<rightharpoonup> string) \<Rightarrow> (string \<rightharpoonup> string)" where
  "csv_row [] columns row = row"
| "csv_row (col # header) columns row = csv_row header (tl columns) (row(col \<mapsto> case columns of [] \<Rightarrow> [] | v # vs \<Rightarrow> v))"

definition cell :: "(string \<rightharpoonup> string) \<Rightarrow> string \<Rightarrow> string" where
  "cell row col = (case row col of None \<Rightarrow> [] | Some v \<Rightarrow> v)"

definition csv_columns :: "string \<Rightarrow> string list" where
  "csv_columns line = map trim (split_on (CHR '','') line)"

text \<open>The loop of \<open>parseCsv\<close>: the line number, the header once it was read, the lines to come.\<close>

fun csv_lines :: "nat \<Rightarrow> string list option \<Rightarrow> string list \<Rightarrow> csv_error + csv_payment list" where
  "csv_lines n header [] = Inr []"
| "csv_lines n header (raw # ls) =
     (let line = trim raw; columns = csv_columns line
      in if line = [] then csv_lines (n + 1) header ls
         else (case header of
           None \<Rightarrow>
             (let missing = filter (\<lambda>c. c \<notin> set columns) required_columns
              in if missing \<noteq> [] then Inl (MissingColumns missing) else csv_lines (n + 1) (Some columns) ls)
         | Some h \<Rightarrow>
             (let row = csv_row h columns Map.empty; code = cell row ''assetCode''
              in if cell row ''destination'' = [] \<or> cell row ''amount'' = [] then Inl (MissingFields n)
                 else bind_result (csv_lines (n + 1) header ls) (\<lambda>ps.
                   Inr (\<lparr>cp_destination = cell row ''destination'', cp_amount = cell row ''amount'',
                      cp_asset_code = if code = [] then ''XLM'' else code\<rparr> # ps)))))"

definition parse_csv :: "string list \<Rightarrow> csv_error + csv_payment list" where
  "parse_csv ls = csv_lines 1 None ls"

text \<open>The lines that carry a row: those not blank.\<close>

definition data_lines :: "string list \<Rightarrow> string list" where
  "data_lines ls = filter (\<lambda>l. trim l \<noteq> []) ls"

lemma csv_lines_count: "csv_lines n (Some h) ls = Inr ps \<Longrightarrow> length ps = length (data_lines ls)"
  by (induction n "Some h" ls arbitrary: ps rule: csv_lines.induct)
    (auto simp: Let_def data_lines_def bind_result_Inr_iff split: if_splits)

definition csv_line :: "csv_payment \<Rightarrow> string" where
  "csv_line p = cp_destination p @ '','' @ cp_amount p @ '','' @ cp_asset_code p"

definition clean_cell :: "string \<Rightarrow> bool" where
  "clean_cell v \<longleftrightarrow> v \<noteq> [] \<and> (\<forall>c \<in> set v. \<not> is_js_space c \<and> c \<noteq> CHR '','')"

lemma trim_no_space: "\<forall>c \<in> set s. \<not> is_js_space c \<Longrightarrow> trim s = s"
proof -
  assume a: "\<forall>c \<in> set s. \<not> is_js_space c"
  then have d: "dropWhile is_js_space t = t" if "set t \<subseteq> set s" for t
    using that by (cases t) auto
  show ?thesis by (simp add: trim_def trim_left_def d)
qed

lemma split_on_append: "d \<notin> set u \<Longrightarrow> split_on d (u @ d # v) = u # split_on d v"
  by (induction u) auto

lemma csv_line_columns:
  assumes "clean_cell (cp_destination p)" "clean_cell (cp_amount p)" "clean_cell (cp_asset_code p)"
  shows "trim (csv_line p) = csv_line p" "csv_line p \<noteq> []"
    "csv_columns (csv_line p) = [cp_destination p, cp_amount p, cp_asset_code p]"
proof -
  have "\<not> is_js_space (CHR '','')" by (simp add: is_js_space_def ccode_def)
  with assms show "trim (csv_line p) = csv_line p" by (intro trim_no_space) (auto simp: csv_line_def clean_cell_def)
  have t: "trim (cp_destination p) = cp_destination p" "trim (cp_amount p) = cp_amount p" "trim (cp_asset_code p) = cp_asset_code p"
    using assms by (auto simp: clean_cell_def intro: trim_no_space)
  have "CHR '','' \<notin> set (cp_destination p)" "CHR '','' \<notin> set (cp_amount p)" "CHR '','' \<notin> set (cp_asset_code p)"
    using assms by (auto simp: clean_cell_def)
  with t show "csv_columns (csv_line p) = [cp_destination p, cp_amount p, cp_asset_code p]"
    by (simp add: csv_columns_def csv_line_def split_on_append split_on_sep_free)
  show "csv_line p \<noteq> []" by (simp add: csv_line_def)
qed

lemma csv_lines_rows:
  assumes "\<forall>p \<in> set ps. clean_cell (cp_destination p) \<and> clean_cell (cp_amount p) \<and> clean_cell (cp_asset_code p)"
  shows "csv_lines n (Some required_columns) (map csv_line ps) = Inr ps"
  using assms
proof (induction ps arbitrary: n)
  case (Cons p ps)
  then have c: "clean_cell (cp_destination p)" "clean_cell (cp_amount p)" "clean_cell (cp_asset_code p)" by simp_all
  note l = csv_line_columns [OF c]
  let ?row = "csv_row required_columns (csv_columns (csv_line p)) Map.empty"
  have r: "cell ?row ''destination'' = cp_destination p" "cell ?row ''amount'' = cp_amount p" "cell ?row ''assetCode'' = cp_asset_code p"
    by (simp_all add: l required_columns_def cell_def)
  from c have n: "cp_destination p \<noteq> []" "cp_amount p \<noteq> []" "cp_asset_code p \<noteq> []" by (simp_all add: clean_cell_def)
  from Cons have "csv_lines (n + 1) (Some required_columns) (map csv_line ps) = Inr ps" by simp
  then show ?case using n by (simp add: Let_def l(1,2) r [unfolded l(3)] l(3))
qed simp

text \<open>
  The CSV reader loses and invents nothing: payments whose cells hold no comma and no space,
  written one per line under the header, are read back as they were, in order; and whatever the
  file, a reading that succeeds has exactly one payment per line that is not blank after the header.
\<close>

theorem csv_reads_back:
  assumes "\<forall>p \<in> set ps. clean_cell (cp_destination p) \<and> clean_cell (cp_amount p) \<and> clean_cell (cp_asset_code p)"
  shows "parse_csv (''destination,amount,assetCode'' # map csv_line ps) = Inr ps \<and>
    (\<forall>ls qs. parse_csv ls = Inr qs \<longrightarrow> length qs = length (data_lines ls) - 1)"
proof
  have "trim ''destination,amount,assetCode'' = ''destination,amount,assetCode''"
    by (rule trim_no_space) (simp add: is_js_space_def ccode_def)
  moreover have "csv_columns ''destination,amount,assetCode'' = required_columns" by code_simp
  ultimately show "parse_csv (''destination,amount,assetCode'' # map csv_line ps) = Inr ps"
    by (simp add: parse_csv_def Let_def csv_lines_rows [OF assms])
  have "csv_lines n None ls = Inr qs \<Longrightarrow> length qs = length (data_lines ls) - 1" for n ls qs
    by (induction n "None :: string list option" ls rule: csv_lines.induct)
      (auto simp: Let_def data_lines_def dest!: csv_lines_count split: if_splits)
  then show "\<forall>ls qs. parse_csv ls = Inr qs \<longrightarrow> length qs = length (data_lines ls) - 1" by (simp add: parse_csv_def)
qed

theorem csv_reads_back_witness:
  "parse_csv [''destination,amount,assetCode'', ''GA,1.5,XLM'', ''GB,10,USDC''] =
     Inr [\<lparr>cp_destination = ''GA'', cp_amount = ''1.5'', cp_asset_code = ''XLM''\<rparr>,
          \<lparr>cp_destination = ''GB'', cp_amount = ''10'', cp_asset_code = ''USDC''\<rparr>]"
proof -
  let ?ps = "[\<lparr>cp_destination = ''GA'', cp_amount = ''1.5'', cp_asset_code = ''XLM''\<rparr>,
          \<lparr>cp_destination = ''GB'', cp_amount = ''10'', cp_asset_code = ''USDC''\<rparr>]"
  have "\<forall>p \<in> set ?ps. clean_cell (cp_destination p) \<and> clean_cell (cp_amount p) \<and> clean_cell (cp_asset_code p)"
    by (simp add: clean_cell_def is_js_space_def ccode_def)
  from csv_reads_back [OF this] show ?thesis by (simp add: csv_line_def)
qed

section \<open>The secret scanner\<close>

text \<open>\<open>text.matchAll(/S[A-Z2-7]{55}/g)\<close>.\<close>

function secret_matches :: "string \<Rightarrow> string list" where
  "secret_matches [] = []"
| "secret_matches (c # cs) =
     (if secret_prefix (c # cs) then take 56 (c # cs) # secret_matches (drop 55 cs) else secret_matches cs)"
  by pat_completeness auto
termination
  by (relation "measure length") auto

record secret_found =
  sf_file :: string
  sf_line :: string
  sf_key :: string
  sf_allowed :: bool

text \<open>A line git prints is the file, the line number and the text, which may hold colons of its own.\<close>

definition scan_line :: "string list \<Rightarrow> string \<Rightarrow> secret_found list" where
  "scan_line allowed line =
     (let parts = split_on (CHR '':'') line; txt = join_with '':'' (drop 2 parts)
      in map (\<lambda>k. \<lparr>sf_file = hd parts, sf_line = hd (tl parts @ [[]]), sf_key = k, sf_allowed = k \<in> set allowed\<rparr>)
           (secret_matches txt))"

definition scan_secrets :: "string list \<Rightarrow> string list \<Rightarrow> secret_found list \<times> int" where
  "scan_secrets allowed ls =
     (let found = concat (map (scan_line allowed) (filter (\<lambda>l. l \<noteq> []) ls))
      in (found, if filter (\<lambda>f. \<not> sf_allowed f) found = [] then 0 else 2))"

lemma secret_prefix_take: "secret_prefix s \<Longrightarrow> secret_prefix (take 56 s) \<and> length (take 56 s) = 56"
  by (simp add: secret_prefix_def tl_take hd_take)

lemma secret_matches_prefix: "\<forall>k \<in> set (secret_matches s). secret_prefix k \<and> length k = 56"
proof (induction s rule: secret_matches.induct)
  case (2 c cs)
  then show ?case using secret_prefix_take [of "c # cs"] by (cases "secret_prefix (c # cs)") simp_all
qed simp

lemma secret_matches_none: "secret_matches s = [] \<longleftrightarrow> secret_free s"
proof (induction s rule: secret_matches.induct)
  case (2 c cs)
  then show ?case by (cases "secret_prefix (c # cs)") (simp_all add: secret_free_Cons)
qed simp

text \<open>A line as git prints it.\<close>

definition git_line :: "string \<times> string \<times> string \<Rightarrow> string" where
  "git_line h = (case h of (file, n, txt) \<Rightarrow> file @ '':'' @ n @ '':'' @ txt)"

lemma scan_git_line:
  assumes "CHR '':'' \<notin> set file" "CHR '':'' \<notin> set n"
  shows "scan_line allowed (git_line (file, n, txt)) =
    map (\<lambda>k. \<lparr>sf_file = file, sf_line = n, sf_key = k, sf_allowed = k \<in> set allowed\<rparr>) (secret_matches txt)"
  using assms by (simp add: scan_line_def git_line_def Let_def split_on_append join_split numeral_2_eq_2)

text \<open>
  The scanner's verdict is right: over the lines git prints for files whose names hold no colon,
  it passes exactly when every secret key of every line is on the allow list, it reports nothing
  exactly when the lines are free of secrets, everything it reports is a secret key, and text the
  logger has redacted never trips it.
\<close>

theorem scanner_verdict:
  assumes "\<forall>(file, n, txt) \<in> set hits. CHR '':'' \<notin> set file \<and> CHR '':'' \<notin> set n"
    and "scan_secrets allowed (map git_line hits) = (found, status)"
  shows "(status = 0 \<longleftrightarrow> (\<forall>(file, n, txt) \<in> set hits. \<forall>k \<in> set (secret_matches txt). k \<in> set allowed)) \<and>
    (found = [] \<longleftrightarrow> (\<forall>(file, n, txt) \<in> set hits. secret_free txt)) \<and>
    (\<forall>f \<in> set found. secret_prefix (sf_key f) \<and> length (sf_key f) = 56) \<and>
    secret_matches (redact_all s) = []"
proof -
  have ne: "filter (\<lambda>l. l \<noteq> []) (map git_line hits) = map git_line hits"
    by (induction hits) (auto simp: git_line_def)
  have l: "scan_line allowed (git_line h) = map (\<lambda>k. \<lparr>sf_file = fst h, sf_line = fst (snd h), sf_key = k,
      sf_allowed = k \<in> set allowed\<rparr>) (secret_matches (snd (snd h)))" if "h \<in> set hits" for h
    using assms(1) that by (cases h) (auto simp: scan_git_line)
  have f: "found = concat (map (\<lambda>h. map (\<lambda>k. \<lparr>sf_file = fst h, sf_line = fst (snd h), sf_key = k,
      sf_allowed = k \<in> set allowed\<rparr>) (secret_matches (snd (snd h)))) hits)"
    using assms(2) by (simp add: scan_secrets_def Let_def ne o_def l cong: map_cong)
  have "status = (if filter (\<lambda>f. \<not> sf_allowed f) found = [] then 0 else 2)"
    using assms(2) by (auto simp: scan_secrets_def Let_def)
  then have st: "status = 0 \<longleftrightarrow> (\<forall>g \<in> set found. sf_allowed g)" by (simp add: filter_empty_conv)
  have p: "\<forall>g \<in> set found. secret_prefix (sf_key g) \<and> length (sf_key g) = 56"
    using secret_matches_prefix by (auto simp: f)
  have e: "found = [] \<longleftrightarrow> (\<forall>(file, n, txt) \<in> set hits. secret_free txt)"
    by (auto simp: f secret_matches_none)
  show ?thesis using p e by (auto simp: st f secret_matches_none redact_all_secret_free)
qed

definition sample_leak :: string where
  "sample_leak = ''k: S'' @ replicate 55 (CHR ''A'')"

lemma sample_leak_found: "secret_matches sample_leak \<noteq> []"
proof -
  have "is_base32 (CHR ''A'')" by (simp add: is_base32_def ccode_def)
  then have "secret_prefix (CHR ''S'' # replicate 55 (CHR ''A''))" by (simp add: secret_prefix_def)
  then show ?thesis by (simp add: secret_matches_none sample_leak_def secret_free_Cons)
qed

theorem scanner_verdict_witness:
  "\<exists>found status. scan_secrets [] (map git_line [(''a.ts'', ''7'', sample_leak)]) = (found, status) \<and> status \<noteq> 0 \<and> found \<noteq> []"
proof -
  let ?hits = "[(''a.ts'', ''7'', sample_leak)]"
  obtain found status where r: "scan_secrets [] (map git_line ?hits) = (found, status)" by fastforce
  have "\<forall>(file, n, txt) \<in> set ?hits. CHR '':'' \<notin> set file \<and> CHR '':'' \<notin> set n" by simp
  from scanner_verdict [OF this r] sample_leak_found r show ?thesis by (auto simp: secret_matches_none)
qed

end
