(* ===== verification/JsonRound.thy ===== *)
theory JsonRound imports JsValue begin

text \<open>
  JSON.parse reads back what JSON.stringify wrote: the texts the backend stores in SQLite, posts to
  the webhook and serves over HTTP carry the value that was printed, but for what JSON cannot say -
  undefined is dropped from an object and becomes null in an array, a number that is not finite is null.
\<close>

section \<open>What a text can carry\<close>

text \<open>The end of the text, or what may follow a value inside an array or an object.\<close>

definition json_stop :: "string \<Rightarrow> bool" where
  "json_stop z \<longleftrightarrow> z = [] \<or> hd z \<in> {CHR '','', CHR '']'', CHR ''}''}"

text \<open>The printed number is one JSON number that reads back as the same double.\<close>

definition reads_back :: "(rat \<Rightarrow> string) \<Rightarrow> rat \<Rightarrow> bool" where
  "reads_back num r \<longleftrightarrow> num r \<noteq> [] \<and> (is_digit (hd (num r)) \<or> hd (num r) = CHR ''-'') \<and>
     (\<forall>z. json_stop z \<longrightarrow> read_number (num r @ z) = Some (JFin r, z))"

definition absent :: "jsval \<Rightarrow> bool" where
  "absent v \<longleftrightarrow> v = JUndef \<or> v = JOpaque"

fun json_ok :: "(rat \<Rightarrow> string) \<Rightarrow> jsval \<Rightarrow> bool" where
  "json_ok num (JNum n) = (case n of JFin r \<Rightarrow> reads_back num r | _ \<Rightarrow> True)"
| "json_ok num (JBig i) = False"
| "json_ok num (JArr vs) = (\<forall>v \<in> set vs. json_ok num v)"
| "json_ok num (JObj kvs) = (distinct (map fst kvs) \<and> (\<forall>kv \<in> set kvs. json_ok num (snd kv)))"
| "json_ok num v = True"

fun json_image :: "jsval \<Rightarrow> jsval"
  and image_items :: "jsval list \<Rightarrow> jsval list"
  and image_entries :: "(string \<times> jsval) list \<Rightarrow> (string \<times> jsval) list" where
  "json_image JUndef = JNull"
| "json_image JOpaque = JNull"
| "json_image (JNum n) = (case n of JFin r \<Rightarrow> JNum n | _ \<Rightarrow> JNull)"
| "json_image (JArr vs) = JArr (image_items vs)"
| "json_image (JObj kvs) = JObj (image_entries kvs)"
| "json_image v = v"
| "image_items [] = []"
| "image_items (v # vs) = json_image v # image_items vs"
| "image_entries [] = []"
| "image_entries ((k, v) # kvs) = (if absent v then image_entries kvs else (k, json_image v) # image_entries kvs)"

section \<open>Strings\<close>

lemma hex_val_digit_char: "n < 16 \<Longrightarrow> hex_val (hex_digit_char n) = Some n"
  by (auto simp: hex_val_def hex_digit_char_def is_digit_def digit_val_def)

lemma char_of_ccode_id [simp]: "char_of (ccode c) = c"
  by (simp add: ccode_def)

lemma char_eq_ccode: "c = d \<longleftrightarrow> ccode c = ccode d"
  by (metis char_of_ccode_id)

lemma unicode_escape_control:
  assumes "ccode c < 32"
  shows "unicode_escape (CHR ''0'') (CHR ''0'') (hex_digit_char (ccode c div 16)) (hex_digit_char (ccode c mod 16)) = Some c"
proof -
  have "hex_val (CHR ''0'') = Some 0" by (simp add: hex_val_def is_digit_def digit_val_def ccode_def)
  moreover have "16 * (ccode c div 16) + ccode c mod 16 = ccode c" by simp
  ultimately show ?thesis using assms by (simp add: unicode_escape_def hex_val_digit_char)
qed

lemma read_json_char: "read_string (json_char c @ z) = map_option (\<lambda>(w, y). (c # w, y)) (read_string z)"
proof -
  note e = simple_escape_def
  consider "c = CHR 0x22" | "c = CHR 0x5C" | "c = CHR 0x08" | "c = CHR 0x09" | "c = CHR 0x0A" | "c = CHR 0x0C" | "c = CHR 0x0D"
    | (control) "ccode c < 32" "c \<notin> {CHR 0x08, CHR 0x09, CHR 0x0A, CHR 0x0C, CHR 0x0D}"
    | (plain) "\<not> ccode c < 32" "c \<noteq> CHR 0x22" "c \<noteq> CHR 0x5C" by auto
  then show ?thesis
  proof cases
    case control
    then have "json_char c = CHR 0x5C # ''u00'' @ [hex_digit_char (ccode c div 16), hex_digit_char (ccode c mod 16)]"
      by (auto simp: json_char_def char_eq_ccode [of c] ccode_def)
    with control show ?thesis by (simp add: unicode_escape_control)
  next
    case plain
    then have "json_char c = [c]" by (auto simp: json_char_def)
    with plain show ?thesis by simp
  qed (simp_all add: json_char_def e ccode_def)
qed

lemma read_json_chars: "read_string (concat (map json_char s) @ CHR 0x22 # z) = Some (s, z)"
  by (induction s) (simp_all add: read_json_char)

section \<open>The reader on printed text\<close>

definition text_head :: "string \<Rightarrow> bool" where
  "text_head t \<longleftrightarrow> t \<noteq> [] \<and> \<not> is_json_space (hd t) \<and> hd t \<noteq> CHR '']''"

lemma text_head_skip: "text_head t \<Longrightarrow> skip_space (t @ z) = t @ z"
  by (cases t) (simp_all add: text_head_def skip_space_def)

lemma json_text_head: "json_value num v = Inr (Some t) \<Longrightarrow> json_ok num v \<Longrightarrow> text_head t"
  by (cases v) (auto simp: text_head_def json_string_def is_json_space_def ccode_def reads_back_def is_digit_def
      split: jsnum.split_asm sum.split_asm if_splits)

lemma skip_space_stop [simp]: "skip_space (CHR '','' # z) = CHR '','' # z" "skip_space (CHR '']'' # z) = CHR '']'' # z"
  "skip_space (CHR ''}'' # z) = CHR ''}'' # z" "skip_space (CHR '':'' # z) = CHR '':'' # z"
  by (simp_all add: skip_space_def is_json_space_def ccode_def)

lemma json_value_absent: "json_value num v = Inr None \<longleftrightarrow> absent v"
  by (cases v) (auto simp: absent_def split: sum.split)

lemma json_items_absent: "json_items num vs = Inr ws \<Longrightarrow> ws = [] \<longleftrightarrow> vs = []"
  by (cases vs) (auto split: sum.split_asm)

lemma json_entries_absent: "json_entries num kvs = Inr ws \<Longrightarrow> ws = [] \<longleftrightarrow> image_entries kvs = []"
proof (induction kvs arbitrary: ws)
  case (Cons kv kvs)
  obtain k v where "kv = (k, v)" by fastforce
  with Cons show ?case
    using json_value_absent [of num v] by (auto split: sum.split_asm option.split_asm)
qed simp

lemma entries_head: "json_entries num kvs = Inr ws \<Longrightarrow> ws \<noteq> [] \<Longrightarrow> \<exists>y. join_with '','' ws = CHR 0x22 # y"
proof (induction kvs arbitrary: ws)
  case (Cons kv kvs)
  obtain k v where kv: "kv = (k, v)" by fastforce
  with Cons.prems obtain w us where j: "json_value num v = Inr w" "json_entries num kvs = Inr us" by (auto split: sum.split_asm)
  show ?case
  proof (cases w)
    case None
    with Cons j kv show ?thesis by simp
  next
    case (Some t)
    with Cons.prems j kv show ?thesis by (cases us) (auto simp: json_string_def)
  qed
qed simp

lemma obj_set_new: "k \<notin> set (map fst acc) \<Longrightarrow> obj_set acc k v = acc @ [(k, v)]"
  by (induction acc) auto

lemma read_number_text:
  assumes "reads_back num r" "json_stop z" "0 < n"
  shows "read_value n (num r @ z) = Some (JNum (JFin r), z)"
proof -
  from assms(1) obtain c t where t: "num r = c # t" "is_digit c \<or> c = CHR ''-''"
    by (cases "num r") (auto simp: reads_back_def)
  then have "c \<notin> {CHR ''n'', CHR ''t'', CHR ''f'', CHR ''['', CHR ''{'', CHR 0x22}" "\<not> is_json_space c"
    by (auto simp: is_digit_def ccode_def is_json_space_def)
  with t have "read_value (Suc m) (num r @ z) = map_option (\<lambda>(r, z). (JNum r, z)) (read_number (num r @ z))" for m
    by (simp add: skip_space_def Let_def)
  with assms show ?thesis by (cases n) (simp_all add: reads_back_def)
qed

lemma read_literals:
  "0 < n \<Longrightarrow> read_value n (''null'' @ z) = Some (JNull, z)"
  "0 < n \<Longrightarrow> read_value n (''true'' @ z) = Some (JBool True, z)"
  "0 < n \<Longrightarrow> read_value n (''false'' @ z) = Some (JBool False, z)"
  by (cases n; simp add: skip_space_def is_json_space_def ccode_def Let_def)+

lemma read_string_text: "0 < n \<Longrightarrow> read_value n (json_string s @ z) = Some (JStr s, z)"
  using read_json_chars [of s z] by (cases n) (simp_all add: json_string_def skip_space_def is_json_space_def ccode_def Let_def)

lemma read_printed:
  "json_value num v = Inr (Some t) \<Longrightarrow> json_ok num v \<Longrightarrow> json_stop z \<Longrightarrow> 2 * length t < n \<Longrightarrow>
     read_value n (t @ z) = Some (json_image v, z)"
  "json_items num vs = Inr ws \<Longrightarrow> \<forall>v \<in> set vs. json_ok num v \<Longrightarrow> vs \<noteq> [] \<Longrightarrow> 2 * length (join_with '','' ws) + 1 < n \<Longrightarrow>
     read_items n (join_with '','' ws @ CHR '']'' # z) = Some (image_items vs, z)"
  "json_entries num kvs = Inr ws \<Longrightarrow> \<forall>kv \<in> set kvs. json_ok num (snd kv) \<Longrightarrow> distinct (map fst (acc @ kvs)) \<Longrightarrow> ws \<noteq> [] \<Longrightarrow>
     2 * length (join_with '','' ws) + 1 < n \<Longrightarrow>
     read_members n acc (join_with '','' ws @ CHR ''}'' # z) = Some (acc @ image_entries kvs, z)"
proof (induction num v and num vs and num kvs arbitrary: t z n and ws z n and acc ws z n rule: json_value_json_items_json_entries.induct)
  case (3 num)
  then have "t = ''null''" by simp
  with 3 read_literals(1) show ?case by simp
next
  case (4 num b)
  then have "t = (if b then ''true'' else ''false'')" by simp
  with 4 read_literals(2,3) [of n z] show ?case by (cases b) simp_all
next
  case (5 num r)
  show ?case
  proof (cases "\<exists>q. r = JFin q")
    case True
    with 5 read_number_text [of num _ z n] show ?thesis by auto
  next
    case False
    with 5 have "t = ''null''" "json_image (JNum r) = JNull" by (cases r; simp)+
    with 5 read_literals(1) show ?thesis by simp
  qed
next
  case (7 num s)
  then have "t = json_string s" by simp
  with 7 read_string_text [of n s z] show ?case by simp
next
  case (8 num vs)
  then obtain ws where ws: "json_items num vs = Inr ws" "t = CHR ''['' # join_with '','' ws @ '']''" by (auto split: sum.split_asm)
  obtain m where n: "n = Suc m" using 8 by (cases n) auto
  have sk: "skip_space (CHR ''['' # y) = CHR ''['' # y" for y by (simp add: skip_space_def is_json_space_def ccode_def)
  show ?case
  proof (cases vs)
    case Nil
    with ws show ?thesis by (simp add: n sk)
  next
    case (Cons v vs')
    with ws(1) obtain w where w: "ws = w # tl ws" "text_head w"
      using 8 json_text_head [of num v] by (auto simp: text_head_def is_json_space_def ccode_def split: sum.split_asm option.split_asm)
    then have "text_head (join_with '','' ws)" by (cases "tl ws") (auto simp: text_head_def)
    then have h: "skip_space (join_with '','' ws @ CHR '']'' # z) = join_with '','' ws @ CHR '']'' # z"
      "\<not> starts_with (join_with '','' ws @ CHR '']'' # z) '']''"
      by (rule text_head_skip) (use \<open>text_head (join_with '','' ws)\<close> in \<open>cases "join_with '','' ws"; simp add: text_head_def\<close>)
    from 8 ws n Cons have "read_items m (join_with '','' ws @ CHR '']'' # z) = Some (image_items vs, z)" by simp
    with ws(2) h show ?thesis by (simp add: n sk Let_def)
  qed
next
  case (9 num kvs)
  then obtain ws where ws: "json_entries num kvs = Inr ws" "t = CHR ''{'' # join_with '','' ws @ ''}''" by (auto split: sum.split_asm)
  obtain m where n: "n = Suc m" using 9 by (cases n) auto
  have sk: "skip_space (CHR ''{'' # y) = CHR ''{'' # y" for y by (simp add: skip_space_def is_json_space_def ccode_def)
  show ?case
  proof (cases "ws = []")
    case True
    with ws json_entries_absent [OF ws(1)] show ?thesis by (simp add: n sk)
  next
    case False
    from entries_head [OF ws(1) this] obtain y where y: "join_with '','' ws = CHR 0x22 # y" by blast
    from 9 ws n False have "read_members m [] (join_with '','' ws @ CHR ''}'' # z) = Some (image_entries kvs, z)" by simp
    with ws(2) y show ?thesis by (simp add: n sk Let_def) (simp add: skip_space_def is_json_space_def ccode_def)
  qed
next
  case (11 num v vs)
  obtain w us where j: "json_value num v = Inr w" "json_items num vs = Inr us" "ws = (case w of None \<Rightarrow> ''null'' | Some t \<Rightarrow> t) # us"
    using 11(3) by (auto split: sum.split_asm)
  let ?t = "case w of None \<Rightarrow> ''null'' | Some t \<Rightarrow> t"
  obtain m where n: "n = Suc m" using 11 by (cases n) auto
  have len: "2 * length ?t < m" using 11(6) by (cases us) (simp_all add: j(3) n)
  have v: "read_value m (?t @ y) = Some (json_image v, y)" if "json_stop y" for y
  proof (cases w)
    case None
    with j(1) have "json_image v = JNull" by (auto simp: json_value_absent absent_def)
    with None len read_literals(1) show ?thesis by simp
  next
    case (Some t)
    with 11(1) [of t y m] 11(4) j(1) that len show ?thesis by simp
  qed
  show ?case
  proof (cases "us = []")
    case True
    with j(2) json_items_absent have "vs = []" by blast
    with True v [of "CHR '']'' # z"] show ?thesis by (simp add: n j(3) json_stop_def)
  next
    case False
    with j(2) json_items_absent have vs: "vs \<noteq> []" by blast
    have J: "join_with '','' ws = ?t @ CHR '','' # join_with '','' us" using False by (cases us) (simp_all add: j(3))
    have "2 * length (join_with '','' us) + 1 < m" using 11(6) unfolding J n by simp
    with 11(2) [OF j(1) j(2) _ vs, of m z] 11(4) have "read_items m (join_with '','' us @ CHR '']'' # z) = Some (image_items vs, z)" by simp
    with v [of "CHR '','' # join_with '','' us @ CHR '']'' # z"] show ?thesis unfolding J by (simp add: n json_stop_def)
  qed
next
  case (13 num k v kvs)
  obtain w us where j: "json_value num v = Inr w" "json_entries num kvs = Inr us"
      "ws = (case w of None \<Rightarrow> us | Some t \<Rightarrow> (json_string k @ '':'' @ t) # us)"
    using 13(3) by (auto split: sum.split_asm)
  show ?case
  proof (cases w)
    case None
    with j(1) have "absent v" by (simp add: json_value_absent)
    with None 13(2) [OF j(1) j(2), of acc n z] 13 j(3) show ?thesis by simp
  next
    case (Some t)
    with j(1) have na: "\<not> absent v" using json_value_absent [of num v] by simp
    obtain m where n: "n = Suc m" using 13 by (cases n) auto
    have new: "obj_set acc k (json_image v) = acc @ [(k, json_image v)]" using 13(5) by (intro obj_set_new) auto
    have q: "skip_space (json_string k @ y) = json_string k @ y" for y
      by (simp add: json_string_def skip_space_def is_json_space_def ccode_def)
    have r: "read_string (tl (json_string k @ y)) = Some (k, y)" for y
      using read_json_chars [of k y] by (simp add: json_string_def)
    have st: "starts_with (json_string k @ y) [CHR 0x22]" for y by (simp add: json_string_def)
    have len: "2 * length t < m" using 13(7) Some by (cases us) (simp_all add: j(3) n)
    have v: "read_value m (t @ y) = Some (json_image v, y)" if "json_stop y" for y
      using 13(1) [of t y m] 13(4) j(1) Some that len by simp
    show ?thesis
    proof (cases "us = []")
      case True
      with j(2) json_entries_absent have "image_entries kvs = []" by blast
      with True Some na v [of "CHR ''}'' # z"] show ?thesis by (simp add: n j(3) json_stop_def q r st new)
    next
      case False
      have J: "join_with '','' ws = json_string k @ CHR '':'' # t @ CHR '','' # join_with '','' us"
        using False Some by (cases us) (simp_all add: j(3))
      have "2 * length (join_with '','' us) + 1 < m" using 13(7) unfolding J n by simp
      with 13(2) [OF j(1) j(2) _ _ False, of "acc @ [(k, json_image v)]" m z] 13(4,5) have
        "read_members m (acc @ [(k, json_image v)]) (join_with '','' us @ CHR ''}'' # z) =
          Some (acc @ (k, json_image v) # image_entries kvs, z)" by simp
      with na v [of "CHR '','' # join_with '','' us @ CHR ''}'' # z"] show ?thesis
        unfolding J by (simp add: n json_stop_def q r st new)
    qed
  qed
qed simp_all

text \<open>Printing and reading a value gives its image; a value JSON can say is its own image.\<close>

lemma parse_printed:
  assumes "json_value num v = Inr (Some t)" "json_ok num v"
  shows "parse_json t = Some (json_image v)"
  using read_printed(1) [OF assms, of "[]" "Suc (2 * length t)"] by (simp add: parse_json_def json_stop_def skip_space_def)

fun plain_json :: "jsval \<Rightarrow> bool" where
  "plain_json JUndef = False"
| "plain_json JOpaque = False"
| "plain_json (JBig i) = False"
| "plain_json (JNum n) = (case n of JFin r \<Rightarrow> True | _ \<Rightarrow> False)"
| "plain_json (JArr vs) = (\<forall>v \<in> set vs. plain_json v)"
| "plain_json (JObj kvs) = (\<forall>kv \<in> set kvs. plain_json (snd kv))"
| "plain_json v = True"

lemma plain_image:
  "plain_json v \<Longrightarrow> json_image v = v"
  "\<forall>v \<in> set vs. plain_json v \<Longrightarrow> image_items vs = vs"
  "\<forall>kv \<in> set kvs. plain_json (snd kv) \<Longrightarrow> image_entries kvs = kvs"
  by (induction v and vs and kvs rule: json_image_image_items_image_entries.induct)
    (auto simp: absent_def split: jsnum.split_asm jsnum.split)

lemma json_ok_prints:
  "json_ok num v \<Longrightarrow> json_value num v = Inr None \<and> absent v \<or> (\<exists>t. json_value num v = Inr (Some t))"
  "\<forall>v \<in> set vs. json_ok num v \<Longrightarrow> \<exists>ws. json_items num vs = Inr ws"
  "\<forall>kv \<in> set kvs. json_ok num (snd kv) \<Longrightarrow> \<exists>ws. json_entries num kvs = Inr ws"
  by (induction num v and num vs and num kvs rule: json_value_json_items_json_entries.induct) (auto simp: absent_def)

end
