(* ===== verification/AuditTrail.thy ===== *)
theory AuditTrail imports Server Webhook JsonRound begin

text \<open>
  A finished task from end to end: its result is stored as JSON text (backend/persistence.ts), read
  back and printed again by GET /status (backend/server.ts), and posted to the webhook
  (backend/webhook.ts). What a caller or a receiver parses is the result the task returned, up to what
  JSON cannot say.
\<close>

section \<open>Values that went through a JSON text\<close>

lemma image_items_map: "image_items vs = map json_image vs"
  by (induction vs) simp_all

lemma image_keys: "set (map fst (image_entries kvs)) \<subseteq> set (map fst kvs)"
proof (induction kvs)
  case (Cons kv kvs)
  then show ?case by (cases kv) auto
qed simp

lemma absent_image [simp]: "\<not> absent (json_image v)"
  by (cases v) (auto simp: absent_def split: jsnum.split)

lemma json_ok_image:
  "json_ok num v \<Longrightarrow> json_ok num (json_image v) \<and> json_image (json_image v) = json_image v"
  "\<forall>v \<in> set vs. json_ok num v \<Longrightarrow>
    (\<forall>v \<in> set (image_items vs). json_ok num v) \<and> image_items (image_items vs) = image_items vs"
  "distinct (map fst kvs) \<and> (\<forall>kv \<in> set kvs. json_ok num (snd kv)) \<Longrightarrow>
    (distinct (map fst (image_entries kvs)) \<and> (\<forall>kv \<in> set (image_entries kvs). json_ok num (snd kv))) \<and>
    image_entries (image_entries kvs) = image_entries kvs"
proof (induction v and vs and kvs rule: json_image_image_items_image_entries.induct)
  case (10 k v kvs)
  with image_keys [of kvs] show ?case by auto
qed (auto split: jsnum.split)

section \<open>What the audit log gives back\<close>

text \<open>The data of a stored result: undefined stays undefined, everything else went through its text.\<close>

definition stored_data :: "jsval \<Rightarrow> jsval" where
  "stored_data v = (if v = JUndef then JUndef else json_image v)"

definition stored_result :: "agent_result \<Rightarrow> agent_result" where
  "stored_result r = r\<lparr>result_data := stored_data (result_data r), result_error_type := None,
     duration_ms := None, sequence_index := None\<rparr>"

text \<open>A log whose rows can all be read and printed.\<close>

definition log_ok :: "(rat \<Rightarrow> string) \<Rightarrow> database \<Rightarrow> bool" where
  "log_ok num db \<longleftrightarrow> db_fault db = None \<and> rows_ok db \<and>
     (\<forall>row \<in> set (agent_results db). \<exists>q. row_result row = Inr q \<and> json_ok num (result_value q))"

lemma log_ok_empty [simp]: "log_ok num empty_db"
  by (simp add: log_ok_def) (simp add: empty_db_def)

lemma json_ok_result_value: "json_ok num (result_data r) \<Longrightarrow> json_ok num (result_value (r, t))"
  by (cases "result_error r"; cases "correlation_id r") (auto simp: result_value_def)

lemma save_result_row:
  assumes "save_result num r ts db = Inr db'" "json_ok num (result_data r)"
  shows "\<exists>row. agent_results db' = agent_results db @ [row] \<and> db_fault db' = None \<and>
    row_result row = Inr (stored_result r, ts)"
proof -
  from assms(1) obtain col where col: "data_column num (result_data r) = Inr col" and
    db': "agent_results db' = agent_results db @ [\<lparr>row_id = next_row_id db, row_timestamp = ts, row_task_type = task_type r,
      row_success = (if success r then 1 else 0), row_data = col, row_error = result_error r,
      row_correlation_id = correlation_id r\<rparr>]" "db_fault db' = None"
    by (auto simp: save_result_def bind_result_Inr_iff get_db_def split: option.splits)
  have "(case col of None \<Rightarrow> Some JUndef | Some t \<Rightarrow> parse_json t) = Some (stored_data (result_data r))"
    using col parse_printed [OF _ assms(2)]
    by (auto simp: data_column_def stored_data_def split: if_splits sum.splits option.splits)
  with db' show ?thesis by (simp add: row_result_def stored_result_def)
qed

lemma log_ok_save:
  assumes "save_result num r ts db = Inr db'" "json_ok num (result_data r)" "log_ok num db"
  shows "log_ok num db'"
proof -
  from save_result_row [OF assms(1,2)] obtain row where row: "agent_results db' = agent_results db @ [row]"
    "db_fault db' = None" "row_result row = Inr (stored_result r, ts)" by blast
  have "json_ok num (result_data (stored_result r))"
    using json_ok_image(1) [OF assms(2)] by (simp add: stored_result_def stored_data_def)
  then have "json_ok num (result_value (stored_result r, ts))" by (rule json_ok_result_value)
  with row assms(3) rows_ok_save [OF assms(1)] show ?thesis by (auto simp: log_ok_def)
qed

lemma map_result_all: "\<forall>x \<in> set xs. \<exists>y. f x = Inr y \<and> P y \<Longrightarrow> \<exists>ys. map_result f xs = Inr ys \<and> (\<forall>y \<in> set ys. P y)"
  by (induction xs) (auto simp: bind_result_def)

lemma select_page_subset: "set (select_page n k xs) \<subseteq> set xs"
  by (auto simp: select_page_def Let_def dest: in_set_dropD in_set_takeD split: if_splits)

lemma log_ok_page:
  assumes "log_ok num db"
  shows "\<exists>rs. get_results n k db = Inr rs \<and> (\<forall>q \<in> set rs. json_ok num (result_value q))"
proof -
  let ?rows = "select_page n k (rev (sort_key row_id (agent_results db)))"
  have "\<forall>row \<in> set ?rows. \<exists>q. row_result row = Inr q \<and> json_ok num (result_value q)"
    using assms select_page_subset [of n k "rev (sort_key row_id (agent_results db))"] by (auto simp: log_ok_def)
  from map_result_all [OF this] assms show ?thesis by (auto simp: get_results_def get_db_def log_ok_def bind_result_def)
qed

text \<open>The page of a readable log parses to the stored results.\<close>

lemma status_page_reads:
  assumes "log_ok num db"
  shows "\<exists>rs body. get_results 10 0 db = Inr rs \<and> status_page num db = json_response 200 body [] \<and>
    parse_json body = Some (JObj [(''results'', JArr (map (\<lambda>q. json_image (result_value q)) rs))])"
proof -
  from log_ok_page [OF assms] obtain rs where rs: "get_results 10 0 db = Inr rs" "\<forall>q \<in> set rs. json_ok num (result_value q)"
    by blast
  let ?v = "JObj [(''results'', JArr (map result_value rs))]"
  have ok: "json_ok num ?v" using rs(2) by auto
  from json_ok_prints(1) [OF this] obtain t where t: "json_value num ?v = Inr (Some t)" by (auto simp: absent_def)
  have "parse_json t = Some (JObj [(''results'', JArr (map (\<lambda>q. json_image (result_value q)) rs))])"
    using parse_printed [OF t ok] by (simp add: image_items_map absent_def o_def)
  moreover have "status_page num db = json_response 200 t []"
    using rs(1) t by (simp add: status_page_def bind_result_def del: json_value.simps)
  ultimately show ?thesis using rs(1) by blast
qed

lemma newest_page:
  assumes "save_result num r ts db = Inr db'" "json_ok num (result_data r)" "log_ok num db"
  shows "\<exists>older. get_results 9 0 db = Inr older \<and> get_results 10 0 db' = Inr ((stored_result r, ts) # older)"
proof -
  from save_result_row [OF assms(1,2)] obtain row where row: "agent_results db' = agent_results db @ [row]"
    "db_fault db' = None" "row_result row = Inr (stored_result r, ts)" by blast
  from log_ok_page [OF assms(3)] obtain older where o: "get_results 9 0 db = Inr older" by blast
  have f: "db_fault db = None" "rows_ok db" using assms(3) by (auto simp: log_ok_def)
  have "take 10 (rev (sort_key row_id (agent_results db'))) = row # take 9 (rev (sort_key row_id (agent_results db)))"
    using newest_first [OF assms(1) f(2)] row(1) by simp
  with row o f show ?thesis
    by (simp add: get_results_def get_db_def bind_result_def select_page_def)
qed

text \<open>
  C9. What a task returned is what GET /status shows. After a task that succeeded - on a log whose rows
  can be read, with data whose numbers print as JSON numbers - the next GET /status answers 200 and
  its body parses to the list whose first entry is this result, with the moment it was stored, its type,
  its data as JSON says them and its correlation id, followed by the nine results that were the newest
  before; the log stays readable for the tasks to come, and the request changes nothing.
\<close>

theorem finished_task_is_served:
  fixes s :: "('w, 'y) agent_sys_scheme"
  assumes "execute_task p c tt [] task cid s = (s', r)" "success r"
    and "dispatch p c tt task (s\<lparr>active_tasks := active_tasks s + 1\<rparr>) = (s1, d)"
    and "log_ok (print_num p) (store (spending s1))" "json_ok (print_num p) (result_data r)"
    and "rq_method rq = ''GET''" "rq_url rq = ''/status''"
  shows "\<exists>body older. handle_request (print_num p) c secret t rq (spending s') = (spending s', json_response 200 body []) \<and>
    get_results 9 0 (store (spending s1)) = Inr older \<and> d = Inr (result_data r) \<and>
    parse_json body = Some (JObj [(''results'', JArr (map json_image
      (JObj [(''timestamp'', JStr (iso_string p (now p s1))), (''taskType'', JStr (t_type task)), (''success'', JBool True),
         (''data'', stored_data (result_data r)), (''correlationId'', JStr cid)] # map result_value older)))]) \<and>
    log_ok (print_num p) (store (spending s'))"
  using assms(1,3)
proof (cases rule: execute_plain_cases)
  case (stored v db)
  from newest_page [OF stored(3) assms(5,4)] obtain older where older: "get_results 9 0 (store (spending s1)) = Inr older"
    "get_results 10 0 db = Inr ((stored_result r, iso_string p (now p s1)) # older)" by blast
  have ok: "log_ok (print_num p) db" by (rule log_ok_save [OF stored(3) assms(5,4)])
  have db: "store (spending s') = db" using stored(4) by (simp add: send_webhook_def)
  have e: "result_value (stored_result r, ts) = JObj [(''timestamp'', JStr ts), (''taskType'', JStr (t_type task)),
      (''success'', JBool True), (''data'', stored_data (result_data r)), (''correlationId'', JStr cid)]" for ts
    by (simp add: stored(2) ok_result_def stored_result_def result_value_def)
  from status_page_reads [OF ok] older obtain body where "status_page (print_num p) db = json_response 200 body []"
    "parse_json body = Some (JObj [(''results'', JArr (map (\<lambda>q. json_image (result_value q))
      ((stored_result r, iso_string p (now p s1)) # older)))])" by auto
  moreover from this have "handle_request (print_num p) c secret t rq (spending s') = (spending s', json_response 200 body [])"
    using assms(6,7) db by (simp add: handle_request_def)
  moreover have "d = Inr (result_data r)" using stored(1,2) by (simp add: ok_result_def)
  ultimately show ?thesis using older(1) ok db
    by (intro exI [of _ body] exI [of _ older]) (simp add: e o_def del: json_image.simps)
next
  case unsaved
  from task_failed_fields(1) [OF unsaved(3)] assms(2) show ?thesis by (simp add: failed_result_def)
next
  case failed
  from task_failed_fields(1) [OF failed(2)] assms(2) show ?thesis by (simp add: failed_result_def)
qed


definition info_tools :: "int agent_sys tool_table" where
  "info_tools = toy_tools\<lparr>account_info_tool := \<lambda>s. (s, Inr (JObj [(''id'', JStr ''G''), (''home'', JUndef)]))\<rparr>"

definition status_request :: http_request where
  "status_request = \<lparr>rq_method = ''GET'', rq_url = ''/status'', rq_authorization = None\<rparr>"

theorem finished_task_is_served_witness:
  "\<exists>s' r body. execute_task agent_toy sample_agent_config info_tools [] (toy_task ''account_info'') ''c1'' (agent_start empty_db) = (s', r) \<and>
     success r \<and> snd (handle_request (print_num agent_toy) sample_agent_config None 0 status_request (spending s')) = json_response 200 body [] \<and>
     parse_json body = Some (JObj [(''results'', JArr [JObj [(''timestamp'', JStr (iso_string agent_toy 0)), (''taskType'', JStr ''account_info''),
       (''success'', JBool True), (''data'', JObj [(''id'', JStr ''G'')]), (''correlationId'', JStr ''c1'')]])])"
proof -
  let ?s = "agent_start empty_db" and ?t = "toy_task ''account_info''"
  let ?s1 = "?s\<lparr>active_tasks := active_tasks ?s + 1\<rparr>" and ?v = "JObj [(''id'', JStr ''G''), (''home'', JUndef)]"
  have d: "dispatch agent_toy sample_agent_config info_tools ?t ?s1 = (?s1, Inr ?v)"
    by (simp add: dispatch_def plain_tools_def info_tools_def Let_def)
  obtain s' r where e: "execute_task agent_toy sample_agent_config info_tools [] ?t ''c1'' ?s = (s', r)" by fastforce
  have nf: "db_fault empty_db = None" by (simp add: empty_db_def)
  have r: "success r" "result_data r = ?v"
    using e d nf by (auto simp: execute_plain execute_inner_def Let_def save_result_def get_db_def data_column_def emit_def ok_result_def
        json_string_def send_webhook_def bind_result_def)
  have l: "log_ok (print_num agent_toy) (store (spending ?s1))" "json_ok (print_num agent_toy) (result_data r)" by (simp_all add: r)
  have q: "rq_method status_request = ''GET''" "rq_url status_request = ''/status''" by (simp_all add: status_request_def)
  from finished_task_is_served [OF e r(1) d l q, of None 0] obtain body older where
    b: "snd (handle_request (print_num agent_toy) sample_agent_config None 0 status_request (spending s')) = json_response 200 body []"
    "get_results 9 0 (store (spending ?s1)) = Inr older"
    "parse_json body = Some (JObj [(''results'', JArr (map json_image
      (JObj [(''timestamp'', JStr (iso_string agent_toy (now agent_toy ?s1))), (''taskType'', JStr (t_type ?t)), (''success'', JBool True),
         (''data'', stored_data (result_data r)), (''correlationId'', JStr ''c1'')] # map result_value older)))])" by auto
  have "older = []" using b(2) by (simp add: get_results_def get_db_def empty_db_def select_page_def)
  moreover have "stored_data (result_data r) = JObj [(''id'', JStr ''G'')]" by (simp add: r stored_data_def absent_def)
  ultimately have "parse_json body = Some (JObj [(''results'', JArr [JObj [(''timestamp'', JStr (iso_string agent_toy 0)),
      (''taskType'', JStr ''account_info''), (''success'', JBool True), (''data'', JObj [(''id'', JStr ''G'')]), (''correlationId'', JStr ''c1'')]])])"
    using b(3) by (simp add: absent_def now_def)
  with e r(1) b(1) show ?thesis by blast
qed

section \<open>What the webhook receives\<close>

text \<open>A hexadecimal digest in lower case, as \<open>digest('hex')\<close> is documented to give for SHA-256.\<close>

definition hex_digests :: "('w, 'x) hook_platform_scheme \<Rightarrow> bool" where
  "hex_digests p \<longleftrightarrow> (\<forall>k m. is_hex64 (hmac_sha256_hex p k m))"

lemma sent_posts:
  assumes "(url, body, hs) \<in> set (posts (dispatch_webhook p c r m i s))" "(url, body, hs) \<notin> set (posts s)"
  shows "WEBHOOK_URL c = Some url \<and> url \<noteq> [] \<and> json_value (print_num p) (result_json r) = Inr (Some body) \<and> hs = hook_headers p c body"
proof -
  from assms obtain u b where u: "WEBHOOK_URL c = Some u" "u \<noteq> []" "json_value (print_num p) (result_json r) = Inr (Some b)"
    by (fastforce simp: dispatch_webhook_def split: option.splits sum.splits if_splits)
  let ?d = "case i of None \<Rightarrow> 1000 | Some d \<Rightarrow> d" and ?n = "nat (case m of None \<Rightarrow> 3 | Some m \<Rightarrow> m)"
  from deliver_posts obtain k where "posts (deliver p u b (hook_headers p c b) ?d 1 ?n s) = posts s @ replicate k (u, b, hook_headers p c b)"
    by blast
  with assms u show ?thesis by (auto simp: dispatch_webhook_def split: if_splits)
qed

text \<open>
  C10. A receiver can trust what it gets. Every request a delivery adds goes to WEBHOOK\_URL with a
  body that parses to the task's result, whatever the attempts; with a WEBHOOK\_SECRET its
  X-Vela-Signature header is accepted for exactly that body, and in either case of digits no other
  signature is; without one there is no such header.
\<close>

theorem delivered_webhooks_verify:
  assumes "hex_digests p" "json_ok (print_num p) (result_json r)"
    and "(url, body, hs) \<in> set (posts (dispatch_webhook p c r m i s))" "(url, body, hs) \<notin> set (posts s)"
  shows "WEBHOOK_URL c = Some url \<and> parse_json body = Some (json_image (result_json r)) \<and>
    (case WEBHOOK_SECRET c of
       Some (x # k) \<Rightarrow> (\<exists>sig. map_of hs ''X-Vela-Signature'' = Some sig \<and> verify_webhook_signature p body (JStr sig) (x # k) \<and>
         (\<forall>other. verify_webhook_signature p body (JStr other) (x # k) \<longrightarrow> to_lower other = to_lower sig))
     | _ \<Rightarrow> map_of hs ''X-Vela-Signature'' = None)"
proof -
  note sent = sent_posts [OF assms(3,4)]
  have read: "parse_json body = Some (json_image (result_json r))" using sent parse_printed [OF _ assms(2)] by blast
  have sig: "verify_webhook_signature p body (JStr (sign_payload p body k)) k"
    "verify_webhook_signature p body (JStr other) k \<Longrightarrow> to_lower other = to_lower (sign_payload p body k)" for k other
  proof -
    have h: "is_hex64 (sign_payload p body k)" using assms(1) by (simp add: hex_digests_def sign_payload_def)
    then show "verify_webhook_signature p body (JStr (sign_payload p body k)) k" by (simp add: verify_webhook_signature_def)
    assume "verify_webhook_signature p body (JStr other) k"
    with h hex_bytes_eq [of other "sign_payload p body k"] show "to_lower other = to_lower (sign_payload p body k)"
      by (auto simp: verify_webhook_signature_def is_hex64_def Let_def split: if_splits)
  qed
  show ?thesis using sent read sig by (auto simp: hook_headers_def split: option.split list.split)
qed

definition hook_config :: agent_config where
  "hook_config = sample_agent_config\<lparr>WEBHOOK_URL := Some ''https://hook'', WEBHOOK_SECRET := Some ''k''\<rparr>"

theorem delivered_webhooks_verify_witness:
  "\<exists>url body hs sig. (url, body, hs) \<in> set (posts (dispatch_webhook (hook_toy (JObj [(''status'', JNum (JFin 200))])) hook_config
       (ok_result ''swap'' (JStr ''x'') ''c1'') None None (sys.extend (initial_sys 0) (hook_run.fields [] [])))) \<and>
     map_of hs ''X-Vela-Signature'' = Some sig \<and> verify_webhook_signature (hook_toy (JObj [(''status'', JNum (JFin 200))])) body (JStr sig) ''k''"
proof -
  let ?p = "hook_toy (JObj [(''status'', JNum (JFin 200))])" and ?r = "ok_result ''swap'' (JStr ''x'') ''c1''"
  let ?s = "sys.extend (initial_sys 0) (hook_run.fields [] [])"
  have n: "posts ?s = []" by (simp add: sys.defs hook_run.defs)
  have h: "hex_digests ?p" by (simp add: hex_digests_def is_hex64_def is_hex_char_def is_digit_def ccode_def)
  have ok: "json_ok (print_num ?p) (result_json ?r)" by (simp add: result_json_def ok_result_def)
  from json_ok_prints(1) [OF ok] obtain body where b: "json_value (print_num ?p) (result_json ?r) = Inr (Some body)"
    by (auto simp: result_json_def absent_def Let_def)
  let ?hs = "hook_headers ?p hook_config body"
  have w: "WEBHOOK_URL hook_config = Some ''https://hook''" "WEBHOOK_SECRET hook_config = Some ''k''" by (simp_all add: hook_config_def)
  obtain s1 q where po: "post_once ?p ''https://hook'' body ?hs ?s = (s1, q)" by fastforce
  have "q = Inr ()" using po by (auto simp: post_once_def outside_def andThen_const field_def obj_get_def)
  with post_once_frame(1) [OF po] n po b w have m: "(''https://hook'', body, ?hs) \<in> set (posts (dispatch_webhook ?p hook_config ?r None None ?s))"
    by (simp add: dispatch_webhook_def eval_nat_numeral)
  have "(''https://hook'', body, ?hs) \<notin> set (posts ?s)" by (simp add: n)
  from delivered_webhooks_verify [OF h ok m this] w(2) obtain sig where
    "map_of ?hs ''X-Vela-Signature'' = Some sig" "verify_webhook_signature ?p body (JStr sig) ''k''" by auto
  with m show ?thesis by blast
qed

end
