(* ===== verification/Breaker.thy ===== *)
theory Breaker imports Prelude begin

text \<open>
  The circuit breaker of backend/rpc\_client.ts: its options, the handlers that log its changes of
  state, and the reset of its statistics when it closes. The breaker itself is the package opossum,
  a parameter: what it does with a call or a timer, which properties keyed by a symbol its status has,
  and what its statistics say. The handlers run inside the package's step, once for each event.
\<close>

section \<open>Options\<close>

record breaker_options =
  error_threshold_percentage :: int
  reset_timeout :: int
  call_timeout :: int
  volume_threshold :: nat
  rolling_count_timeout :: int
  rolling_count_buckets :: nat

definition RPC_BREAKER_OPTIONS :: breaker_options where
  "RPC_BREAKER_OPTIONS = \<lparr>error_threshold_percentage = 50, reset_timeout = 30000, call_timeout = 10000,
     volume_threshold = 5, rolling_count_timeout = 30000, rolling_count_buckets = 10\<rparr>"

section \<open>The rolling window\<close>

text \<open>A bucket of the window; \<open>percentiles\<close> is an object of numbers and \<open>latency_times\<close> an array.\<close>

record bucket =
  failures :: nat
  fallbacks :: nat
  successes :: nat
  rejects :: nat
  fires :: nat
  timeouts :: nat
  cache_hits :: nat
  cache_misses :: nat
  semaphore_rejections :: nat
  percentiles :: "(string \<times> nat) list"
  latency_times :: "nat list"

definition cleared_bucket :: bucket where
  "cleared_bucket = \<lparr>failures = 0, fallbacks = 0, successes = 0, rejects = 0, fires = 0, timeouts = 0, cache_hits = 0,
     cache_misses = 0, semaphore_rejections = 0, percentiles = [], latency_times = []\<rparr>"

text \<open>The properties of \<open>breaker.status\<close> that are keyed by a symbol, in their order: the text of the
  symbol and the buckets it holds, None for undefined.\<close>

type_synonym symbol_props = "(string \<times> bucket list option) list"

text \<open>\<open>resetBreakerStats\<close>: the first property whose symbol prints as \<open>Symbol(window)\<close>, if it has a
  value, gets every bucket zeroed in place.\<close>

fun reset_breaker_stats :: "symbol_props \<Rightarrow> symbol_props" where
  "reset_breaker_stats [] = []"
| "reset_breaker_stats ((k, w) # ps) =
     (if k = ''Symbol(window)'' then (k, map_option (map (\<lambda>bucket. cleared_bucket)) w) # ps
      else (k, w) # reset_breaker_stats ps)"

section \<open>The package and the handlers\<close>

datatype breaker_event = Opened | HalfOpened | Closed

text \<open>What reaches the breaker: a call of \<open>fire\<close>, the outcome of the action of an earlier call, or the
  passing of time.\<close>

datatype breaker_input = Fire | Settle "string + string" | Tick int

text \<open>\<open>'b\<close> is a breaker as the package keeps it. A step ends at the first event it emits, so that the
  handlers run before the package goes on; \<open>put_symbols\<close> is the assignment to the properties.\<close>

record 'b opossum =
  new_breaker :: "breaker_options \<Rightarrow> string \<Rightarrow> 'b"
  advance :: "'b \<Rightarrow> breaker_input \<Rightarrow> 'b \<times> breaker_event option"
  is_closed :: "'b \<Rightarrow> bool"
  options_of :: "'b \<Rightarrow> breaker_options"
  symbols :: "'b \<Rightarrow> symbol_props"
  put_symbols :: "symbol_props \<Rightarrow> 'b \<Rightarrow> 'b"
  stat_failures :: "'b \<Rightarrow> nat"
  stat_successes :: "'b \<Rightarrow> nat"

text \<open>A log entry of the handlers: the circuit's name with what the message reports.\<close>

datatype circuit_log =
    CircuitOpened string nat nat int int
  | CircuitHalfOpen string
  | CircuitClosed string nat nat

record 'b breaker_run =
  breaker :: 'b
  circuit :: string
  emitted :: "breaker_event list"
  circuit_entries :: "circuit_log list"

definition log_circuit :: "circuit_log \<Rightarrow> 'b breaker_run \<Rightarrow> 'b breaker_run" where
  "log_circuit e r = r\<lparr>circuit_entries := circuit_entries r @ [e]\<rparr>"

text \<open>The three handlers of \<open>attachBreakerTelemetry\<close>.\<close>

definition on_breaker_event :: "'b opossum \<Rightarrow> breaker_event \<Rightarrow> 'b breaker_run \<Rightarrow> 'b breaker_run" where
  "on_breaker_event pkg ev r =
     (case ev of
        Opened \<Rightarrow> log_circuit (CircuitOpened (circuit r) (stat_failures pkg (breaker r)) (stat_successes pkg (breaker r))
            (call_timeout RPC_BREAKER_OPTIONS) (reset_timeout RPC_BREAKER_OPTIONS)) r
      | HalfOpened \<Rightarrow> log_circuit (CircuitHalfOpen (circuit r)) r
      | Closed \<Rightarrow>
          (let b = put_symbols pkg (reset_breaker_stats (symbols pkg (breaker r))) (breaker r)
           in log_circuit (CircuitClosed (circuit r) (stat_failures pkg b) (stat_successes pkg b)) (r\<lparr>breaker := b\<rparr>)))"

definition create_rpc_breaker :: "'b opossum \<Rightarrow> string \<Rightarrow> 'b breaker_run" where
  "create_rpc_breaker pkg name =
     \<lparr>breaker = new_breaker pkg RPC_BREAKER_OPTIONS name, circuit = name, emitted = [], circuit_entries = []\<rparr>"

definition breaker_step :: "'b opossum \<Rightarrow> breaker_input \<Rightarrow> 'b breaker_run \<Rightarrow> 'b breaker_run" where
  "breaker_step pkg i r =
     (let (b, ev) = advance pkg (breaker r) i; r1 = r\<lparr>breaker := b\<rparr>
      in case ev of None \<Rightarrow> r1 | Some e \<Rightarrow> on_breaker_event pkg e (r1\<lparr>emitted := emitted r1 @ [e]\<rparr>))"

definition breaker_steps :: "'b opossum \<Rightarrow> breaker_input list \<Rightarrow> 'b breaker_run \<Rightarrow> 'b breaker_run" where
  "breaker_steps pkg xs r = fold (breaker_step pkg) xs r"

lemma breaker_steps_simps [simp]:
  "breaker_steps pkg [] r = r" "breaker_steps pkg (i # xs) r = breaker_steps pkg xs (breaker_step pkg i r)"
  by (simp_all add: breaker_steps_def)

section \<open>What opossum documents\<close>

definition window_total :: "(bucket \<Rightarrow> nat) \<Rightarrow> symbol_props \<Rightarrow> nat" where
  "window_total f ps = (case map_of ps ''Symbol(window)'' of Some (Some bs) \<Rightarrow> sum_list (map f bs) | _ \<Rightarrow> 0)"

text \<open>The statistics are the totals of the window; a call counts as one fire of it, and buckets only
  leave it otherwise; \<open>volumeThreshold\<close> is \<open>the minimum number of requests within the rolling
  statistical window that must exist before the circuit breaker can open\<close>, and a circuit that is
  closed stays so until it opens. The options and the names of the properties do not change.\<close>

definition opossum_ok :: "'b opossum \<Rightarrow> bool" where
  "opossum_ok pkg \<longleftrightarrow>
     (\<forall>b. stat_failures pkg b = window_total failures (symbols pkg b) \<and> stat_successes pkg b = window_total successes (symbols pkg b)) \<and>
     (\<forall>opts name. options_of pkg (new_breaker pkg opts name) = opts) \<and>
     (\<forall>ps b. map fst ps = map fst (symbols pkg b) \<longrightarrow> symbols pkg (put_symbols pkg ps b) = ps) \<and>
     (\<forall>ps b. options_of pkg (put_symbols pkg ps b) = options_of pkg b \<and> is_closed pkg (put_symbols pkg ps b) = is_closed pkg b) \<and>
     (\<forall>b i. case advance pkg b i of (b', ev) \<Rightarrow>
        options_of pkg b' = options_of pkg b \<and>
        window_total fires (symbols pkg b') \<le> window_total fires (symbols pkg b) + (if i = Fire then 1 else 0) \<and>
        (ev = Some Closed \<longrightarrow> is_closed pkg b') \<and>
        (is_closed pkg b \<and> ev \<noteq> Some Opened \<longrightarrow> is_closed pkg b') \<and>
        (is_closed pkg b \<and> ev = Some Opened \<longrightarrow> volume_threshold (options_of pkg b') \<le> window_total fires (symbols pkg b')))"

lemma opossum_step:
  assumes "opossum_ok pkg" "advance pkg b i = (b', ev)"
  shows "options_of pkg b' = options_of pkg b"
    "window_total fires (symbols pkg b') \<le> window_total fires (symbols pkg b) + (if i = Fire then 1 else 0)"
    "ev = Some Closed \<Longrightarrow> is_closed pkg b'"
    "is_closed pkg b \<Longrightarrow> ev \<noteq> Some Opened \<Longrightarrow> is_closed pkg b'"
    "is_closed pkg b \<Longrightarrow> ev = Some Opened \<Longrightarrow> volume_threshold (options_of pkg b') \<le> window_total fires (symbols pkg b')"
proof -
  have "\<forall>b i. case advance pkg b i of (b', ev) \<Rightarrow>
        options_of pkg b' = options_of pkg b \<and>
        window_total fires (symbols pkg b') \<le> window_total fires (symbols pkg b) + (if i = Fire then 1 else 0) \<and>
        (ev = Some Closed \<longrightarrow> is_closed pkg b') \<and>
        (is_closed pkg b \<and> ev \<noteq> Some Opened \<longrightarrow> is_closed pkg b') \<and>
        (is_closed pkg b \<and> ev = Some Opened \<longrightarrow> volume_threshold (options_of pkg b') \<le> window_total fires (symbols pkg b'))"
    using assms(1) unfolding opossum_ok_def by (elim conjE)
  from this [rule_format, of b i, unfolded assms(2) prod.case]
  show "options_of pkg b' = options_of pkg b"
    "window_total fires (symbols pkg b') \<le> window_total fires (symbols pkg b) + (if i = Fire then 1 else 0)"
    "ev = Some Closed \<Longrightarrow> is_closed pkg b'"
    "is_closed pkg b \<Longrightarrow> ev \<noteq> Some Opened \<Longrightarrow> is_closed pkg b'"
    "is_closed pkg b \<Longrightarrow> ev = Some Opened \<Longrightarrow> volume_threshold (options_of pkg b') \<le> window_total fires (symbols pkg b')"
    by blast+
qed

section \<open>Properties\<close>

lemma reset_keys: "map fst (reset_breaker_stats ps) = map fst ps"
  by (induction ps rule: reset_breaker_stats.induct) simp_all

lemma reset_total: "f cleared_bucket = 0 \<Longrightarrow> window_total f (reset_breaker_stats ps) = 0"
  by (induction ps rule: reset_breaker_stats.induct) (auto simp: window_total_def o_def split: option.splits)

text \<open>The handler of \<open>close\<close> leaves a window of zeros, so what it logs is zero.\<close>

lemma closed_handler:
  assumes "opossum_ok pkg" "on_breaker_event pkg Closed r = r'"
  shows "window_total fires (symbols pkg (breaker r')) = 0" "options_of pkg (breaker r') = options_of pkg (breaker r)"
    "is_closed pkg (breaker r') = is_closed pkg (breaker r)" "emitted r' = emitted r" "circuit r' = circuit r"
    "circuit_entries r' = circuit_entries r @ [CircuitClosed (circuit r) 0 0]"
proof -
  let ?ps = "reset_breaker_stats (symbols pkg (breaker r))"
  have p: "symbols pkg (put_symbols pkg ?ps (breaker r)) = ?ps"
    using assms(1) reset_keys [of "symbols pkg (breaker r)"] by (simp add: opossum_ok_def)
  have z: "window_total fires ?ps = 0" "window_total failures ?ps = 0" "window_total successes ?ps = 0"
    by (rule reset_total; simp add: cleared_bucket_def)+
  with assms p show "window_total fires (symbols pkg (breaker r')) = 0" "options_of pkg (breaker r') = options_of pkg (breaker r)"
    "is_closed pkg (breaker r') = is_closed pkg (breaker r)" "emitted r' = emitted r" "circuit r' = circuit r"
    "circuit_entries r' = circuit_entries r @ [CircuitClosed (circuit r) 0 0]"
    by (auto simp: on_breaker_event_def Let_def log_circuit_def opossum_ok_def)
qed

lemma breaker_step_cases:
  assumes "opossum_ok pkg" "breaker_step pkg i r = r'"
  shows "options_of pkg (breaker r') = options_of pkg (breaker r)" "circuit r' = circuit r"
    "window_total fires (symbols pkg (breaker r')) \<le> window_total fires (symbols pkg (breaker r)) + (if i = Fire then 1 else 0)"
    "is_closed pkg (breaker r) \<Longrightarrow> window_total fires (symbols pkg (breaker r)) + (if i = Fire then 1 else 0) <
       volume_threshold (options_of pkg (breaker r)) \<Longrightarrow>
       is_closed pkg (breaker r') \<and> (\<exists>es. emitted r' = emitted r @ es \<and> Opened \<notin> set es)"
proof -
  obtain b ev where a: "advance pkg (breaker r) i = (b, ev)" by fastforce
  note st = opossum_step [OF assms(1) a]
  consider (quiet) "ev = None" "r' = r\<lparr>breaker := b\<rparr>"
    | (closed) "ev = Some Closed" "r' = on_breaker_event pkg Closed (r\<lparr>breaker := b, emitted := emitted r @ [Closed]\<rparr>)"
    | (other) e where "ev = Some e" "e \<noteq> Closed" "breaker r' = b" "emitted r' = emitted r @ [e]" "circuit r' = circuit r"
    using assms(2) a
    by (cases ev; cases "the ev") (auto simp: breaker_step_def Let_def on_breaker_event_def log_circuit_def)
  note cases = this
  from cases show "options_of pkg (breaker r') = options_of pkg (breaker r)"
    by cases (use st closed_handler [OF assms(1)] in auto)
  from cases show "circuit r' = circuit r"
    by cases (use closed_handler [OF assms(1)] in auto)
  from cases show "window_total fires (symbols pkg (breaker r')) \<le> window_total fires (symbols pkg (breaker r)) + (if i = Fire then 1 else 0)"
    by cases (use st(2) closed_handler(1) [OF assms(1)] in auto)
  assume c: "is_closed pkg (breaker r)" "window_total fires (symbols pkg (breaker r)) + (if i = Fire then 1 else 0) <
       volume_threshold (options_of pkg (breaker r))"
  then have "ev \<noteq> Some Opened" using st(1,2,5) by auto
  with cases show "is_closed pkg (breaker r') \<and> (\<exists>es. emitted r' = emitted r @ es \<and> Opened \<notin> set es)"
  proof cases
    case closed
    with st(3) closed_handler(3,4) [OF assms(1) closed(2) [symmetric]] show ?thesis by auto
  qed (use st(4) c(1) in auto)
qed

lemma closed_stays:
  assumes "opossum_ok pkg" "is_closed pkg (breaker r)"
    and "window_total fires (symbols pkg (breaker r)) + length (filter (\<lambda>i. i = Fire) ys) < volume_threshold (options_of pkg (breaker r))"
  shows "is_closed pkg (breaker (breaker_steps pkg ys r)) \<and>
    (\<exists>es. emitted (breaker_steps pkg ys r) = emitted r @ es \<and> Opened \<notin> set es)"
  using assms(2,3)
proof (induction ys arbitrary: r)
  case (Cons i ys)
  let ?r = "breaker_step pkg i r"
  note st = breaker_step_cases [OF assms(1) refl, where i = i and r = r]
  from st(4) Cons.prems have h: "is_closed pkg (breaker ?r)" "\<exists>es. emitted ?r = emitted r @ es \<and> Opened \<notin> set es"
    by (auto split: if_splits)
  have "window_total fires (symbols pkg (breaker ?r)) + length (filter (\<lambda>i. i = Fire) ys) < volume_threshold (options_of pkg (breaker ?r))"
    using Cons.prems(2) st(1,3) by (auto split: if_splits)
  with Cons.IH [of ?r] h show ?case by auto
qed simp

lemma breaker_steps_options:
  assumes "opossum_ok pkg"
  shows "options_of pkg (breaker (breaker_steps pkg xs r)) = options_of pkg (breaker r) \<and> circuit (breaker_steps pkg xs r) = circuit r"
proof (induction xs arbitrary: r)
  case (Cons i xs)
  with breaker_step_cases(1,2) [OF assms refl, where i = i and r = r] show ?case by simp
qed simp

text \<open>
  C14. A recovered circuit forgets its failures. Whatever a breaker of createRpcBreaker went through, when
  it closes, its statistics are zero - the entry the handler logs reports no failure and no success -
  and it does not open again before five more calls were made, however they and the calls still
  pending end; the failures of the time before the recovery do not count.
\<close>

theorem recovered_circuit_starts_afresh:
  assumes "opossum_ok pkg" "r = breaker_steps pkg xs (create_rpc_breaker pkg name)"
    and "breaker_step pkg i r = r'" "emitted r' = emitted r @ [Closed]"
    and "length (filter (\<lambda>i. i = Fire) ys) < 5"
  shows "circuit_entries r' = circuit_entries r @ [CircuitClosed name 0 0] \<and>
    is_closed pkg (breaker (breaker_steps pkg ys r')) \<and>
    Opened \<notin> set (drop (length (emitted r')) (emitted (breaker_steps pkg ys r')))"
proof -
  have opt: "options_of pkg (breaker r) = RPC_BREAKER_OPTIONS" "circuit r = name"
    using breaker_steps_options [OF assms(1), of xs "create_rpc_breaker pkg name"] assms(1,2)
    by (simp_all add: create_rpc_breaker_def opossum_ok_def)
  obtain b ev where a: "advance pkg (breaker r) i = (b, ev)" by fastforce
  let ?q = "r\<lparr>breaker := b, emitted := emitted r @ [Closed]\<rparr>"
  have ev: "ev = Some Closed" "r' = on_breaker_event pkg Closed ?q"
    using assms(3,4) a by (cases ev; cases "the ev"; auto simp: breaker_step_def Let_def on_breaker_event_def log_circuit_def)+
  note h = closed_handler [OF assms(1) ev(2) [symmetric]] and st = opossum_step [OF assms(1) a]
  have "is_closed pkg (breaker r')" "volume_threshold (options_of pkg (breaker r')) = 5"
    using h(2,3) st(1,3) ev(1) opt by (simp_all add: RPC_BREAKER_OPTIONS_def)
  with closed_stays [OF assms(1), of r' ys] h(1) assms(5) have
    "is_closed pkg (breaker (breaker_steps pkg ys r'))" "\<exists>es. emitted (breaker_steps pkg ys r') = emitted r' @ es \<and> Opened \<notin> set es" by auto
  with h(6) opt(2) show ?thesis by auto
qed

text \<open>A concrete breaker that keeps what the documentation says, for the witness.\<close>

record small_breaker =
  sb_options :: breaker_options
  sb_closed :: bool
  sb_window :: "bucket list option"

definition sb_count :: "(bucket \<Rightarrow> bucket) \<Rightarrow> small_breaker \<Rightarrow> small_breaker" where
  "sb_count f b = (case sb_window b of Some (w # ws) \<Rightarrow> b\<lparr>sb_window := Some (f w # ws)\<rparr> | _ \<Rightarrow> b)"

definition sb_symbols :: "small_breaker \<Rightarrow> symbol_props" where
  "sb_symbols b = [(''Symbol(window)'', sb_window b)]"

definition sb_advance :: "small_breaker \<Rightarrow> breaker_input \<Rightarrow> small_breaker \<times> breaker_event option" where
  "sb_advance b i =
     (case i of
        Fire \<Rightarrow> (sb_count (\<lambda>w. w\<lparr>fires := fires w + 1\<rparr>) b, None)
      | Settle (Inl e) \<Rightarrow>
          (let b' = sb_count (\<lambda>w. w\<lparr>failures := failures w + 1\<rparr>) b in
           if sb_closed b \<and> volume_threshold (sb_options b) \<le> window_total fires (sb_symbols b')
           then (b'\<lparr>sb_closed := False\<rparr>, Some Opened) else (b', None))
      | Settle (Inr v) \<Rightarrow>
          (let b' = sb_count (\<lambda>w. w\<lparr>successes := successes w + 1\<rparr>) b in
           if sb_closed b then (b', None) else (b'\<lparr>sb_closed := True\<rparr>, Some Closed))
      | Tick n \<Rightarrow> (b, if sb_closed b then None else Some HalfOpened))"

definition small_opossum :: "small_breaker opossum" where
  "small_opossum = \<lparr>new_breaker = \<lambda>opts name. \<lparr>sb_options = opts, sb_closed = True, sb_window = Some [cleared_bucket, cleared_bucket]\<rparr>,
     advance = sb_advance, is_closed = sb_closed, options_of = sb_options, symbols = sb_symbols,
     put_symbols = \<lambda>ps b. (case ps of [(l, w)] \<Rightarrow> b\<lparr>sb_window := w\<rparr> | _ \<Rightarrow> b),
     stat_failures = \<lambda>b. window_total failures (sb_symbols b), stat_successes = \<lambda>b. window_total successes (sb_symbols b)\<rparr>"

lemma sb_count_frame [simp]: "sb_options (sb_count f b) = sb_options b" "sb_closed (sb_count f b) = sb_closed b"
  by (auto simp: sb_count_def split: option.split list.split)

lemma sb_count_total:
  "(\<And>w. fires (f w) \<le> fires w + k) \<Longrightarrow> window_total fires (sb_symbols (sb_count f b)) \<le> window_total fires (sb_symbols b) + k"
  by (auto simp: sb_count_def sb_symbols_def window_total_def split: option.split list.split)

lemma sb_symbols_update [simp]: "sb_symbols (b\<lparr>sb_closed := x\<rparr>) = sb_symbols b"
  by (simp add: sb_symbols_def)

lemma sb_advance_ok:
  "case sb_advance b i of (b', ev) \<Rightarrow>
     sb_options b' = sb_options b \<and>
     window_total fires (sb_symbols b') \<le> window_total fires (sb_symbols b) + (if i = Fire then 1 else 0) \<and>
     (ev = Some Closed \<longrightarrow> sb_closed b') \<and> (sb_closed b \<and> ev \<noteq> Some Opened \<longrightarrow> sb_closed b') \<and>
     (sb_closed b \<and> ev = Some Opened \<longrightarrow> volume_threshold (sb_options b') \<le> window_total fires (sb_symbols b'))"
proof (cases i)
  case Fire
  then show ?thesis using sb_count_total [of "\<lambda>w. w\<lparr>fires := fires w + 1\<rparr>" 1 b] by (simp add: sb_advance_def)
next
  case (Settle r)
  then show ?thesis
    using sb_count_total [of "\<lambda>w. w\<lparr>failures := failures w + 1\<rparr>" 0 b] sb_count_total [of "\<lambda>w. w\<lparr>successes := successes w + 1\<rparr>" 0 b]
    by (cases r) (simp_all add: sb_advance_def Let_def)
qed (simp add: sb_advance_def)

lemma small_opossum_ok: "opossum_ok small_opossum"
proof -
  have "sb_symbols (b\<lparr>sb_window := w\<rparr>) = [(''Symbol(window)'', w)]" for b w by (simp add: sb_symbols_def)
  then have keys: "map fst ps = map fst (sb_symbols b) \<Longrightarrow>
      sb_symbols (case ps of [(l, w)] \<Rightarrow> b\<lparr>sb_window := w\<rparr> | _ \<Rightarrow> b) = ps" for ps b
    by (cases ps; cases "tl ps") (auto simp: sb_symbols_def)
  show ?thesis
    using keys sb_advance_ok by (simp add: opossum_ok_def small_opossum_def split: list.split prod.split)
qed

definition outage :: "breaker_input list" where
  "outage = [Fire, Fire, Fire, Fire, Fire, Settle (Inl ''down''), Tick 30001, Fire]"

theorem recovered_circuit_starts_afresh_witness:
  "let r = breaker_steps small_opossum outage (create_rpc_breaker small_opossum ''horizon'');
       r' = breaker_step small_opossum (Settle (Inr ''ok'')) r
   in emitted r' = [Opened, HalfOpened, Closed] \<and> last (circuit_entries r') = CircuitClosed ''horizon'' 0 0 \<and>
      Opened \<notin> set (drop 3 (emitted (breaker_steps small_opossum [Fire, Fire, Settle (Inl ''down''), Settle (Inl ''down'')] r')))"
proof -
  let ?r = "breaker_steps small_opossum outage (create_rpc_breaker small_opossum ''horizon'')"
  let ?r' = "breaker_step small_opossum (Settle (Inr ''ok'')) ?r"
  have e: "emitted ?r = [Opened, HalfOpened]" "emitted ?r' = [Opened, HalfOpened, Closed]" by code_simp+
  then have c: "emitted ?r' = emitted ?r @ [Closed]" by simp
  have "length (filter (\<lambda>i. i = Fire) [Fire, Fire, Settle (Inl ''down''), Settle (Inl ''down'')]) < 5" by simp
  note h = recovered_circuit_starts_afresh [OF small_opossum_ok refl refl c this]
  have "length (emitted ?r') = 3" by (simp only: e) simp
  with h have "Opened \<notin> set (drop 3 (emitted (breaker_steps small_opossum [Fire, Fire, Settle (Inl ''down''), Settle (Inl ''down'')] ?r')))"
    by metis
  moreover have "last (circuit_entries ?r') = CircuitClosed ''horizon'' 0 0" using h by (metis last_snoc)
  ultimately show ?thesis using e(2) unfolding Let_def by blast
qed

end
