(* ===== verification/StructuredLog.thy ===== *)
theory StructuredLog imports Agent begin

text \<open>
  The structured logger of backend/utils/logger.ts and the entry a failed task leaves in it
  (backend/agent.ts). The package pino is a parameter: what it does with the paths of \<open>redact\<close>. Fields
  the package adds itself (level, time, process) and the filter by level are its own.
\<close>

section \<open>The configuration of the package\<close>

definition REDACT_PATHS :: "string list" where
  "REDACT_PATHS = [''*.memo'', ''payload.memo'', ''data.memo'']"

record pino_options =
  pino_level :: string
  redact_paths :: "string list"
  redact_remove :: bool
  pretty_transport :: bool

text \<open>The options built from LOG\_LEVEL and NODE\_ENV when the module is loaded.\<close>

definition logger_options :: "string option \<Rightarrow> string option \<Rightarrow> pino_options" where
  "logger_options log_level node_env =
     \<lparr>pino_level = (case log_level of None \<Rightarrow> ''info'' | Some l \<Rightarrow> l), redact_paths = REDACT_PATHS, redact_remove = True,
      pretty_transport = (node_env \<noteq> Some ''production'')\<rparr>"

text \<open>\<open>createLogger\<close>: the bindings of the child logger.\<close>

definition create_logger :: "string \<Rightarrow> string option \<Rightarrow> (string \<times> jsval) list" where
  "create_logger name correlation =
     (''component'', JStr name) # (case correlation of None \<Rightarrow> [] | Some i \<Rightarrow> [(''correlationId'', JStr i)])"

definition generate_correlation_id :: "('w, 'x) agent_platform_scheme \<Rightarrow> 'w \<Rightarrow> 'w \<times> string" where
  "generate_correlation_id p w = random_uuid p w"

text \<open>What the logger writes of an object: the child's bindings and the object's own fields, redacted.\<close>

definition log_line ::
    "(string list \<Rightarrow> jsval \<Rightarrow> jsval) \<Rightarrow> pino_options \<Rightarrow> (string \<times> jsval) list \<Rightarrow> (string \<times> jsval) list \<Rightarrow> jsval" where
  "log_line redact opts bindings obj = redact (redact_paths opts) (JObj (bindings @ obj))"

text \<open>The entry of a failed task; \<open>dur\<close> is there when a middleware failed.\<close>

definition failure_fields :: "string \<Rightarrow> string \<times> jsval \<Rightarrow> int option \<Rightarrow> (string \<times> jsval) list" where
  "failure_fields ty e dur =
     [(''taskType'', JStr ty), (''error'', JStr (fst e)), (''sanitizedPayload'', snd e)] @
     (case dur of None \<Rightarrow> [] | Some n \<Rightarrow> [(''durationMs'', JNum (JFin (of_int n)))])"

definition failure_line ::
    "(string list \<Rightarrow> jsval \<Rightarrow> jsval) \<Rightarrow> pino_options \<Rightarrow> string \<Rightarrow> string \<Rightarrow> string \<times> jsval \<Rightarrow> int option \<Rightarrow> jsval" where
  "failure_line redact opts ty cid e dur =
     log_line redact opts (create_logger ''orchestrator'' (Some cid)) (failure_fields ty e dur)"

section \<open>What pino documents of its paths\<close>

text \<open>The value at a path of property names, when it is neither an object nor an array.\<close>

fun value_at :: "string list \<Rightarrow> jsval \<Rightarrow> jsval option" where
  "value_at [] v = (case v of JObj kvs \<Rightarrow> None | JArr vs \<Rightarrow> None | _ \<Rightarrow> Some v)"
| "value_at (k # ks) v = (case v of JObj kvs \<Rightarrow> (case map_of kvs k of None \<Rightarrow> None | Some w \<Rightarrow> value_at ks w) | _ \<Rightarrow> None)"

text \<open>A redaction path names a property at the depth of its last segment; \<open>*\<close> stands for any property
  of one level. Removing a property removes what is below it.\<close>

fun covers :: "string list \<Rightarrow> string list \<Rightarrow> bool" where
  "covers [] q = True"
| "covers (s # p) [] = False"
| "covers (s # p) (k # q) = ((s = ''*'' \<or> s = k) \<and> covers p q)"

definition removes_paths :: "(string list \<Rightarrow> jsval \<Rightarrow> jsval) \<Rightarrow> bool" where
  "removes_paths redact \<longleftrightarrow> (\<forall>ps v q. value_at q (redact ps v) =
     (if \<exists>path \<in> set ps. covers (split_on (CHR ''.'') path) q then None else value_at q v))"

section \<open>Properties\<close>

lemma redact_path_segments:
  "split_on (CHR ''.'') ''*.memo'' = [''*'', ''memo'']" "split_on (CHR ''.'') ''payload.memo'' = [''payload'', ''memo'']"
  "split_on (CHR ''.'') ''data.memo'' = [''data'', ''memo'']"
  by code_simp+

lemma covers_memo:
  "(\<exists>path \<in> set REDACT_PATHS. covers (split_on (CHR ''.'') path) q) \<longleftrightarrow> (\<exists>k rest. q = k # ''memo'' # rest)"
proof
  assume "\<exists>k rest. q = k # ''memo'' # rest"
  then show "\<exists>path \<in> set REDACT_PATHS. covers (split_on (CHR ''.'') path) q"
    by (auto simp: REDACT_PATHS_def redact_path_segments)
next
  assume "\<exists>path \<in> set REDACT_PATHS. covers (split_on (CHR ''.'') path) q"
  then show "\<exists>k rest. q = k # ''memo'' # rest"
    by (cases q; cases "tl q") (auto simp: REDACT_PATHS_def redact_path_segments)
qed

lemma log_line_value:
  assumes "removes_paths redact"
  shows "value_at q (log_line redact (logger_options l e) bindings obj) =
    (if \<exists>k rest. q = k # ''memo'' # rest then None else value_at q (JObj (bindings @ obj)))"
  using assms unfolding log_line_def removes_paths_def by (simp add: logger_options_def covers_memo)

text \<open>
  C19. The memo of a failed task stays out of its log entry, but only at one depth. Whatever the task, the
  level and the mode: the entry of a failed task carries its type and correlation id, nothing of
  the property \<open>memo\<close> of its payload, and no property of the payload whose name speaks of a secret; but
  a memo nested one level deeper in the payload is written as it is, and so is a memo at the top
  level of any entry, although the comment promises memos are stripped at every depth.
\<close>

theorem failed_task_log_hides_memo:
  fixes s :: "('w, 'y) agent_sys_scheme"
  assumes "removes_paths redact" "execute_task p c tt [] task cid s = (s', r)" "\<not> success r"
  shows "\<exists>e. last (failure_log s') = e \<and> no_key sensitive_payload_key (snd e) \<and>
    (let line = failure_line redact (logger_options lv env) (t_type task) cid e None in
      value_at [''taskType''] line = Some (JStr (t_type task)) \<and> value_at [''correlationId''] line = Some (JStr cid) \<and>
      value_at (''sanitizedPayload'' # ''memo'' # q) line = None \<and>
      (k \<noteq> ''memo'' \<longrightarrow> value_at (''sanitizedPayload'' # k # ''memo'' # q) line = value_at (k # ''memo'' # q) (sanitize_payload (t_payload task)))) \<and>
    value_at [''memo''] (log_line redact (logger_options lv env) [] [(''memo'', JStr m)]) = Some (JStr m)"
proof -
  obtain s1 d where d: "dispatch p c tt task (s\<lparr>active_tasks := active_tasks s + 1\<rparr>) = (s1, d)" by fastforce
  have "\<exists>msg. last (failure_log s') = (msg, sanitize_payload (t_payload task))"
    using assms(2) d
  proof (cases rule: execute_plain_cases)
    case stored
    with assms(3) show ?thesis by (simp add: ok_result_def)
  next
    case unsaved
    from task_failed_fields(7) [OF unsaved(3)] unsaved(4) show ?thesis by auto
  next
    case failed
    from task_failed_fields(7) [OF failed(2)] failed(3) show ?thesis by auto
  qed
  then show ?thesis
    using sanitize_payload_no_key_aux(1) [of "t_payload task"]
    unfolding failure_line_def log_line_value [OF assms(1)] Let_def
    by (auto simp: create_logger_def failure_fields_def)
qed

text \<open>A redaction that does what the documentation says, for the witness.\<close>

fun drop_path :: "string list \<Rightarrow> jsval \<Rightarrow> jsval" where
  "drop_path [s] (JObj kvs) = JObj (filter (\<lambda>kv. \<not> (s = ''*'' \<or> s = fst kv)) kvs)"
| "drop_path (s # s' # p) (JObj kvs) = JObj (map (\<lambda>kv. (fst kv, if s = ''*'' \<or> s = fst kv then drop_path (s' # p) (snd kv) else snd kv)) kvs)"
| "drop_path _ v = v"

definition drop_paths :: "string list \<Rightarrow> jsval \<Rightarrow> jsval" where
  "drop_paths ps v = fold (\<lambda>path. drop_path (split_on (CHR ''.'') path)) ps v"

lemma map_of_key_filter: "map_of (filter (\<lambda>kv. P (fst kv)) kvs) k = (if P k then map_of kvs k else None)"
  by (induction kvs) auto

lemma map_of_key_map: "map_of (map (\<lambda>kv. (fst kv, f (fst kv) (snd kv))) kvs) k = map_option (f k) (map_of kvs k)"
  by (induction kvs) auto

lemma drop_path_leaf:
  assumes "\<And>kvs. v \<noteq> JObj kvs" "p \<noteq> []"
  shows "value_at q (drop_path p v) = (if covers p q then None else value_at q v)"
proof -
  have "drop_path p v = v" using assms(1) by (cases "(p, v)" rule: drop_path.cases) auto
  moreover have "covers p q \<Longrightarrow> value_at q v = None" using assms by (cases p; cases q; cases v) auto
  ultimately show ?thesis by simp
qed

lemma drop_path_value: "p \<noteq> [] \<Longrightarrow> value_at q (drop_path p v) = (if covers p q then None else value_at q v)"
proof (induction p v arbitrary: q rule: drop_path.induct)
  case (1 s kvs)
  then show ?case using map_of_key_filter [of "\<lambda>l. \<not> (s = ''*'' \<or> s = l)" kvs] by (cases q) auto
next
  case (2 s s' p kvs)
  show ?case
  proof (cases q)
    case (Cons k ks)
    let ?f = "\<lambda>l v. if s = ''*'' \<or> s = l then drop_path (s' # p) v else v"
    have m: "map_of (map (\<lambda>kv. (fst kv, ?f (fst kv) (snd kv))) kvs) k = map_option (?f k) (map_of kvs k)"
      by (rule map_of_key_map)
    show ?thesis
    proof (cases "map_of kvs k")
      case None
      with m Cons show ?thesis by simp
    next
      case (Some w)
      from Some have "(k, w) \<in> set kvs" by (rule map_of_SomeD)
      with 2 have "s = ''*'' \<or> s = k \<Longrightarrow> value_at ks (drop_path (s' # p) w) = (if covers (s' # p) ks then None else value_at ks w)" by fastforce
      with m Some Cons show ?thesis by auto
    qed
  qed simp
qed (rule drop_path_leaf; simp)+

lemma drop_paths_remove: "removes_paths drop_paths"
proof -
  have "value_at q (drop_paths ps v) = (if \<exists>path \<in> set ps. covers (split_on (CHR ''.'') path) q then None else value_at q v)" for ps v q
    by (induction ps arbitrary: v) (auto simp: drop_paths_def drop_path_value)
  then show ?thesis by (simp add: removes_paths_def)
qed

definition nested_memo_task :: agent_task where
  "nested_memo_task = \<lparr>t_type = ''mint'',
     t_payload = JObj [(''memo'', JStr ''nonce''), (''private_key'', JStr ''S''), (''op'', JObj [(''memo'', JStr ''user'')])],
     t_correlation = Some ''c1''\<rparr>"

theorem failed_task_log_hides_memo_witness:
  "\<exists>e. let line = failure_line drop_paths (logger_options None None) ''mint'' ''c1'' e None in
     value_at [''taskType''] line = Some (JStr ''mint'') \<and> value_at [''sanitizedPayload'', ''memo''] line = None \<and>
     value_at [''sanitizedPayload'', ''op'', ''memo''] line = Some (JStr ''user'')"
proof -
  let ?t = nested_memo_task
  obtain s' r where e: "execute_task agent_toy sample_agent_config toy_tools [] ?t ''c1'' (agent_start empty_db) = (s', r)" by fastforce
  have "map_of (plain_tools toy_tools) ''mint'' = None" by (simp add: plain_tools_def)
  with e have "\<not> success r"
    by (auto simp: execute_plain execute_inner_def dispatch_def nested_memo_task_def task_failed_def Let_def failed_result_def)
  note h = failed_task_log_hides_memo [OF drop_paths_remove e this, of None None "[]" "''op''" "''m''"]
  have k: "\<not> sensitive_payload_key ''memo''" "\<not> sensitive_payload_key ''op''" "sensitive_payload_key ''private_key''"
    "trim ''memo'' = ''memo''" "trim ''op'' = ''op''" "trim ''private_key'' = ''private_key''" by code_simp+
  then have "value_at [''op'', ''memo''] (sanitize_payload (t_payload ?t)) = Some (JStr ''user'')"
    by (simp add: nested_memo_task_def Let_def)
  moreover have "''op'' \<noteq> ''memo''" "t_type ?t = ''mint''" by (simp_all add: nested_memo_task_def)
  ultimately show ?thesis using h unfolding Let_def by metis
qed

end
