(* ===== verification/Broadcast.thy ===== *)
theory Broadcast imports Multi Agent begin

text \<open>
  A success is a transaction that went out: whatever the retries, the lock and the time limits of
  backend/rpc\_client.ts do, a submission that answers was handed to Horizon. The tools' successes rest
  on this.
\<close>

definition broadcasts :: "(('w, 'y) sys_scheme \<Rightarrow> ('w, 'y) sys_scheme \<times> (js_error + 'a)) \<Rightarrow> bool" where
  "broadcasts f \<longleftrightarrow> (\<forall>s. \<exists>es. submissions (fst (f s)) = submissions s @ es \<and> (isl (snd (f s)) \<or> es \<noteq> []))"

lemma broadcastsD: "broadcasts f \<Longrightarrow> f s = (s', r) \<Longrightarrow> \<exists>es. submissions s' = submissions s @ es \<and> (isl r \<or> es \<noteq> [])"
  by (metis broadcasts_def fst_conv snd_conv)

lemma broadcasts_submit_once: "broadcasts (submit_once p env)"
  by (auto simp: broadcasts_def submit_once_def with_timeout_def outside_def Let_def split: prod.split)

lemma broadcasts_attempt:
  fixes f :: "('w, 'y) sys_scheme \<Rightarrow> ('w, 'y) sys_scheme \<times> (js_error + 'a)"
  assumes "broadcasts f"
  shows "broadcasts (attempt p f)"
  unfolding broadcasts_def
proof
  fix s :: "('w, 'y) sys_scheme"
  obtain b th where t: "is_throttled (now p s) (backoff s) = (b, th)" by fastforce
  show "\<exists>es. submissions (fst (attempt p f s)) = submissions s @ es \<and> (isl (snd (attempt p f s)) \<or> es \<noteq> [])"
  proof (cases th)
    case False
    obtain s' r where f: "f (s\<lparr>backoff := b, rpc_calls := rpc_calls s + 1\<rparr>) = (s', r)" by fastforce
    from broadcastsD [OF assms f] t f False show ?thesis by (simp add: attempt_def)
  qed (simp add: attempt_def t)
qed

lemma broadcasts_retry_loop:
  fixes f :: "('w, 'y) sys_scheme \<Rightarrow> ('w, 'y) sys_scheme \<times> (js_error + 'a)"
  assumes "broadcasts f"
  shows "broadcasts (retry_loop p retries d retryable m f k n prev)"
proof (induction n arbitrary: k prev)
  case 0
  show ?case by (simp add: broadcasts_def)
next
  case (Suc n)
  show ?case unfolding broadcasts_def
  proof
    fix s :: "('w, 'y) sys_scheme"
    obtain s1 r where a: "attempt p f s = (s1, r)" by fastforce
    from broadcastsD [OF broadcasts_attempt [OF assms] a] obtain es where es: "submissions s1 = submissions s @ es" "isl r \<or> es \<noteq> []"
      by blast
    show "\<exists>es. submissions (fst (retry_loop p retries d retryable m f k (Suc n) prev s)) = submissions s @ es \<and>
        (isl (snd (retry_loop p retries d retryable m f k (Suc n) prev s)) \<or> es \<noteq> [])"
    proof (cases r)
      case (Inr x)
      with a es show ?thesis by simp
    next
      case (Inl e)
      obtain s2 prev' where n: "note_429 p e s1 = (s2, prev')" by fastforce
      let ?s3 = "if n = 0 then s2 else pause p d m k s2"
      have s3: "submissions s2 = submissions s @ es" "submissions ?s3 = submissions s @ es"
        using note_429_submissions [of p e s1] n es(1) by simp_all
      obtain s4 q where l: "retry_loop p retries d retryable m f (k + 1) n prev' ?s3 = (s4, q)" by fastforce
      from broadcastsD [OF Suc.IH l] s3 obtain fs where "submissions s4 = submissions s @ es @ fs" "isl q \<or> fs \<noteq> []" by auto
      with a Inl n l s3 show ?thesis by (auto simp: Let_def)
    qed
  qed
qed

lemma broadcasts_guarded:
  fixes f :: "('w, 'y) sys_scheme \<Rightarrow> ('w, 'y) sys_scheme \<times> (js_error + 'a)"
  assumes "broadcasts f"
  shows "broadcasts (guarded p f)"
  unfolding broadcasts_def
proof
  fix s :: "('w, 'y) sys_scheme"
  obtain b th where t: "is_throttled (now p s) (backoff s) = (b, th)" by fastforce
  obtain w sup where w: "while_locked p (world s) = (w, sup)" by fastforce
  have f: "\<exists>es. submissions (fst (f s')) = submissions s' @ es \<and> (isl (snd (f s')) \<or> es \<noteq> [])" for s'
    using assms by (simp add: broadcasts_def)
  from f [of "s\<lparr>backoff := b\<rparr>"] f [of "s\<lparr>world := w, backoff := clear_backoff None b\<rparr>"] t w
  show "\<exists>es. submissions (fst (guarded p f s)) = submissions s @ es \<and> (isl (snd (guarded p f s)) \<or> es \<noteq> [])"
    by (cases th; cases sup) (simp_all add: guarded_def)
qed

lemma broadcasts_submit_and_parse:
  "broadcasts (submit_and_parse p c env :: ('w, 'y) sys_scheme \<Rightarrow> ('w, 'y) sys_scheme \<times> (js_error + submit_result))"
proof -
  let ?g = "\<lambda>s :: ('w, 'y) sys_scheme. guarded p (with_retry p (MAX_RETRIES c) (RETRY_DELAY_MS c) default_is_retryable max_retry_delay_ms (submit_once p env)) s"
  have g: "broadcasts ?g" unfolding with_retry_def [abs_def]
    by (intro broadcasts_guarded broadcasts_retry_loop broadcasts_submit_once)
  show ?thesis unfolding broadcasts_def
  proof
    fix s :: "('w, 'y) sys_scheme"
    obtain s' r where r: "?g s = (s', r)" by fastforce
    from broadcastsD [OF g r] obtain es where es: "submissions s' = submissions s @ es" "isl r \<or> es \<noteq> []" by blast
    with r show "\<exists>es. submissions (fst (submit_and_parse p c env s)) = submissions s @ es \<and>
        (isl (snd (submit_and_parse p c env s)) \<or> es \<noteq> [])"
      by (auto simp: submit_and_parse_def submit_transaction_def andThen_const invalidate_account_cache_def split: sum.split)
  qed
qed

lemma batch_success_sent:
  fixes s :: "('w, 'y) sys_scheme"
  assumes "batch_execute p c self v s = (s', Inr r)"
  shows "submissions s' \<noteq> submissions s"
proof -
  from assms obtain b a s1 ops s2 tx where st: "load_account p c self False s = (s1, Inr a)"
    "build_tx p base_fee ops None soroban_tx_timeout a s1 = (s2, tx)" "submit_and_parse p c (Envelope (sign_tx self tx)) s2 = (s', Inr r)"
    by (auto simp: batch_execute_def andThen_Inr Let_def split: if_splits prod.split_asm) (metis surj_pair)
  have "submissions s2 = submissions s"
    using load_account_submissions [of p c self False s] build_tx_frame(1) [OF st(2)] st(1) by simp
  with broadcastsD [OF broadcasts_submit_and_parse st(3)] show ?thesis by auto
qed

lemma built_payment_silent: "build_payment p self op mty mem timeout a s = (s', r) \<Longrightarrow> submissions s' = submissions s"
  for s :: "('w, 'y) sys_scheme"
  using build_payment_envelope [of p self op mty mem timeout a s s' r] by blast

lemma reload_success_sent:
  fixes s :: "('w, 'y) sys_scheme"
  assumes "\<And>a (t :: ('w, 'y) sys_scheme) t' q. build a t = (t', q) \<Longrightarrow> submissions t' = submissions t"
    and "submit_with_reload p c self build s = (s', Inr r)"
  shows "submissions s' \<noteq> submissions s"
proof -
  have sent: "\<exists>es. submissions t' = submissions t @ es \<and> (isl q \<or> es \<noteq> [])"
    if "submit_and_parse p c env t = (t', q)" for env and t :: "('w, 'y) sys_scheme" and t' q
    by (rule broadcastsD [OF broadcasts_submit_and_parse that])
  have loaded: "submissions t' = submissions t" if "load_account p c self force t = (t', q)"
    for force q and t :: "('w, 'y) sys_scheme" and t' using load_account_submissions [of p c self force t] that by simp
  from assms(2) obtain s1 a s2 tx s3 q where st: "load_account p c self False s = (s1, Inr a)" "build a s1 = (s2, Inr tx)"
    "submit_and_parse p c (Envelope tx) s2 = (s3, q)"
    by (auto simp: submit_with_reload_def andThen_Inr split: prod.split_asm) (metis surj_pair)
  have s2: "submissions s2 = submissions s" using loaded [OF st(1)] assms(1) [OF st(2)] by simp
  from sent [OF st(3)] obtain es where es: "submissions s3 = submissions s @ es" "isl q \<or> es \<noteq> []" unfolding s2 by blast
  show ?thesis
  proof (cases q)
    case (Inr x)
    with assms(2) st es show ?thesis by (auto simp: submit_with_reload_def)
  next
    case (Inl e)
    with assms(2) st have "is_bad_seq e" by (auto simp: submit_with_reload_def split: if_splits)
    with assms(2) st Inl obtain s4 a' s5 tx' where rt: "load_account p c self True s3 = (s4, Inr a')" "build a' s4 = (s5, Inr tx')"
      "submit_and_parse p c (Envelope tx') s5 = (s', Inr r)"
      by (auto simp: submit_with_reload_def andThen_Inr)
    have "submissions s5 = submissions s @ es" using loaded [OF rt(1)] assms(1) [OF rt(2)] es(1) by simp
    with sent [OF rt(3)] show ?thesis by auto
  qed
qed

lemma payment_success_sent:
  fixes s :: "('w, 'y) sys_scheme"
  assumes "payment_execute p c self v s = (s', Inr r)"
  shows "submissions s' \<noteq> submissions s"
proof -
  from assms obtain op mty mem where "submit_with_reload p c self (build_payment p self op mty mem soroban_tx_timeout) s = (s', Inr r)"
    by (auto simp: payment_execute_def andThen_Inr split: if_splits)
  then show ?thesis by (rule reload_success_sent [rotated]) (rule built_payment_silent)
qed

text \<open>
  C5. A payment reported as done was sent, and was this payment. When a payment task succeeds, at least
  one transaction was handed to Horizon, and every one of them carries the payment of exactly the
  amount and to exactly the destination of the payload, signed by the agent alone; so neither a
  retry, nor the rate-limit lock, nor a time limit can turn a payment that never left into a success.
\<close>

theorem reported_payment_was_sent:
  fixes s :: "('w, 'y) agent_sys_scheme"
  assumes "execute_task p c tt [] task cid s = (s', r)" "t_type task = ''stellar_payment''"
    and "payment_tool tt = payment_execute p c self" "success r"
  shows "\<exists>es dest amt ast. submissions s' = submissions s @ es \<and> es \<noteq> [] \<and>
    field (t_payload task) ''destination'' = JStr dest \<and> field (t_payload task) ''amount'' = JStr amt \<and> dest \<noteq> self \<and>
    (\<forall>env \<in> set es. payment_envelope self (OpPayment dest ast amt) env)"
proof -
  let ?s0 = "s\<lparr>active_tasks := active_tasks s + 1\<rparr>" and ?v = "t_payload task"
  obtain s1 d where d: "dispatch p c tt task ?s0 = (s1, d)" by fastforce
  have ok: "\<exists>v. d = Inr v"
    using assms(1) d
  proof (cases rule: execute_plain_cases)
    case unsaved
    from task_failed_fields(1) [OF unsaved(3)] assms(4) show ?thesis by (simp add: failed_result_def)
  next
    case failed
    from task_failed_fields(1) [OF failed(2)] assms(4) show ?thesis by (simp add: failed_result_def)
  qed simp
  obtain g u where g: "spending_guard p c ?v ?s0 = (g, u)" by fastforce
  note gs = spending_guard_frame [OF g]
  obtain s2 q where e: "payment_execute p c self ?v g = (s2, q)" by fastforce
  from ok d g e assms(2,3) obtain x where x: "q = Inr x" "submissions s1 = submissions s2"
    by (cases u; cases q) (auto simp: dispatch_def map_data_def)
  have ne: "submissions s2 \<noteq> submissions g" using payment_success_sent e x(1) by blast
  with payment_trace [OF e] obtain i where i: "payment_input_schema p ?v = Some i" by (cases "payment_input_schema p ?v") auto
  from payment_trace [OF e] i ne obtain es ast where es: "submissions s2 = submissions g @ es" "es \<noteq> []" "pi_destination i \<noteq> self"
    "two_rounds (nat (MAX_RETRIES c)) (payment_envelope self (OpPayment (pi_destination i) ast (pi_amount i))) es" by auto
  from es(4) have "\<forall>env \<in> set es. payment_envelope self (OpPayment (pi_destination i) ast (pi_amount i)) env"
    by (auto simp: two_rounds_def dest!: iffD1 [OF in_set_replicate] split: if_splits)
  moreover have "field ?v ''amount'' = JStr (pi_amount i)" "field ?v ''destination'' = JStr (pi_destination i)"
    using i by (auto simp: payment_input_schema_def Option.bind_eq_Some_conv z_check_Some z_str_Some)
  moreover have "submissions s' = submissions s @ es"
    using execute_plain_submissions [OF assms(1) d] x(2) es(1) gs(1) by simp
  ultimately show ?thesis using es(2,3) by blast
qed

theorem reported_payment_was_sent_witness:
  "\<exists>s' r es ast. execute_task agent_toy sample_agent_config toy_tools [] (toy_task ''stellar_payment'') ''c1'' (agent_start empty_db) = (s', r) \<and>
     success r \<and> submissions s' = es \<and> es \<noteq> [] \<and> (\<forall>env \<in> set es. payment_envelope sample_key (OpPayment payee ast ''5'') env)"
proof -
  let ?s = "agent_start empty_db" and ?t = "toy_task ''stellar_payment''"
  let ?v = "payment_data sample_agent_config \<lparr>sr_hash = ''h1'', sr_ledger = JFin 7\<rparr>"
  have nf: "db_fault empty_db = None" by (simp add: empty_db_def)
  obtain s1 where d: "dispatch agent_toy sample_agent_config toy_tools ?t (?s\<lparr>active_tasks := 1\<rparr>) = (s1, Inr ?v)"
    "db_fault (store (spending s1)) = None" using toy_payment_dispatch [of empty_db] nf by auto
  obtain s' r where e: "execute_task agent_toy sample_agent_config toy_tools [] ?t ''c1'' ?s = (s', r)" by fastforce
  have "success r" using e d
    by (auto simp: execute_plain execute_inner_def Let_def save_result_def get_db_def data_column_def emit_def ok_result_def
        payment_data_def json_string_def send_webhook_def bind_result_def)
  from reported_payment_was_sent [OF e _ _ this, of sample_key] obtain es dest amt ast where
    x: "submissions s' = submissions ?s @ es" "es \<noteq> []" "field sample_payment ''destination'' = JStr dest"
      "field sample_payment ''amount'' = JStr amt" "\<forall>env \<in> set es. payment_envelope sample_key (OpPayment dest ast amt) env"
    by (auto simp: toy_tools_def only_payments_def)
  have "dest = payee" "amt = ''5''" using x(3,4) by (simp_all add: sample_payment_def field_def obj_get_def)
  with x e \<open>success r\<close> show ?thesis by auto
qed

end
