(* ===== verification/GatedResource.thy ===== *)
theory GatedResource imports Broadcast JsonRound begin

text \<open>
  The full x402 flow of scripts/examples/x402\_full\_flow.ts: a server that sells a resource for a payment,
  and the agent that asks for it, pays and asks again with the proof. A reply's body crosses the
  wire as JSON text. The mock of Horizon the script installs is the platform; the header is one
  string, as the HTTP server joins repeated ones. The emoji of the message is left out.
\<close>

section \<open>The gated endpoint\<close>

record gate =
  gate_url :: string
  gate_issuer :: string
  gate_pay_to :: string

record reply =
  reply_status :: nat
  reply_body :: jsval

text \<open>The challenge of a request without a proof, from a nonce and an expiry of its own.\<close>

definition gate_challenge :: "gate \<Rightarrow> string \<Rightarrow> string \<Rightarrow> jsval" where
  "gate_challenge g fresh expiry =
     JObj [(''resource'', JStr (gate_url g)), (''amount'', JStr ''0.5000000''), (''assetCode'', JStr ''USDC''),
       (''assetIssuer'', JStr (gate_issuer g)), (''payTo'', JStr (gate_pay_to g)), (''nonce'', JStr fresh), (''expiresAt'', JStr expiry)]"

definition malformed_reply :: reply where
  "malformed_reply = \<lparr>reply_status = 400, reply_body = JObj [(''error'', JStr ''Malformed X-PAYMENT-PROOF header'')]\<rparr>"

text \<open>\<open>proof.protocol === 'x402' && proof.txHash && proof.nonce === activeChallenge.nonce\<close>: None when reading a
  property of null or undefined throws.\<close>

definition proof_accepted :: "jsval \<Rightarrow> jsval \<Rightarrow> bool option" where
  "proof_accepted challenge pr =
     (if nullish pr then None
      else if field pr ''protocol'' \<noteq> JStr ''x402'' \<or> \<not> truthy (field pr ''txHash'') then Some False
      else if nullish challenge then None
      else Some (field pr ''nonce'' = field challenge ''nonce''))"

text \<open>\<open>app.get('/resource')\<close>: the active challenge and the header; only a request without a proof draws a
  nonce, and its challenge replaces the active one. The expiry is five minutes away.\<close>

definition gate_get ::
    "('w, 'x) agent_platform_scheme \<Rightarrow> gate \<Rightarrow> jsval \<Rightarrow> string option \<Rightarrow> ('w, 'y) agent_sys_scheme \<Rightarrow>
     ('w, 'y) agent_sys_scheme \<times> jsval \<times> reply" where
  "gate_get p g challenge header s =
     (case header of
        Some (x # xs) \<Rightarrow>
          (s, challenge,
           (case parse_json (x # xs) of
              None \<Rightarrow> malformed_reply
            | Some pr \<Rightarrow>
                (case proof_accepted challenge pr of
                   None \<Rightarrow> malformed_reply
                 | Some True \<Rightarrow> \<lparr>reply_status = 200, reply_body = JObj [(''status'', JStr ''success''),
                     (''message'', JStr ''Access Granted! Premium AI Model Insights & Dataset unlocked.''),
                     (''unlockedAt'', JStr (iso_string p (now p s))), (''txHash'', field pr ''txHash''), (''payer'', field pr ''payer'')]\<rparr>
                 | Some False \<Rightarrow> \<lparr>reply_status = 400, reply_body = JObj [(''error'', JStr ''Invalid payment proof'')]\<rparr>)))
      | _ \<Rightarrow>
          (let (s', fresh) = outside (random_uuid p) s; ch = gate_challenge g fresh (iso_string p (now p s' + 300000))
           in (s', ch, \<lparr>reply_status = 402, reply_body = ch\<rparr>)))"

section \<open>The flow\<close>

text \<open>A body as the client reads it from the wire.\<close>

definition received :: "(rat \<Rightarrow> string) \<Rightarrow> jsval \<Rightarrow> jsval" where
  "received num v = (case json_value num v of
     Inr (Some t) \<Rightarrow> (case parse_json t of Some w \<Rightarrow> w | None \<Rightarrow> JUndef) | _ \<Rightarrow> JUndef)"

definition json_header :: "(rat \<Rightarrow> string) \<Rightarrow> jsval \<Rightarrow> string option" where
  "json_header num v = (case json_value num v of Inr t \<Rightarrow> t | Inl u \<Rightarrow> None)"

definition respond_task :: "jsval \<Rightarrow> agent_task" where
  "respond_task v = \<lparr>t_type = ''x402_respond'', t_payload = v, t_correlation = None\<rparr>"

text \<open>\<open>main\<close>: the error it throws, or the reply to the second request. The agent is created before
  the first request and released after the last.\<close>

definition x402_flow ::
    "('w, 'x) agent_platform_scheme \<Rightarrow> agent_config \<Rightarrow> ('w, 'y) agent_sys_scheme tool_table \<Rightarrow> gate \<Rightarrow>
     ('w, 'y) agent_sys_scheme \<Rightarrow> ('w, 'y) agent_sys_scheme \<times> (string + reply)" where
  "x402_flow p c tt g s =
     (let (s1, act, asked) = gate_get p g JUndef None s
      in if reply_status asked \<noteq> 402 then (s1, Inl (''Expected HTTP 402 challenge, received '' @ nat_str (reply_status asked)))
         else (let (s2, r) = run_task p c tt [] (respond_task (received (print_num p) (reply_body asked))) s1
               in if \<not> success r \<or> \<not> truthy (result_data r)
                  then (s2, Inl (''Agent failed to respond to x402 challenge: '' @
                         (case result_error r of Some e \<Rightarrow> e | None \<Rightarrow> ''undefined'')))
                  else (let (s3, act2, answered) = gate_get p g act (json_header (print_num p) (result_data r)) s2
                        in (s3, Inr answered))))"

section \<open>Properties\<close>

lemma received_plain: "json_ok num v \<Longrightarrow> plain_json v \<Longrightarrow> received num v = v"
proof -
  assume v: "json_ok num v" "plain_json v"
  then have "\<not> absent v" by (cases v) (auto simp: absent_def)
  with json_ok_prints(1) [OF v(1)] obtain t where t: "json_value num v = Inr (Some t)" by auto
  with parse_printed [OF t v(1)] plain_image(1) [OF v(2)] show ?thesis by (simp add: received_def)
qed

lemma challenge_received: "received num (gate_challenge g fresh expiry) = gate_challenge g fresh expiry"
  by (rule received_plain) (simp_all add: gate_challenge_def)

text \<open>A task reported as done was dispatched, and its data is what the tool returned.\<close>

lemma run_task_success:
  fixes s :: "('w, 'y) agent_sys_scheme"
  assumes "run_task p c tt [] task s = (s', r)" "success r"
  shows "\<exists>(t :: ('w, 'y) agent_sys_scheme) s1 v. dispatch p c tt task t = (s1, Inr v) \<and> submissions t = submissions s \<and>
    submissions s' = submissions s1 \<and> result_data r = v"
proof -
  obtain s0 cid where u: "(case t_correlation task of Some i \<Rightarrow> (s, i) | None \<Rightarrow> outside (random_uuid p) s) = (s0, cid)" by fastforce
  have s0: "submissions s0 = submissions s"
    using u outside_submissions [of "random_uuid p" s] by (cases "t_correlation task") (auto simp del: outside_submissions)
  have ran: "execute_task p c tt [] task cid s0 = (s', r)"
    using assms u by (auto simp: run_task_def Let_def shutting_down_result_def at_capacity_result_def failed_result_def split: if_splits)
  let ?t = "s0\<lparr>active_tasks := active_tasks s0 + 1\<rparr>"
  obtain s1 d where d: "dispatch p c tt task ?t = (s1, d)" by fastforce
  have "\<exists>v. d = Inr v \<and> result_data r = v"
    using ran d
  proof (cases rule: execute_plain_cases)
    case unsaved
    from task_failed_fields(1) [OF unsaved(3)] assms(2) show ?thesis by (simp add: failed_result_def)
  next
    case failed
    from task_failed_fields(1) [OF failed(2)] assms(2) show ?thesis by (simp add: failed_result_def)
  qed (simp add: ok_result_def)
  with execute_plain_submissions [OF ran d] d s0 show ?thesis by (intro exI [of _ ?t] exI [of _ s1]) auto
qed

text \<open>A response that succeeds paid the challenge.\<close>

lemma respond_paid:
  fixes s :: "('w, 'y) x402_sys_scheme"
  assumes "x402_respond p c self v s = (s', Inr pr)" "x402_challenge_schema p c v = Some ch"
  shows "pp_protocol pr = ''x402'' \<and> pp_nonce pr = ch_nonce ch \<and> pp_payer pr = self \<and>
    (\<exists>es ast. submissions s' = submissions s @ es \<and> es \<noteq> [] \<and>
      (\<forall>env \<in> set es. payment_envelope self (OpPayment (ch_pay_to ch) ast (ch_amount ch)) env))"
  using assms(1)
proof (cases rule: respond_cases)
  case (paid s1 s2 s3 s4 ch' q pr')
  from admit_challenge [OF paid(1)] assms(2) have ch: "ch' = ch" by simp
  have pr: "pp_protocol pr = ''x402''" "pp_nonce pr = ch_nonce ch" "pp_payer pr = self"
    using paid(5,6) ch by (auto simp: x402_proof_def Let_def split: prod.splits)
  let ?in = "x402_payment_input ch (x402_memo p (ch_nonce ch))"
  from paid(3) have e: "payment_execute p c self ?in s2 = (s3, Inr q)"
    unfolding ch x402_pay_def by (auto split: sum.splits prod.splits)
  have ne: "submissions s3 \<noteq> submissions s2" using payment_success_sent [OF e] .
  from payment_trace [OF e] ne obtain i es ast where i: "payment_input_schema p ?in = Some i"
    "submissions s3 = submissions s2 @ es" "es \<noteq> []"
    "two_rounds (nat (MAX_RETRIES c)) (payment_envelope self (OpPayment (pi_destination i) ast (pi_amount i))) es"
    by (cases "payment_input_schema p ?in") auto
  have f: "pi_destination i = ch_pay_to ch" "pi_amount i = ch_amount ch"
    using i(1) by (auto simp: payment_input_schema_def x402_payment_input_def Option.bind_eq_Some_conv z_check_Some z_str_Some field_def obj_get_def)
  from i(4) f have "\<forall>env \<in> set es. payment_envelope self (OpPayment (ch_pay_to ch) ast (ch_amount ch)) env"
    by (auto simp: two_rounds_def dest!: iffD1 [OF in_set_replicate] split: if_splits)
  moreover have "submissions s' = submissions s @ es"
    using i(2) admit_frame(4) [OF paid(1)] check_nonce_frame(2) [OF paid(2)] record_frame(2) [OF paid(4)] proof_frame(2) [OF paid(5)]
    by simp
  ultimately show ?thesis using pr i(3) by blast
qed simp_all

lemma gate_schema:
  "x402_challenge_schema p c (gate_challenge g fresh expiry) = Some ch \<Longrightarrow>
     ch_pay_to ch = gate_pay_to g \<and> ch_amount ch = ''0.5000000'' \<and> ch_nonce ch = fresh"
  by (auto simp: x402_challenge_schema_def gate_challenge_def zod_defs field_def obj_get_def split: if_splits)

text \<open>The gate on the proof of the agent: accepted when there is a hash.\<close>

definition unlocked :: "reply \<Rightarrow> payment_proof \<Rightarrow> bool" where
  "unlocked a pr \<longleftrightarrow> reply_status a = 200 \<and> field (reply_body a) ''txHash'' = JStr (pp_tx_hash pr) \<and>
     field (reply_body a) ''payer'' = JStr (pp_payer pr)"

lemma gate_on_proof:
  assumes "pp_protocol pr = ''x402''" "pp_nonce pr = fresh"
  shows "\<exists>a. gate_get p g (gate_challenge g fresh expiry) (json_header (print_num p) (proof_data pr)) s =
      (s, gate_challenge g fresh expiry, a) \<and>
    (if pp_tx_hash pr = [] then reply_status a = 400 else unlocked a pr)"
proof -
  let ?v = "proof_data pr" and ?n = "print_num p"
  have ok: "json_ok ?n ?v" and pl: "plain_json ?v" by (simp_all add: proof_data_def)
  from json_ok_prints(1) [OF ok] obtain t where t: "json_value ?n ?v = Inr (Some t)" by (auto simp: absent_def proof_data_def)
  from parse_printed [OF t ok] plain_image(1) [OF pl] have r: "parse_json t = Some ?v" by simp
  from json_text_head [OF t ok] obtain x xs where x: "t = x # xs" by (cases t) (auto simp: text_head_def)
  have h: "json_header ?n ?v = Some (x # xs)" by (simp add: json_header_def t x)
  have f: "field ?v ''protocol'' = JStr ''x402''" "field ?v ''txHash'' = JStr (pp_tx_hash pr)" "field ?v ''nonce'' = JStr fresh"
    "field ?v ''payer'' = JStr (pp_payer pr)" "\<not> nullish ?v" "\<not> nullish (gate_challenge g fresh expiry)"
    "field (gate_challenge g fresh expiry) ''nonce'' = JStr fresh"
    using assms by (simp_all add: proof_data_def gate_challenge_def field_def obj_get_def nullish_def)
  show ?thesis
    using r x by (simp add: gate_get_def h proof_accepted_def f unlocked_def) (simp add: field_def obj_get_def)
qed


text \<open>A concrete run, for the witness: a gate whose challenge the toy agent pays.\<close>

lemma to_double_half: "to_double (1/2) = JFin (1/2)"
proof -
  have h: "(1/2 :: rat) = 2 powi (- 1)" by (simp add: power_int_def)
  have "ilog2 (1/2) < 0" by (rule ilog2_less) simp_all
  then have d: "dexp (1/2) \<le> - 1" by (simp add: dexp_def)
  from powi_diff_int [OF d] have "(1/2) / 2 powi dexp (1/2) = (of_int (2 ^ nat (- 1 - dexp (1/2))) :: rat)"
    unfolding h [symmetric] by (simp add: field_simps)
  then have "round_mag (1/2) = 1/2" by (rule round_mag_exact)
  then show ?thesis by (simp add: to_double_def)
qed

lemma half_units: "decimal_units ''0.5000000'' = Some 5000000"
  by (simp add: decimal_units_def is_digit_def ccode_def digits_val_def digit_val_def decimal_tail_ok_def)

lemma half_amount: "parse_float ''0.5000000'' = JFin (1/2)" "amount_ok ''0.5000000''"
  using decimal_units_parse [OF half_units] half_units by (simp_all add: to_double_half amount_ok_units)
lemma half_guard: "\<exists>t. assert_within_spending_limit num sample_agent_config 0 (JStr ''0.5000000'')
      (fresh_tracker\<lparr>store := db\<rparr>) = (t, Inr ()) \<and> db_fault (store t) = db_fault db"
  by (simp add: guard_eval half_amount to_double_half parse_float_100 save_fault)

definition toy_gate :: gate where
  "toy_gate = \<lparr>gate_url = ''https://shop/x'', gate_issuer = sample_key, gate_pay_to = payee\<rparr>"

lemma agent_toy_flow [simp]:
  "random_uuid agent_toy w = (w, ''id'')" "iso_string agent_toy n = int_str n"
  "tx_base64 agent_toy e = ''AAAA''" "url_ok agent_toy s = starts_with s ''https''" "is_uuid agent_toy s = (s \<noteq> [])"
  "parse_datetime agent_toy s = parse_int s" "sha256_hex agent_toy s = replicate 64 (CHR ''a'')"
  "ledger_closed_at agent_toy l w = (w + 5, Inr ''closed'')" "asset_fault agent_toy cd i = None" "op_fault agent_toy op = None"
  "valid_ed25519 agent_toy s = (length s = 56 \<and> starts_with s ''G'')"
  by (simp_all add: agent_toy_def agent_platform.defs x402_toy_def sim_platform_def soroban.defs good_platform_def toy_platform_def platform.defs x402_platform.defs)

definition toy_gate_challenge :: jsval where
  "toy_gate_challenge = gate_challenge toy_gate ''id'' ''300000''"

definition toy_gate_parsed :: challenge where
  "toy_gate_parsed = \<lparr>ch_resource = ''https://shop/x'', ch_amount = ''0.5000000'', ch_asset_code = ''USDC'',
     ch_asset_issuer = sample_key, ch_pay_to = payee, ch_nonce = ''id'', ch_expires_at = ''300000''\<rparr>"

lemma gate_expiry: "int_str 300000 = ''300000''" "parse_int ''300000'' = Some 300000"
proof -
  have "char_of (51::nat) = CHR ''3''" "char_of (48::nat) = CHR ''0''" by (simp_all add: char_of_def bit_0)
  then show "int_str 300000 = ''300000''" by (simp add: int_str_def nat_str.simps digit_char_def)
  show "parse_int ''300000'' = Some 300000"
    by (simp add: parse_int_def trim_left_def is_js_space_def is_sign_def is_digit_def ccode_def digits_val_def digit_val_def)
qed

lemma toy_gate_schema: "x402_challenge_schema agent_toy sample_agent_config toy_gate_challenge = Some toy_gate_parsed"
  by (simp add: x402_challenge_schema_def toy_gate_challenge_def gate_challenge_def toy_gate_def toy_gate_parsed_def zod_defs field_def obj_get_def
      payee_def sample_key_def gate_expiry)

lemma toy_gate_pay_schema:
  "payment_input_schema agent_toy (x402_payment_input toy_gate_parsed (replicate 28 (CHR ''a''))) =
   Some \<lparr>pi_destination = payee, pi_amount = ''0.5000000'', pi_asset_code = ''USDC'', pi_asset_issuer = Some sample_key,
     pi_memo_type = ''text'', pi_memo = Some (MemoString (replicate 28 (CHR ''a'')))\<rparr>"
proof -
  have "utf8_length (replicate 28 (CHR ''a'')) \<le> 28" by (simp add: ccode_def numeral_eq_Suc)
  then show ?thesis
    by (simp add: payment_input_schema_def x402_payment_input_def toy_gate_parsed_def zod_defs z_memo_def
        field_def obj_get_def half_amount memo_fits_def payee_def del: replicate.simps)
qed

lemma toy_gate_pays:
  fixes s :: "(int, 'y) x402_sys_scheme"
  assumes "\<not> active (backoff s)" "account_cache s = (\<lambda>k. None)"
  shows "\<exists>s'. x402_pay agent_toy sample_agent_config sample_key toy_gate_parsed s = (s', Inr \<lparr>sr_hash = ''h1'', sr_ledger = JFin 7\<rparr>) \<and>
    sys.more s' = sys.more s"
proof -
  let ?in = "x402_payment_input toy_gate_parsed (replicate 28 (CHR ''a''))"
  have m: "build_memo ''text'' (MemoString (replicate 28 (CHR ''a''))) = Inr (MemoText (replicate 28 (CHR ''a'')))"
    by (simp add: build_memo_def ccode_def numeral_eq_Suc)
  have k: "sample_key \<noteq> []" by (simp add: sample_key_def)
  have "\<exists>s'. payment_execute agent_toy sample_agent_config sample_key ?in s = (s', Inr \<lparr>sr_hash = ''h1'', sr_ledger = JFin 7\<rparr>) \<and>
      sys.more s' = sys.more s"
    using assms payee_neq k
    by (auto simp: payment_execute_def or_zod_def toy_gate_pay_schema resolve_asset_def new_asset_def issuer_missing_def submit_with_reload_def
        good_load [OF agent_toy_good] build_payment_def check_op_def build_tx_def m good_submit_and_parse [OF agent_toy_good] sign_tx_def
        simp del: replicate.simps)
  moreover have "x402_memo agent_toy n = replicate 28 (CHR ''a'')" for n by (simp add: x402_memo_def)
  ultimately show ?thesis by (simp only: x402_pay_def toy_attach sum.case) (auto simp: prod.case)
qed

lemma toy_gate_responds:
  fixes t :: "int agent_sys"
  assumes "\<not> active (backoff t)" "account_cache t = (\<lambda>k. None)" "payment_count t = 0" "window_start t = 0"
    and "nonces t = empty_nonces" "nonce_fault t = None" "world t = 0"
  shows "\<exists>t' pr. x402_respond agent_toy sample_agent_config sample_key toy_gate_challenge t = (t', Inr pr) \<and>
    pp_tx_hash pr = ''h1'' \<and> spending t' = spending t"
proof -
  let ?p = agent_toy and ?c = sample_agent_config
  let ?s = "t\<lparr>payment_count := Suc 0, window_start := 0\<rparr>"
  have ad: "x402_admit ?p ?c sample_key toy_gate_challenge t = (?s, Inr toy_gate_parsed)"
    using assms by (simp add: x402_admit_def toy_gate_schema rate_check_def rate_limit_window_ms_def now_def Let_def origin_allowed_def)
      (simp add: toy_gate_parsed_def payee_neq sample_agent_config_def gate_expiry)
  let ?t = "?s\<lparr>nonces := sqlite_prune 0 (nonce_ttl ?c) empty_nonces\<rparr>"
  have ck: "x402_check_nonce ?p ?c ''id'' ?s = (?t, Inr ())"
    using assms by (simp add: x402_check_nonce_def sqlite_has_def nonce_time_prune now_def Let_def)
  from toy_gate_pays [of ?t] assms obtain u where u: "x402_pay ?p ?c sample_key toy_gate_parsed ?t = (u, Inr \<lparr>sr_hash = ''h1'', sr_ledger = JFin 7\<rparr>)"
    "sys.more u = sys.more ?t" by auto
  have nf: "nonce_fault u = None" "spending u = spending t" using u(2) assms(6) by (cases u; cases t; simp)+
  have n: "ch_nonce toy_gate_parsed = ''id''" by (simp add: toy_gate_parsed_def)
  show ?thesis
    using nf by (simp add: x402_respond_def ad ck n u(1) x402_record_def x402_proof_def outside_def)
qed

definition flow_tools :: "int agent_sys tool_table" where
  "flow_tools = toy_tools\<lparr>x402_tool := x402_respond agent_toy sample_agent_config sample_key\<rparr>"

lemma toy_flow_runs:
  "\<exists>s' answered. x402_flow agent_toy sample_agent_config flow_tools toy_gate (agent_start empty_db) = (s', Inr answered)"
proof -
  let ?p = agent_toy and ?c = sample_agent_config and ?s = "agent_start empty_db"
  have w: "outside (random_uuid ?p) ?s = (?s, ''id'')" by (simp add: outside_def)
  have first: "gate_get ?p toy_gate JUndef None ?s = (?s, toy_gate_challenge, \<lparr>reply_status = 402, reply_body = toy_gate_challenge\<rparr>)"
    by (simp add: gate_get_def w toy_gate_challenge_def now_def gate_expiry Let_def)
  have rc: "received (print_num ?p) toy_gate_challenge = toy_gate_challenge"
    unfolding toy_gate_challenge_def by (rule challenge_received)
  let ?t = "?s\<lparr>active_tasks := active_tasks ?s + 1\<rparr>" and ?task = "respond_task toy_gate_challenge"
  have amt: "field toy_gate_challenge ''amount'' = JStr ''0.5000000''"
    by (simp add: toy_gate_challenge_def gate_challenge_def field_def obj_get_def)
  obtain tr where tr: "assert_within_spending_limit (print_num ?p) ?c 0 (JStr ''0.5000000'') (fresh_tracker\<lparr>store := empty_db\<rparr>) = (tr, Inr ())"
    "db_fault (store tr) = db_fault empty_db" using half_guard by blast
  let ?g = "?t\<lparr>spending := tr\<rparr>"
  have g: "spending_guard ?p ?c toy_gate_challenge ?t = (?g, Inr ())"
    using tr(1) by (simp add: spending_guard_def now_def amt)
  have "\<not> active (backoff ?g)" "account_cache ?g = (\<lambda>k. None)" "payment_count ?g = 0" "window_start ?g = 0"
    "nonces ?g = empty_nonces" "nonce_fault ?g = None" "world ?g = 0"
    by (simp_all add: agent_start_def x402_sys.defs x402_start_def sys.defs agent_sys.defs initial_sys_def initial_backoff_def)
  from toy_gate_responds [OF this] obtain t' pr where x: "x402_respond ?p ?c sample_key toy_gate_challenge ?g = (t', Inr pr)"
    "spending t' = tr" by auto
  have d: "dispatch ?p ?c flow_tools ?task ?t = (t', Inr (proof_data pr))"
    using g x(1) by (simp add: dispatch_def respond_task_def flow_tools_def map_data_def)
  obtain s2 r where e: "execute_task ?p ?c flow_tools [] ?task ''id'' ?s = (s2, r)" by fastforce
  have pl: "\<exists>w. json_value (print_num ?p) (proof_data pr) = Inr (Some w)"
    using json_ok_prints(1) [of "print_num ?p" "proof_data pr"] by (auto simp: absent_def proof_data_def)
  have nf: "db_fault (store (spending t')) = None" using x(2) tr(2) by (simp add: empty_db_def)
  have "proof_data pr \<noteq> JUndef" by (simp add: proof_data_def)
  then have r: "success r" "result_data r = proof_data pr"
    using e d pl nf by (auto simp: execute_plain execute_inner_def Let_def save_result_def get_db_def data_column_def emit_def ok_result_def
        send_webhook_def bind_result_def)
  have run: "run_task ?p ?c flow_tools [] ?task ?s = (s2, r)"
    using e w by (simp add: run_task_def respond_task_def sample_agent_config_def)
  have "truthy (proof_data pr)" by (simp add: proof_data_def)
  with r run show ?thesis by (simp add: x402_flow_def first rc split: prod.split)
qed


end
