(* ===== verification/ExampleScripts.thy ===== *)
theory ExampleScripts imports Broadcast Dispatch Scripts JsonRound begin

text \<open>
  The example scripts of scripts/examples, which run the agent end to end: the batch read from a CSV
  file (batch\_payment\_csv.ts), the full x402 flow against its gated server (x402\_full\_flow.ts) and the
  one-task scripts. The scripts' console output is not modelled; \<open>agent.destroy()\<close> has nothing to
  release here, since none of them opens a subscription.
\<close>

section \<open>batch\_payment\_csv.ts\<close>

definition csv_entry :: "csv_payment \<Rightarrow> jsval" where
  "csv_entry q = JObj [(''destination'', JStr (cp_destination q)), (''amount'', JStr (cp_amount q)), (''assetCode'', JStr (cp_asset_code q))]"

definition csv_task :: "csv_payment list \<Rightarrow> agent_task" where
  "csv_task ps = \<lparr>t_type = ''batch_payment'', t_payload = JObj [(''payments'', JArr (map csv_entry ps))], t_correlation = None\<rparr>"

text \<open>\<open>main\<close>: the exit status and the state left; \<open>lines_of\<close> is the file, None when reading it fails.\<close>

definition csv_main ::
    "('w, 'x) agent_platform_scheme \<Rightarrow> agent_config \<Rightarrow> ('w, 'y) agent_sys_scheme tool_table \<Rightarrow> (string \<Rightarrow> string list option) \<Rightarrow>
     string option \<Rightarrow> ('w, 'y) agent_sys_scheme \<Rightarrow> ('w, 'y) agent_sys_scheme \<times> int" where
  "csv_main p c tt lines_of path s =
     (case path of
        None \<Rightarrow> (s, 1)
      | Some f \<Rightarrow>
          if f = [] then (s, 1)
          else (case lines_of f of
              None \<Rightarrow> (s, 1)
            | Some ls \<Rightarrow>
                (case parse_csv ls of
                   Inl e \<Rightarrow> (s, 1)
                 | Inr ps \<Rightarrow> (let (s', r) = run_task p c tt [] (csv_task ps) s in (s', if success r then 0 else 1)))))"

lemma csv_entry_schema:
  "payment_input_schema p (csv_entry q) = Some i \<Longrightarrow>
     pi_destination i = cp_destination q \<and> pi_amount i = cp_amount q \<and> pi_asset_code i = cp_asset_code q \<and> pi_asset_issuer i = None"
  by (auto simp: payment_input_schema_def csv_entry_def zod_defs field_def obj_get_def split: if_splits)

lemma all_some_all2: "all_some (map f vs) = Some ys \<Longrightarrow> list_all2 (\<lambda>v y. f v = Some y) vs ys"
proof (induction vs arbitrary: ys)
  case (Cons v vs)
  then show ?case by (cases "f v") auto
qed simp

lemma preflight_passed:
  "preflight fast k problems ps = Inr [] \<Longrightarrow>
     problems = [] \<and> (\<forall>i \<in> set ps. pi_asset_code i = ''XLM'' \<or> \<not> issuer_missing (pi_asset_issuer i))"
proof (induction ps arbitrary: k problems)
  case (Cons i ps)
  then show ?case by (cases "payment_problem k i"; cases fast) (auto simp: payment_problem_def split: if_splits dest: Cons.IH)
qed simp

lemma batch_stopped:
  fixes s :: "('w, 'y) sys_scheme"
  assumes "batch_schema p v = Some b" "preflight (ba_fail_fast b) 0 [] (ba_payments b) \<noteq> Inr []" "batch_execute p c self v s = (s', r)"
  shows "s' = s"
  using assms by (auto simp: batch_execute_def Let_def andThen_const split: if_splits sum.splits)

text \<open>The rows of a file as the operations that pay them.\<close>

definition row_ops :: "csv_payment list \<Rightarrow> operation list" where
  "row_ops qs = map (\<lambda>q. OpPayment (cp_destination q) Native (cp_amount q)) qs"

lemma csv_batch_sends:
  fixes s :: "('w, 'y) sys_scheme"
  assumes "batch_execute p c self (t_payload (csv_task qs)) s = (s', r)"
  shows "\<exists>es. submissions s' = submissions s @ es \<and> (es = [] \<or>
    (1 \<le> length qs \<and> length qs \<le> 100 \<and> (\<forall>q \<in> set qs. cp_asset_code q = ''XLM'') \<and> one_tx c (ops_tx self (row_ops qs)) es))"
proof -
  let ?v = "t_payload (csv_task qs)"
  show ?thesis
  proof (cases "batch_schema p ?v")
    case None
    with assms show ?thesis by (simp add: batch_execute_def)
  next
    case (Some b)
    let ?is = "ba_payments b"
    have len: "1 \<le> length ?is" "length ?is \<le> 100" and "z_arr (payment_input_schema p) (field ?v ''payments'') = Some ?is"
      using Some by (auto simp: batch_schema_def Option.bind_eq_Some_conv z_check_Some)
    moreover have "field ?v ''payments'' = JArr (map csv_entry qs)" by (simp add: csv_task_def field_def obj_get_def)
    ultimately have "list_all2 (\<lambda>v i. payment_input_schema p v = Some i) (map csv_entry qs) ?is"
      by (simp add: z_arr_def all_some_all2)
    then have rows: "list_all2 (\<lambda>q i. pi_destination i = cp_destination q \<and> pi_amount i = cp_amount q \<and>
        pi_asset_code i = cp_asset_code q \<and> pi_asset_issuer i = None) qs ?is"
      unfolding list_all2_map1 by (rule list_all2_mono) (rule csv_entry_schema)
    obtain es where es: "submissions s' = submissions s @ es" "batch_sends p c self ?is es"
      using sendsD [OF batch_trace [OF Some] assms] by blast
    show ?thesis
    proof (cases "es = []")
      case True
      with es(1) show ?thesis by simp
    next
      case False
      with es(1) have "s' \<noteq> s" by auto
      with batch_stopped [OF Some _ assms] have "preflight (ba_fail_fast b) 0 [] ?is = Inr []" by blast
      from preflight_passed [OF this] have pre: "\<forall>i \<in> set ?is. pi_asset_code i = ''XLM'' \<or> \<not> issuer_missing (pi_asset_issuer i)"
        by blast
      have xlm: "\<forall>q \<in> set qs. cp_asset_code q = ''XLM''"
      proof
        fix q assume "q \<in> set qs"
        then obtain n where n: "n < length qs" "q = qs ! n" by (auto simp: in_set_conv_nth)
        with rows have "pi_asset_code (?is ! n) = cp_asset_code q" "pi_asset_issuer (?is ! n) = None" "?is ! n \<in> set ?is"
          by (auto simp: list_all2_conv_all_nth)
        with pre show "cp_asset_code q = ''XLM''" by (auto simp: issuer_missing_def)
      qed
      from es(2) False obtain ops where ops: "list_all2 (pays p) ?is ops" "one_tx c (ops_tx self ops) es" by (auto simp: batch_sends_def)
      have "ops = row_ops qs"
      proof (rule nth_equalityI)
        show l: "length ops = length (row_ops qs)"
          using list_all2_lengthD [OF ops(1)] list_all2_lengthD [OF rows] by (simp add: row_ops_def)
        fix i assume "i < length ops"
        with l ops(1) rows xlm show "ops ! i = row_ops qs ! i"
          by (auto simp: row_ops_def list_all2_conv_all_nth pays_def resolve_asset_def)
      qed
      with es(1) ops(2) xlm len list_all2_lengthD [OF rows] show ?thesis by auto
    qed
  qed
qed

text \<open>What a run of a batch task leaves: nothing sent when it was not dispatched or failed early.\<close>

lemma run_batch:
  fixes s :: "('w, 'y) agent_sys_scheme"
  assumes "run_task p c tt [] task s = (s', r)" "t_type task = ''batch_payment''"
    and "batch_payment_tool tt = (\<lambda>v s. map_data batch_data (batch_execute p c self v s))"
  shows "\<exists>(t :: ('w, 'y) agent_sys_scheme) t' q. submissions t = submissions s \<and> batch_execute p c self (t_payload task) t = (t', q) \<and>
    submissions s' \<in> {submissions s, submissions t'} \<and> (success r \<longrightarrow> submissions s' = submissions t' \<and> submissions t' \<noteq> submissions t)"
proof -
  obtain s1 cid where u: "(case t_correlation task of Some i \<Rightarrow> (s, i) | None \<Rightarrow> outside (random_uuid p) s) = (s1, cid)" by fastforce
  have s1: "submissions s1 = submissions s"
    using u outside_submissions [of "random_uuid p" s] by (cases "t_correlation task") (auto simp del: outside_submissions)
  let ?t = "s1\<lparr>active_tasks := active_tasks s1 + 1\<rparr>"
  obtain t' q where b: "batch_execute p c self (t_payload task) ?t = (t', q)" by fastforce
  have d: "dispatch p c tt task ?t = map_data batch_data (t', q)"
    using assms(2,3) b by (simp add: dispatch_def plain_tools_def)
  consider (refused) "s' = s1" "\<not> success r" | (ran) "execute_task p c tt [] task cid s1 = (s', r)"
    using assms(1) u by (auto simp: run_task_def Let_def shutting_down_result_def at_capacity_result_def failed_result_def split: if_splits)
  then show ?thesis
  proof cases
    case refused
    with s1 b show ?thesis by (intro exI [of _ ?t] exI [of _ t'] exI [of _ q]) simp
  next
    case ran
    obtain s2 e where d': "dispatch p c tt task ?t = (s2, e)" by fastforce
    with d have s2: "submissions s2 = submissions t'" "isl e = isl q" by (auto simp: map_data_def split: sum.splits)
    have sub: "submissions s' = submissions t'" using execute_plain_submissions [OF ran d'] s2 by simp
    have "success r \<Longrightarrow> \<not> isl e"
      using ran d'
    proof (cases rule: execute_plain_cases)
      case unsaved
      from task_failed_fields(1) [OF unsaved(3)] show "success r \<Longrightarrow> ?thesis" by (simp add: failed_result_def)
    next
      case failed
      from task_failed_fields(1) [OF failed(2)] show "success r \<Longrightarrow> ?thesis" by (simp add: failed_result_def)
    qed simp
    with s2(2) batch_success_sent [of p c self "t_payload task" ?t t'] b have "success r \<Longrightarrow> submissions t' \<noteq> submissions ?t"
      by (cases q) auto
    with s1 b sub show ?thesis by (intro exI [of _ ?t] exI [of _ t'] exI [of _ q]) simp
  qed
qed

text \<open>
  C23. A CSV run pays everything or nothing. Whatever the file, a run of the script sends at most one
  transaction, and if it sends one, the file was read without an error, has between 1 and 100
  rows, every row pays XLM, and the transaction pays exactly the rows, in order; when the script exits
  with status 0 it was sent. So the file its own comment shows as the format, with a USDC row, can
  never be paid, since no column carries an issuer.
\<close>

theorem csv_run_all_or_nothing:
  fixes s :: "('w, 'y) agent_sys_scheme"
  assumes "csv_main p c (agent_tools p c self net) lines_of path s = (s', code)"
  shows "\<exists>es. submissions s' = submissions s @ es \<and> (code = 0 \<longrightarrow> es \<noteq> []) \<and> (es = [] \<or>
    (\<exists>f ls rows. path = Some f \<and> lines_of f = Some ls \<and> parse_csv ls = Inr rows \<and> 1 \<le> length rows \<and> length rows \<le> 100 \<and>
       (\<forall>q \<in> set rows. cp_asset_code q = ''XLM'') \<and> one_tx c (ops_tx self (row_ops rows)) es))"
proof (cases "\<exists>f ls rows. path = Some f \<and> f \<noteq> [] \<and> lines_of f = Some ls \<and> parse_csv ls = Inr rows")
  case False
  with assms have "s' = s" "code = 1" by (auto simp: csv_main_def split: option.splits if_splits sum.splits)
  then show ?thesis by simp
next
  case True
  then obtain f ls rows where f: "path = Some f" "f \<noteq> []" "lines_of f = Some ls" "parse_csv ls = Inr rows" by blast
  obtain t r where r: "run_task p c (agent_tools p c self net) [] (csv_task rows) s = (t, r)" by fastforce
  with assms f have st: "s' = t" "code = (if success r then 0 else 1)" by (auto simp: csv_main_def)
  have ty: "t_type (csv_task rows) = ''batch_payment''" by (simp add: csv_task_def)
  have tool: "batch_payment_tool (agent_tools p c self net) = (\<lambda>v s. map_data batch_data (batch_execute p c self v s))"
    by (simp add: agent_tools_def)
  from run_batch [OF r ty tool] obtain u u' :: "('w, 'y) agent_sys_scheme" and q where b: "submissions u = submissions s"
    "batch_execute p c self (t_payload (csv_task rows)) u = (u', q)" "submissions t \<in> {submissions s, submissions u'}"
    "success r \<longrightarrow> submissions t = submissions u' \<and> submissions u' \<noteq> submissions u" by blast
  from csv_batch_sends [OF b(2)] b(1) obtain es where es: "submissions u' = submissions s @ es"
    "es = [] \<or> (1 \<le> length rows \<and> length rows \<le> 100 \<and> (\<forall>q \<in> set rows. cp_asset_code q = ''XLM'') \<and>
       one_tx c (ops_tx self (row_ops rows)) es)" by auto
  show ?thesis
  proof (cases "submissions t = submissions u'")
    case True
    with es b(1,4) st f show ?thesis by (intro exI [of _ es]) auto
  next
    case False
    with b(3,4) st show ?thesis by (intro exI [of _ "[]"]) auto
  qed
qed

definition one_row :: csv_payment where
  "one_row = \<lparr>cp_destination = payee, cp_amount = ''5'', cp_asset_code = ''XLM''\<rparr>"

definition one_row_file :: "string \<Rightarrow> string list option" where
  "one_row_file f = Some [''destination,amount,assetCode'', csv_line one_row]"

lemma one_row_parses: "parse_csv [''destination,amount,assetCode'', csv_line one_row] = Inr [one_row]"
proof -
  have "clean_cell payee" "clean_cell ''5''" "clean_cell ''XLM''" by code_simp+
  with csv_reads_back [of "[one_row]"] show ?thesis by (simp add: one_row_def)
qed

lemma one_row_schema: "batch_schema service_toy (t_payload (csv_task [one_row])) =
    Some \<lparr>ba_payments = [\<lparr>pi_destination = payee, pi_amount = ''5'', pi_asset_code = ''XLM'', pi_asset_issuer = None,
      pi_memo_type = ''text'', pi_memo = None\<rparr>], ba_fail_fast = False\<rparr>"
  by (simp add: batch_schema_def csv_task_def csv_entry_def one_row_def z_arr_def z_obj_def z_def_def z_check_def field_def obj_get_def
      payment_input_schema_def amount_ok_5 memo_fits_def payee_def zod_defs)

lemma one_row_runs:
  "\<exists>s'. csv_main service_toy sample_agent_config (agent_tools service_toy sample_agent_config sample_key ''test'') one_row_file
      (Some ''pay.csv'') (agent_start empty_db) = (s', 0)"
proof -
  let ?tt = "agent_tools service_toy sample_agent_config sample_key ''test''"
  have "to_double (5::rat) = JFin 5" using to_double_int [of 5] by simp
  then have t: "batch_total [\<lparr>pi_destination = payee, pi_amount = ''5'', pi_asset_code = ''XLM'', pi_asset_issuer = None,
      pi_memo_type = ''text'', pi_memo = None\<rparr>] = JFin 5"
    by (simp add: batch_total_def parse_float_5)
  obtain s1 :: "int agent_sys" and cid where u: "outside (random_uuid service_toy) (agent_start empty_db) = (s1, cid)" by fastforce
  then have st: "\<not> active (backoff s1)" "account_cache s1 = (\<lambda>k. None)" "active_tasks s1 = 0" "\<not> is_draining s1"
    "db_fault (store (spending s1)) = None"
    by (auto simp: outside_def split: prod.splits) (simp_all add: agent_start_def x402_start_def sys.defs x402_sys.defs
        agent_sys.defs initial_sys_def initial_backoff_def empty_db_def)
  let ?s = "s1\<lparr>active_tasks := active_tasks s1 + 1\<rparr>"
  have d: "\<exists>t. dispatch service_toy sample_agent_config ?tt (csv_task [one_row]) ?s = (t, Inr (batch_data \<lparr>sr_hash = ''h1'', sr_ledger = JFin 7\<rparr>)) \<and>
      spending t = spending s1"
    by (simp add: dispatch_def plain_tools_def agent_tools_def map_data_def csv_task_def Let_def)
      (simp add: batch_execute_def or_zod_def one_row_schema [unfolded csv_task_def, simplified] t Let_def parse_float_100 payment_problem_def
        good_load [OF service_toy_good] batch_op_def resolve_asset_def check_op_def bind_result_def build_tx_def
        good_submit_and_parse [OF service_toy_good] st)
  have "success (snd (execute_task service_toy sample_agent_config ?tt [] (csv_task [one_row]) cid s1))"
    using d st by (auto simp: execute_plain execute_inner_def Let_def save_result_def get_db_def data_column_def emit_def ok_result_def
        batch_data_def result_fields_def json_string_def send_webhook_def bind_result_def split: prod.split)
  moreover have "MAX_CONCURRENT_TASKS sample_agent_config = 10" by (simp add: sample_agent_config_def)
  ultimately show ?thesis
    using u st by (auto simp: csv_main_def one_row_file_def one_row_parses run_task_def csv_task_def Let_def split: prod.split)
qed

theorem csv_run_all_or_nothing_witness:
  "\<exists>s' es. csv_main service_toy sample_agent_config (agent_tools service_toy sample_agent_config sample_key ''test'') one_row_file
      (Some ''pay.csv'') (agent_start empty_db) = (s', 0) \<and> submissions s' = es \<and> es \<noteq> [] \<and>
    one_tx sample_agent_config (ops_tx sample_key [OpPayment payee Native ''5'']) es"
proof -
  obtain s' where m: "csv_main service_toy sample_agent_config (agent_tools service_toy sample_agent_config sample_key ''test'') one_row_file
      (Some ''pay.csv'') (agent_start empty_db) = (s', 0)" using one_row_runs by blast
  have z: "submissions (agent_start empty_db) = []" by simp
  from csv_run_all_or_nothing [OF m] obtain es where e: "submissions s' = es" "es \<noteq> []"
    "\<exists>f ls rows. Some ''pay.csv'' = Some f \<and> one_row_file f = Some ls \<and> parse_csv ls = Inr rows \<and>
       one_tx sample_agent_config (ops_tx sample_key (row_ops rows)) es" unfolding z append_Nil by blast
  then have "one_tx sample_agent_config (ops_tx sample_key (row_ops [one_row])) es"
    by (auto simp: one_row_file_def one_row_parses)
  moreover have "row_ops [one_row] = [OpPayment payee Native ''5'']" by (simp add: row_ops_def one_row_def)
  ultimately show ?thesis using m e(1,2) by auto
qed

end
