(* ===== verification/AnchorDeposit.thy ===== *)
theory AnchorDeposit imports ExampleScripts Webhook begin

text \<open>
  The example scripts that run one fixed task, and scripts/examples/anchor\_deposit.ts, which signs in at an
  anchor, asks it for a deposit address and pays it. \<open>env\<close> is process.env with the .env file read in;
  the progress messages on the console are not modelled.
\<close>

section \<open>The one-task scripts\<close>

definition demo_account :: string where
  "demo_account = ''GBBD47IF6LWK7P7MDEVSCWR7DPUWV3NY3DTQEVFL4NAT4AQH3ZLLFLA5''"

definition script_task :: "string \<Rightarrow> (string \<times> jsval) list \<Rightarrow> agent_task" where
  "script_task ty kvs = \<lparr>t_type = ty, t_payload = JObj kvs, t_correlation = None\<rparr>"

definition env_or :: "(string \<Rightarrow> string option) \<Rightarrow> string \<Rightarrow> string \<Rightarrow> string" where
  "env_or env k d = (case env k of Some v \<Rightarrow> v | None \<Rightarrow> d)"

definition send_xlm_task :: agent_task where
  "send_xlm_task = script_task ''stellar_payment'' [(''destination'', JStr demo_account), (''amount'', JStr ''1.0000000''),
     (''assetCode'', JStr ''XLM''), (''memo'', JStr ''example payment'')]"

definition path_payment_task :: agent_task where
  "path_payment_task = script_task ''path_payment'' [(''destination'', JStr demo_account), (''sendAsset'', JObj [(''code'', JStr ''XLM'')]),
     (''sendAmount'', JStr ''1.0000000''),
     (''destAsset'', JObj [(''code'', JStr ''USDC''), (''issuer'', JStr ''GBUQWP3BOUZX34ULNQG23RQ6F4YUSXHTQSXUSMIQSTBE2EURIDVXL6B'')]),
     (''destMinAmount'', JStr ''0.0000001''), (''memo'', JStr ''cross-asset payment example'')]"

definition usdc_value :: "(string \<Rightarrow> string option) \<Rightarrow> jsval" where
  "usdc_value env = JObj [(''code'', JStr ''USDC''), (''issuer'', JStr (env_or env ''X402_ASSET_ISSUER'' demo_account))]"

definition swap_task :: "(string \<Rightarrow> string option) \<Rightarrow> agent_task" where
  "swap_task env = script_task ''swap'' [(''sellAsset'', JObj [(''code'', JStr ''XLM'')]), (''buyAsset'', usdc_value env),
     (''sellAmount'', JStr ''1.0000000''), (''maxSlippagePct'', JNum (JFin 1))]"

definition dex_offer_task :: "(string \<Rightarrow> string option) \<Rightarrow> agent_task" where
  "dex_offer_task env = script_task ''dex_offer'' [(''action'', JStr ''create''), (''selling'', JObj [(''code'', JStr ''XLM'')]),
     (''buying'', usdc_value env), (''amount'', JStr ''100.0000000''), (''price'', JStr ''0.50'')]"

text \<open>The sample challenge expires five minutes after \<open>moment\<close>, given as its ISO text.\<close>

definition sample_challenge_task :: "(string \<Rightarrow> string option) \<Rightarrow> string \<Rightarrow> agent_task" where
  "sample_challenge_task env expiry = script_task ''x402_respond'' [(''resource'', JStr ''https://api.example.com/premium-data''),
     (''amount'', JStr ''0.5000000''), (''assetCode'', JStr ''USDC''),
     (''assetIssuer'', JStr (env_or env ''X402_ASSET_ISSUER'' demo_account)), (''payTo'', JStr demo_account),
     (''nonce'', JStr ''550e8400-e29b-41d4-a716-446655440000''), (''expiresAt'', JStr expiry)]"

definition invoke_escrow_task :: "(string \<Rightarrow> string option) \<Rightarrow> agent_task" where
  "invoke_escrow_task env = script_task ''soroban_invoke''
     [(''contractId'', JStr (env_or env ''CONTRACT_ID'' ''CAAAAAAAAAAAAAAAAAAAAAAAAAAAAAAAAAAAAAAAAAAAAAAAAAAAD2KM'')),
      (''method'', JStr ''get_state''), (''args'', JArr []), (''simulateOnly'', JBool True)]"

text \<open>The scripts that end with status 1 when their variable is missing or empty: None.\<close>

definition env_required :: "(string \<Rightarrow> string option) \<Rightarrow> string \<Rightarrow> string option" where
  "env_required env k = (case env k of Some (x # v) \<Rightarrow> Some (x # v) | _ \<Rightarrow> None)"

definition query_contract_task :: "(string \<Rightarrow> string option) \<Rightarrow> agent_task option" where
  "query_contract_task env = map_option (\<lambda>k. script_task ''soroban_query''
     [(''contractId'', JStr k), (''method'', JStr ''get_state''), (''args'', JArr [])]) (env_required env ''CONTRACT_ID'')"

definition fee_bump_task :: "(string \<Rightarrow> string option) \<Rightarrow> agent_task option" where
  "fee_bump_task env = map_option (\<lambda>x. script_task ''fee_bump''
     [(''innerTxXdr'', JStr x), (''baseFeeMultiplier'', JNum (JFin 2))]) (env_required env ''INNER_TX_XDR'')"

definition check_balance_task :: "(string \<Rightarrow> string option) \<Rightarrow> agent_task option" where
  "check_balance_task env = map_option (\<lambda>k. script_task ''balance_check'' [(''publicKey'', JStr k)])
     (case env_required env ''AGENT_PUBLIC_KEY'' of Some k \<Rightarrow> Some k | None \<Rightarrow> env_required env ''ACCOUNT_ID'')"

definition multisig_phase1_task :: agent_task where
  "multisig_phase1_task = script_task ''multisig_payment'' [(''destination'', JStr demo_account), (''amount'', JStr ''10.0000000''),
     (''assetCode'', JStr ''XLM''), (''memo'', JStr ''multisig example''),
     (''additionalSigners'', JArr [JStr demo_account, JStr ''GA5ZSEJYB37JRC5AVCIA5MOP4RHTM335X2KGX3IHOJAPP5RE34K4KZVN'']),
     (''minSignatures'', JNum (JFin 2)), (''signatures'', JArr [])]"

text \<open>The check after phase 1, and what it goes on with.\<close>

definition phase1_xdr :: "agent_result \<Rightarrow> jsval option" where
  "phase1_xdr r = (let x = field (result_data r) ''unsignedXDR'' in if \<not> success r \<or> \<not> truthy x then None else Some x)"

text \<open>What check\_balance.ts prints: it reads the account and the balances, all texts, off the agent's result.\<close>

definition shown :: "jsval \<Rightarrow> string" where
  "shown v = (case v of JStr t \<Rightarrow> t | JNull \<Rightarrow> ''null'' | _ \<Rightarrow> ''undefined'')"

definition balance_line :: "jsval \<Rightarrow> string" where
  "balance_line b =
     (let label = (if field b ''assetType'' = JStr ''native'' then ''XLM''
                   else shown (field b ''assetCode'') @ '' ('' @ shown (field b ''assetIssuer'') @ '')'');
          amt = shown (field b ''balance'')
      in ''  '' @ label @ replicate (60 - length label) (CHR '' '') @ '' '' @ replicate (18 - length amt) (CHR '' '') @ amt)"

definition check_balance_lines :: "agent_result \<Rightarrow> string list" where
  "check_balance_lines r =
     (let v = result_json r
      in (''Balances for account: '' @ shown (field v ''publicKey'')) #
         (case field v ''balances'' of
            JArr (b # bs) \<Rightarrow> map balance_line (b # bs)
          | _ \<Rightarrow> [''  No balances found for this account'']))"

section \<open>anchor\_deposit.ts\<close>

text \<open>What the script needs of the platform beside the tools': a URL with its query parameters, and a request
  with headers.\<close>

record 'w anchor_platform = "'w service_platform" +
  with_params :: "string \<Rightarrow> (string \<times> string) list \<Rightarrow> js_error + string"
  fetch_with :: "string \<Rightarrow> (string \<times> string) list \<Rightarrow> 'w \<Rightarrow> 'w \<times> (js_error + fetch_reply)"
  public_key_of :: "string \<Rightarrow> js_error + string"

record anchor_settings =
  an_url :: string
  an_code :: string
  an_issuer :: string
  an_amount :: string

definition anchor_settings_of :: "env \<Rightarrow> anchor_settings" where
  "anchor_settings_of env =
     \<lparr>an_url = env_or env ''ANCHOR_URL'' ''https://testanchor.stellar.org'', an_code = env_or env ''ANCHOR_ASSET_CODE'' ''SRT'',
      an_issuer = env_or env ''ANCHOR_ASSET_ISSUER'' ''GCDNJUBQSX7AJWLJACMJ7I4BC3Z47BQUTMHEICZLE6MU4KQBRYG5JY6'',
      an_amount = env_or env ''ANCHOR_DEPOSIT_AMOUNT'' ''1.0000000''\<rparr>"

text \<open>One line against \<open>/^\s*([A-Z_]+)\s*=\s*"([^"]+)"\s*$/\<close>.\<close>

definition toml_key_char :: "char \<Rightarrow> bool" where
  "toml_key_char ch \<longleftrightarrow> (65 \<le> ccode ch \<and> ccode ch \<le> 90) \<or> ch = CHR ''_''"

definition toml_line :: "string \<Rightarrow> (string \<times> string) option" where
  "toml_line line =
     (let u = trim_left line; k = takeWhile toml_key_char u; v = trim_left (dropWhile toml_key_char u) in
      if k = [] then None
      else (case v of
          eq # w \<Rightarrow>
            if eq \<noteq> CHR ''='' then None
            else (case trim_left w of
                q # x \<Rightarrow>
                  if q \<noteq> CHR 0x22 then None
                  else (let txt = takeWhile (\<lambda>ch. ch \<noteq> CHR 0x22) x; rest = dropWhile (\<lambda>ch. ch \<noteq> CHR 0x22) x
                        in if txt = [] \<or> rest = [] \<or> trim_left (tl rest) \<noteq> [] then None else Some (k, txt))
              | [] \<Rightarrow> None)
        | [] \<Rightarrow> None))"

text \<open>A later line of the same key wins.\<close>

fun toml_entries :: "string list \<Rightarrow> (string \<rightharpoonup> string)" where
  "toml_entries [] = Map.empty"
| "toml_entries (l # ls) =
     (case toml_line l of None \<Rightarrow> toml_entries ls | Some (k, v) \<Rightarrow> [k \<mapsto> v] ++ toml_entries ls)"

definition fetch_stellar_toml ::
    "('w, 'x) anchor_platform_scheme \<Rightarrow> string \<Rightarrow> ('w, 'y) sys_scheme \<Rightarrow> ('w, 'y) sys_scheme \<times> (js_error + (string \<rightharpoonup> string))" where
  "fetch_stellar_toml p url s =
     (let u = strip_slash url @ ''/.well-known/stellar.toml'' in
      andThen (outside (fetch_url p u None) s) (\<lambda>s r.
        if \<not> rp_ok r then (s, Inl (plain (''Failed to fetch stellar.toml from '' @ u @ '': HTTP '' @ int_str (rp_status r))))
        else (s, case rp_text r of
            None \<Rightarrow> Inl (plain ''reading the text failed'')
          | Some t \<Rightarrow> Inr (toml_entries (split_on (CHR 0x0A) t)))))"

record deposit_info =
  de_address :: jsval
  de_memo :: jsval
  de_memo_type :: jsval

definition initiate_deposit ::
    "('w, 'x) anchor_platform_scheme \<Rightarrow> string \<Rightarrow> string \<Rightarrow> string \<Rightarrow> string \<Rightarrow> ('w, 'y) sys_scheme \<Rightarrow>
     ('w, 'y) sys_scheme \<times> (js_error + deposit_info)" where
  "initiate_deposit p server token code account s =
     andThen (s, with_params p (strip_slash server @ ''/deposit'')
         [(''asset_code'', code), (''account'', account), (''type'', ''crypto'')]) (\<lambda>s u.
     andThen (outside (fetch_with p u [(''Authorization'', ''Bearer '' @ token)]) s) (\<lambda>s r.
       if \<not> rp_ok r
       then (s, Inl (case rp_text r of
           None \<Rightarrow> plain ''reading the text failed''
         | Some t \<Rightarrow> plain (''SEP-0006 deposit initiation failed: HTTP '' @ int_str (rp_status r) @ '' - '' @ t)))
       else andThen (s, rp_json r) (\<lambda>s j.
         if nullish j then (s, Inl (TypeErr ''Cannot read properties (reading 'how')''))
         else (let addr = coalesce (field j ''how'') (field j ''deposit_address'')
               in (s, if \<not> truthy addr then Inl (plain ''Anchor did not return a deposit address in the `how` field.'')
                      else Inr \<lparr>de_address = addr, de_memo = field j ''memo'', de_memo_type = field j ''memo_type''\<rparr>)))))"

text \<open>The payment; the memo is there unless undefined, its type is not.\<close>

definition deposit_task :: "anchor_settings \<Rightarrow> deposit_info \<Rightarrow> agent_task" where
  "deposit_task a d = script_task ''stellar_payment''
     ([(''destination'', de_address d), (''amount'', JStr (an_amount a)), (''assetCode'', JStr (an_code a)),
       (''assetIssuer'', JStr (an_issuer a))] @ (if de_memo d = JUndef then [] else [(''memo'', de_memo d)]))"

text \<open>The sign-in tool keeps a trace of its own beside the agent's state.\<close>

definition sign_in ::
    "('w, 'x) anchor_platform_scheme \<Rightarrow> string \<Rightarrow> string \<Rightarrow> ('w, 'y) sys_scheme \<Rightarrow> ('w, 'y) sys_scheme \<times> (js_error + string)" where
  "sign_in p self url s =
     (let (t, r) = identity_execute p self (JObj [(''anchorUrl'', JStr url)]) (sys.extend (sys.truncate s) (identity_sys.fields []))
      in (sys.extend (sys.truncate t) (sys.more s), r))"

definition strip_auth :: "string \<Rightarrow> string" where
  "strip_auth u = (if ends_with u ''/auth'' then take (length u - 5) u else u)"

text \<open>The script: an error that ends it, or the result of the payment, whose failure is exit status 1.\<close>

definition anchor_main ::
    "('w, 'x) anchor_platform_scheme \<Rightarrow> agent_config \<Rightarrow> ('w, 'y) agent_sys_scheme tool_table \<Rightarrow> env \<Rightarrow>
     ('w, 'y) agent_sys_scheme \<Rightarrow> ('w, 'y) agent_sys_scheme \<times> (js_error + agent_result)" where
  "anchor_main p c tt env s =
     (let a = anchor_settings_of env in
      case env_required env ''AGENT_SECRET_KEY'' of
        None \<Rightarrow> (s, Inl (plain ''AGENT_SECRET_KEY is not set in .env''))
      | Some secret \<Rightarrow>
          andThen (s, public_key_of p secret) (\<lambda>s pub.
          andThen (fetch_stellar_toml p (an_url a) s) (\<lambda>s toml.
            let auth = (case toml ''WEB_AUTH_ENDPOINT'' of Some u \<Rightarrow> u | None \<Rightarrow> strip_slash (an_url a) @ ''/auth'');
                server = (case toml ''TRANSFER_SERVER'' of Some u \<Rightarrow> u | None \<Rightarrow> strip_slash (an_url a) @ ''/sep6'')
            in andThen (sign_in p pub (strip_auth auth) s) (\<lambda>s token.
               andThen (initiate_deposit p server token (an_code a) pub s) (\<lambda>s d.
                 let (s', r) = run_task p c tt [] (deposit_task a d) s in (s', Inr r))))))"

section \<open>What the scripts can do\<close>

text \<open>The SDK takes an issuer for a public key only when it has 56 characters.\<close>

definition issuers_checked :: "('w, 'x) platform_scheme \<Rightarrow> bool" where
  "issuers_checked p \<longleftrightarrow> (\<forall>code i. length i \<noteq> 56 \<longrightarrow> asset_fault p code (Some i) \<noteq> None)"

lemma bad_issuer: "issuers_checked p \<Longrightarrow> length i \<noteq> 56 \<Longrightarrow> isl (new_asset p code (Some i))"
  by (auto simp: issuers_checked_def new_asset_def split: option.split)

text \<open>
  The path payment example can never pay: its issuer has 55 characters, so the SDK refuses the
  asset before anything is loaded.
\<close>

theorem path_example_never_pays:
  assumes "issuers_checked p" "path_payment_execute p c self (t_payload path_payment_task) s = (s', r)"
  shows "s' = s \<and> isl r"
proof -
  let ?k = "''GBUQWP3BOUZX34ULNQG23RQ6F4YUSXHTQSXUSMIQSTBE2EURIDVXL6B''"
  have u: "isl (new_asset p ''USDC'' (Some ?k))" by (rule bad_issuer [OF assms(1)]) simp
  show ?thesis
  proof (cases "path_payment_schema (t_payload path_payment_task)")
    case None
    with assms(2) show ?thesis by (auto simp: path_payment_execute_def or_zod_def)
  next
    case (Some i)
    then have "pp_dest_asset i = \<lparr>ai_code = ''USDC'', ai_issuer = Some ?k\<rparr>"
      by (auto simp: path_payment_schema_def path_payment_task_def script_task_def asset_schema_def zod_defs field_def obj_get_def
          Option.bind_eq_Some_conv split: if_splits)
    then have d: "isl (to_asset p (pp_dest_asset i))" using u by (simp add: to_asset_def asset_of_def issuer_missing_def)
    with assms(2) Some show ?thesis
      by (auto simp: path_payment_execute_def or_zod_def andThen_const isl_def split: if_splits sum.splits)
  qed
qed

text \<open>What a task leaves among the submissions is what its dispatch left.\<close>

lemma run_task_submissions:
  fixes s :: "('w, 'y) agent_sys_scheme"
  assumes "run_task p c tt [] task s = (s', r)"
  shows "submissions s' = submissions s \<or> (\<exists>(t :: ('w, 'y) agent_sys_scheme) s1 d. dispatch p c tt task t = (s1, d) \<and>
    submissions t = submissions s \<and> submissions s' = submissions s1)"
proof -
  obtain s0 cid where u: "(case t_correlation task of Some i \<Rightarrow> (s, i) | None \<Rightarrow> outside (random_uuid p) s) = (s0, cid)" by fastforce
  have s0: "submissions s0 = submissions s"
    using u outside_submissions [of "random_uuid p" s] by (cases "t_correlation task") (auto simp del: outside_submissions)
  consider (refused) "s' = s0" | (ran) "execute_task p c tt [] task cid s0 = (s', r)"
    using assms u by (auto simp: run_task_def Let_def split: if_splits)
  then show ?thesis
  proof cases
    case ran
    let ?t = "s0\<lparr>active_tasks := active_tasks s0 + 1\<rparr>"
    obtain s1 d where d: "dispatch p c tt task ?t = (s1, d)" by fastforce
    with execute_plain_submissions [OF ran d] s0 show ?thesis by (intro disjI2 exI [of _ ?t] exI [of _ s1] exI [of _ d]) simp
  qed (simp add: s0)
qed

lemma run_payment_submissions:
  fixes s :: "('w, 'y) agent_sys_scheme"
  assumes "run_task p c tt [] task s = (s', r)" "t_type task = ''stellar_payment''" "payment_tool tt = payment_execute p c self"
  shows "\<exists>es. submissions s' = submissions s @ es \<and> (es = [] \<or> (\<exists>i ast. payment_input_schema p (t_payload task) = Some i \<and>
    resolve_asset p (pi_asset_code i) (pi_asset_issuer i) = Inr ast \<and>
    (\<forall>env \<in> set es. payment_envelope self (OpPayment (pi_destination i) ast (pi_amount i)) env)))"
proof -
  from run_task_submissions [OF assms(1)] show ?thesis
  proof (elim disjE exE conjE)
    fix t s1 :: "('w, 'y) agent_sys_scheme" and d
    assume d: "dispatch p c tt task t = (s1, d)" "submissions t = submissions s" "submissions s' = submissions s1"
    obtain g u where g: "spending_guard p c (t_payload task) t = (g, u)" by fastforce
    note gs = spending_guard_frame [OF g]
    obtain s2 q where e: "payment_execute p c self (t_payload task) g = (s2, q)" by fastforce
    from d(1) g e assms(2,3) have s1: "submissions s1 = submissions g \<or> submissions s1 = submissions s2"
      by (cases u) (auto simp: dispatch_def map_data_def split: sum.splits)
    show ?thesis
    proof (cases "submissions s2 = submissions g")
      case True
      with s1 d gs show ?thesis by (intro exI [of _ "[]"]) auto
    next
      case False
      with payment_trace [OF e] obtain i es ast where i: "payment_input_schema p (t_payload task) = Some i"
        "submissions s2 = submissions g @ es" "resolve_asset p (pi_asset_code i) (pi_asset_issuer i) = Inr ast"
        "two_rounds (nat (MAX_RETRIES c)) (payment_envelope self (OpPayment (pi_destination i) ast (pi_amount i))) es"
        by (cases "payment_input_schema p (t_payload task)") auto
      from i(4) have "\<forall>env \<in> set es. payment_envelope self (OpPayment (pi_destination i) ast (pi_amount i)) env"
        by (auto simp: two_rounds_def dest!: iffD1 [OF in_set_replicate] split: if_splits)
      with s1 d gs i show ?thesis
        by (cases "submissions s1 = submissions g") (intro exI [of _ "[]"], auto)
    qed
  qed auto
qed

lemma andThen_silent:
  assumes "submissions (fst m) = n" "\<And>t x. submissions t = n \<Longrightarrow> submissions (fst (f t x)) = n"
  shows "submissions (fst (andThen m f)) = n"
  using assms by (cases m; cases "snd m") auto

lemma identity_silent: "submissions (fst (identity_execute p self v s)) = submissions s"
  by (auto simp: identity_execute_def get_challenge_def Let_def intro!: andThen_silent split: prod.split)

lemma sign_in_silent: "submissions (fst (sign_in p self url s)) = submissions s"
proof -
  let ?s = "sys.extend (sys.truncate s) (identity_sys.fields [])"
  obtain t r where t: "identity_execute p self (JObj [(''anchorUrl'', JStr url)]) ?s = (t, r)" by fastforce
  with identity_silent [of p self "JObj [(''anchorUrl'', JStr url)]" ?s] have "submissions t = submissions s" by (simp add: sys.defs)
  with t show ?thesis by (simp add: sign_in_def sys.defs)
qed

lemma toml_silent: "submissions (fst (fetch_stellar_toml p url s)) = submissions s"
  by (auto simp: fetch_stellar_toml_def Let_def intro!: andThen_silent)

lemma deposit_silent: "submissions (fst (initiate_deposit p server token code account s)) = submissions s"
  by (auto simp: initiate_deposit_def Let_def intro!: andThen_silent)

lemma deposit_task_schema:
  assumes "payment_input_schema p (t_payload (deposit_task a d)) = Some i"
  shows "de_address d = JStr (pi_destination i)" "pi_amount i = an_amount a" "pi_asset_code i = an_code a"
    "pi_asset_issuer i = Some (an_issuer a)"
  using assms
  by (auto simp: payment_input_schema_def deposit_task_def script_task_def zod_defs field_def obj_get_def
      Option.bind_eq_Some_conv split: if_splits jsval.splits)

text \<open>What the script may send: nothing, or the payment of the configured amount to the address of a reply of
  the anchor; nothing at all with the issuer of 55 characters it falls back on.\<close>

definition anchor_sends ::
    "('w, 'x) anchor_platform_scheme \<Rightarrow> string \<Rightarrow> env \<Rightarrow> ('w, 'y) sys_scheme \<Rightarrow> envelope list \<Rightarrow> bool" where
  "anchor_sends p self env s0 es \<longleftrightarrow>
     (let a = anchor_settings_of env in
      (es = [] \<or> (\<exists>pub server token d (t :: ('w, 'y) sys_scheme) t' dest ast.
         initiate_deposit p server token (an_code a) pub t = (t', Inr d) \<and> de_address d = JStr dest \<and>
         (\<forall>e \<in> set es. payment_envelope self (OpPayment dest ast (an_amount a)) e))) \<and>
      (issuers_checked p \<and> an_code a \<noteq> ''XLM'' \<and> env ''ANCHOR_ASSET_ISSUER'' = None \<longrightarrow> es = []))"

lemma anchor_pays:
  fixes s :: "('w, 'y) agent_sys_scheme" and t :: "('w, 'y) agent_sys_scheme"
  assumes "initiate_deposit p server token (an_code (anchor_settings_of env)) pub t = (s, Inr d)"
    and "run_task p c (agent_tools p c self net) [] (deposit_task (anchor_settings_of env) d) s = (s', r)"
  shows "sends (anchor_sends p self env t) s (s', Inr r)"
proof -
  let ?a = "anchor_settings_of env"
  have ty: "t_type (deposit_task ?a d) = ''stellar_payment''" by (simp add: deposit_task_def script_task_def)
  have tool: "payment_tool (agent_tools p c self net) = payment_execute p c self" by (simp add: agent_tools_def)
  from run_payment_submissions [OF assms(2) ty tool] obtain es where es: "submissions s' = submissions s @ es"
    "es = [] \<or> (\<exists>i ast. payment_input_schema p (t_payload (deposit_task ?a d)) = Some i \<and>
      resolve_asset p (pi_asset_code i) (pi_asset_issuer i) = Inr ast \<and>
      (\<forall>env \<in> set es. payment_envelope self (OpPayment (pi_destination i) ast (pi_amount i)) env))" by blast
  have "anchor_sends p self env t es"
  proof (cases "es = []")
    case False
    with es(2) obtain i ast where i: "payment_input_schema p (t_payload (deposit_task ?a d)) = Some i"
      "resolve_asset p (pi_asset_code i) (pi_asset_issuer i) = Inr ast"
      "\<forall>env \<in> set es. payment_envelope self (OpPayment (pi_destination i) ast (pi_amount i)) env" by blast
    note f = deposit_task_schema [OF i(1)]
    have "\<not> (issuers_checked p \<and> an_code ?a \<noteq> ''XLM'' \<and> env ''ANCHOR_ASSET_ISSUER'' = None)"
    proof
      assume h: "issuers_checked p \<and> an_code ?a \<noteq> ''XLM'' \<and> env ''ANCHOR_ASSET_ISSUER'' = None"
      then have "length (an_issuer ?a) \<noteq> 56" by (simp add: anchor_settings_of_def env_or_def)
      with bad_issuer [of p "an_issuer ?a" "an_code ?a"] h i(2) f show False by (auto simp: resolve_asset_def)
    qed
    with assms(1) f i(3) show ?thesis unfolding anchor_sends_def Let_def by metis
  qed (simp add: anchor_sends_def)
  with es(1) show ?thesis by (simp add: sends_def)
qed

text \<open>
  The anchor example pays only the address the anchor named, and only the configured amount; and
  with the issuer it falls back on it pays nothing whatever the anchor says.
\<close>

theorem anchor_deposit_pays_anchor:
  fixes s :: "('w, 'y) agent_sys_scheme"
  assumes "anchor_main p c (agent_tools p c self net) env s = (s', r)"
  shows "\<exists>es. submissions s' = submissions s @ es \<and> anchor_sends p self env s es"
proof -
  have n: "anchor_sends p self env s []" by (simp add: anchor_sends_def)
  have same: "anchor_sends p self env s = anchor_sends p self env t" for t :: "('w, 'y) agent_sys_scheme"
    by (simp add: anchor_sends_def fun_eq_iff)
  have pay: "sends (anchor_sends p self env s) u (case run_task p c (agent_tools p c self net) [] (deposit_task (anchor_settings_of env) d) u of
      (s', r) \<Rightarrow> (s', Inr r))"
    if "initiate_deposit p server token (an_code (anchor_settings_of env)) pub t = (u, Inr d)"
    for server token pub d and t u :: "('w, 'y) agent_sys_scheme"
    using anchor_pays [OF that] unfolding same [of t] by (auto split: prod.split)
  have "sends (anchor_sends p self env s) s (anchor_main p c (agent_tools p c self net) env s)"
    unfolding anchor_main_def Let_def
    by (auto simp: n toml_silent sign_in_silent deposit_silent split: option.split
        intro!: sends_andThen sends_pure pay)
  with assms show ?thesis by (auto dest: sendsD)
qed

text \<open>
  The balance example never shows a balance: the agent's result keeps the answer under \<open>data\<close>, and
  the answer of the balance tool is the text of one balance.
\<close>

lemma check_balance_shows_nothing:
  "check_balance_lines r = [''Balances for account: undefined'', ''  No balances found for this account'']"
  by (cases "result_error r"; cases "result_error_type r"; cases "correlation_id r"; cases "duration_ms r"; cases "sequence_index r")
    (simp_all add: check_balance_lines_def result_json_def field_def obj_get_def shown_def Let_def)

text \<open>The payment example passes the tool's schema.\<close>

lemma send_xlm_accepted:
  assumes "valid_ed25519 p demo_account"
  shows "payment_input_schema p (t_payload send_xlm_task) = Some \<lparr>pi_destination = demo_account, pi_amount = ''1.0000000'',
    pi_asset_code = ''XLM'', pi_asset_issuer = None, pi_memo_type = ''text'', pi_memo = Some (MemoString ''example payment'')\<rparr>"
proof -
  have "decimal_units ''1.0000000'' = Some 10000000"
    by (simp add: decimal_units_def is_digit_def ccode_def digits_val_def digit_val_def decimal_tail_ok_def)
  then have "amount_ok ''1.0000000''" by (simp add: amount_ok_units)
  moreover have "utf8_length ''example payment'' \<le> 28" by (simp add: ccode_def)
  moreover have "length demo_account = 56" by (simp add: demo_account_def)
  ultimately show ?thesis using assms
    by (simp add: payment_input_schema_def send_xlm_task_def script_task_def zod_defs z_memo_def field_def obj_get_def memo_fits_def)
qed

end
