(* ===== verification/Spec2Isabelle.thy ===== *)
theory Spec2Isabelle imports Window Builder Storage Lifecycle Listener Server Setup Scripts AuditTrail
  Breaker StructuredLog GatedResource AnchorDeposit begin

text \<open>
  Synapse-Stellar is an agent that answers payment tasks on the Stellar network. This library models its backend
  (src/backend) and its scripts, and proves what makes them correct: what the agent may spend, what reaches the
  network, what is stored and announced, and how its loops, queues, streams and shutdown behave under every
  interleaving.

  \<^bold>\<open>The program and its theories.\<close> A task enters \<open>run\<close> of agent.ts, takes a slot or a
  place in the queue, passes the middleware chain and the spending guard, and is dispatched to one of 22 tools; its
  result is announced, stored in SQLite and posted to a webhook. The tools talk to Horizon and to the Soroban RPC
  server through rpc\_client.ts, which retries, caches accounts and obeys the rate-limit lock of network.ts. Around
  the agent stand the loader of its configuration, an HTTP server, and the process that starts and stops it.

  \<^item> \<^bold>\<open>Language.\<close> Prelude (strings), JsNumber (binary64 numbers, parseFloat, toFixed),
    JsValue (values of unknown type, JSON), JsonRound (what JSON.parse reads of what JSON.stringify wrote), Zod
    (schema combinators).
  \<^item> \<^bold>\<open>Foundations.\<close> Errors and ErrorHandler (errors.ts, middleware/error\_handler.ts),
    Redaction (logger.ts, the redaction of agent.ts), StructuredLog (utils/logger.ts), Config (config.ts), Persistence
    (persistence.ts, db/client.ts), Network (network.ts), Spending and Window (spending\_tracker.ts, with restarts),
    NonceStore (nonce\_store.ts), Memo (MemoAttachmentTool.ts and the memos of the payment tool).
  \<^item> \<^bold>\<open>Talking to the network.\<close> Stellar (the values handed to the SDK, and the platform),
    Retry (the contract of retry loops), TtlCache (the contract of caches), RpcClient (rpc\_client.ts, types/xdr.ts),
    Breaker (its circuit breakers), RpcFrame (what its calls leave alone), Operations (what submitting tools share).
  \<^item> \<^bold>\<open>The tools.\<close> Payment, X402, Accounts and AccountLaws, Trading, Multi, Soroban and
    SorobanLaws, Reserves, Services, Builder, Storage, Listener, Watcher: the files of backend/tools, each named in
    the theory's opening text.
  \<^item> \<^bold>\<open>The agent.\<close> Agent (tasks, middleware, sequences, slots and queue of agent.ts),
    Webhook (webhook.ts), ToolFrame and Dispatch (the agent with all its tools), Broadcast (what a reported payment
    has put on the network), AuditTrail (what the server and the webhook's receiver see of a result), Lifecycle (its
    streams, listeners and handlers, and BalanceStreamTool.ts).
  \<^item> \<^bold>\<open>The process.\<close> Server (server.ts), Shutdown (index.ts, telemetry.ts), Boot (the module
    state of config.ts, the servers of rpc\_client.ts, start-up), Setup (scripts/setup.ts), Scripts (the CSV reader of
    batch\_payment\_csv.ts, find\_secrets.js).
  \<^item> \<^bold>\<open>The examples.\<close> ExampleScripts (batch\_payment\_csv.ts on the agent), GatedResource
    (x402\_full\_flow.ts: a paid resource and the agent that pays for it), AnchorDeposit (anchor\_deposit.ts and the
    scripts that hand the agent one fixed task).

  \<^bold>\<open>How the code corresponds to the model.\<close> A function of the code is a definition of the same
  name in Isabelle's spelling. What the code keeps between calls is a record that is passed and returned
  (\<open>sys\<close>, \<open>agent\<close>, \<open>tracker\<close>, \<open>agent_run\<close>,
  \<open>listener\<close>, \<open>watcher\<close>, \<open>lifecycle\<close>, \<open>process\<close>); a throw is
  \<open>Inl\<close> of the datatype \<open>js_error\<close>, a return \<open>Inr\<close>; \<open>andThen\<close>
  sequences such calls. Everything that is not code of the repository - the clock, random numbers, Horizon, the RPC
  server, the SDK's codecs and signatures, SHA-256 and HMAC, HTTP replies - is a field of a record
  (\<open>platform\<close> and its extensions, \<open>sdk\<close>, \<open>storage_sdk\<close>) over a world of any
  type, so a theorem holds for every behaviour of it that its hypotheses allow. Sent transactions, pauses, events and
  webhook posts are traces in the state. Where several activities interleave, each await is the border of a step of an
  inductive relation, and the properties are invariants of every reachable state: \<open>run_step\<close> (slots and
  queue), \<open>session_turn\<close> (concurrent x402 answers), the waiting calls of Network,
  \<open>listen_step\<close>, \<open>watch_step\<close>, \<open>proc_step\<close>, and the steps of Lifecycle.

  \<^bold>\<open>Interfaces.\<close> The contracts between components are locales, each interpreted on the code's own
  definitions: the nonce stores (two implementations), retry loops (withRetry and the webhook), caches with a lifetime
  (accounts, ledger snapshot, stellar.toml), subscription slots (streams, listeners, balances), and the preorders on
  process states that every composed RPC call respects.

  \<^bold>\<open>What the lemmas show.\<close>
  \<^item> Spending: the cumulative cap holds over every run of payments and restarts; the guard of payments and the
    guard of contract invocations accept the same amounts; no tool submits more than it was asked for; which tools the
    cumulative window counts.
  \<^item> Submission: which transactions a tool can submit, how often, and signed by whom; retries, pauses and
    deliveries are bounded; no cached account survives a submission.
  \<^item> Success means sent: a task that reports a payment has put exactly that payment on the network, and a
    circuit breaker that has recovered counts failures afresh.
  \<^item> Replay: used nonces are not paid twice by calls in sequence - and are by interleaved ones; the two stores
    agree.
  \<^item> Accounting: every task has one result, one webhook and the matching event and row; what was stored is what
    the server answers with, and a posted result verifies and parses back; queued calls are served in order and all
    settle; a clean exit has lost none.
  \<^item> Subscriptions: the event listener refines exactly-once delivery, the storage watcher announces exactly the
    differences and stops when it must, the agent leaks no stream.
  \<^item> Configuration: what the loader guarantees, which process comes up on it, what the wizard's file is worth.
  \<^item> Data: memos, webhook signatures, decimals of raw amounts, storage values as JSON, redaction in logs, the
    CSV reader and the secret scanner.
  \<^item> Examples: a batch file is paid as one transaction or not at all, and the exit status says which; the gated
    resource opens for the payment of its own challenge; what the one-task scripts can pay.

  \<^bold>\<open>Bounds.\<close> Numbers of the code are binary64 values (exact rationals, rounded once per
  operation); integers of the schema and BigInt are \<open>int\<close>; UTF-16 units of memos and bytes are words. The
  JSON reader has fuel for twice the length of the text, more than its values can nest. Loops of the code are
  structural recursion or have a termination proof; loops that wait for the outside world are step relations. A
  character of a string is a code unit below 256, except where the encoding matters.

  \<^bold>\<open>Not modelled.\<close> src/dist, which the compiler generates from src/backend; the inside of the
  packages opossum and pino, which are parameters; console output; the sockets of the HTTP server and the
  OpenTelemetry exporters; the SQL text of the schema; the deployment and escrow examples (deploy\_contract.ts and
  escrow\_lifecycle.ts), which upload compiled contracts; the Rust contracts of src/contracts. A tool body is atomic
  where the agent's slots interleave, except for x402 answers, whose awaits are steps. The hard kill of the shutdown
  is a step that may be taken in any of its stages rather than a clock of ten seconds.
\<close>

end
